(* ===== verification/Prelude.thy ===== *)
theory Prelude
  imports "HOL-Library.AList" "HOL-Library.Product_Lexorder" "HOL-Library.List_Lexorder"
    "HOL-Library.Char_ord"
begin

text \<open>
  The prelude of the development: the Python notions every component shares.

  \<^item> Dictionaries: a Python \<open>dict\<close> (and an \<open>OrderedDict\<close>) is an association list in insertion
    order; assigning an existing key keeps its position, a new key goes to the end.
  \<^item> Exceptions: the values of \<open>py_exn\<close>; a function that may raise returns
    \<open>py_exn + 'a\<close>.
  \<^item> Effects: a method that reads and writes its object's state and may raise is a
    \<open>('s, 'a) prog\<close>, that is \<open>'s \<Rightarrow> (py_exn + 'a) \<times> 's\<close>. The state is returned on both
    outcomes, since a Python exception undoes no assignment.
  \<^item> \<open>preserves I m\<close>: \<open>m\<close> keeps the state predicate \<open>I\<close>, also when it raises. Its rules, one
    per combinator, are collected in \<open>preserves_rules\<close>.
\<close>

named_theorems preserves_rules "closure rules of preserves"

section \<open>Dictionaries\<close>

type_synonym ('k, 'v) pydict = "('k \<times> 'v) list"

abbreviation dict_get :: "('k, 'v) pydict \<Rightarrow> 'k \<Rightarrow> 'v option" where
  "dict_get d k \<equiv> map_of d k"

abbreviation dict_put :: "'k \<Rightarrow> 'v \<Rightarrow> ('k, 'v) pydict \<Rightarrow> ('k, 'v) pydict" where
  "dict_put k v d \<equiv> AList.update k v d"

abbreviation dict_pop :: "'k \<Rightarrow> ('k, 'v) pydict \<Rightarrow> ('k, 'v) pydict" where
  "dict_pop k d \<equiv> AList.delete k d"

abbreviation dict_keys :: "('k, 'v) pydict \<Rightarrow> 'k list" where
  "dict_keys d \<equiv> map fst d"

abbreviation dict_values :: "('k, 'v) pydict \<Rightarrow> 'v list" where
  "dict_values d \<equiv> map snd d"

text \<open>A list of pairs stands for a \<open>dict\<close> when no key occurs twice.\<close>

definition wf_dict :: "('k, 'v) pydict \<Rightarrow> bool" where
  "wf_dict d \<longleftrightarrow> distinct (map fst d)"

definition dict_has :: "('k, 'v) pydict \<Rightarrow> 'k \<Rightarrow> bool" where
  "dict_has d k \<longleftrightarrow> dict_get d k \<noteq> None"

text \<open>\<open>d.get(k, default)\<close>.\<close>

definition dict_get_or :: "('k, 'v) pydict \<Rightarrow> 'k \<Rightarrow> 'v \<Rightarrow> 'v" where
  "dict_get_or d k v = (case dict_get d k of None \<Rightarrow> v | Some x \<Rightarrow> x)"

text \<open>\<open>d.update(e)\<close> and \<open>{**d, **e}\<close>: the pairs of \<open>e\<close> assigned in order.\<close>

definition dict_merge :: "('k, 'v) pydict \<Rightarrow> ('k, 'v) pydict \<Rightarrow> ('k, 'v) pydict" where
  "dict_merge d e = foldl (\<lambda>acc (k, v). dict_put k v acc) d e"

text \<open>A comprehension \<open>{k: v for ...}\<close> assigns its pairs in order.\<close>

definition dict_of_list :: "('k \<times> 'v) list \<Rightarrow> ('k, 'v) pydict" where
  "dict_of_list ps = dict_merge [] ps"

lemma wf_dict_Nil [simp]: "wf_dict []"
  by (simp add: wf_dict_def)

lemma wf_dict_put [simp]: "wf_dict d \<Longrightarrow> wf_dict (dict_put k v d)"
  by (simp add: wf_dict_def distinct_update)

lemma wf_dict_pop [simp]: "wf_dict d \<Longrightarrow> wf_dict (dict_pop k d)"
  by (simp add: wf_dict_def distinct_delete)

lemma dict_get_put [simp]: "dict_get (dict_put k v d) k' = (if k' = k then Some v else dict_get d k')"
  by (simp add: update_conv')

lemma dict_get_pop [simp]: "dict_get (dict_pop k d) k' = (if k' = k then None else dict_get d k')"
  by (simp add: delete_conv')

lemma dict_has_put [simp]: "dict_has (dict_put k v d) k' \<longleftrightarrow> k' = k \<or> dict_has d k'"
  by (simp add: dict_has_def)

lemma dict_has_pop [simp]: "dict_has (dict_pop k d) k' \<longleftrightarrow> k' \<noteq> k \<and> dict_has d k'"
  by (simp add: dict_has_def)

lemma dict_has_Nil [simp]: "\<not> dict_has [] k"
  by (simp add: dict_has_def)

lemma dict_has_iff: "dict_has d k \<longleftrightarrow> k \<in> set (dict_keys d)"
  by (induction d) (auto simp: dict_has_def)

lemma dict_get_Some_mem: "dict_get d k = Some v \<Longrightarrow> (k, v) \<in> set d"
  by (rule map_of_SomeD)

lemma dict_mem_get: "wf_dict d \<Longrightarrow> (k, v) \<in> set d \<Longrightarrow> dict_get d k = Some v"
  by (simp add: wf_dict_def)

lemma dict_keys_put: "dict_keys (dict_put k v d) = (if k \<in> set (dict_keys d) then dict_keys d else dict_keys d @ [k])"
  by (simp add: update_keys)

lemma dict_keys_pop: "dict_keys (dict_pop k d) = filter (\<lambda>k'. k' \<noteq> k) (dict_keys d)"
  by (induction d) auto

lemma dict_pop_absent: "\<not> dict_has d k \<Longrightarrow> dict_pop k d = d"
  by (simp add: dict_has_iff)

lemma set_dict_put:
  "wf_dict d \<Longrightarrow> set (dict_put k v d) = insert (k, v) {p \<in> set d. fst p \<noteq> k}"
  by (induction d) (force simp: wf_dict_def)+

lemma set_dict_pop: "set (dict_pop k d) = {p \<in> set d. fst p \<noteq> k}"
  by (induction d) auto

lemma dict_merge_get: "dict_get (dict_merge d e) k =
    (case dict_get (rev e) k of None \<Rightarrow> dict_get d k | Some v \<Rightarrow> Some v)"
  unfolding dict_merge_def
proof (induction e arbitrary: d)
  case (Cons p e)
  obtain k' v where "p = (k', v)" by force
  with Cons show ?case
    by (auto split: option.splits simp: map_add_Some_iff map_add_def)
qed simp

lemma wf_dict_merge [simp]: "wf_dict d \<Longrightarrow> wf_dict (dict_merge d e)"
  unfolding dict_merge_def by (induction e arbitrary: d) auto

lemma map_of_rev: "distinct (map fst ps) \<Longrightarrow> map_of (rev ps) = map_of ps"
  by (rule map_of_eqI) (auto simp: rev_map [symmetric] map_of_eq_Some_iff split: option.splits)

lemma wf_dict_of_list [simp]: "wf_dict (dict_of_list ps)"
  by (simp add: dict_of_list_def)

lemma dict_of_list_get:
  "distinct (map fst ps) \<Longrightarrow> dict_get (dict_of_list ps) k = map_of ps k"
  by (simp add: dict_of_list_def dict_merge_get map_of_rev split: option.split)

section \<open>Exceptions\<close>

datatype py_exn =
    KeyError string
  | ValueError string
  | AttributeError string
  | TypeError string
  | OSError
  | IncompleteReadError
  | TimeoutError
  | DockerNotFound string
  | DockerAPIError string
  | SchedulingError
  | NoHealthyReplicaError string
  | BucketNotFoundError string
  | ObjectNotFoundError string
  | UpstreamResponseError
  | UpstreamResponseTimeout
  | HTTPException int string
  | JwtExpired
  | JwtInvalid
  | InvalidToken
  | UnboundLocalError string
  | ManifestParseError string
  | AssertionError
  | SystemExit int

type_synonym 'a result = "py_exn + 'a"

definition bind_r :: "'a result \<Rightarrow> ('a \<Rightarrow> 'b result) \<Rightarrow> 'b result" where
  "bind_r r f = (case r of Inl e \<Rightarrow> Inl e | Inr a \<Rightarrow> f a)"

lemma bind_r_simps [simp]: "bind_r (Inl e) f = Inl e" "bind_r (Inr a) f = f a"
  by (simp_all add: bind_r_def)

lemma bind_r_Inr: "bind_r r f = Inr b \<longleftrightarrow> (\<exists>a. r = Inr a \<and> f a = Inr b)"
  by (cases r) auto

section \<open>Methods with state and exceptions\<close>

type_synonym ('s, 'a) prog = "'s \<Rightarrow> 'a result \<times> 's"

definition ret :: "'a \<Rightarrow> ('s, 'a) prog" where
  "ret a s = (Inr a, s)"

definition raise :: "py_exn \<Rightarrow> ('s, 'a) prog" where
  "raise e s = (Inl e, s)"

definition bind_p :: "('s, 'a) prog \<Rightarrow> ('a \<Rightarrow> ('s, 'b) prog) \<Rightarrow> ('s, 'b) prog" where
  "bind_p m f s = (case m s of (Inl e, s') \<Rightarrow> (Inl e, s') | (Inr a, s') \<Rightarrow> f a s')"

definition get_s :: "('s \<Rightarrow> 'a) \<Rightarrow> ('s, 'a) prog" where
  "get_s f s = (Inr (f s), s)"

definition mod_s :: "('s \<Rightarrow> 's) \<Rightarrow> ('s, unit) prog" where
  "mod_s f s = (Inr (), f s)"

text \<open>\<open>if b: m\<close>.\<close>

definition when_p :: "bool \<Rightarrow> ('s, unit) prog \<Rightarrow> ('s, unit) prog" where
  "when_p b m = (if b then m else ret ())"

text \<open>\<open>for x in xs: f(x)\<close> and \<open>[f(x) for x in xs]\<close>.\<close>

fun for_p :: "'a list \<Rightarrow> ('a \<Rightarrow> ('s, unit) prog) \<Rightarrow> ('s, unit) prog" where
  "for_p [] f = ret ()"
| "for_p (x # xs) f = bind_p (f x) (\<lambda>_. for_p xs f)"

fun map_p :: "('a \<Rightarrow> ('s, 'b) prog) \<Rightarrow> 'a list \<Rightarrow> ('s, 'b list) prog" where
  "map_p f [] = ret []"
| "map_p f (x # xs) = bind_p (f x) (\<lambda>y. bind_p (map_p f xs) (\<lambda>ys. ret (y # ys)))"

text \<open>\<open>try: m  except e: h(e)\<close>; the handler re-raises what it does not catch.\<close>

definition try_p :: "('s, 'a) prog \<Rightarrow> (py_exn \<Rightarrow> ('s, 'a) prog) \<Rightarrow> ('s, 'a) prog" where
  "try_p m h s = (case m s of (Inl e, s') \<Rightarrow> h e s' | (Inr a, s') \<Rightarrow> (Inr a, s'))"

lemmas prog_defs = ret_def raise_def bind_p_def get_s_def mod_s_def try_p_def

lemma bind_p_ret [simp]: "bind_p (ret a) f = f a"
  by (rule ext) (simp add: prog_defs)

lemma bind_p_raise [simp]: "bind_p (raise e) f = raise e"
  by (rule ext) (simp add: prog_defs)

lemma bind_p_Inr: "m s = (Inr a, s') \<Longrightarrow> bind_p m f s = f a s'"
  by (simp add: bind_p_def)

lemma bind_p_Inl: "m s = (Inl e, s') \<Longrightarrow> bind_p m f s = (Inl e, s')"
  by (simp add: bind_p_def)

lemma bind_p_returns:
  assumes "bind_p m f s = (Inr b, s')"
  obtains a t where "m s = (Inr a, t)" "f a t = (Inr b, s')"
  using assms by (auto simp: bind_p_def split: prod.splits sum.splits)

lemma bind_p_assoc: "bind_p (bind_p m f) g = bind_p m (\<lambda>a. bind_p (f a) g)"
  by (rule ext) (simp add: bind_p_def split: prod.splits sum.splits)

section \<open>Preservation\<close>

definition preserves :: "('s \<Rightarrow> bool) \<Rightarrow> ('s, 'a) prog \<Rightarrow> bool" where
  "preserves I m \<longleftrightarrow> (\<forall>s. I s \<longrightarrow> I (snd (m s)))"

lemma preservesI [intro?]: "(\<And>s. I s \<Longrightarrow> I (snd (m s))) \<Longrightarrow> preserves I m"
  by (simp add: preserves_def)

lemma preservesD: "preserves I m \<Longrightarrow> I s \<Longrightarrow> I (snd (m s))"
  by (simp add: preserves_def)

lemma preserves_ret [preserves_rules]: "preserves I (ret a)"
  by (simp add: preserves_def ret_def)

lemma preserves_raise [preserves_rules]: "preserves I (raise e)"
  by (simp add: preserves_def raise_def)

lemma preserves_get_s [preserves_rules]: "preserves I (get_s f)"
  by (simp add: preserves_def get_s_def)

lemma preserves_mod_s: "(\<And>s. I s \<Longrightarrow> I (f s)) \<Longrightarrow> preserves I (mod_s f)"
  by (simp add: preserves_def mod_s_def)

lemma preserves_bind [preserves_rules]:
  "preserves I m \<Longrightarrow> (\<And>a. preserves I (f a)) \<Longrightarrow> preserves I (bind_p m f)"
  unfolding preserves_def bind_p_def
  by (auto split: prod.splits sum.splits)

lemma preserves_when_p [preserves_rules]: "preserves I m \<Longrightarrow> preserves I (when_p b m)"
  by (simp add: when_p_def preserves_ret)

lemma preserves_if [preserves_rules]:
  "preserves I m \<Longrightarrow> preserves I m' \<Longrightarrow> preserves I (if b then m else m')"
  by simp

lemma preserves_option [preserves_rules]:
  "preserves I m \<Longrightarrow> (\<And>a. preserves I (f a)) \<Longrightarrow> preserves I (case x of None \<Rightarrow> m | Some a \<Rightarrow> f a)"
  by (cases x) auto

lemma preserves_sum [preserves_rules]:
  "(\<And>a. preserves I (f a)) \<Longrightarrow> (\<And>b. preserves I (g b)) \<Longrightarrow> preserves I (case x of Inl a \<Rightarrow> f a | Inr b \<Rightarrow> g b)"
  by (cases x) auto

lemma preserves_prod [preserves_rules]:
  "(\<And>a b. preserves I (f a b)) \<Longrightarrow> preserves I (case x of (a, b) \<Rightarrow> f a b)"
  by (cases x) auto

lemma preserves_for [preserves_rules]:
  "(\<And>x. preserves I (f x)) \<Longrightarrow> preserves I (for_p xs f)"
  by (induction xs) (auto intro: preserves_rules)

lemma preserves_map [preserves_rules]:
  "(\<And>x. preserves I (f x)) \<Longrightarrow> preserves I (map_p f xs)"
  by (induction xs) (auto intro: preserves_rules)

lemma preserves_try [preserves_rules]:
  "preserves I m \<Longrightarrow> (\<And>e. preserves I (h e)) \<Longrightarrow> preserves I (try_p m h)"
  unfolding preserves_def try_p_def
  by (auto split: prod.splits sum.splits)

lemma preserves_conj: "preserves I m \<Longrightarrow> preserves J m \<Longrightarrow> preserves (\<lambda>s. I s \<and> J s) m"
  by (simp add: preserves_def)

section \<open>Lists\<close>

text \<open>Python's \<open>xs[i:]\<close> for any integer \<open>i\<close>: a negative \<open>i\<close> counts from the end and stops
  at the front.\<close>

definition slice_from :: "int \<Rightarrow> 'a list \<Rightarrow> 'a list" where
  "slice_from i xs = (if 0 \<le> i then drop (nat i) xs
                      else drop (nat (int (length xs) + i)) xs)"

text \<open>\<open>min(xs, key=f)\<close>: the first element with the least key.\<close>

fun min_by :: "('a \<Rightarrow> 'k::linorder) \<Rightarrow> 'a \<Rightarrow> 'a list \<Rightarrow> 'a" where
  "min_by f x [] = x"
| "min_by f x (y # ys) = min_by f (if f y < f x then y else x) ys"

lemma min_by_mem: "min_by f x ys \<in> insert x (set ys)"
proof (induction ys arbitrary: x)
  case (Cons y ys)
  show ?case using Cons.IH [of "if f y < f x then y else x"] by (auto split: if_splits)
qed simp

lemma min_by_le: "z \<in> insert x (set ys) \<Longrightarrow> f (min_by f x ys) \<le> f z"
proof (induction ys arbitrary: x z)
  case (Cons y ys)
  let ?x = "if f y < f x then y else x"
  have "f (min_by f ?x ys) \<le> f ?x" using Cons.IH [of ?x ?x] by simp
  then show ?case using Cons.IH [of z ?x] Cons.prems
    by (auto split: if_splits)
qed simp

text \<open>\<open>list.remove(x)\<close> removes the first occurrence (\<open>remove1\<close>), membership is \<open>List.member\<close>.
  Updating the elements that satisfy a predicate keeps order and length.\<close>

definition map_where :: "('a \<Rightarrow> bool) \<Rightarrow> ('a \<Rightarrow> 'a) \<Rightarrow> 'a list \<Rightarrow> 'a list" where
  "map_where p f xs = map (\<lambda>x. if p x then f x else x) xs"

end
