(* ===== verification/PyText.thy ===== *)
theory PyText
  imports Prelude "HOL-Library.Sublist"
begin

text \<open>
  Python's \<open>bytes\<close> and \<open>str\<close> operations that the sources use. A \<open>bytes\<close> value is the list of
  its bytes (a \<open>char\<close> of HOL is a byte). A \<open>str\<close> is the list of the bytes of its UTF-8 form:
  equality, prefixes, suffixes and splitting at an ASCII separator are the same on both, and
  \<open>upper\<close>, \<open>lower\<close> and the white space of \<open>strip\<close> are modelled on the ASCII characters.
\<close>

section \<open>Characters\<close>

abbreviation byte_of :: "char \<Rightarrow> nat" where
  "byte_of c \<equiv> of_char c"

definition ascii_lower :: "char \<Rightarrow> char" where
  "ascii_lower c = (let n = byte_of c in if 65 \<le> n \<and> n \<le> 90 then char_of (n + 32) else c)"

definition ascii_upper :: "char \<Rightarrow> char" where
  "ascii_upper c = (let n = byte_of c in if 97 \<le> n \<and> n \<le> 122 then char_of (n - 32) else c)"

definition lower :: "string \<Rightarrow> string" where
  "lower s = map ascii_lower s"

definition upper :: "string \<Rightarrow> string" where
  "upper s = map ascii_upper s"

definition is_space :: "char \<Rightarrow> bool" where
  "is_space c = (let n = byte_of c in n = 32 \<or> (9 \<le> n \<and> n \<le> 13))"

definition is_digit :: "char \<Rightarrow> bool" where
  "is_digit c = (let n = byte_of c in 48 \<le> n \<and> n \<le> 57)"

definition digit_value :: "char \<Rightarrow> nat" where
  "digit_value c = byte_of c - 48"

definition digit_char :: "nat \<Rightarrow> char" where
  "digit_char n = char_of (48 + n)"

definition replace_char :: "char \<Rightarrow> char \<Rightarrow> string \<Rightarrow> string" where
  "replace_char a b s = map (\<lambda>c. if c = a then b else c) s"

section \<open>Prefixes, suffixes, substrings\<close>

definition starts_with :: "string \<Rightarrow> string \<Rightarrow> bool" where
  "starts_with p s \<longleftrightarrow> take (length p) s = p"

definition ends_with :: "string \<Rightarrow> string \<Rightarrow> bool" where
  "ends_with q s \<longleftrightarrow> length q \<le> length s \<and> drop (length s - length q) s = q"

text \<open>\<open>f"'{s}'"\<close>.\<close>

definition quoted :: "string \<Rightarrow> string" where
  "quoted s = [CHR 0x27] @ s @ [CHR 0x27]"

text \<open>\<open>s.removeprefix(p)\<close>, and \<open>s[:-len(q)]\<close> for a nonempty suffix \<open>q\<close>.\<close>

definition remove_prefix :: "string \<Rightarrow> string \<Rightarrow> string" where
  "remove_prefix p s = (if starts_with p s then drop (length p) s else s)"

definition drop_last :: "nat \<Rightarrow> string \<Rightarrow> string" where
  "drop_last n s = take (length s - n) s"

text \<open>\<open>s.find(p)\<close>: the index of the first occurrence, \<open>None\<close> for -1.\<close>

fun find_sub :: "string \<Rightarrow> string \<Rightarrow> nat option" where
  "find_sub p [] = (if p = [] then Some 0 else None)"
| "find_sub p (c # s) =
     (if starts_with p (c # s) then Some 0 else map_option Suc (find_sub p s))"

definition contains_sub :: "string \<Rightarrow> string \<Rightarrow> bool" where
  "contains_sub p s \<longleftrightarrow> find_sub p s \<noteq> None"

lemma starts_with_iff: "starts_with p s \<longleftrightarrow> (\<exists>t. s = p @ t)"
  by (auto simp: starts_with_def) (metis append_take_drop_id)

lemma starts_with_append [simp]: "starts_with p (p @ s)"
  by (simp add: starts_with_def)

lemma remove_prefix_append [simp]: "remove_prefix p (p @ s) = s"
  by (simp add: remove_prefix_def)

lemma starts_with_remove: "starts_with p s \<Longrightarrow> p @ remove_prefix p s = s"
  by (auto simp: starts_with_iff)

lemma ends_with_iff: "ends_with q s \<longleftrightarrow> (\<exists>t. s = t @ q)"
  by (auto simp: ends_with_def) (metis append_take_drop_id)

lemma find_sub_Some:
  "find_sub p s = Some i \<Longrightarrow> i + length p \<le> length s \<and> take (length p) (drop i s) = p"
proof (induction s arbitrary: i)
  case Nil
  then show ?case by (auto split: if_splits)
next
  case (Cons c s)
  show ?case
  proof (cases "starts_with p (c # s)")
    case True
    then have "length p \<le> length (c # s)" by (auto simp: starts_with_iff dest: arg_cong [where f = length])
    with True Cons.prems show ?thesis by (simp add: starts_with_def)
  next
    case False
    with Cons.prems obtain j where "find_sub p s = Some j" "i = Suc j" by auto
    with Cons.IH [of j] show ?thesis by simp
  qed
qed

lemma find_sub_None: "find_sub p s = None \<Longrightarrow> \<not> sublist p s"
proof (induction s)
  case (Cons c s)
  then show ?case
    by (auto simp: sublist_Cons_right starts_with_iff prefix_def split: if_splits)
qed (auto split: if_splits)

lemma find_sub_sublist: "find_sub p s = Some i \<Longrightarrow> sublist p s"
  by (metis find_sub_Some sublist_drop sublist_take sublist_order.order_trans)

lemma contains_sub_iff: "contains_sub p s \<longleftrightarrow> sublist p s"
  by (cases "find_sub p s") (auto simp: contains_sub_def dest: find_sub_None find_sub_sublist)

section \<open>Splitting and joining\<close>

text \<open>\<open>sep.join(ls)\<close>.\<close>

fun join :: "string \<Rightarrow> string list \<Rightarrow> string" where
  "join sep [] = []"
| "join sep [l] = l"
| "join sep (l # ls) = l @ sep @ join sep ls"

abbreviation CR :: char where "CR \<equiv> CHR 0x0D"
abbreviation LF :: char where "LF \<equiv> CHR 0x0A"

definition crlf :: string where "crlf = [CR, LF]"

text \<open>\<open>s.split(b"\r\n")\<close>: the lines, without their separators; never empty.\<close>

fun split_crlf :: "string \<Rightarrow> string list" where
  "split_crlf [] = [[]]"
| "split_crlf [c] = [[c]]"
| "split_crlf (c # d # s) =
     (if c = CR \<and> d = LF then [] # split_crlf s
      else (case split_crlf (d # s) of [] \<Rightarrow> [[c]] | l # ls \<Rightarrow> (c # l) # ls))"

text \<open>\<open>s.split(c)\<close> and \<open>s.split(c, 1)\<close> for a single character.\<close>

fun split_char :: "char \<Rightarrow> string \<Rightarrow> string list" where
  "split_char x [] = [[]]"
| "split_char x (c # s) =
     (if c = x then [] # split_char x s
      else (case split_char x s of [] \<Rightarrow> [[c]] | l # ls \<Rightarrow> (c # l) # ls))"

definition before_char :: "char \<Rightarrow> string \<Rightarrow> string" where
  "before_char x s = takeWhile (\<lambda>c. c \<noteq> x) s"

definition after_char :: "char \<Rightarrow> string \<Rightarrow> string" where
  "after_char x s = tl (dropWhile (\<lambda>c. c \<noteq> x) s)"

text \<open>\<open>s.rsplit(c, 1)\<close>: one piece when \<open>c\<close> does not occur, two otherwise.\<close>

definition rsplit1 :: "char \<Rightarrow> string \<Rightarrow> string list" where
  "rsplit1 x s = (if x \<in> set s then
      [rev (after_char x (rev s)), rev (before_char x (rev s))] else [s])"

text \<open>\<open>s.strip()\<close> and \<open>s.split()\<close> at runs of white space.\<close>

definition strip :: "string \<Rightarrow> string" where
  "strip s = rev (dropWhile is_space (rev (dropWhile is_space s)))"

fun split_ws_aux :: "string \<Rightarrow> string \<Rightarrow> string list" where
  "split_ws_aux acc [] = (if acc = [] then [] else [rev acc])"
| "split_ws_aux acc (c # s) =
     (if is_space c then (if acc = [] then split_ws_aux [] s else rev acc # split_ws_aux [] s)
      else split_ws_aux (c # acc) s)"

definition split_ws :: "string \<Rightarrow> string list" where
  "split_ws s = split_ws_aux [] s"

lemma split_crlf_neq_Nil [simp]: "split_crlf s \<noteq> []"
  by (induction s rule: split_crlf.induct) (auto split: list.splits)

lemma join_Cons: "ls \<noteq> [] \<Longrightarrow> join sep (l # ls) = l @ sep @ join sep ls"
  by (cases ls) auto

lemma join_split_crlf: "join crlf (split_crlf s) = s"
proof (induction s rule: split_crlf.induct)
  case (3 c d s)
  show ?case
  proof (cases "c = CR \<and> d = LF")
    case True
    with 3 show ?thesis by (simp add: join_Cons crlf_def)
  next
    case False
    obtain l ls where e: "split_crlf (d # s) = l # ls"
      by (cases "split_crlf (d # s)") auto
    with 3 False have "join crlf (l # ls) = d # s" by auto
    then have "join crlf ((c # l) # ls) = c # d # s" by (cases ls) auto
    with e False show ?thesis by auto
  qed
qed auto

text \<open>A text without a line break.\<close>

definition no_crlf :: "string \<Rightarrow> bool" where
  "no_crlf s \<longleftrightarrow> \<not> sublist crlf s"

lemma no_crlf_Nil [simp]: "no_crlf []"
  by (simp add: no_crlf_def crlf_def)

lemma no_crlf_Cons: "no_crlf (c # s) \<longleftrightarrow> \<not> (c = CR \<and> (\<exists>t. s = LF # t)) \<and> no_crlf s"
  by (auto simp: no_crlf_def sublist_Cons_right crlf_def prefix_def Cons_eq_append_conv)

lemma split_crlf_pieces: "l \<in> set (split_crlf s) \<Longrightarrow> no_crlf l"
proof (induction s arbitrary: l rule: split_crlf.induct)
  case (3 c d s)
  show ?case
  proof (cases "c = CR \<and> d = LF")
    case False
    obtain k ks where e: "split_crlf (d # s) = k # ks"
      by (cases "split_crlf (d # s)") auto
    have "k = [] \<or> hd k = d"
      using e by (cases s) (auto split: if_splits list.splits)
    moreover have "no_crlf k" "\<And>x. x \<in> set ks \<Longrightarrow> no_crlf x"
      using 3 False e by auto
    ultimately show ?thesis using e False "3.prems"
      by (auto simp: no_crlf_Cons)
  qed (use 3 in auto)
qed (auto simp: no_crlf_Cons)

lemma split_crlf_id: "no_crlf s \<Longrightarrow> split_crlf s = [s]"
  by (induction s rule: split_crlf.induct) (auto simp: no_crlf_Cons)

lemma split_crlf_append:
  "no_crlf l \<Longrightarrow> split_crlf (l @ crlf @ s) = l # split_crlf s"
proof (induction l rule: split_crlf.induct)
  case (2 c)
  then show ?case by (simp add: crlf_def no_crlf_Cons)
next
  case (3 c d l)
  then show ?case by (auto simp: no_crlf_Cons)
qed (simp add: crlf_def)

lemma split_join_crlf:
  "\<forall>l \<in> set ls. no_crlf l \<Longrightarrow> ls \<noteq> [] \<Longrightarrow> split_crlf (join crlf ls) = ls"
proof (induction ls)
  case (Cons l ls)
  then show ?case
    by (cases "ls = []") (auto simp: split_crlf_id join_Cons split_crlf_append)
qed simp

lemma before_after_char: "x \<in> set s \<Longrightarrow> before_char x s @ x # after_char x s = s"
  unfolding before_char_def after_char_def
  by (induction s) auto

lemma before_char_append: "x \<notin> set s \<Longrightarrow> before_char x (s @ x # t) = s"
  unfolding before_char_def by (induction s) auto

lemma after_char_append: "x \<notin> set s \<Longrightarrow> after_char x (s @ x # t) = t"
  unfolding after_char_def by (induction s) auto

lemma before_char_notin: "x \<notin> set (before_char x s)"
  unfolding before_char_def using set_takeWhileD by fastforce

lemma before_char_id: "x \<notin> set s \<Longrightarrow> before_char x s = s"
  unfolding before_char_def by (simp add: takeWhile_eq_all_conv) blast

lemma rsplit1_append: "x \<notin> set t \<Longrightarrow> rsplit1 x (s @ x # t) = [s, t]"
  by (simp add: rsplit1_def before_char_append after_char_append)

lemma hd_split_char: "split_char x s \<noteq> [] \<and> hd (split_char x s) = before_char x s"
  unfolding before_char_def by (induction s) (auto split: list.splits)

lemma dropWhile_id: "s = [] \<or> \<not> P (hd s) \<Longrightarrow> dropWhile P s = s"
  by (cases s) auto

lemma strip_id: "s = [] \<or> (\<not> is_space (hd s) \<and> \<not> is_space (last s)) \<Longrightarrow> strip s = s"
  by (auto simp: strip_def dropWhile_id hd_rev)

lemma set_strip: "set (strip s) \<subseteq> set s"
proof -
  have "set (dropWhile is_space (rev (dropWhile is_space s))) \<subseteq> set (dropWhile is_space s)"
    by (metis set_dropWhileD set_rev subsetI)
  then show ?thesis by (force simp: strip_def dest: set_dropWhileD)
qed

section \<open>Integers as text\<close>

text \<open>\<open>str(n)\<close> and \<open>f"{n}"\<close> for an integer.\<close>

fun nat_digits :: "nat \<Rightarrow> string" where
  "nat_digits n = (if n < 10 then [digit_char n] else nat_digits (n div 10) @ [digit_char (n mod 10)])"

declare nat_digits.simps [simp del]

definition str_nat :: "nat \<Rightarrow> string" where
  "str_nat n = nat_digits n"

definition str_int :: "int \<Rightarrow> string" where
  "str_int i = (if i < 0 then CHR ''-'' # str_nat (nat (- i)) else str_nat (nat i))"

text \<open>
  \<open>int(s)\<close> for a \<open>bytes\<close> or an ASCII \<open>str\<close>: surrounding white space and one sign are accepted,
  and so is a single underscore between digits; \<open>None\<close> stands for \<open>ValueError\<close>, which CPython
  also raises for more than 4300 digits.
\<close>

definition int_max_str_digits :: nat where "int_max_str_digits = 4300"

fun digits_value :: "nat \<Rightarrow> string \<Rightarrow> nat" where
  "digits_value acc [] = acc"
| "digits_value acc (c # s) = digits_value (10 * acc + digit_value c) s"

fun digits_ok :: "string \<Rightarrow> bool" where
  "digits_ok [] = False"
| "digits_ok [c] = is_digit c"
| "digits_ok (c # d # s) =
     (is_digit c \<and> (if d = CHR ''_'' then digits_ok s else digits_ok (d # s)))"

definition parse_digits :: "string \<Rightarrow> nat option" where
  "parse_digits s = (if digits_ok s then
     let ds = filter is_digit s in
       (if length ds \<le> int_max_str_digits then Some (digits_value 0 ds) else None)
     else None)"

definition py_int :: "string \<Rightarrow> int option" where
  "py_int s = (case strip s of
       [] \<Rightarrow> None
     | c # t \<Rightarrow>
         if c = CHR ''-'' then map_option (\<lambda>n. - int n) (parse_digits t)
         else if c = CHR ''+'' then map_option int (parse_digits t)
         else map_option int (parse_digits (c # t)))"

lemma digit_char_table:
  "\<forall>n \<in> set [0, 1, 2, 3, 4, 5, 6, 7, 8, 9]. is_digit (digit_char n) \<and> digit_value (digit_char n) = n
     \<and> \<not> is_space (digit_char n)"
  by code_simp

lemma digit_char_props:
  assumes "n < 10"
  shows "is_digit (digit_char n)" "digit_value (digit_char n) = n" "\<not> is_space (digit_char n)"
proof -
  have "n \<in> set [0, 1, 2, 3, 4, 5, 6, 7, 8, 9]" using assms by auto
  with digit_char_table show "is_digit (digit_char n)" "digit_value (digit_char n) = n"
    "\<not> is_space (digit_char n)" by blast+
qed

lemma is_digit_not: "is_digit c \<Longrightarrow> \<not> is_space c \<and> c \<noteq> CHR ''_'' \<and> c \<noteq> CHR ''-'' \<and> c \<noteq> CHR ''+''"
  by (auto simp: is_digit_def is_space_def Let_def)

lemma nat_digits_all: "\<forall>c \<in> set (nat_digits n). is_digit c"
proof (induction n rule: nat_digits.induct)
  case (1 n)
  then show ?case
    by (subst nat_digits.simps) (auto simp: digit_char_props)
qed

lemma nat_digits_neq_Nil [simp]: "nat_digits n \<noteq> []"
  by (subst nat_digits.simps) simp

lemma digits_ok_all: "s \<noteq> [] \<Longrightarrow> \<forall>c \<in> set s. is_digit c \<Longrightarrow> digits_ok s"
  by (induction s rule: digits_ok.induct) (auto dest: is_digit_not)

lemma digits_value_append: "digits_value acc (s @ t) = digits_value (digits_value acc s) t"
  by (induction s arbitrary: acc) auto

lemma digits_value_nat_digits: "digits_value 0 (nat_digits n) = n"
proof (induction n rule: nat_digits.induct)
  case (1 n)
  then show ?case
    by (subst nat_digits.simps) (auto simp: digit_char_props digits_value_append)
qed

lemma length_nat_digits: "n < 10 ^ Suc k \<Longrightarrow> length (nat_digits n) \<le> Suc k"
proof (induction k arbitrary: n)
  case 0
  then show ?case by (subst nat_digits.simps) simp
next
  case (Suc k)
  then have "n div 10 < 10 ^ Suc k" by simp
  from Suc.IH [OF this] show ?case by (subst nat_digits.simps) simp
qed

lemma parse_digits_str: "length (nat_digits n) \<le> int_max_str_digits \<Longrightarrow> parse_digits (nat_digits n) = Some n"
proof -
  assume l: "length (nat_digits n) \<le> int_max_str_digits"
  have "filter is_digit (nat_digits n) = nat_digits n" using nat_digits_all by simp
  with l show ?thesis
    by (simp add: parse_digits_def Let_def digits_ok_all nat_digits_all digits_value_nat_digits)
qed

lemma strip_nat_digits: "strip (nat_digits n) = nat_digits n"
  using nat_digits_all [of n] by (intro strip_id) (auto simp: is_digit_not)

text \<open>The round trip, for the numbers of at most 4300 digits.\<close>

lemma py_int_str_nat:
  assumes "length (nat_digits n) \<le> int_max_str_digits"
  shows "py_int (str_nat n) = Some (int n)"
proof -
  obtain c t where c: "nat_digits n = c # t" by (cases "nat_digits n") auto
  then have "is_digit c" using nat_digits_all [of n] by auto
  moreover have "strip (nat_digits n) = c # t" using strip_nat_digits [of n] c by simp
  moreover have "parse_digits (c # t) = Some n" using parse_digits_str [OF assms] c by simp
  ultimately show ?thesis by (auto simp: py_int_def str_nat_def dest: is_digit_not)
qed

lemma str_nat_inject: "str_nat m = str_nat n \<longleftrightarrow> m = n"
  by (metis digits_value_nat_digits str_nat_def)

lemma str_nat_digits: "c \<in> set (str_nat n) \<Longrightarrow> is_digit c"
  using nat_digits_all [of n] by (auto simp: str_nat_def)

section \<open>Decoding\<close>

text \<open>
  \<open>b.decode(errors="replace")\<close>, as a map from bytes to the UTF-8 bytes of the result: a well formed
  sequence stays, every maximal ill formed part becomes U+FFFD.
\<close>

definition fffd :: string where
  "fffd = [CHR 0xEF, CHR 0xBF, CHR 0xBD]"

definition is_cont :: "char \<Rightarrow> bool" where
  "is_cont c = (let n = byte_of c in 128 \<le> n \<and> n \<le> 191)"

text \<open>The second bytes that may follow a first byte, and the number of bytes of the sequence.\<close>

definition second_ok :: "char \<Rightarrow> char \<Rightarrow> bool" where
  "second_ok c d = (let n = byte_of c; m = byte_of d in
     if n = 224 then 160 \<le> m \<and> m \<le> 191
     else if n = 237 then 128 \<le> m \<and> m \<le> 159
     else if n = 240 then 144 \<le> m \<and> m \<le> 191
     else if n = 244 then 128 \<le> m \<and> m \<le> 143
     else 128 \<le> m \<and> m \<le> 191)"

definition seq_length :: "char \<Rightarrow> nat" where
  "seq_length c = (let n = byte_of c in
     if n < 128 then 1 else if 194 \<le> n \<and> n \<le> 223 then 2
     else if 224 \<le> n \<and> n \<le> 239 then 3 else if 240 \<le> n \<and> n \<le> 244 then 4 else 0)"

text \<open>The length of the longest well formed beginning of a sequence that starts with \<open>c\<close>.\<close>

definition good_length :: "char \<Rightarrow> string \<Rightarrow> nat" where
  "good_length c s = (if seq_length c \<le> 1 then 1
     else (case s of [] \<Rightarrow> 1 | d # s' \<Rightarrow>
       if second_ok c d then 2 + length (takeWhile is_cont (take (seq_length c - 2) s')) else 1))"

function decode_replace :: "string \<Rightarrow> string" where
  "decode_replace [] = []"
| "decode_replace (c # s) =
     (let k = good_length c s in
      (if k = seq_length c then take k (c # s) else fffd) @ decode_replace (drop (k - 1) s))"
  by pat_completeness auto
termination
  by (relation "measure length") (auto simp: less_Suc_eq_le)

lemma decode_replace_ascii: "\<forall>c \<in> set s. byte_of c < (128::nat) \<Longrightarrow> decode_replace s = s"
  by (induction s) (auto simp: good_length_def seq_length_def Let_def)

end
