(* ===== verification/PyFloat.thy ===== *)
theory PyFloat
  imports Prelude "HOL-Library.Log_Nat"
begin

text \<open>
  Python's \<open>float\<close> is the IEEE 754 double. A finite double is a rational number, and every
  arithmetic operation returns the exact result rounded to the nearest double, ties to the even
  significand: \<open>fl\<close> is that rounding, on 53 bits of precision. The exponent range is not
  bounded (no overflow to infinity, no subnormals), and there is no NaN: the quantities of the
  sources are numbers of cores, megabytes, seconds and percentages. Comparisons are exact.
\<close>

type_synonym pyfloat = rat

definition pow2 :: "int \<Rightarrow> rat" where
  "pow2 k = (if 0 \<le> k then 2 ^ nat k else 1 / 2 ^ nat (- k))"

lemma pow2_pos [simp]: "0 < pow2 k"
  by (simp add: pow2_def)

lemma pow2_neq_0 [simp]: "pow2 k \<noteq> 0"
  using pow2_pos [of k] by linarith

lemma pow2_powi: "pow2 k = 2 powi k"
  by (simp add: pow2_def power_int_def power_one_over inverse_eq_divide)

lemma pow2_add: "pow2 (j + k) = pow2 j * pow2 k"
  by (simp add: pow2_powi power_int_add)

lemma abs_pow2 [simp]: "\<bar>pow2 k\<bar> = pow2 k"
  using pow2_pos [of k] by linarith

lemma pow2_less_iff [simp]: "pow2 j < pow2 k \<longleftrightarrow> j < k"
proof -
  have up: "pow2 i < pow2 l" if "i < l" for i l
    using that by (simp add: pow2_powi power_int_strict_increasing)
  show ?thesis using up [of j k] up [of k j] by (cases j k rule: linorder_cases) auto
qed

text \<open>\<open>ilog2 x\<close> is the exponent of the leading bit of a positive \<open>x\<close>.\<close>

definition ilog2 :: "rat \<Rightarrow> int" where
  "ilog2 x = (case quotient_of x of (p, q) \<Rightarrow>
     let k = int (floorlog 2 (nat p)) - int (floorlog 2 (nat q))
     in if pow2 k \<le> x then k else k - 1)"

text \<open>Rounding to the nearest integer, ties to even.\<close>

definition round_even :: "rat \<Rightarrow> int" where
  "round_even x = (let n = \<lfloor>x\<rfloor>; r = x - of_int n in
     if r < 1 / 2 then n else if 1 / 2 < r then n + 1 else if even n then n else n + 1)"

definition fl :: "rat \<Rightarrow> pyfloat" where
  "fl x = (if x = 0 then 0
           else let e = ilog2 \<bar>x\<bar> - 52 in of_int (round_even (x / pow2 e)) * pow2 e)"

text \<open>The operations of the sources on floats.\<close>

definition fadd :: "pyfloat \<Rightarrow> pyfloat \<Rightarrow> pyfloat" where "fadd x y = fl (x + y)"
definition fsub :: "pyfloat \<Rightarrow> pyfloat \<Rightarrow> pyfloat" where "fsub x y = fl (x - y)"
definition fmul :: "pyfloat \<Rightarrow> pyfloat \<Rightarrow> pyfloat" where "fmul x y = fl (x * y)"
definition fdiv :: "pyfloat \<Rightarrow> pyfloat \<Rightarrow> pyfloat" where "fdiv x y = fl (x / y)"

text \<open>An \<open>int\<close> operand of a float operation is converted first; \<open>int / int\<close> is the exact
  quotient, rounded.\<close>

definition float_of_int :: "int \<Rightarrow> pyfloat" where "float_of_int i = fl (of_int i)"
definition int_div :: "int \<Rightarrow> int \<Rightarrow> pyfloat" where "int_div i j = fl (of_int i / of_int j)"

text \<open>\<open>int(x)\<close> of a float truncates towards zero; \<open>round(x, 2)\<close> is the double nearest to the nearest
  decimal with two places, ties to even.\<close>

definition float_to_int :: "pyfloat \<Rightarrow> int" where
  "float_to_int x = (if 0 \<le> x then \<lfloor>x\<rfloor> else \<lceil>x\<rceil>)"

definition round2 :: "pyfloat \<Rightarrow> pyfloat" where
  "round2 x = fl (of_int (round_even (x * 100)) / 100)"

section \<open>Rounding is exact on what a double holds\<close>

lemma ilog2_bounds:
  assumes "0 < x"
  shows "pow2 (ilog2 x) \<le> x" "x < pow2 (ilog2 x + 1)"
proof -
  obtain p q where pq: "quotient_of x = (p, q)" by force
  have q: "0 < q" and x: "x = of_int p / of_int q"
    using pq quotient_of_denom_pos quotient_of_div by blast+
  have p: "0 < p" using assms q x by (simp add: zero_less_divide_iff)
  let ?lp = "floorlog 2 (nat p)" and ?lq = "floorlog 2 (nat q)"
  have bp: "2 ^ (?lp - 1) \<le> nat p" "nat p < 2 ^ ?lp" "0 < ?lp"
    and bq: "2 ^ (?lq - 1) \<le> nat q" "nat q < 2 ^ ?lq" "0 < ?lq"
    using p q floorlog_bounds [of "nat p" 2] floorlog_bounds [of "nat q" 2]
    by (auto simp: floorlog_def)
  have P: "pow2 (int ?lp - 1) \<le> of_int p" "of_int p < pow2 (int ?lp)"
  proof -
    have "(2::rat) ^ (?lp - 1) \<le> of_nat (nat p)"
      by (metis bp(1) of_nat_le_iff of_nat_numeral of_nat_power)
    moreover have "nat (int ?lp - 1) = ?lp - 1" by simp
    ultimately show "pow2 (int ?lp - 1) \<le> of_int p" using bp(3) p by (simp add: pow2_def)
    have "of_nat (nat p) < (2::rat) ^ ?lp"
      by (metis bp(2) of_nat_less_iff of_nat_numeral of_nat_power)
    then show "of_int p < pow2 (int ?lp)" using p by (simp add: pow2_def)
  qed
  have Q: "pow2 (int ?lq - 1) \<le> of_int q" "of_int q < pow2 (int ?lq)"
  proof -
    have "(2::rat) ^ (?lq - 1) \<le> of_nat (nat q)"
      by (metis bq(1) of_nat_le_iff of_nat_numeral of_nat_power)
    moreover have "nat (int ?lq - 1) = ?lq - 1" by simp
    ultimately show "pow2 (int ?lq - 1) \<le> of_int q" using bq(3) q by (simp add: pow2_def)
    have "of_nat (nat q) < (2::rat) ^ ?lq"
      by (metis bq(2) of_nat_less_iff of_nat_numeral of_nat_power)
    then show "of_int q < pow2 (int ?lq)" using q by (simp add: pow2_def)
  qed
  let ?k = "int ?lp - int ?lq"
  have lo: "pow2 (?k - 1) \<le> x"
  proof -
    have "pow2 (?k - 1) * of_int q \<le> pow2 (?k - 1) * pow2 (int ?lq)" using Q(2) by simp
    also have "\<dots> = pow2 (int ?lp - 1)" by (simp add: pow2_add [symmetric])
    also have "\<dots> \<le> of_int p" by (rule P(1))
    finally show ?thesis using q by (simp add: x pos_le_divide_eq)
  qed
  have hi: "x < pow2 (?k + 1)"
  proof -
    have "of_int p < pow2 (int ?lp)" by (rule P(2))
    also have "\<dots> = pow2 (?k + 1) * pow2 (int ?lq - 1)" by (simp add: pow2_add [symmetric])
    also have "\<dots> \<le> pow2 (?k + 1) * of_int q" using Q(1) by simp
    finally show ?thesis using q by (simp add: x pos_divide_less_eq)
  qed
  show "pow2 (ilog2 x) \<le> x" "x < pow2 (ilog2 x + 1)"
    using lo hi by (auto simp: ilog2_def pq Let_def)
qed

lemma round_even_int [simp]: "round_even (of_int n) = n"
  by (simp add: round_even_def Let_def)

lemma round_even_nonneg: "0 \<le> x \<Longrightarrow> 0 \<le> round_even x"
  by (auto simp: round_even_def Let_def)

lemma round_even_near: "\<bar>of_int (round_even x) - x\<bar> \<le> 1 / 2"
proof -
  have "of_int \<lfloor>x\<rfloor> \<le> x" "x < of_int \<lfloor>x\<rfloor> + 1" by linarith+
  then show ?thesis unfolding round_even_def Let_def by (simp split: if_split)
qed

lemma fl_0 [simp]: "fl 0 = 0"
  by (simp add: fl_def)

lemma fl_nonneg: "0 \<le> x \<Longrightarrow> 0 \<le> fl x"
  by (auto simp: fl_def Let_def intro!: mult_nonneg_nonneg round_even_nonneg divide_nonneg_pos
      less_imp_le [OF pow2_pos])

text \<open>The numbers of at most 53 significant bits.\<close>

definition is_double :: "rat \<Rightarrow> bool" where
  "is_double x \<longleftrightarrow> (\<exists>m k. x = of_int m * pow2 k \<and> \<bar>m\<bar> < 2 ^ 53)"

lemma fl_exact: "is_double x \<Longrightarrow> fl x = x"
proof -
  assume "is_double x"
  then obtain m k where x: "x = of_int m * pow2 k" and m: "\<bar>m\<bar> < 2 ^ 53"
    by (auto simp: is_double_def)
  show ?thesis
  proof (cases "x = 0")
    case False
    let ?l = "ilog2 \<bar>x\<bar>"
    have "\<bar>x\<bar> = of_int \<bar>m\<bar> * pow2 k" using x by (simp add: abs_mult)
    also have "\<dots> < 2 ^ 53 * pow2 k"
    proof -
      have "(of_int \<bar>m\<bar> :: rat) < of_int (2 ^ 53)" using m by (simp only: of_int_less_iff)
      then show ?thesis by simp
    qed
    also have "\<dots> = pow2 (53 + k)" by (simp add: pow2_add) (simp add: pow2_def)
    finally have "pow2 ?l < pow2 (53 + k)"
      using ilog2_bounds(1) [of "\<bar>x\<bar>"] False by (metis le_less_trans zero_less_abs_iff)
    then have le: "0 \<le> k - (?l - 52)" by simp
    have "x / pow2 (?l - 52) = of_int m * pow2 (k - (?l - 52))"
      using x pow2_add [of "?l - 52" "k - (?l - 52)"] by (simp add: field_simps)
    also have "\<dots> = of_int (m * 2 ^ nat (k - (?l - 52)))" using le by (simp add: pow2_def)
    finally have "of_int (round_even (x / pow2 (?l - 52))) = x / pow2 (?l - 52)"
      by (simp only: round_even_int)
    then show ?thesis using False by (simp add: fl_def Let_def)
  qed simp
qed

lemma is_double_int: "\<bar>i\<bar> < 2 ^ 53 \<Longrightarrow> is_double (of_int i)"
  unfolding is_double_def by (rule exI [of _ i], rule exI [of _ 0]) (simp add: pow2_def)

lemma is_double_0 [simp]: "is_double 0"
  using is_double_int [of 0] by simp

text \<open>
  A grid of multiples of one power of two: sums and differences of grid points that stay below
  \<open>2 ^ 53\<close> steps are computed without rounding. Megabytes (the integers) and cores requested
  in a fixed binary fraction are such grids.
\<close>

definition on_grid :: "int \<Rightarrow> rat \<Rightarrow> bool" where
  "on_grid k x \<longleftrightarrow> (\<exists>m. x = of_int m * pow2 k)"

definition grid_bound :: "int \<Rightarrow> rat" where
  "grid_bound k = 2 ^ 53 * pow2 k"

lemma on_grid_add: "on_grid k x \<Longrightarrow> on_grid k y \<Longrightarrow> on_grid k (x + y)"
  unfolding on_grid_def by (metis distrib_right of_int_add)

lemma on_grid_diff: "on_grid k x \<Longrightarrow> on_grid k y \<Longrightarrow> on_grid k (x - y)"
  unfolding on_grid_def by (metis left_diff_distrib of_int_diff)

lemma on_grid_0 [simp]: "on_grid k 0"
  unfolding on_grid_def by (rule exI [of _ 0]) simp

lemma on_grid_of_int [simp]: "on_grid 0 (of_int i)"
  unfolding on_grid_def by (rule exI [of _ i]) (simp add: pow2_def)

lemma on_grid_is_double: "on_grid k x \<Longrightarrow> \<bar>x\<bar> < grid_bound k \<Longrightarrow> is_double x"
proof -
  assume "on_grid k x" and b: "\<bar>x\<bar> < grid_bound k"
  then obtain m where x: "x = of_int m * pow2 k" by (auto simp: on_grid_def)
  with b have "(of_int \<bar>m\<bar> :: rat) < of_int (2 ^ 53)"
    by (simp add: grid_bound_def abs_mult)
  then have "\<bar>m\<bar> < 2 ^ 53" by (simp only: of_int_less_iff)
  with x show ?thesis by (auto simp: is_double_def)
qed

lemma fl_grid: "on_grid k x \<Longrightarrow> \<bar>x\<bar> < grid_bound k \<Longrightarrow> fl x = x"
  by (rule fl_exact) (rule on_grid_is_double)

end
