(* ===== verification/Stores.thy ===== *)
theory Stores
  imports Models
begin

text \<open>
  The key/value stores of \<open>aws_light/store/\<close>. \<open>AnyStore\<close> (\<open>base.py\<close>) is a protocol: a record of
  methods, with its contract as the locale \<open>any_store\<close>. Three classes implement it:
  \<^item> \<open>JsonStore\<close> keeps the dumped models in one JSON file, \<open>None\<close> while the file is missing;
  \<^item> \<open>PostgresStore\<close> keeps them in a table with the identifier as its primary key;
  \<^item> \<open>TTLStoreCache\<close> keeps recently used items of another store, for a limited time.
  Dumping and validating a model is pydantic's work: the functions \<open>dump\<close> and \<open>validate\<close> are
  parameters, and the locale \<open>model_codec\<close> says that validating a dump gives the model back.
  The in-memory stores of other components are fields of their state (\<open>dict_store\<close>).
\<close>

section \<open>AnyStore (store/base.py)\<close>

record ('s, 'v) store_ops =
  so_get :: "string \<Rightarrow> ('s, 'v option) prog"
  so_put :: "string \<Rightarrow> 'v \<Rightarrow> ('s, unit) prog"
  so_list :: "('s, 'v list) prog"
  so_delete :: "string \<Rightarrow> ('s, unit) prog"
  so_exists :: "string \<Rightarrow> ('s, bool) prog"

locale any_store =
  fixes st :: "('s, 'v) store_ops"
    and view :: "'s \<Rightarrow> string \<Rightarrow> 'v option"
    and inv :: "'s \<Rightarrow> bool"
  assumes get_law: "inv s \<Longrightarrow> \<exists>s'. so_get st k s = (Inr (view s k), s') \<and> inv s' \<and> view s' = view s"
    and put_law: "inv s \<Longrightarrow> \<exists>s'. so_put st k v s = (Inr (), s') \<and> inv s' \<and> view s' = (view s)(k \<mapsto> v)"
    and delete_law: "inv s \<Longrightarrow> \<exists>s'. so_delete st k s = (Inr (), s') \<and> inv s' \<and> view s' = (view s)(k := None)"
    and exists_law: "inv s \<Longrightarrow> \<exists>s'. so_exists st k s = (Inr (view s k \<noteq> None), s') \<and> inv s' \<and> view s' = view s"
    and list_law: "inv s \<Longrightarrow> \<exists>s' xs. so_list st s = (Inr xs, s') \<and> set xs = ran (view s) \<and> inv s' \<and> view s' = view s"
begin

lemma get_value: "inv s \<Longrightarrow> fst (so_get st k s) = Inr (view s k)"
  using get_law [of s k] by auto

lemma get_after_put:
  "inv s \<Longrightarrow> fst (bind_p (so_put st k v) (\<lambda>_. so_get st k') s) = Inr (if k' = k then Some v else view s k')"
  using put_law [of s k v] by (auto simp: bind_p_def get_value)

lemma get_after_delete:
  "inv s \<Longrightarrow> fst (bind_p (so_delete st k) (\<lambda>_. so_get st k') s) = Inr (if k' = k then None else view s k')"
  using delete_law [of s k] by (auto simp: bind_p_def get_value)

lemma exists_iff_get:
  "inv s \<Longrightarrow> fst (so_exists st k s) = Inr b \<Longrightarrow> fst (so_get st k s) = Inr r \<Longrightarrow> b \<longleftrightarrow> r \<noteq> None"
  using exists_law [of s k] by (auto simp: get_value)

lemma ops_preserve_inv:
  "preserves inv (so_get st k)" "preserves inv (so_put st k v)" "preserves inv (so_delete st k)"
  "preserves inv (so_exists st k)" "preserves inv (so_list st)"
  using get_law put_law delete_law exists_law list_law
  by (auto simp: preserves_def) (metis snd_conv)+

end

section \<open>A dictionary held in a field of the state\<close>

definition dict_store ::
  "('s \<Rightarrow> (string, 'v) pydict) \<Rightarrow> (((string, 'v) pydict \<Rightarrow> (string, 'v) pydict) \<Rightarrow> 's \<Rightarrow> 's)
    \<Rightarrow> ('s, 'v) store_ops" where
  "dict_store get upd = \<lparr>
     so_get = (\<lambda>k. get_s (\<lambda>s. dict_get (get s) k)),
     so_put = (\<lambda>k v. mod_s (upd (dict_put k v))),
     so_list = get_s (\<lambda>s. dict_values (get s)),
     so_delete = (\<lambda>k. mod_s (upd (dict_pop k))),
     so_exists = (\<lambda>k. get_s (\<lambda>s. dict_has (get s) k))\<rparr>"

lemma ran_map_of: "wf_dict d \<Longrightarrow> ran (map_of d) = set (dict_values d)"
  by (force simp: ran_def wf_dict_def)

locale field_store =
  fixes get :: "'s \<Rightarrow> (string, 'v) pydict"
    and upd :: "((string, 'v) pydict \<Rightarrow> (string, 'v) pydict) \<Rightarrow> 's \<Rightarrow> 's"
  assumes get_upd: "get (upd f s) = f (get s)"
begin

lemma field_any_store: "any_store (dict_store get upd) (\<lambda>s. dict_get (get s)) (\<lambda>s. wf_dict (get s))"
  by unfold_locales
    (auto simp: dict_store_def get_s_def mod_s_def get_upd dict_has_def ran_map_of fun_eq_iff)

end

sublocale field_store \<subseteq> fs: any_store "dict_store get upd" "\<lambda>s. dict_get (get s)" "\<lambda>s. wf_dict (get s)"
  by (rule field_any_store)

section \<open>JsonStore (store/json_store.py)\<close>

text \<open>The file: absent, or a JSON object from identifiers to dumped models.\<close>

type_synonym 'j json_file = "(string, 'j) pydict option"

definition json_read_raw :: "'j json_file \<Rightarrow> (string, 'j) pydict" where
  "json_read_raw file = (case file of None \<Rightarrow> [] | Some raw \<Rightarrow> raw)"

definition json_get :: "('j \<Rightarrow> 'v result) \<Rightarrow> string \<Rightarrow> ('j json_file, 'v option) prog" where
  "json_get validate k file =
     (case dict_get (json_read_raw file) k of
        None \<Rightarrow> (Inr None, file)
      | Some j \<Rightarrow> (bind_r (validate j) (\<lambda>v. Inr (Some v)), file))"

fun validate_all :: "('j \<Rightarrow> 'v result) \<Rightarrow> 'j list \<Rightarrow> 'v list result" where
  "validate_all validate [] = Inr []"
| "validate_all validate (j # js) =
     bind_r (validate j) (\<lambda>v. bind_r (validate_all validate js) (\<lambda>vs. Inr (v # vs)))"

definition json_list :: "('j \<Rightarrow> 'v result) \<Rightarrow> ('j json_file, 'v list) prog" where
  "json_list validate file = (validate_all validate (dict_values (json_read_raw file)), file)"

definition json_put :: "('v \<Rightarrow> 'j) \<Rightarrow> string \<Rightarrow> 'v \<Rightarrow> ('j json_file, unit) prog" where
  "json_put dump k v file = (Inr (), Some (dict_put k (dump v) (json_read_raw file)))"

definition json_delete :: "string \<Rightarrow> ('j json_file, unit) prog" where
  "json_delete k file = (Inr (), Some (dict_pop k (json_read_raw file)))"

definition json_exists :: "string \<Rightarrow> ('j json_file, bool) prog" where
  "json_exists k file = (Inr (dict_has (json_read_raw file) k), file)"

definition json_store :: "('v \<Rightarrow> 'j) \<Rightarrow> ('j \<Rightarrow> 'v result) \<Rightarrow> ('j json_file, 'v) store_ops" where
  "json_store dump validate = \<lparr>so_get = json_get validate, so_put = json_put dump,
     so_list = json_list validate, so_delete = json_delete, so_exists = json_exists\<rparr>"

section \<open>PostgresStore (store/postgres_store.py)\<close>

text \<open>The table: its rows \<open>(key, data)\<close> with \<open>key\<close> the primary key; \<open>create_table\<close> makes an empty
  one when there is none, \<open>INSERT ... ON CONFLICT (key) DO UPDATE\<close> replaces the data of a row.\<close>

type_synonym 'j table = "(string, 'j) pydict"

definition pg_create_table :: "'j table option \<Rightarrow> 'j table" where
  "pg_create_table t = (case t of None \<Rightarrow> [] | Some rows \<Rightarrow> rows)"

definition pg_get :: "('j \<Rightarrow> 'v result) \<Rightarrow> string \<Rightarrow> ('j table, 'v option) prog" where
  "pg_get validate k rows =
     (case dict_get rows k of
        None \<Rightarrow> (Inr None, rows)
      | Some j \<Rightarrow> (bind_r (validate j) (\<lambda>v. Inr (Some v)), rows))"

definition pg_list :: "('j \<Rightarrow> 'v result) \<Rightarrow> ('j table, 'v list) prog" where
  "pg_list validate rows = (validate_all validate (dict_values rows), rows)"

definition pg_put :: "('v \<Rightarrow> 'j) \<Rightarrow> string \<Rightarrow> 'v \<Rightarrow> ('j table, unit) prog" where
  "pg_put dump k v rows = (Inr (), dict_put k (dump v) rows)"

definition pg_delete :: "string \<Rightarrow> ('j table, unit) prog" where
  "pg_delete k rows = (Inr (), dict_pop k rows)"

definition pg_exists :: "string \<Rightarrow> ('j table, bool) prog" where
  "pg_exists k rows = (Inr (dict_has rows k), rows)"

definition pg_store :: "('v \<Rightarrow> 'j) \<Rightarrow> ('j \<Rightarrow> 'v result) \<Rightarrow> ('j table, 'v) store_ops" where
  "pg_store dump validate = \<lparr>so_get = pg_get validate, so_put = pg_put dump,
     so_list = pg_list validate, so_delete = pg_delete, so_exists = pg_exists\<rparr>"

text \<open>Both stores meet the contract for every model whose dumps validate to themselves.\<close>

definition raw_view :: "('j \<Rightarrow> 'v result) \<Rightarrow> (string, 'j) pydict \<Rightarrow> string \<Rightarrow> 'v option" where
  "raw_view validate raw k = (case dict_get raw k of None \<Rightarrow> None
     | Some j \<Rightarrow> (case validate j of Inl _ \<Rightarrow> None | Inr v \<Rightarrow> Some v))"

definition raw_inv :: "('j \<Rightarrow> 'v result) \<Rightarrow> (string, 'j) pydict \<Rightarrow> bool" where
  "raw_inv validate raw \<longleftrightarrow> wf_dict raw \<and> (\<forall>j \<in> set (dict_values raw). \<exists>v. validate j = Inr v)"

lemma raw_get:
  "raw_inv validate raw \<Longrightarrow> dict_get raw k = Some j \<Longrightarrow> \<exists>v. validate j = Inr v \<and> raw_view validate raw k = Some v"
  by (auto simp: raw_inv_def raw_view_def dest!: map_of_SomeD)

lemma validate_all_Inr:
  "\<forall>j \<in> set js. \<exists>v. validate j = Inr v \<Longrightarrow>
    \<exists>vs. validate_all validate js = Inr vs \<and> set vs = {v. \<exists>j \<in> set js. validate j = Inr v}"
  by (induction js) fastforce+

lemma raw_list:
  assumes "raw_inv validate raw"
  shows "\<exists>vs. validate_all validate (dict_values raw) = Inr vs \<and> set vs = ran (raw_view validate raw)"
proof -
  have "{v. \<exists>j \<in> set (dict_values raw). validate j = Inr v} = ran (raw_view validate raw)"
  proof (intro equalityI subsetI)
    fix v assume "v \<in> {v. \<exists>j \<in> set (dict_values raw). validate j = Inr v}"
    then obtain k j where "(k, j) \<in> set raw" "validate j = Inr v" by auto
    moreover have "wf_dict raw" using assms by (simp add: raw_inv_def)
    ultimately have "raw_view validate raw k = Some v" by (simp add: raw_view_def dict_mem_get)
    then show "v \<in> ran (raw_view validate raw)" by (rule ranI)
  next
    fix v assume "v \<in> ran (raw_view validate raw)"
    then obtain k where "raw_view validate raw k = Some v" by (auto simp: ran_def)
    then show "v \<in> {v. \<exists>j \<in> set (dict_values raw). validate j = Inr v}"
      by (force simp: raw_view_def dest: map_of_SomeD split: option.splits sum.splits)
  qed
  moreover have "\<forall>j \<in> set (dict_values raw). \<exists>v. validate j = Inr v"
    using assms by (simp add: raw_inv_def)
  ultimately show ?thesis using validate_all_Inr [of "dict_values raw" validate] by metis
qed

lemma raw_put:
  assumes "validate (dump v) = Inr v" "raw_inv validate raw"
  shows "raw_inv validate (dict_put k (dump v) raw)"
    "raw_view validate (dict_put k (dump v) raw) = (raw_view validate raw)(k \<mapsto> v)"
  using assms by (auto simp: raw_inv_def set_dict_put raw_view_def fun_eq_iff)

lemma raw_delete:
  "raw_inv validate raw \<Longrightarrow> raw_inv validate (dict_pop k raw)"
  "raw_view validate (dict_pop k raw) = (raw_view validate raw)(k := None)"
  by (auto simp: raw_inv_def set_dict_pop raw_view_def fun_eq_iff)

lemma raw_exists: "raw_inv validate raw \<Longrightarrow> dict_has raw k \<longleftrightarrow> raw_view validate raw k \<noteq> None"
  by (cases "dict_get raw k") (auto simp: dict_has_def raw_view_def dest: raw_get)

lemma raw_inv_Nil [simp]: "raw_inv validate []"
  by (simp add: raw_inv_def)

locale model_codec =
  fixes dump :: "'v \<Rightarrow> 'j" and validate :: "'j \<Rightarrow> 'v result"
  assumes validate_dump: "validate (dump v) = Inr v"
begin

lemma json_any_store: "any_store (json_store dump validate) (\<lambda>f. raw_view validate (json_read_raw f))
    (\<lambda>f. raw_inv validate (json_read_raw f))"
proof (unfold_locales, goal_cases)
  case (1 s k)
  then show ?case
    by (cases "dict_get (json_read_raw s) k")
      (auto simp: json_store_def json_get_def raw_view_def dest: raw_get)
next
  case (5 s)
  then show ?case by (auto simp: json_store_def json_list_def dest: raw_list)
qed (auto simp: json_store_def json_put_def json_delete_def json_exists_def json_read_raw_def
    raw_put validate_dump raw_delete raw_exists simp del: option.case_eq_if)

lemma pg_any_store: "any_store (pg_store dump validate) (raw_view validate) (raw_inv validate)"
proof (unfold_locales, goal_cases)
  case (1 s k)
  then show ?case
    by (cases "dict_get s k") (auto simp: pg_store_def pg_get_def raw_view_def dest: raw_get)
next
  case (5 s)
  then show ?case by (auto simp: pg_store_def pg_list_def dest: raw_list)
qed (auto simp: pg_store_def pg_put_def pg_delete_def pg_exists_def
    raw_put validate_dump raw_delete raw_exists)

end

sublocale model_codec \<subseteq> json: any_store "json_store dump validate"
    "\<lambda>f. raw_view validate (json_read_raw f)" "\<lambda>f. raw_inv validate (json_read_raw f)"
  by (rule json_any_store)

sublocale model_codec \<subseteq> pg: any_store "pg_store dump validate" "raw_view validate" "raw_inv validate"
  by (rule pg_any_store)

text \<open>The codec of \<open>SecretSpec\<close>: \<open>model_dump_json\<close> gives its two fields, and \<open>model_validate\<close>
  wants both as strings.\<close>

definition secret_dump :: "secret_spec \<Rightarrow> json" where
  "secret_dump s = JDict [(''name'', JStr (sec_name s)), (''value'', JStr (sec_value s))]"

definition secret_validate :: "json \<Rightarrow> secret_spec result" where
  "secret_validate j = (case j of
     JDict d \<Rightarrow> (case (dict_get d ''name'', dict_get d ''value'') of
         (Some (JStr n), Some (JStr v)) \<Rightarrow> Inr \<lparr>sec_name = n, sec_value = v\<rparr>
       | _ \<Rightarrow> Inl (ValueError ''SecretSpec''))
   | _ \<Rightarrow> Inl (ValueError ''SecretSpec''))"

interpretation secret_codec: model_codec secret_dump secret_validate
  by unfold_locales (simp add: secret_dump_def secret_validate_def)

end
