(* ===== verification/TtlCache.thy ===== *)
theory TtlCache
  imports Stores
begin

text \<open>
  \<open>TTLStoreCache\<close> of \<open>aws_light/store/cached_store.py\<close>, which the proxy puts in front of the
  service and secret stores. The cache keeps the items it has read or written in an
  \<open>OrderedDict\<close> (least recently used first), each with an expiry time, and at most
  \<open>max_entries\<close> of them. The state holds the state of the store behind the cache and the
  reading of the monotonic clock, which stands still during one operation.
\<close>

record 'v cache_entry =
  ce_value :: 'v
  ce_expires_at :: pyfloat

record ('s, 'v) ttl_cache =
  tc_store :: 's
  tc_ttl_seconds :: pyfloat
  tc_max_entries :: int
  tc_clock :: pyfloat
  tc_entries :: "(string, 'v cache_entry) pydict"

definition ttl_init :: "'s \<Rightarrow> pyfloat \<Rightarrow> int \<Rightarrow> pyfloat \<Rightarrow> ('s, 'v) ttl_cache result" where
  "ttl_init s ttl max_entries clock =
     (if ttl \<le> 0 then Inl (ValueError ''ttl_seconds must be greater than 0'')
      else if max_entries < 1 then Inl (ValueError ''max_entries must be at least 1'')
      else Inr \<lparr>tc_store = s, tc_ttl_seconds = ttl, tc_max_entries = max_entries,
                tc_clock = clock, tc_entries = []\<rparr>)"

text \<open>\<open>OrderedDict.move_to_end\<close>, and the loop that drops the oldest entries.\<close>

definition move_to_end :: "string \<Rightarrow> (string, 'v) pydict \<Rightarrow> (string, 'v) pydict" where
  "move_to_end k d = (case dict_get d k of None \<Rightarrow> d | Some v \<Rightarrow> dict_pop k d @ [(k, v)])"

fun evict :: "int \<Rightarrow> (string, 'v) pydict \<Rightarrow> (string, 'v) pydict" where
  "evict n [] = []"
| "evict n (e # d) = (if int (length (e # d)) > n then evict n d else e # d)"

definition fresh_entry :: "string \<Rightarrow> (('s, 'v) ttl_cache, 'v cache_entry option) prog" where
  "fresh_entry k c = (case dict_get (tc_entries c) k of
       None \<Rightarrow> (Inr None, c)
     | Some e \<Rightarrow>
         if ce_expires_at e \<le> tc_clock c
         then (Inr None, c\<lparr>tc_entries := dict_pop k (tc_entries c)\<rparr>)
         else (Inr (Some e), c\<lparr>tc_entries := move_to_end k (tc_entries c)\<rparr>))"

definition remember :: "string \<Rightarrow> 'v \<Rightarrow> (('s, 'v) ttl_cache, unit) prog" where
  "remember k v c = (Inr (), c\<lparr>tc_entries := evict (tc_max_entries c)
     (move_to_end k (dict_put k \<lparr>ce_value = v,
        ce_expires_at = fadd (tc_clock c) (tc_ttl_seconds c)\<rparr> (tc_entries c)))\<rparr>)"

text \<open>A call of the store behind the cache.\<close>

definition behind :: "('s, 'a) prog \<Rightarrow> (('s, 'v) ttl_cache, 'a) prog" where
  "behind m c = (case m (tc_store c) of (r, s) \<Rightarrow> (r, c\<lparr>tc_store := s\<rparr>))"

definition ttl_get :: "('s, 'v) store_ops \<Rightarrow> string \<Rightarrow> (('s, 'v) ttl_cache, 'v option) prog" where
  "ttl_get st k = bind_p (fresh_entry k) (\<lambda>cached. case cached of
       Some e \<Rightarrow> ret (Some (ce_value e))
     | None \<Rightarrow> bind_p (behind (so_get st k)) (\<lambda>item. case item of
           None \<Rightarrow> ret None
         | Some v \<Rightarrow> bind_p (remember k v) (\<lambda>_. ret (Some v))))"

definition ttl_put :: "('s, 'v) store_ops \<Rightarrow> string \<Rightarrow> 'v \<Rightarrow> (('s, 'v) ttl_cache, unit) prog" where
  "ttl_put st k v = bind_p (behind (so_put st k v)) (\<lambda>_. remember k v)"

definition ttl_list :: "('s, 'v) store_ops \<Rightarrow> (('s, 'v) ttl_cache, 'v list) prog" where
  "ttl_list st = behind (so_list st)"

definition ttl_delete :: "('s, 'v) store_ops \<Rightarrow> string \<Rightarrow> (('s, 'v) ttl_cache, unit) prog" where
  "ttl_delete st k = bind_p (behind (so_delete st k)) (\<lambda>_.
     mod_s (\<lambda>c. c\<lparr>tc_entries := dict_pop k (tc_entries c)\<rparr>))"

definition ttl_exists :: "('s, 'v) store_ops \<Rightarrow> string \<Rightarrow> (('s, 'v) ttl_cache, bool) prog" where
  "ttl_exists st k = bind_p (fresh_entry k) (\<lambda>cached. case cached of
       Some e \<Rightarrow> ret True
     | None \<Rightarrow> behind (so_exists st k))"

definition ttl_store :: "('s, 'v) store_ops \<Rightarrow> (('s, 'v) ttl_cache, 'v) store_ops" where
  "ttl_store st = \<lparr>so_get = ttl_get st, so_put = ttl_put st, so_list = ttl_list st,
     so_delete = ttl_delete st, so_exists = ttl_exists st\<rparr>"

lemmas ttl_defs = ttl_get_def ttl_put_def ttl_list_def ttl_delete_def ttl_exists_def

section \<open>The entries\<close>

lemma move_to_end_props:
  assumes "wf_dict d"
  shows "wf_dict (move_to_end k d)" "set (move_to_end k d) = set d"
    "length (move_to_end k d) = length d" "dict_get (move_to_end k d) = dict_get d"
proof -
  have "wf_dict (move_to_end k d) \<and> set (move_to_end k d) = set d"
    using assms by (cases "dict_get d k")
      (auto simp: move_to_end_def wf_dict_def dict_keys_pop set_dict_pop distinct_delete
        dest: map_of_SomeD eq_key_imp_eq_value)
  then show w: "wf_dict (move_to_end k d)" and s: "set (move_to_end k d) = set d" by auto
  show "length (move_to_end k d) = length d"
    using w assms s by (metis distinct_card distinct_map wf_dict_def)
  show "dict_get (move_to_end k d) = dict_get d"
    using w assms s by (intro map_of_eqI) (auto simp: wf_dict_def intro!: map_of_eqI)
qed

lemma evict_suffix: "\<exists>p. d = p @ evict n d"
  by (induction d) (auto, metis append_Cons)

lemma evict_props:
  "wf_dict d \<Longrightarrow> wf_dict (evict n d)" "set (evict n d) \<subseteq> set d"
  "0 \<le> n \<Longrightarrow> int (length (evict n d)) \<le> n"
proof -
  obtain p where p: "d = p @ evict n d" using evict_suffix by blast
  show "wf_dict d \<Longrightarrow> wf_dict (evict n d)" using p
    by (metis distinct_append map_append wf_dict_def)
  show "set (evict n d) \<subseteq> set d" using p by (metis set_append Un_upper2)
  show "0 \<le> n \<Longrightarrow> int (length (evict n d)) \<le> n" by (induction d) auto
qed

text \<open>The newest entry survives the eviction, since at least one entry may stay.\<close>

lemma evict_last: "1 \<le> n \<Longrightarrow> e \<in> set (evict n (d @ [e]))"
  by (induction d) auto

section \<open>The cache as a store\<close>

text \<open>
  What every operation keeps of the entries, and, as long as all writes go through the cache,
  the agreement of every entry with the store behind it.
\<close>

definition ttl_wf :: "('s, 'v) ttl_cache \<Rightarrow> bool" where
  "ttl_wf c \<longleftrightarrow> wf_dict (tc_entries c) \<and> 1 \<le> tc_max_entries c
     \<and> int (length (tc_entries c)) \<le> tc_max_entries c"

definition coherent :: "('s \<Rightarrow> string \<Rightarrow> 'v option) \<Rightarrow> ('s, 'v) ttl_cache \<Rightarrow> bool" where
  "coherent view c \<longleftrightarrow> (\<forall>(k, e) \<in> set (tc_entries c). view (tc_store c) k = Some (ce_value e))"

lemma fresh_entry_cases:
  obtains (Missing) "fresh_entry k c = (Inr None, c)" "dict_get (tc_entries c) k = None"
  | (Expired) e where "fresh_entry k c = (Inr None, c\<lparr>tc_entries := dict_pop k (tc_entries c)\<rparr>)"
      "dict_get (tc_entries c) k = Some e" "ce_expires_at e \<le> tc_clock c"
  | (Fresh) e where "fresh_entry k c = (Inr (Some e), c\<lparr>tc_entries := move_to_end k (tc_entries c)\<rparr>)"
      "dict_get (tc_entries c) k = Some e" "tc_clock c < ce_expires_at e"
proof (cases "dict_get (tc_entries c) k")
  case None
  then show ?thesis using Missing by (simp add: fresh_entry_def)
next
  case (Some e)
  then show ?thesis using Expired Fresh
    by (cases "ce_expires_at e \<le> tc_clock c") (auto simp: fresh_entry_def)
qed

lemma length_dict_pop: "length (dict_pop k d) \<le> length d"
  by (induction d) auto

lemma remember_fields [simp]:
  "fst (remember k v c) = Inr ()" "tc_store (snd (remember k v c)) = tc_store c"
  "tc_max_entries (snd (remember k v c)) = tc_max_entries c"
  "tc_clock (snd (remember k v c)) = tc_clock c"
  "tc_ttl_seconds (snd (remember k v c)) = tc_ttl_seconds c"
  by (simp_all add: remember_def)

lemma remember_wf: "wf_dict (tc_entries c) \<Longrightarrow> 1 \<le> tc_max_entries c \<Longrightarrow> ttl_wf (snd (remember k v c))"
  by (simp add: ttl_wf_def remember_def evict_props move_to_end_props)

lemma remember_entries:
  assumes "wf_dict (tc_entries c)" "(k', e) \<in> set (tc_entries (snd (remember k v c)))"
  shows "k' = k \<and> e = \<lparr>ce_value = v, ce_expires_at = fadd (tc_clock c) (tc_ttl_seconds c)\<rparr>
    \<or> k' \<noteq> k \<and> (k', e) \<in> set (tc_entries c)"
proof -
  let ?d = "dict_put k \<lparr>ce_value = v, ce_expires_at = fadd (tc_clock c) (tc_ttl_seconds c)\<rparr> (tc_entries c)"
  have "(k', e) \<in> set (move_to_end k ?d)"
    using assms(2) evict_props(2) [of "tc_max_entries c" "move_to_end k ?d"]
    by (auto simp: remember_def)
  then show ?thesis using assms(1) by (auto simp: move_to_end_props set_dict_put)
qed

lemma fresh_entry_wf: "ttl_wf c \<Longrightarrow> ttl_wf (snd (fresh_entry k c))"
  using length_dict_pop [of k "tc_entries c"]
  by (cases rule: fresh_entry_cases [of k c]) (auto simp: ttl_wf_def move_to_end_props)

lemma fresh_entry_subset: "ttl_wf c \<Longrightarrow> set (tc_entries (snd (fresh_entry k c))) \<subseteq> set (tc_entries c)"
  by (cases rule: fresh_entry_cases [of k c]) (auto simp: ttl_wf_def move_to_end_props set_dict_pop)

lemma preserves_behind: "preserves ttl_wf (behind m)"
  by (auto simp: preserves_def behind_def ttl_wf_def split: prod.splits)

lemma preserves_remember: "preserves ttl_wf (remember k v)"
  by (auto simp: preserves_def ttl_wf_def dest: remember_wf [unfolded ttl_wf_def])

lemma preserves_fresh: "preserves ttl_wf (fresh_entry k)"
  by (simp add: preserves_def fresh_entry_wf)

lemma preserves_forget: "preserves ttl_wf (mod_s (\<lambda>c. c\<lparr>tc_entries := dict_pop k (tc_entries c)\<rparr>))"
proof (intro preserves_mod_s)
  fix c :: "('s, 'v) ttl_cache" assume "ttl_wf c"
  then show "ttl_wf (c\<lparr>tc_entries := dict_pop k (tc_entries c)\<rparr>)"
    using length_dict_pop [of k "tc_entries c"] by (simp add: ttl_wf_def)
qed

lemmas ttl_preserves = preserves_rules preserves_behind preserves_remember preserves_fresh preserves_forget

lemma ttl_wf_ops:
  "preserves ttl_wf (ttl_get st k)" "preserves ttl_wf (ttl_put st k v)" "preserves ttl_wf (ttl_list st)"
  "preserves ttl_wf (ttl_delete st k)" "preserves ttl_wf (ttl_exists st k)"
  unfolding ttl_defs by (intro ttl_preserves)+

lemma coherent_store: "view s = view (tc_store c) \<Longrightarrow> coherent view c \<Longrightarrow> coherent view (c\<lparr>tc_store := s\<rparr>)"
  by (auto simp: coherent_def)

lemma coherent_entries:
  "set d \<subseteq> set (tc_entries c) \<Longrightarrow> coherent view c \<Longrightarrow> coherent view (c\<lparr>tc_entries := d\<rparr>)"
  by (auto simp: coherent_def)

lemma coherent_remember:
  assumes "wf_dict (tc_entries c)" "view (tc_store c) k = Some v"
    "\<And>k' e. (k', e) \<in> set (tc_entries c) \<Longrightarrow> k' \<noteq> k \<Longrightarrow> view (tc_store c) k' = Some (ce_value e)"
  shows "coherent view (snd (remember k v c))"
  using assms remember_entries [OF assms(1)] by (fastforce simp: coherent_def)

context any_store
begin

definition ttl_inv :: "('s, 'v) ttl_cache \<Rightarrow> bool" where
  "ttl_inv c \<longleftrightarrow> inv (tc_store c) \<and> ttl_wf c \<and> coherent view c"

lemma ttl_inv_fresh: "ttl_inv c \<Longrightarrow> ttl_inv (snd (fresh_entry k c)) \<and> tc_store (snd (fresh_entry k c)) = tc_store c"
  using fresh_entry_wf [of c k]
  by (cases rule: fresh_entry_cases [of k c])
    (auto simp: ttl_inv_def move_to_end_props ttl_wf_def set_dict_pop intro!: coherent_entries)

lemma ttl_inv_behind:
  "ttl_inv c \<Longrightarrow> m (tc_store c) = (r, s') \<Longrightarrow> inv s' \<Longrightarrow> view s' = view (tc_store c) \<Longrightarrow>
    behind m c = (r, c\<lparr>tc_store := s'\<rparr>) \<and> ttl_inv (c\<lparr>tc_store := s'\<rparr>)"
  by (auto simp: behind_def ttl_inv_def ttl_wf_def intro: coherent_store)

lemma ttl_get_law:
  assumes c: "ttl_inv c"
  shows "\<exists>c'. ttl_get st k c = (Inr (view (tc_store c) k), c') \<and> ttl_inv c' \<and> view (tc_store c') = view (tc_store c)"
proof -
  define f where "f = snd (fresh_entry k c)"
  have f: "ttl_inv f" "tc_store f = tc_store c" using ttl_inv_fresh [OF c, of k] by (auto simp: f_def)
  obtain s' where s': "so_get st k (tc_store c) = (Inr (view (tc_store c) k), s')" "inv s'" "view s' = view (tc_store c)"
    using get_law [of "tc_store c" k] c by (auto simp: ttl_inv_def)
  have b: "behind (so_get st k) f = (Inr (view (tc_store c) k), f\<lparr>tc_store := s'\<rparr>)" "ttl_inv (f\<lparr>tc_store := s'\<rparr>)"
    using ttl_inv_behind [of f "so_get st k"] f s' by auto
  have miss: ?thesis if m: "fresh_entry k c = (Inr None, f)"
  proof (cases "view (tc_store c) k")
    case None
    then show ?thesis using b s'
      by (simp add: ttl_get_def bind_p_def m ret_def)
  next
    case (Some v)
    let ?c = "f\<lparr>tc_store := s'\<rparr>"
    have "ttl_inv (snd (remember k v ?c))"
      using b(2) Some s' remember_wf [of ?c k v] coherent_remember [of ?c view k v]
      by (fastforce simp: ttl_inv_def ttl_wf_def coherent_def)
    moreover obtain d where "remember k v ?c = (Inr (), d)" "tc_store d = s'" by (simp add: remember_def)
    ultimately show ?thesis using b s' Some
      by (simp add: ttl_get_def bind_p_def m ret_def)
  qed
  show ?thesis
  proof (cases rule: fresh_entry_cases [of k c])
    case (Fresh e)
    have "view (tc_store c) k = Some (ce_value e)"
      using c map_of_SomeD [OF Fresh(2)] by (fastforce simp: ttl_inv_def coherent_def)
    then show ?thesis using Fresh f
      by (simp add: ttl_get_def bind_p_def Fresh(1) ret_def) (simp add: f_def Fresh(1))
  qed (use miss in \<open>simp_all add: f_def\<close>)
qed

lemma ttl_exists_law:
  assumes c: "ttl_inv c"
  shows "\<exists>c'. ttl_exists st k c = (Inr (view (tc_store c) k \<noteq> None), c') \<and> ttl_inv c' \<and> view (tc_store c') = view (tc_store c)"
proof -
  let ?f = "snd (fresh_entry k c)"
  have f: "ttl_inv ?f" "tc_store ?f = tc_store c" using ttl_inv_fresh [OF c, of k] by auto
  obtain s' where s': "so_exists st k (tc_store c) = (Inr (view (tc_store c) k \<noteq> None), s')" "inv s'" "view s' = view (tc_store c)"
    using exists_law [of "tc_store c" k] c by (auto simp: ttl_inv_def)
  have b: "behind (so_exists st k) ?f = (Inr (view (tc_store c) k \<noteq> None), ?f\<lparr>tc_store := s'\<rparr>)" "ttl_inv (?f\<lparr>tc_store := s'\<rparr>)"
    using ttl_inv_behind [of ?f "so_exists st k"] f s' by auto
  show ?thesis
  proof (cases rule: fresh_entry_cases [of k c])
    case (Fresh e)
    have "view (tc_store c) k = Some (ce_value e)"
      using c map_of_SomeD [OF Fresh(2)] by (fastforce simp: ttl_inv_def coherent_def)
    then show ?thesis using Fresh f by (auto simp: ttl_exists_def bind_p_def ret_def)
  qed (use b s' in \<open>auto simp: ttl_exists_def bind_p_def\<close>)
qed

lemma ttl_put_law:
  assumes c: "ttl_inv c"
  shows "\<exists>c'. ttl_put st k v c = (Inr (), c') \<and> ttl_inv c' \<and> view (tc_store c') = (view (tc_store c))(k \<mapsto> v)"
proof -
  obtain s' where s': "so_put st k v (tc_store c) = (Inr (), s')" "inv s'" "view s' = (view (tc_store c))(k \<mapsto> v)"
    using put_law [of "tc_store c" k v] c by (auto simp: ttl_inv_def)
  let ?c = "c\<lparr>tc_store := s'\<rparr>"
  have "ttl_inv (snd (remember k v ?c))"
    using c s' remember_wf [of ?c k v] coherent_remember [of ?c view k v]
    by (fastforce simp: ttl_inv_def ttl_wf_def coherent_def)
  moreover have "ttl_put st k v c = (Inr (), snd (remember k v ?c))"
    using s' by (simp add: ttl_put_def bind_p_def behind_def) (simp add: remember_def)
  ultimately show ?thesis using s' by simp
qed

lemma ttl_delete_law:
  assumes c: "ttl_inv c"
  shows "\<exists>c'. ttl_delete st k c = (Inr (), c') \<and> ttl_inv c' \<and> view (tc_store c') = (view (tc_store c))(k := None)"
proof -
  obtain s' where s': "so_delete st k (tc_store c) = (Inr (), s')" "inv s'" "view s' = (view (tc_store c))(k := None)"
    using delete_law [of "tc_store c" k] c by (auto simp: ttl_inv_def)
  let ?c = "c\<lparr>tc_store := s', tc_entries := dict_pop k (tc_entries c)\<rparr>"
  have "ttl_inv ?c"
    using c s' length_dict_pop [of k "tc_entries c"]
    by (auto simp: ttl_inv_def ttl_wf_def coherent_def set_dict_pop)
  moreover have "ttl_delete st k c = (Inr (), ?c)"
    using s' by (simp add: ttl_delete_def bind_p_def behind_def mod_s_def)
  ultimately show ?thesis using s' by simp
qed

text \<open>The cache meets the contract of the store behind it.\<close>

lemma ttl_any_store: "any_store (ttl_store st) (\<lambda>c. view (tc_store c)) ttl_inv"
proof (unfold_locales, goal_cases)
  case (5 c)
  then obtain s' xs where s': "so_list st (tc_store c) = (Inr xs, s')" "set xs = ran (view (tc_store c))"
      "inv s'" "view s' = view (tc_store c)"
    using list_law [of "tc_store c"] by (auto simp: ttl_inv_def)
  then show ?case using ttl_inv_behind [OF 5, of "so_list st"]
    by (auto simp: ttl_store_def ttl_list_def)
qed (simp_all add: ttl_store_def ttl_get_law ttl_put_law ttl_delete_law ttl_exists_law
    del: not_None_eq)

end

text \<open>The proxy's cached secret store: a cache in front of the Postgres table of secrets.\<close>

interpretation secret_cache: any_store "ttl_store (pg_store secret_dump secret_validate)"
    "\<lambda>c. raw_view secret_validate (tc_store c)" "secret_codec.pg.ttl_inv"
  by (rule secret_codec.pg.ttl_any_store)

section \<open>Writers behind the cache\<close>

text \<open>
  In the platform other processes write the tables the proxy caches. A run of the cache is a
  sequence of events: time passes, another process writes or erases an item of the store
  behind the cache, or the cache's user calls an operation.
\<close>

datatype 'v cache_event =
    Tick pyfloat
  | Written string 'v
  | Erased string
  | CacheGet string
  | CacheExists string
  | CachePut string 'v
  | CacheDelete string

abbreviation plain_store :: "((string, 'v) pydict, 'v) store_ops" where
  "plain_store \<equiv> dict_store (\<lambda>d. d) (\<lambda>f. f)"

fun cache_step :: "'v cache_event \<Rightarrow> ((string, 'v) pydict, 'v) ttl_cache \<Rightarrow> ((string, 'v) pydict, 'v) ttl_cache" where
  "cache_step (Tick dt) c = c\<lparr>tc_clock := tc_clock c + max 0 dt\<rparr>"
| "cache_step (Written k v) c = c\<lparr>tc_store := dict_put k v (tc_store c)\<rparr>"
| "cache_step (Erased k) c = c\<lparr>tc_store := dict_pop k (tc_store c)\<rparr>"
| "cache_step (CacheGet k) c = snd (ttl_get plain_store k c)"
| "cache_step (CacheExists k) c = snd (ttl_exists plain_store k c)"
| "cache_step (CachePut k v) c = snd (ttl_put plain_store k v c)"
| "cache_step (CacheDelete k) c = snd (ttl_delete plain_store k c)"

text \<open>The states of a run, first to last.\<close>

fun cache_trace :: "((string, 'v) pydict, 'v) ttl_cache \<Rightarrow> 'v cache_event list \<Rightarrow> ((string, 'v) pydict, 'v) ttl_cache list" where
  "cache_trace c [] = [c]"
| "cache_trace c (e # es) = c # cache_trace (cache_step e c) es"

lemma cache_trace_neq_Nil [simp]: "cache_trace c es \<noteq> []"
  by (cases es) auto

lemma plain_ops [simp]:
  "so_get plain_store k d = (Inr (dict_get d k), d)"
  "so_put plain_store k v d = (Inr (), dict_put k v d)"
  "so_delete plain_store k d = (Inr (), dict_pop k d)"
  "so_exists plain_store k d = (Inr (dict_has d k), d)"
  by (simp_all add: dict_store_def get_s_def mod_s_def)

lemma cache_step_wf:
  assumes "ttl_wf c" shows "ttl_wf (cache_step e c)"
proof (cases e)
  case (CacheGet k)
  show ?thesis unfolding CacheGet cache_step.simps by (rule preservesD [OF ttl_wf_ops(1) assms])
next
  case (CacheExists k)
  show ?thesis unfolding CacheExists cache_step.simps by (rule preservesD [OF ttl_wf_ops(5) assms])
next
  case (CachePut k v)
  show ?thesis unfolding CachePut cache_step.simps by (rule preservesD [OF ttl_wf_ops(2) assms])
next
  case (CacheDelete k)
  show ?thesis unfolding CacheDelete cache_step.simps by (rule preservesD [OF ttl_wf_ops(4) assms])
qed (use assms in \<open>simp_all add: ttl_wf_def\<close>)

lemma cache_trace_wf: "ttl_wf c \<Longrightarrow> c' \<in> set (cache_trace c es) \<Longrightarrow> ttl_wf c'"
proof (induction es arbitrary: c)
  case (Cons e es)
  then show ?case using cache_step_wf [of c e] by auto
qed simp

lemma ttl_init_wf: "ttl_init s ttl n t = Inr c \<Longrightarrow> ttl_wf c"
  by (auto simp: ttl_init_def ttl_wf_def split: if_splits)

text \<open>Every entry was read or written in a state of the run, at the time its expiry tells.\<close>

definition witnessed :: "pyfloat \<Rightarrow> ((string, 'v) pydict, 'v) ttl_cache set \<Rightarrow> ((string, 'v) pydict, 'v) ttl_cache \<Rightarrow> bool" where
  "witnessed ttl H c \<longleftrightarrow> tc_ttl_seconds c = ttl \<and> ttl_wf c \<and> (\<forall>(k, e) \<in> set (tc_entries c).
     \<exists>h \<in> H. dict_get (tc_store h) k = Some (ce_value e) \<and> ce_expires_at e = fadd (tc_clock h) ttl)"

lemma witnessed_entries:
  "witnessed ttl H c \<Longrightarrow> tc_ttl_seconds c' = ttl \<Longrightarrow> ttl_wf c' \<Longrightarrow> H \<subseteq> H' \<Longrightarrow>
    set (tc_entries c') \<subseteq> set (tc_entries c) \<Longrightarrow> witnessed ttl H' c'"
  by (fastforce simp: witnessed_def)

lemma witnessed_remember:
  assumes "witnessed ttl H c" "h \<in> H'" "dict_get (tc_store h) k = Some v" "tc_clock h = tc_clock c" "H \<subseteq> H'"
  shows "witnessed ttl H' (snd (remember k v c))"
proof -
  have "wf_dict (tc_entries c)" "1 \<le> tc_max_entries c" using assms(1) by (auto simp: witnessed_def ttl_wf_def)
  then show ?thesis using assms remember_wf [of c k v] remember_entries [of c _ _ k v]
    by (fastforce simp: witnessed_def)
qed

lemma fresh_entry_fields [simp]:
  "tc_clock (snd (fresh_entry k c)) = tc_clock c" "tc_store (snd (fresh_entry k c)) = tc_store c"
  "tc_ttl_seconds (snd (fresh_entry k c)) = tc_ttl_seconds c"
  by (cases rule: fresh_entry_cases [of k c]; simp)+

lemma witnessed_fresh:
  assumes "witnessed ttl H c" "H \<subseteq> H'"
  shows "witnessed ttl H' (snd (fresh_entry k c))"
  using assms fresh_entry_wf [of c k] fresh_entry_subset [of c k]
  by (intro witnessed_entries [OF assms(1) _ _ assms(2)]) (auto simp: witnessed_def)

lemma witnessed_store: "witnessed ttl H c \<Longrightarrow> witnessed ttl H (c\<lparr>tc_store := s\<rparr>)"
  by (simp add: witnessed_def ttl_wf_def)

lemma cache_step_witnessed:
  assumes w: "witnessed ttl H c" and h: "c \<in> H"
  shows "witnessed ttl (insert (cache_step e c) H) (cache_step e c)"
proof (cases e)
  case (CacheGet k)
  define f where "f = snd (fresh_entry k c)"
  let ?H = "insert (cache_step e c) H"
  have f: "witnessed ttl ?H f" "tc_clock f = tc_clock c" "tc_store f = tc_store c"
    using witnessed_fresh [OF w, of ?H k] by (auto simp: f_def)
  have r: "witnessed ttl ?H (snd (remember k v f))" if "dict_get (tc_store c) k = Some v" for v
    using witnessed_remember [OF f(1), of c ?H k v] that h f by auto
  have "cache_step e c = f \<or> (\<exists>v. dict_get (tc_store c) k = Some v \<and> cache_step e c = snd (remember k v f))"
    unfolding CacheGet f_def
    by (cases rule: fresh_entry_cases [of k c]; cases "dict_get (tc_store c) k")
      (auto simp: ttl_get_def bind_p_def behind_def ret_def remember_def)
  then show ?thesis using f r by auto
next
  case (CacheExists k)
  have "cache_step e c = snd (fresh_entry k c)" unfolding CacheExists
    by (cases rule: fresh_entry_cases [of k c]) (auto simp: ttl_exists_def bind_p_def behind_def ret_def)
  then show ?thesis using witnessed_fresh [OF w, of _ k] by auto
next
  case (CachePut k v)
  let ?c = "c\<lparr>tc_store := dict_put k v (tc_store c)\<rparr>"
  have s: "cache_step e c = snd (remember k v ?c)"
    unfolding CachePut by (simp add: ttl_put_def bind_p_def behind_def)
  have "witnessed ttl (insert (cache_step e c) H) (snd (remember k v ?c))"
    by (rule witnessed_remember [OF witnessed_store [OF w], of "cache_step e c"]) (auto simp: s)
  then show ?thesis by (simp add: s)
next
  case (CacheDelete k)
  have "cache_step e c = c\<lparr>tc_store := dict_pop k (tc_store c), tc_entries := dict_pop k (tc_entries c)\<rparr>"
    unfolding CacheDelete by (simp add: ttl_delete_def bind_p_def behind_def mod_s_def)
  then show ?thesis using w cache_step_wf [of c e]
    by (auto intro!: witnessed_entries [OF w] simp: set_dict_pop witnessed_def)
qed (use w cache_step_wf [of c e] in \<open>auto intro!: witnessed_entries [OF w] simp: witnessed_def\<close>)

lemma cache_trace_witnessed:
  "witnessed ttl H c \<Longrightarrow> c \<in> H \<Longrightarrow> set (cache_trace c es) \<union> H = H' \<Longrightarrow> witnessed ttl H' (last (cache_trace c es))"
proof (induction es arbitrary: c H)
  case Nil
  then show ?case by (simp add: insert_absorb)
next
  case (Cons e es)
  have "cache_step e c \<in> set (cache_trace (cache_step e c) es)" by (cases es) auto
  then have "set (cache_trace (cache_step e c) es) \<union> insert (cache_step e c) H = H'"
    using Cons.prems by auto
  with Cons.IH [OF cache_step_witnessed [OF Cons.prems(1,2)], of e] show ?case by simp
qed

lemma ttl_get_result:
  "fst (ttl_get plain_store k c) = Inr (case dict_get (tc_entries c) k of
       None \<Rightarrow> dict_get (tc_store c) k
     | Some e \<Rightarrow> if ce_expires_at e \<le> tc_clock c then dict_get (tc_store c) k else Some (ce_value e))"
  by (cases rule: fresh_entry_cases [of k c]; cases "dict_get (tc_store c) k")
    (auto simp: ttl_get_def bind_p_def behind_def ret_def remember_def)

text \<open>
  C34. Bounded staleness. Whatever other processes do to the store behind it, a cache that was
  created with a lifetime of \<open>ttl\<close> seconds answers a \<open>get\<close> either from the store as it is now, or
  with a value that the store held for the same key in an earlier state of the run, less than
  \<open>ttl\<close> seconds (in float arithmetic) ago. In particular an item that is not found is not in
  the store now.
\<close>

theorem ttl_get_staleness:
  assumes "ttl_init d ttl n t = Inr c0" and "c = last (cache_trace c0 es)"
  shows "\<exists>r. fst (ttl_get plain_store k c) = Inr r \<and>
    (r = dict_get (tc_store c) k \<or>
     (\<exists>c' \<in> set (cache_trace c0 es). r \<noteq> None \<and> r = dict_get (tc_store c') k
        \<and> tc_clock c < fadd (tc_clock c') ttl))"
proof -
  have "witnessed ttl {c0} c0" using assms(1) ttl_init_wf [OF assms(1)]
    by (auto simp: witnessed_def ttl_init_def split: if_splits)
  moreover have "c0 \<in> set (cache_trace c0 es)" by (cases es) auto
  ultimately have w: "witnessed ttl (set (cache_trace c0 es)) c"
    using cache_trace_witnessed [of ttl "{c0}" c0 es] assms(2) by (simp add: insert_absorb)
  show ?thesis
  proof (cases "dict_get (tc_entries c) k")
    case (Some e)
    then obtain c' where "c' \<in> set (cache_trace c0 es)" "dict_get (tc_store c') k = Some (ce_value e)"
        "ce_expires_at e = fadd (tc_clock c') ttl"
      using w map_of_SomeD [OF Some] by (fastforce simp: witnessed_def)
    then show ?thesis using Some by (auto simp: ttl_get_result intro!: bexI [of _ c'])
  qed (simp add: ttl_get_result)
qed

text \<open>A run in which another process overwrites a cached item: one second later the cache still
  answers with the old value, which is younger than the lifetime of five seconds.\<close>

abbreviation demo_cache :: "((string, string) pydict, string) ttl_cache" where
  "demo_cache \<equiv> \<lparr>tc_store = [(''k'', ''old'')], tc_ttl_seconds = 5, tc_max_entries = 1,
     tc_clock = 0, tc_entries = []\<rparr>"

abbreviation demo_run :: "string cache_event list" where
  "demo_run \<equiv> [CacheGet ''k'', Written ''k'' ''new'', Tick 1]"

theorem ttl_get_staleness_witness:
  "\<exists>r. fst (ttl_get plain_store ''k'' (last (cache_trace demo_cache demo_run))) = Inr r \<and>
    (r = dict_get (tc_store (last (cache_trace demo_cache demo_run))) ''k'' \<or>
     (\<exists>c' \<in> set (cache_trace demo_cache demo_run). r \<noteq> None \<and> r = dict_get (tc_store c') ''k''
        \<and> tc_clock (last (cache_trace demo_cache demo_run)) < fadd (tc_clock c') 5))"
  by (rule ttl_get_staleness [of "[(''k'', ''old'')]" 5 1 0, OF _ refl]) (simp add: ttl_init_def)

text \<open>
  Bounded size. A cache never holds more than \<open>max_entries\<close> entries, nor two for one key,
  after any sequence of operations and of writes behind it.
\<close>

theorem ttl_cache_bounded:
  assumes "ttl_init d ttl n t = Inr c0" and "c \<in> set (cache_trace c0 es)"
  shows "int (length (tc_entries c)) \<le> tc_max_entries c \<and> distinct (map fst (tc_entries c))"
  using cache_trace_wf [OF ttl_init_wf [OF assms(1)] assms(2)] by (simp add: ttl_wf_def wf_dict_def)

theorem ttl_cache_bounded_witness:
  "int (length (tc_entries (cache_step (Tick 1) demo_cache))) \<le> tc_max_entries (cache_step (Tick 1) demo_cache)
    \<and> distinct (map fst (tc_entries (cache_step (Tick 1) demo_cache)))"
  by (rule ttl_cache_bounded [of "[(''k'', ''old'')]" 5 1 0 demo_cache _ "[Tick 1]"])
    (simp_all add: ttl_init_def)

end
