(* ===== verification/Iam.thy ===== *)
theory Iam
  imports Stores
begin

text \<open>
  Users and access control of the control plane: \<open>aws_light/iam/\<close> (permissions, tokens, the
  FastAPI dependencies \<open>get_current_user\<close> and \<open>require_role\<close>) and the endpoints of
  \<open>aws_light/api/iam.py\<close>. PyJWT and bcrypt are parameters: records of the functions the code
  calls, with what their documentation promises as \<open>jwt_ok\<close> and \<open>bcrypt_ok\<close>. Times are in seconds.
  An endpoint takes the bearer token, so that the dependency it declares is part of it.
\<close>

section \<open>permissions.py\<close>

fun role_level :: "role \<Rightarrow> nat" where
  "role_level VIEWER = 0"
| "role_level DEVELOPER = 1"
| "role_level ADMIN = 2"

definition has_minimum_role :: "role \<Rightarrow> role \<Rightarrow> bool" where
  "has_minimum_role user_role required_role \<longleftrightarrow> role_level required_role \<le> role_level user_role"

lemma role_level_inject [simp]: "role_level a = role_level b \<longleftrightarrow> a = b"
  by (cases a; cases b) simp_all

text \<open>The hierarchy is a linear order on the roles.\<close>

instantiation role :: linorder
begin

definition less_eq_role :: "role \<Rightarrow> role \<Rightarrow> bool" where
  "less_eq_role a b \<longleftrightarrow> role_level a \<le> role_level b"

definition less_role :: "role \<Rightarrow> role \<Rightarrow> bool" where
  "less_role a b \<longleftrightarrow> role_level a < role_level b"

instance
  by intro_classes (auto simp: less_eq_role_def less_role_def)

end

lemma has_minimum_role_le: "has_minimum_role a b \<longleftrightarrow> b \<le> a"
  by (simp add: has_minimum_role_def less_eq_role_def)

section \<open>auth.py\<close>

record jwt_lib =
  jl_encode :: "(string, json) pydict \<Rightarrow> string \<Rightarrow> string"
  jl_decode :: "int \<Rightarrow> string \<Rightarrow> string \<Rightarrow> (string, json) pydict result"

text \<open>\<open>jl_decode now token key\<close>. A token that was signed with the key decodes to its claims
  before its \<open>exp\<close> and raises \<open>ExpiredSignatureError\<close> from then on.\<close>

definition token_claims :: "string \<Rightarrow> role \<Rightarrow> int \<Rightarrow> (string, json) pydict" where
  "token_claims username rl expires =
     [(''sub'', JStr username), (''role'', JStr (role_value rl)), (''exp'', JInt expires)]"

definition jwt_ok :: "jwt_lib \<Rightarrow> bool" where
  "jwt_ok jwt \<longleftrightarrow> (\<forall>u rl e key now. jl_decode jwt now (jl_encode jwt (token_claims u rl e) key) key =
     (if e \<le> now then Inl JwtExpired else Inr (token_claims u rl e)))"

record bcrypt_lib =
  bl_hashpw :: "string \<Rightarrow> string \<Rightarrow> string"
  bl_checkpw :: "string \<Rightarrow> string \<Rightarrow> bool"

text \<open>\<open>bl_hashpw salt password\<close>; a password checks against every hash of it.\<close>

definition bcrypt_ok :: "bcrypt_lib \<Rightarrow> bool" where
  "bcrypt_ok bc \<longleftrightarrow> (\<forall>salt p. bl_checkpw bc p (bl_hashpw bc salt p))"

definition hash_password :: "bcrypt_lib \<Rightarrow> string \<Rightarrow> string \<Rightarrow> string" where
  "hash_password bc salt plain_password = bl_hashpw bc salt plain_password"

definition verify_password :: "bcrypt_lib \<Rightarrow> string \<Rightarrow> string \<Rightarrow> bool" where
  "verify_password bc plain_password hashed_password = bl_checkpw bc plain_password hashed_password"

definition create_token :: "jwt_lib \<Rightarrow> settings \<Rightarrow> int \<Rightarrow> user_spec \<Rightarrow> string" where
  "create_token jwt cfg now user =
     jl_encode jwt (token_claims (us_username user) (us_role user) (now + 3600 * cfg_jwt_expiry_hours cfg))
       (cfg_jwt_secret cfg)"

text \<open>\<open>decoded[key]\<close> raises \<open>KeyError\<close>, \<open>Role(...)\<close> raises \<open>ValueError\<close>, and so does the
  validation of \<open>TokenPayload\<close>.\<close>

definition decode_token :: "jwt_lib \<Rightarrow> settings \<Rightarrow> int \<Rightarrow> string \<Rightarrow> token_payload result" where
  "decode_token jwt cfg now token = bind_r (jl_decode jwt now token (cfg_jwt_secret cfg)) (\<lambda>decoded.
     case dict_get decoded ''sub'' of None \<Rightarrow> Inl (KeyError ''sub'') | Some sub \<Rightarrow>
     case dict_get decoded ''role'' of None \<Rightarrow> Inl (KeyError ''role'') | Some rl \<Rightarrow>
     case (case rl of JStr s \<Rightarrow> role_of_value s | _ \<Rightarrow> None) of
       None \<Rightarrow> Inl (ValueError ''Role'') | Some r \<Rightarrow>
     case dict_get decoded ''exp'' of None \<Rightarrow> Inl (KeyError ''exp'') | Some ex \<Rightarrow>
     case (sub, ex) of
       (JStr u, JInt e) \<Rightarrow> Inr \<lparr>tp_sub = u, tp_role = r, tp_exp = e\<rparr>
     | _ \<Rightarrow> Inl (ValueError ''TokenPayload''))"

definition make_default_admin :: "bcrypt_lib \<Rightarrow> settings \<Rightarrow> string \<Rightarrow> user_spec" where
  "make_default_admin bc cfg salt = \<lparr>us_username = cfg_default_admin_username cfg, us_role = ADMIN,
     us_password_hash = hash_password bc salt (cfg_default_admin_password cfg)\<rparr>"

section \<open>middleware.py\<close>

definition get_current_user :: "jwt_lib \<Rightarrow> settings \<Rightarrow> int \<Rightarrow> string \<Rightarrow> user_spec result" where
  "get_current_user jwt cfg now token = (case decode_token jwt cfg now token of
     Inl JwtExpired \<Rightarrow> Inl (HTTPException 401 ''Token expired'')
   | Inl JwtInvalid \<Rightarrow> Inl (HTTPException 401 ''Invalid token'')
   | Inl e \<Rightarrow> Inl e
   | Inr p \<Rightarrow> Inr \<lparr>us_username = tp_sub p, us_role = tp_role p, us_password_hash = []\<rparr>)"

definition require_role :: "jwt_lib \<Rightarrow> settings \<Rightarrow> int \<Rightarrow> role \<Rightarrow> string \<Rightarrow> user_spec result" where
  "require_role jwt cfg now minimum_role token =
     bind_r (get_current_user jwt cfg now token) (\<lambda>current_user.
       if has_minimum_role (us_role current_user) minimum_role then Inr current_user
       else Inl (HTTPException 403 (''Requires '' @ role_value minimum_role @ '' role or higher'')))"

text \<open>An endpoint with the dependency \<open>dep\<close>: its body runs for the user the dependency returns.\<close>

definition endpoint :: "user_spec result \<Rightarrow> (user_spec \<Rightarrow> ('s, 'a) prog) \<Rightarrow> ('s, 'a) prog" where
  "endpoint dep body = (case dep of Inl e \<Rightarrow> raise e | Inr u \<Rightarrow> body u)"

lemma endpoint_simps [simp]: "endpoint (Inl e) body = raise e" "endpoint (Inr u) body = body u"
  by (simp_all add: endpoint_def)

lemma preserves_endpoint [preserves_rules]:
  "(\<And>u. preserves I (body u)) \<Longrightarrow> preserves I (endpoint dep body)"
  by (cases dep) (auto intro: preserves_rules)

section \<open>api/iam.py\<close>

definition login :: "jwt_lib \<Rightarrow> bcrypt_lib \<Rightarrow> settings \<Rightarrow> int \<Rightarrow> ('s, user_spec) store_ops
    \<Rightarrow> string \<Rightarrow> string \<Rightarrow> ('s, string) prog" where
  "login jwt bc cfg now users username password = bind_p (so_get users username) (\<lambda>found.
     case found of
       None \<Rightarrow> raise (HTTPException 401 ''Invalid username or password'')
     | Some user \<Rightarrow> if verify_password bc password (us_password_hash user)
                    then ret (create_token jwt cfg now user)
                    else raise (HTTPException 401 ''Invalid username or password''))"

definition get_me :: "jwt_lib \<Rightarrow> settings \<Rightarrow> int \<Rightarrow> string \<Rightarrow> ('s, user_spec) prog" where
  "get_me jwt cfg now token = endpoint (get_current_user jwt cfg now token) ret"

definition list_users :: "jwt_lib \<Rightarrow> settings \<Rightarrow> int \<Rightarrow> ('s, user_spec) store_ops \<Rightarrow> string
    \<Rightarrow> ('s, user_spec list) prog" where
  "list_users jwt cfg now users token = endpoint (require_role jwt cfg now ADMIN token) (\<lambda>_. so_list users)"

definition create_user :: "jwt_lib \<Rightarrow> bcrypt_lib \<Rightarrow> settings \<Rightarrow> int \<Rightarrow> string \<Rightarrow> ('s, user_spec) store_ops
    \<Rightarrow> string \<Rightarrow> string \<Rightarrow> string \<Rightarrow> role \<Rightarrow> ('s, user_spec) prog" where
  "create_user jwt bc cfg now salt users token username password rl =
     endpoint (require_role jwt cfg now ADMIN token) (\<lambda>_.
       bind_p (so_exists users username) (\<lambda>found.
         if found then raise (HTTPException 409 (''User '' @ quoted username @ '' already exists''))
         else (let user = \<lparr>us_username = username, us_role = rl,
                          us_password_hash = hash_password bc salt password\<rparr>
               in bind_p (so_put users username user) (\<lambda>_. ret user))))"

definition delete_user :: "jwt_lib \<Rightarrow> settings \<Rightarrow> int \<Rightarrow> ('s, user_spec) store_ops \<Rightarrow> string \<Rightarrow> string
    \<Rightarrow> ('s, unit) prog" where
  "delete_user jwt cfg now users token username =
     endpoint (require_role jwt cfg now ADMIN token) (\<lambda>current_user.
       if username = us_username current_user
       then raise (HTTPException 400 ''Cannot delete your own account'')
       else bind_p (so_exists users username) (\<lambda>found.
         if \<not> found then raise (HTTPException 404 ''User not found'')
         else so_delete users username))"

text \<open>\<open>_seed_default_admin\<close> of the control plane's start-up.\<close>

definition seed_default_admin :: "bcrypt_lib \<Rightarrow> settings \<Rightarrow> string \<Rightarrow> ('s, user_spec) store_ops \<Rightarrow> ('s, unit) prog" where
  "seed_default_admin bc cfg salt users = bind_p (so_exists users (cfg_default_admin_username cfg)) (\<lambda>found.
     if found then ret ()
     else (let admin = make_default_admin bc cfg salt in so_put users (us_username admin) admin))"

section \<open>Lemmas\<close>

lemma decode_create_token:
  "jwt_ok jwt \<Longrightarrow> decode_token jwt cfg now' (create_token jwt cfg now user) =
     (if now + 3600 * cfg_jwt_expiry_hours cfg \<le> now' then Inl JwtExpired
      else Inr \<lparr>tp_sub = us_username user, tp_role = us_role user,
               tp_exp = now + 3600 * cfg_jwt_expiry_hours cfg\<rparr>)"
  by (simp add: decode_token_def create_token_def jwt_ok_def) (simp add: token_claims_def)

lemma current_user_of_token:
  "jwt_ok jwt \<Longrightarrow> get_current_user jwt cfg now' (create_token jwt cfg now user) =
     (if now + 3600 * cfg_jwt_expiry_hours cfg \<le> now' then Inl (HTTPException 401 ''Token expired'')
      else Inr \<lparr>us_username = us_username user, us_role = us_role user, us_password_hash = []\<rparr>)"
  by (simp add: get_current_user_def decode_create_token)

lemma require_role_of_token:
  "jwt_ok jwt \<Longrightarrow> now' < now + 3600 * cfg_jwt_expiry_hours cfg \<Longrightarrow>
    require_role jwt cfg now' m (create_token jwt cfg now user) =
      (if m \<le> us_role user then Inr \<lparr>us_username = us_username user, us_role = us_role user, us_password_hash = []\<rparr>
       else Inl (HTTPException 403 (''Requires '' @ role_value m @ '' role or higher'')))"
  by (simp add: require_role_def current_user_of_token has_minimum_role_le)

locale user_store = any_store st view inv
  for st :: "('s, user_spec) store_ops" and view and inv
begin

lemma login_correct:
  assumes "inv s" "view s name = Some user" "verify_password bc password (us_password_hash user)"
  shows "fst (login jwt bc cfg now st name password s) = Inr (create_token jwt cfg now user)"
  using assms get_law [of s name] by (auto simp: login_def bind_p_def ret_def)

lemma login_wrong:
  assumes "inv s" "view s name = None \<or> (\<exists>user. view s name = Some user \<and> \<not> verify_password bc password (us_password_hash user))"
  shows "fst (login jwt bc cfg now st name password s) = Inl (HTTPException 401 ''Invalid username or password'')"
  using assms get_law [of s name] by (auto simp: login_def bind_p_def raise_def)

lemma create_user_effect:
  assumes "inv s" "require_role jwt cfg now ADMIN token = Inr u" "view s name = None"
  shows "\<exists>s'. create_user jwt bc cfg now salt st token name password rl s =
      (Inr \<lparr>us_username = name, us_role = rl, us_password_hash = hash_password bc salt password\<rparr>, s')
    \<and> inv s' \<and> view s' = (view s)(name \<mapsto> \<lparr>us_username = name, us_role = rl, us_password_hash = hash_password bc salt password\<rparr>)"
proof -
  let ?u = "\<lparr>us_username = name, us_role = rl, us_password_hash = hash_password bc salt password\<rparr>"
  obtain s1 where s1: "so_exists st name s = (Inr False, s1)" "inv s1" "view s1 = view s"
    using exists_law [of s name] assms by auto
  obtain s2 where "so_put st name ?u s1 = (Inr (), s2)" "inv s2" "view s2 = (view s1)(name \<mapsto> ?u)"
    using put_law [OF s1(2)] by blast
  with s1 assms(2) show ?thesis by (simp add: create_user_def Let_def bind_p_def ret_def)
qed

lemma delete_user_keeps:
  assumes "inv s" "name = us_username u \<or> name \<noteq> victim" "require_role jwt cfg now ADMIN token = Inr u"
  shows "view (snd (delete_user jwt cfg now st token victim s)) name = view s name"
proof -
  obtain s1 where s1: "so_exists st victim s = (Inr (view s victim \<noteq> None), s1)" "inv s1" "view s1 = view s"
    using exists_law [of s victim] assms by auto
  obtain s2 where "so_delete st victim s1 = (Inr (), s2)" "view s2 = (view s1)(victim := None)"
    using delete_law [OF s1(2)] by blast
  with s1 assms show ?thesis by (auto simp: delete_user_def bind_p_def raise_def)
qed

end

text \<open>The control plane keeps its users in a dictionary-like table.\<close>

abbreviation users_table :: "((string, user_spec) pydict, user_spec) store_ops" where
  "users_table \<equiv> dict_store (\<lambda>d. d) (\<lambda>f. f)"

interpretation users: user_store users_table "\<lambda>d. dict_get d" "\<lambda>d. wf_dict d"
  using field_store.field_any_store [of "\<lambda>d. d" "\<lambda>f. f"] by (simp add: user_store_def field_store_def)

text \<open>A small token format and hash that meet the two contracts: they show that the hypotheses
  can hold.\<close>

definition plain_encode :: "(string, json) pydict \<Rightarrow> string \<Rightarrow> string" where
  "plain_encode claims key = (case claims of
     [(_, JStr u), (_, JStr r), (_, JInt e)] \<Rightarrow>
       (if e < 0 then CHR ''-'' else CHR ''+'') # replicate (nat \<bar>e\<bar>) CHR ''1'' @ CHR ''.'' # hd r # u
   | _ \<Rightarrow> [])"

definition plain_decode :: "int \<Rightarrow> string \<Rightarrow> string \<Rightarrow> (string, json) pydict result" where
  "plain_decode now token key = (case token of
     [] \<Rightarrow> Inl JwtInvalid
   | sg # rest \<Rightarrow>
       (let n = int (length (takeWhile (\<lambda>c. c = CHR ''1'') rest));
            e = (if sg = CHR ''-'' then - n else n) in
        case dropWhile (\<lambda>c. c = CHR ''1'') rest of
          _ # r # u \<Rightarrow> if e \<le> now then Inl JwtExpired
            else Inr (token_claims u (if r = CHR ''a'' then ADMIN else if r = CHR ''d'' then DEVELOPER else VIEWER) e)
        | _ \<Rightarrow> Inl JwtInvalid))"

definition plain_jwt :: jwt_lib where
  "plain_jwt = \<lparr>jl_encode = plain_encode, jl_decode = plain_decode\<rparr>"

definition plain_bcrypt :: bcrypt_lib where
  "plain_bcrypt = \<lparr>bl_hashpw = (\<lambda>salt p. salt @ p), bl_checkpw = (\<lambda>p h. drop (length h - length p) h = p)\<rparr>"

lemma run_of_ones: "takeWhile (\<lambda>c. c = CHR ''1'') (replicate n CHR ''1'' @ CHR ''.'' # xs) = replicate n CHR ''1''"
  "dropWhile (\<lambda>c. c = CHR ''1'') (replicate n CHR ''1'' @ CHR ''.'' # xs) = CHR ''.'' # xs"
  by (induction n) auto

lemma plain_jwt_ok: "jwt_ok plain_jwt"
proof -
  have "plain_decode now (plain_encode (token_claims u rl e) key) key =
      (if e \<le> now then Inl JwtExpired else Inr (token_claims u rl e))" for u rl e key now
    by (cases rl) (simp_all add: plain_encode_def plain_decode_def token_claims_def Let_def run_of_ones)
  then show ?thesis by (simp add: jwt_ok_def plain_jwt_def)
qed

lemma plain_bcrypt_ok: "bcrypt_ok plain_bcrypt"
  by (simp add: bcrypt_ok_def plain_bcrypt_def)

section \<open>Properties\<close>

text \<open>C37. What a token grants: \<open>require_role\<close> on a token made for \<open>user\<close> at time \<open>now\<close> answers
  401 from its expiry on, before that 403 when the user's role is below the required one, and the
  user otherwise.\<close>

theorem token_grants_role:
  assumes "jwt_ok jwt"
  shows "require_role jwt cfg now' minimum (create_token jwt cfg now user) =
    (if now + 3600 * cfg_jwt_expiry_hours cfg \<le> now' then Inl (HTTPException 401 ''Token expired'')
     else if role_level (us_role user) < role_level minimum
       then Inl (HTTPException 403 (''Requires '' @ role_value minimum @ '' role or higher''))
     else Inr \<lparr>us_username = us_username user, us_role = us_role user, us_password_hash = []\<rparr>)"
  using assms by (simp add: require_role_def current_user_of_token has_minimum_role_def)

theorem token_grants_role_witness:
  "require_role plain_jwt default_settings 1086399 DEVELOPER
     (create_token plain_jwt default_settings 1000000
       \<lparr>us_username = ''ann'', us_role = VIEWER, us_password_hash = ''h''\<rparr>) =
   Inl (HTTPException 403 ''Requires developer role or higher'')"
  using token_grants_role [OF plain_jwt_ok, of default_settings 1086399 DEVELOPER 1000000
    "\<lparr>us_username = ''ann'', us_role = VIEWER, us_password_hash = ''h''\<rparr>"]
  by (simp add: default_settings_def)

text \<open>A created account works: when an administrator creates a user whose name is free, the
  new user logs in with the password they were created with, and the token they get identifies
  them with the role they were given.\<close>

theorem created_user_logs_in:
  assumes "jwt_ok jwt" "bcrypt_ok bc" "wf_dict table" "dict_get table name = None"
    and "require_role jwt cfg now ADMIN admin_token = Inr admin" "0 < cfg_jwt_expiry_hours cfg"
    and "snd (create_user jwt bc cfg now salt users_table admin_token name password rl table) = table'"
  shows "\<exists>token. fst (login jwt bc cfg now users_table name password table') = Inr token
    \<and> get_current_user jwt cfg now token = Inr \<lparr>us_username = name, us_role = rl, us_password_hash = []\<rparr>"
proof -
  let ?u = "\<lparr>us_username = name, us_role = rl, us_password_hash = hash_password bc salt password\<rparr>"
  have t': "wf_dict table'" "dict_get table' name = Some ?u"
    using users.create_user_effect [OF assms(3,5,4), of bc salt password rl] assms(7)
    by (auto simp: fun_eq_iff)
  have "verify_password bc password (us_password_hash ?u)"
    using assms(2) by (simp add: verify_password_def hash_password_def bcrypt_ok_def)
  then show ?thesis
    using users.login_correct [OF t'] assms(1,6) by (simp add: current_user_of_token)
qed

theorem created_user_logs_in_witness:
  "\<exists>token. fst (login plain_jwt plain_bcrypt default_settings 5 users_table ''bob'' ''pw''
       (snd (create_user plain_jwt plain_bcrypt default_settings 5 ''s'' users_table
          (create_token plain_jwt default_settings 0 \<lparr>us_username = ''root'', us_role = ADMIN, us_password_hash = []\<rparr>)
          ''bob'' ''pw'' DEVELOPER []))) = Inr token
    \<and> get_current_user plain_jwt default_settings 5 token
        = Inr \<lparr>us_username = ''bob'', us_role = DEVELOPER, us_password_hash = []\<rparr>"
  by (rule created_user_logs_in [OF plain_jwt_ok plain_bcrypt_ok _ _ _ _ refl])
    (simp_all add: require_role_of_token [OF plain_jwt_ok] less_eq_role_def default_settings_def)

end
