(* ===== verification/Autoscale.thy ===== *)
theory Autoscale
  imports Stores
begin

text \<open>
  The autoscaler of \<open>aws_light/autoscaler/\<close>: the metrics collector and the evaluation of the
  services. The readings of Redis are a parameter: for a service its average CPU and its request
  count, when there are any. The state holds the store of services, the counters of quiet
  evaluations, the last published decisions, the last request counts, and the calls of
  \<open>event_bus.publish\<close> in order.
\<close>

section \<open>metrics_collector.py\<close>

record service_metrics =
  sm_cpu :: pyfloat
  sm_rps :: pyfloat

record readings =
  rd_cpu :: "string \<Rightarrow> pyfloat option"
  rd_rps :: "string \<Rightarrow> int option"

text \<open>\<open>float(raw)\<close> and \<open>int(raw)\<close> are the values that were written; a missing key is 0.\<close>

definition collect :: "settings \<Rightarrow> readings \<Rightarrow> string \<Rightarrow> (string, int) pydict
    \<Rightarrow> service_metrics \<times> (string, int) pydict" where
  "collect cfg rd svc last_counts =
     (let average_cpu = (case rd_cpu rd svc of None \<Rightarrow> 0 | Some c \<Rightarrow> c);
          current_count = (case rd_rps rd svc of None \<Rightarrow> 0 | Some n \<Rightarrow> n);
          last_count = dict_get_or last_counts svc current_count;
          delta = max 0 (current_count - last_count)
      in (\<lparr>sm_cpu = average_cpu, sm_rps = int_div delta (cfg_autoscaler_interval_seconds cfg)\<rparr>,
          dict_put svc current_count last_counts))"

section \<open>autoscaler.py\<close>

record 's autoscaler =
  as_store :: 's
  as_counters :: "(string, int) pydict"
  as_decisions :: "(string, string) pydict"
  as_last_counts :: "(string, int) pydict"
  as_published :: "web_socket_event list"

definition as_publish :: "timestamp \<Rightarrow> event_kind \<Rightarrow> (string, json) pydict \<Rightarrow> ('s autoscaler, unit) prog" where
  "as_publish now kind payload = mod_s (\<lambda>a. a\<lparr>as_published := as_published a @
     [\<lparr>ev_kind = kind, ev_timestamp = now, ev_payload = payload\<rparr>]\<rparr>)"

definition as_call :: "('s, 'a) prog \<Rightarrow> ('s autoscaler, 'a) prog" where
  "as_call m a = (case m (as_store a) of (r, s) \<Rightarrow> (r, a\<lparr>as_store := s\<rparr>))"

definition busy :: "settings \<Rightarrow> service_metrics \<Rightarrow> bool" where
  "busy cfg m \<longleftrightarrow> cfg_autoscaler_cpu_scale_up_threshold cfg < sm_cpu m
     \<or> cfg_autoscaler_rps_scale_up_threshold cfg < sm_rps m"

definition quiet :: "settings \<Rightarrow> service_metrics \<Rightarrow> bool" where
  "quiet cfg m \<longleftrightarrow> sm_cpu m < cfg_autoscaler_cpu_scale_down_threshold cfg
     \<and> sm_rps m < cfg_autoscaler_rps_scale_down_threshold cfg"

definition autoscale_decision :: "settings \<Rightarrow> (string, int) pydict \<Rightarrow> service_spec \<Rightarrow> bool \<Rightarrow> bool \<Rightarrow> string" where
  "autoscale_decision cfg counters spec scale_up scale_down_candidate =
     (if scale_up \<and> sp_replicas spec < sp_max_replicas spec then ''scale_up''
      else if scale_up then ''hold_at_max''
      else if scale_down_candidate \<and> sp_min_replicas spec < sp_replicas spec then
        (let consecutive = dict_get_or counters (sp_name spec) 0 + 1;
             required = cfg_autoscaler_scale_down_consecutive_checks cfg
         in if required \<le> consecutive then ''scale_down''
            else ''wait_scale_down_'' @ str_int consecutive @ ''_of_'' @ str_int required)
      else if scale_down_candidate then ''hold_at_min''
      else ''hold'')"

definition publish_evaluation_if_changed :: "settings \<Rightarrow> timestamp \<Rightarrow> service_spec \<Rightarrow> service_metrics
    \<Rightarrow> bool \<Rightarrow> bool \<Rightarrow> string \<Rightarrow> ('s autoscaler, unit) prog" where
  "publish_evaluation_if_changed cfg now spec metrics scale_up scale_down_candidate decision =
     bind_p (get_s (\<lambda>a. dict_get (as_decisions a) (sp_name spec))) (\<lambda>previous.
       if previous = Some decision then ret ()
       else bind_p (mod_s (\<lambda>a. a\<lparr>as_decisions := dict_put (sp_name spec) decision (as_decisions a)\<rparr>)) (\<lambda>_.
         as_publish now AUTOSCALE_EVALUATED
          [(''service_name'', JStr (sp_name spec)), (''current_replicas'', JInt (sp_replicas spec)),
           (''min_replicas'', JInt (sp_min_replicas spec)), (''max_replicas'', JInt (sp_max_replicas spec)),
           (''average_cpu_percent'', JFloat (sm_cpu metrics)), (''requests_per_second'', JFloat (sm_rps metrics)),
           (''scale_up_threshold_cpu'', JFloat (cfg_autoscaler_cpu_scale_up_threshold cfg)),
           (''scale_up_threshold_rps'', JFloat (cfg_autoscaler_rps_scale_up_threshold cfg)),
           (''scale_down_threshold_cpu'', JFloat (cfg_autoscaler_cpu_scale_down_threshold cfg)),
           (''scale_down_threshold_rps'', JFloat (cfg_autoscaler_rps_scale_down_threshold cfg)),
           (''scale_up_candidate'', JBool scale_up), (''scale_down_candidate'', JBool scale_down_candidate),
           (''decision'', JStr decision)]))"

definition apply_scale :: "('s, service_state) store_ops \<Rightarrow> timestamp \<Rightarrow> service_spec \<Rightarrow> int \<Rightarrow> string
    \<Rightarrow> service_metrics \<Rightarrow> ('s autoscaler, unit) prog" where
  "apply_scale st now spec new_replica_count reason metrics =
     bind_p (as_call (so_get st (sp_name spec))) (\<lambda>found. case found of
       None \<Rightarrow> ret ()
     | Some refreshed \<Rightarrow>
         bind_p (as_call (so_put st (sp_name spec) (refreshed\<lparr>
             ss_spec := (ss_spec refreshed)\<lparr>sp_replicas := new_replica_count\<rparr>, ss_updated_at := now\<rparr>))) (\<lambda>_.
         as_publish now AUTOSCALE_TRIGGERED
           [(''service_name'', JStr (sp_name spec)), (''from_replicas'', JInt (sp_replicas spec)),
            (''to_replicas'', JInt new_replica_count), (''reason'', JStr reason),
            (''average_cpu_percent'', JFloat (sm_cpu metrics)), (''requests_per_second'', JFloat (sm_rps metrics))]))"

definition evaluate_service :: "('s, service_state) store_ops \<Rightarrow> settings \<Rightarrow> timestamp \<Rightarrow> readings
    \<Rightarrow> service_state \<Rightarrow> ('s autoscaler, unit) prog" where
  "evaluate_service st cfg now rd service_state =
    (let spec = ss_spec service_state; svc = sp_name spec; current = sp_replicas spec in
     bind_p (get_s (\<lambda>a. fst (collect cfg rd svc (as_last_counts a)))) (\<lambda>metrics.
     bind_p (mod_s (\<lambda>a. a\<lparr>as_last_counts := snd (collect cfg rd svc (as_last_counts a))\<rparr>)) (\<lambda>_.
     (let scale_up = busy cfg metrics; candidate = quiet cfg metrics in
     bind_p (get_s (\<lambda>a. autoscale_decision cfg (as_counters a) spec scale_up candidate)) (\<lambda>decision.
     bind_p (publish_evaluation_if_changed cfg now spec metrics scale_up candidate decision) (\<lambda>_.
     if scale_up \<and> current < sp_max_replicas spec then
       bind_p (mod_s (\<lambda>a. a\<lparr>as_counters := dict_pop svc (as_counters a)\<rparr>)) (\<lambda>_.
         apply_scale st now spec (min (current + 1) (sp_max_replicas spec)) ''scale_up'' metrics)
     else if candidate \<and> sp_min_replicas spec < current then
       bind_p (get_s (\<lambda>a. dict_get_or (as_counters a) svc 0 + 1)) (\<lambda>consecutive.
       bind_p (mod_s (\<lambda>a. a\<lparr>as_counters := dict_put svc consecutive (as_counters a)\<rparr>)) (\<lambda>_.
         when_p (cfg_autoscaler_scale_down_consecutive_checks cfg \<le> consecutive)
           (bind_p (mod_s (\<lambda>a. a\<lparr>as_counters := dict_pop svc (as_counters a)\<rparr>)) (\<lambda>_.
             apply_scale st now spec (max (current - 1) (sp_min_replicas spec)) ''scale_down'' metrics))))
     else mod_s (\<lambda>a. a\<lparr>as_counters := dict_pop svc (as_counters a)\<rparr>)))))))"

definition evaluate_all_services :: "('s, service_state) store_ops \<Rightarrow> settings \<Rightarrow> timestamp \<Rightarrow> readings
    \<Rightarrow> ('s autoscaler, unit) prog" where
  "evaluate_all_services st cfg now rd = bind_p (as_call (so_list st)) (\<lambda>all_services.
     for_p all_services (\<lambda>service_state.
       if sp_min_replicas (ss_spec service_state) = sp_max_replicas (ss_spec service_state) then ret ()
       else evaluate_service st cfg now rd service_state))"

section \<open>One service\<close>

text \<open>
  What the autoscaler knows of a service: its stored state, its counter and its last request
  count; and what one evaluation makes of it, whatever the other services are.
\<close>

type_synonym service_view = "service_state option \<times> int option \<times> int option"

definition or_zero :: "int option \<Rightarrow> int" where
  "or_zero x = (case x of None \<Rightarrow> 0 | Some n \<Rightarrow> n)"

definition metrics_of :: "settings \<Rightarrow> readings \<Rightarrow> string \<Rightarrow> int option \<Rightarrow> service_metrics" where
  "metrics_of cfg rd k lo = \<lparr>sm_cpu = (case rd_cpu rd k of None \<Rightarrow> 0 | Some c \<Rightarrow> c),
     sm_rps = int_div (max 0 (or_zero (rd_rps rd k) - (case lo of None \<Rightarrow> or_zero (rd_rps rd k) | Some n \<Rightarrow> n)))
       (cfg_autoscaler_interval_seconds cfg)\<rparr>"

definition resize :: "timestamp \<Rightarrow> int \<Rightarrow> service_state \<Rightarrow> service_state" where
  "resize now n s = s\<lparr>ss_spec := (ss_spec s)\<lparr>sp_replicas := n\<rparr>, ss_updated_at := now\<rparr>"

definition eval_view :: "settings \<Rightarrow> timestamp \<Rightarrow> readings \<Rightarrow> string \<Rightarrow> service_view \<Rightarrow> service_view" where
  "eval_view cfg now rd k v = (case v of
     (None, co, lo) \<Rightarrow> (None, co, lo)
   | (Some s, co, lo) \<Rightarrow>
      (let spec = ss_spec s; r = sp_replicas spec; m = metrics_of cfg rd k lo; cur = Some (or_zero (rd_rps rd k)) in
       if sp_min_replicas spec = sp_max_replicas spec then (Some s, co, lo)
       else if busy cfg m \<and> r < sp_max_replicas spec
         then (Some (resize now (min (r + 1) (sp_max_replicas spec)) s), None, cur)
       else if quiet cfg m \<and> sp_min_replicas spec < r then
         (if cfg_autoscaler_scale_down_consecutive_checks cfg \<le> or_zero co + 1
          then (Some (resize now (max (r - 1) (sp_min_replicas spec)) s), None, cur)
          else (Some s, Some (or_zero co + 1), cur))
       else (Some s, None, cur)))"

abbreviation services_table :: "((string, service_state) pydict, service_state) store_ops" where
  "services_table \<equiv> dict_store (\<lambda>d. d) (\<lambda>f. f)"

type_synonym table_autoscaler = "(string, service_state) pydict autoscaler"

definition svc_view :: "string \<Rightarrow> table_autoscaler \<Rightarrow> service_view" where
  "svc_view k a = (dict_get (as_store a) k, dict_get (as_counters a) k, dict_get (as_last_counts a) k)"

text \<open>The store keeps every service under its name.\<close>

definition named :: "(string, service_state) pydict \<Rightarrow> bool" where
  "named d \<longleftrightarrow> wf_dict d \<and> (\<forall>k s. dict_get d k = Some s \<longrightarrow> sp_name (ss_spec s) = k)"

lemma table_ops [simp]:
  "so_get services_table k d = (Inr (dict_get d k), d)"
  "so_put services_table k v d = (Inr (), dict_put k v d)"
  "so_list services_table d = (Inr (dict_values d), d)"
  by (simp_all add: dict_store_def get_s_def mod_s_def)

lemma collect_view:
  "fst (collect cfg rd k counts) = metrics_of cfg rd k (dict_get counts k)"
  "snd (collect cfg rd k counts) = dict_put k (or_zero (rd_rps rd k)) counts"
  by (auto simp: collect_def metrics_of_def or_zero_def dict_get_or_def Let_def split: option.splits)

lemma publish_evaluation_run:
  "\<exists>ds ps. publish_evaluation_if_changed cfg now spec m up down decision a =
    (Inr (), a\<lparr>as_decisions := ds, as_published := ps\<rparr>)"
proof (cases "dict_get (as_decisions a) (sp_name spec) = Some decision")
  case True
  then have "publish_evaluation_if_changed cfg now spec m up down decision a =
      (Inr (), a\<lparr>as_decisions := as_decisions a, as_published := as_published a\<rparr>)"
    by (simp add: publish_evaluation_if_changed_def prog_defs)
  then show ?thesis by blast
next
  case False
  then show ?thesis
    by (auto simp: publish_evaluation_if_changed_def prog_defs as_publish_def intro!: exI)
qed

lemma apply_scale_run:
  assumes "dict_get (as_store a) (sp_name spec) = Some s"
  shows "fst (apply_scale services_table now spec n reason m a) = Inr ()"
    "as_store (snd (apply_scale services_table now spec n reason m a)) = dict_put (sp_name spec) (resize now n s) (as_store a)"
    "as_counters (snd (apply_scale services_table now spec n reason m a)) = as_counters a"
    "as_last_counts (snd (apply_scale services_table now spec n reason m a)) = as_last_counts a"
  using assms by (simp_all add: apply_scale_def as_call_def as_publish_def prog_defs resize_def)

lemma evaluate_service_run:
  assumes "dict_get (as_store a) (sp_name (ss_spec s)) = Some s"
    and "sp_min_replicas (ss_spec s) \<noteq> sp_max_replicas (ss_spec s)"
  shows "fst (evaluate_service services_table cfg now rd s a) = Inr ()"
    "svc_view k (snd (evaluate_service services_table cfg now rd s a)) =
      (if k = sp_name (ss_spec s) then eval_view cfg now rd k (svc_view k a) else svc_view k a)"
    "wf_dict (as_store a) \<Longrightarrow> wf_dict (as_store (snd (evaluate_service services_table cfg now rd s a)))"
proof -
  let ?spec = "ss_spec s" and ?k = "sp_name (ss_spec s)"
  let ?m = "metrics_of cfg rd ?k (dict_get (as_last_counts a) ?k)"
  let ?a1 = "a\<lparr>as_last_counts := dict_put ?k (or_zero (rd_rps rd ?k)) (as_last_counts a)\<rparr>"
  obtain ds ps where pub: "publish_evaluation_if_changed cfg now ?spec ?m (busy cfg ?m) (quiet cfg ?m)
      (autoscale_decision cfg (as_counters a) ?spec (busy cfg ?m) (quiet cfg ?m)) ?a1 =
      (Inr (), ?a1\<lparr>as_decisions := ds, as_published := ps\<rparr>)"
    using publish_evaluation_run by blast
  have c: "dict_get_or (as_counters a) ?k 0 = or_zero (dict_get (as_counters a) ?k)"
    by (simp add: dict_get_or_def or_zero_def)
  note defs = evaluate_service_def Let_def bind_p_def get_s_def mod_s_def ret_def when_p_def collect_view
  show "fst (evaluate_service services_table cfg now rd s a) = Inr ()"
    using assms pub by (simp add: defs apply_scale_run [of _ ?spec s])
  show "svc_view k (snd (evaluate_service services_table cfg now rd s a)) =
      (if k = sp_name (ss_spec s) then eval_view cfg now rd k (svc_view k a) else svc_view k a)"
    using assms pub by (simp add: defs apply_scale_run [of _ ?spec s] svc_view_def eval_view_def c)
  show "wf_dict (as_store a) \<Longrightarrow> wf_dict (as_store (snd (evaluate_service services_table cfg now rd s a)))"
    using assms pub by (simp add: defs apply_scale_run [of _ ?spec s])
qed

section \<open>Passes over the services\<close>

text \<open>One pass evaluates every service by itself.\<close>

lemma svc_view_store: "fst (svc_view k a) = dict_get (as_store a) k"
  by (simp add: svc_view_def)

lemma pass_loop:
  fixes cfg now rd
  defines "step \<equiv> \<lambda>s. if sp_min_replicas (ss_spec s) = sp_max_replicas (ss_spec s) then ret ()
     else evaluate_service services_table cfg now rd s"
  shows "distinct (map (sp_name \<circ> ss_spec) ss) \<Longrightarrow> \<forall>s \<in> set ss. dict_get (as_store a) (sp_name (ss_spec s)) = Some s \<Longrightarrow>
    wf_dict (as_store a) \<Longrightarrow> \<exists>a'. for_p ss step a = (Inr (), a') \<and> wf_dict (as_store a') \<and>
     (\<forall>k. svc_view k a' = (if k \<in> set (map (sp_name \<circ> ss_spec) ss) then eval_view cfg now rd k (svc_view k a) else svc_view k a))"
proof (induction ss arbitrary: a)
  case (Cons s ss)
  let ?k = "sp_name (ss_spec s)" and ?a = "snd (step s a)"
  have s: "dict_get (as_store a) ?k = Some s" using Cons.prems(2) by simp
  have st: "fst (step s a) = Inr ()" "wf_dict (as_store ?a)"
      "svc_view k ?a = (if k = ?k then eval_view cfg now rd k (svc_view k a) else svc_view k a)" for k
  proof -
    have fixed: "eval_view cfg now rd ?k (svc_view ?k a) = svc_view ?k a"
      if "sp_min_replicas (ss_spec s) = sp_max_replicas (ss_spec s)"
      using that s by (simp add: eval_view_def svc_view_def)
    note ev = evaluate_service_run [OF s, where cfg = cfg and now = now and rd = rd]
    show "fst (step s a) = Inr ()" using ev(1) by (simp add: step_def ret_def)
    show "wf_dict (as_store ?a)" using ev(3) Cons.prems(3) by (simp add: step_def ret_def)
    show "svc_view k ?a = (if k = ?k then eval_view cfg now rd k (svc_view k a) else svc_view k a)" for k
      using ev(2) fixed by (auto simp: step_def ret_def)
  qed
  have "dict_get (as_store ?a) (sp_name (ss_spec s')) = Some s'" if "s' \<in> set ss" for s'
    using Cons.prems(1,2) that st(3) [of "sp_name (ss_spec s')"]
    by (metis (no_types, lifting) comp_apply distinct.simps(2) image_eqI list.set_map list.simps(9)
        list.set_intros(2) svc_view_store)
  with Cons.IH [of ?a] st(2) Cons.prems(1) obtain a' where a': "for_p ss step ?a = (Inr (), a')" "wf_dict (as_store a')"
      "\<forall>k. svc_view k a' = (if k \<in> set (map (sp_name \<circ> ss_spec) ss) then eval_view cfg now rd k (svc_view k ?a) else svc_view k ?a)"
    by auto
  have "step s a = (Inr (), ?a)" using st(1) by (metis prod.collapse)
  then have "for_p (s # ss) step a = (Inr (), a')"
    unfolding for_p.simps by (subst bind_p_Inr) (assumption, rule a'(1))
  then show ?case using a'(2,3) st(3) Cons.prems(1) by (auto simp: rev_image_eqI)
qed (simp add: ret_def)

lemma eval_view_named: "fst v = Some s \<Longrightarrow> \<exists>s'. fst (eval_view cfg now rd k v) = Some s'
    \<and> ss_spec s' = (ss_spec s)\<lparr>sp_replicas := sp_replicas (ss_spec s')\<rparr>"
  by (cases v) (auto simp: eval_view_def resize_def Let_def)

lemma pass_run:
  assumes "named (as_store a)"
  shows "\<exists>a'. evaluate_all_services services_table cfg now rd a = (Inr (), a') \<and> named (as_store a')
    \<and> (\<forall>k. svc_view k a' = eval_view cfg now rd k (svc_view k a))"
proof -
  let ?ss = "dict_values (as_store a)"
  have w: "wf_dict (as_store a)" and n: "\<And>k s. (k, s) \<in> set (as_store a) \<Longrightarrow> sp_name (ss_spec s) = k"
    using assms by (auto simp: named_def dict_mem_get)
  have keys: "map (sp_name \<circ> ss_spec) ?ss = dict_keys (as_store a)" using n by auto
  have present: "dict_get (as_store a) (sp_name (ss_spec s)) = Some s" if "s \<in> set ?ss" for s
    using that n w by (auto simp: dict_mem_get)
  obtain a' where a': "evaluate_all_services services_table cfg now rd a = (Inr (), a')" "wf_dict (as_store a')"
      "\<And>k. svc_view k a' = (if k \<in> set (dict_keys (as_store a)) then eval_view cfg now rd k (svc_view k a) else svc_view k a)"
  proof -
    have "\<exists>a'. evaluate_all_services services_table cfg now rd a = (Inr (), a') \<and> wf_dict (as_store a') \<and>
      (\<forall>k. svc_view k a' = (if k \<in> set (dict_keys (as_store a)) then eval_view cfg now rd k (svc_view k a) else svc_view k a))"
      using pass_loop [of ?ss a cfg now rd] w present unfolding keys
      by (simp add: evaluate_all_services_def as_call_def bind_p_def wf_dict_def)
    then show thesis using that by blast
  qed
  have e: "svc_view k a' = eval_view cfg now rd k (svc_view k a)" for k
  proof (cases "k \<in> set (dict_keys (as_store a))")
    case False
    then have "dict_get (as_store a) k = None" by (simp add: map_of_eq_None_iff)
    then have "eval_view cfg now rd k (svc_view k a) = svc_view k a" by (simp add: svc_view_def eval_view_def)
    then show ?thesis using a'(3) False by simp
  qed (use a'(3) in simp)
  have "sp_name (ss_spec s') = k" if "dict_get (as_store a') k = Some s'" for k s'
  proof (cases "dict_get (as_store a) k")
    case None
    then show ?thesis using e [of k] that by (simp add: svc_view_def eval_view_def)
  next
    case (Some s)
    then show ?thesis using eval_view_named [of "svc_view k a" s cfg now rd k] e [of k] that assms
      by (auto simp: svc_view_store named_def)
        (metis Pair_inject service_spec.select_convs(1) service_spec.surjective service_spec.update_convs(3) svc_view_def fst_conv option.inject)+
  qed
  then show ?thesis using a' e by (auto simp: named_def)
qed

text \<open>A run: passes at different times with the readings of the time.\<close>

type_synonym pass_input = "timestamp \<times> readings"

definition autoscale_run :: "settings \<Rightarrow> pass_input list \<Rightarrow> (table_autoscaler, unit) prog" where
  "autoscale_run cfg ps = for_p ps (\<lambda>(now, rd). evaluate_all_services services_table cfg now rd)"

definition view_run :: "settings \<Rightarrow> string \<Rightarrow> pass_input list \<Rightarrow> service_view \<Rightarrow> service_view" where
  "view_run cfg k ps = fold (\<lambda>(now, rd). eval_view cfg now rd k) ps"

lemma autoscale_run_views:
  "named (as_store a) \<Longrightarrow> \<exists>a'. autoscale_run cfg ps a = (Inr (), a') \<and> named (as_store a')
    \<and> (\<forall>k. svc_view k a' = view_run cfg k ps (svc_view k a))"
proof (induction ps arbitrary: a)
  case (Cons p ps)
  obtain now rd where p: "p = (now, rd)" by force
  obtain a1 where a1: "evaluate_all_services services_table cfg now rd a = (Inr (), a1)" "named (as_store a1)"
      "\<And>k. svc_view k a1 = eval_view cfg now rd k (svc_view k a)"
    using pass_run [OF Cons.prems, of cfg now rd] by auto
  from Cons.IH [OF a1(2)] obtain a' where "autoscale_run cfg ps a1 = (Inr (), a')" "named (as_store a')"
      "\<And>k. svc_view k a' = view_run cfg k ps (svc_view k a1)" by auto
  then show ?case using a1 by (auto simp: autoscale_run_def view_run_def p bind_p_Inr)
qed (simp add: autoscale_run_def view_run_def ret_def)

definition replicas_in_bounds :: "service_state \<Rightarrow> bool" where
  "replicas_in_bounds s \<longleftrightarrow> sp_min_replicas (ss_spec s) \<le> sp_replicas (ss_spec s)
     \<and> sp_replicas (ss_spec s) \<le> sp_max_replicas (ss_spec s)"

definition same_but_size :: "service_state \<Rightarrow> service_state \<Rightarrow> bool" where
  "same_but_size s s' \<longleftrightarrow> (ss_spec s)\<lparr>sp_replicas := 0\<rparr> = (ss_spec s')\<lparr>sp_replicas := 0\<rparr>"

lemma same_but_size_trans: "same_but_size s s' \<Longrightarrow> same_but_size s' s'' \<Longrightarrow> same_but_size s s''"
  by (simp add: same_but_size_def)

lemma same_but_size_resize [simp]: "same_but_size s s" "same_but_size s (resize now n s)"
  by (simp_all add: same_but_size_def resize_def)

lemma same_but_size_limits:
  assumes "same_but_size s s'"
  shows "sp_min_replicas (ss_spec s') = sp_min_replicas (ss_spec s)" "sp_max_replicas (ss_spec s') = sp_max_replicas (ss_spec s)"
  using arg_cong [OF assms [unfolded same_but_size_def], of sp_min_replicas]
    arg_cong [OF assms [unfolded same_but_size_def], of sp_max_replicas] by simp_all

lemma eval_view_bounds:
  "fst v = Some s \<Longrightarrow> replicas_in_bounds s \<Longrightarrow>
    \<exists>s'. fst (eval_view cfg now rd k v) = Some s' \<and> replicas_in_bounds s' \<and> same_but_size s s'"
  by (cases v) (auto simp: eval_view_def Let_def replicas_in_bounds_def, auto simp: resize_def)

lemma view_run_bounds:
  "fst v = Some s \<Longrightarrow> replicas_in_bounds s \<Longrightarrow>
    \<exists>s'. fst (view_run cfg k ps v) = Some s' \<and> replicas_in_bounds s' \<and> same_but_size s s'"
proof (induction ps arbitrary: v s)
  case (Cons p ps)
  obtain now rd where p: "p = (now, rd)" by force
  obtain s1 where s1: "fst (eval_view cfg now rd k v) = Some s1" "replicas_in_bounds s1" "same_but_size s s1"
    using eval_view_bounds [OF Cons.prems] by blast
  obtain s' where "fst (view_run cfg k ps (eval_view cfg now rd k v)) = Some s'" "replicas_in_bounds s'" "same_but_size s1 s'"
    using Cons.IH [OF s1(1,2)] by blast
  then show ?case using same_but_size_trans [OF s1(3)] by (auto simp: view_run_def p)
qed (simp add: view_run_def)

text \<open>The metrics a service has in the passes of a run.\<close>

fun metric_trace :: "settings \<Rightarrow> string \<Rightarrow> int option \<Rightarrow> pass_input list \<Rightarrow> service_metrics list" where
  "metric_trace cfg k lo [] = []"
| "metric_trace cfg k lo ((now, rd) # ps) = metrics_of cfg rd k lo # metric_trace cfg k (Some (or_zero (rd_rps rd k))) ps"

text \<open>The counter of a service never exceeds the number of quiet passes at the end of the run.\<close>

definition quiet_tail :: "settings \<Rightarrow> service_metrics list \<Rightarrow> nat" where
  "quiet_tail cfg ms = length (takeWhile (quiet cfg) (rev ms))"

lemma quiet_tail_snoc: "quiet_tail cfg (ms @ [m]) = (if quiet cfg m then Suc (quiet_tail cfg ms) else 0)"
  by (simp add: quiet_tail_def)

lemma quiet_tail_take: "n \<le> quiet_tail cfg ms \<Longrightarrow> \<forall>m \<in> set (drop (length ms - n) ms). quiet cfg m"
proof -
  assume "n \<le> quiet_tail cfg ms"
  then have "take n (rev ms) = take n (takeWhile (quiet cfg) (rev ms))"
    using takeWhile_dropWhile_id [of "quiet cfg" "rev ms"] unfolding quiet_tail_def
    by (metis append.right_neutral diff_is_0_eq take0 take_append)
  moreover have "\<forall>m \<in> set (take n (takeWhile (quiet cfg) (rev ms))). quiet cfg m"
    by (auto dest: in_set_takeD set_takeWhileD)
  ultimately show ?thesis by (metis set_rev take_rev)
qed

lemma eval_view_active:
  "sp_min_replicas (ss_spec s) \<noteq> sp_max_replicas (ss_spec s) \<Longrightarrow>
    \<exists>s1 co1. eval_view cfg now rd k (Some s, co, lo) = (Some s1, co1, Some (or_zero (rd_rps rd k))) \<and> same_but_size s s1"
  by (auto simp: eval_view_def Let_def)

lemma trace_snoc:
  "\<exists>lo'. metric_trace cfg k lo (ps @ [(now, rd)]) = metric_trace cfg k lo ps @ [metrics_of cfg rd k lo']
    \<and> (\<forall>s co. fst (view_run cfg k ps (Some s, co, lo)) \<noteq> None \<longrightarrow>
         sp_min_replicas (ss_spec s) \<noteq> sp_max_replicas (ss_spec s) \<longrightarrow> snd (snd (view_run cfg k ps (Some s, co, lo))) = lo')"
proof (induction ps arbitrary: lo)
  case (Cons p ps)
  obtain now' rd' where p: "p = (now', rd')" by force
  let ?lo = "Some (or_zero (rd_rps rd' k))"
  obtain lo' where lo': "metric_trace cfg k ?lo (ps @ [(now, rd)]) = metric_trace cfg k ?lo ps @ [metrics_of cfg rd k lo']"
     "\<And>s co. fst (view_run cfg k ps (Some s, co, ?lo)) \<noteq> None \<Longrightarrow> sp_min_replicas (ss_spec s) \<noteq> sp_max_replicas (ss_spec s)
        \<Longrightarrow> snd (snd (view_run cfg k ps (Some s, co, ?lo))) = lo'"
    using Cons.IH [of ?lo] by blast
  have "snd (snd (view_run cfg k (p # ps) (Some s, co, lo))) = lo'"
    if a: "fst (view_run cfg k (p # ps) (Some s, co, lo)) \<noteq> None"
      and b: "sp_min_replicas (ss_spec s) \<noteq> sp_max_replicas (ss_spec s)" for s co
  proof -
    obtain s1 co1 where "eval_view cfg now' rd' k (Some s, co, lo) = (Some s1, co1, ?lo)"
        "sp_min_replicas (ss_spec s1) \<noteq> sp_max_replicas (ss_spec s1)"
      using eval_view_active [OF b, of cfg now' rd' k co lo] same_but_size_limits b by metis
    then show ?thesis using lo'(2) [of s1 co1] a by (simp add: view_run_def p)
  qed
  then show ?case using lo'(1) by (intro exI [of _ lo']) (simp add: p)
qed (auto simp: view_run_def)

lemma counter_quiet:
  assumes "sp_min_replicas (ss_spec s) \<noteq> sp_max_replicas (ss_spec s)"
  shows "\<exists>s' co'. view_run cfg k ps (Some s, None, lo) = (Some s', co', snd (snd (view_run cfg k ps (Some s, None, lo))))
    \<and> same_but_size s s' \<and> or_zero co' \<le> int (quiet_tail cfg (metric_trace cfg k lo ps))"
proof (induction ps rule: rev_induct)
  case (snoc p ps)
  obtain now rd where p: "p = (now, rd)" by force
  obtain s1 co1 lo1 where v: "view_run cfg k ps (Some s, None, lo) = (Some s1, co1, lo1)" "same_but_size s s1"
      "or_zero co1 \<le> int (quiet_tail cfg (metric_trace cfg k lo ps))"
    using snoc by blast
  obtain lo' where lo': "metric_trace cfg k lo (ps @ [(now, rd)]) = metric_trace cfg k lo ps @ [metrics_of cfg rd k lo']"
      "snd (snd (view_run cfg k ps (Some s, None, lo))) = lo'"
    using trace_snoc [of cfg k lo ps now rd] assms v(1) by (metis fst_conv option.distinct(1))
  have "lo1 = lo'" using lo'(2) v(1) by simp
  moreover have "view_run cfg k (ps @ [p]) (Some s, None, lo) = eval_view cfg now rd k (Some s1, co1, lo1)"
    using v(1) by (simp add: view_run_def p)
  moreover have "same_but_size s (resize now n s1)" for n using same_but_size_trans [OF v(2)] by simp
  moreover have "sp_min_replicas (ss_spec s1) \<noteq> sp_max_replicas (ss_spec s1)"
    using same_but_size_limits [OF v(2)] assms by simp
  ultimately show ?case using v(2,3) lo'(1)
    by (auto simp: p eval_view_def Let_def quiet_tail_snoc or_zero_def)
qed (simp add: view_run_def or_zero_def quiet_tail_def)

lemma scale_down_quiet:
  assumes "sp_min_replicas (ss_spec s) \<noteq> sp_max_replicas (ss_spec s)"
    and "cfg_autoscaler_scale_down_consecutive_checks cfg = int N"
    and "fst (view_run cfg k ps (Some s, None, lo)) = Some s1"
    and "fst (view_run cfg k (ps @ [p]) (Some s, None, lo)) = Some s2"
    and "sp_replicas (ss_spec s2) < sp_replicas (ss_spec s1)"
  shows "N \<le> quiet_tail cfg (metric_trace cfg k lo (ps @ [p]))"
proof -
  obtain now rd where p: "p = (now, rd)" by force
  obtain co1 lo1 where v: "view_run cfg k ps (Some s, None, lo) = (Some s1, co1, lo1)" "same_but_size s s1"
      "or_zero co1 \<le> int (quiet_tail cfg (metric_trace cfg k lo ps))"
    using counter_quiet [OF assms(1), of cfg k ps lo] assms(3) by (metis fst_conv option.inject)
  obtain lo' where lo': "metric_trace cfg k lo (ps @ [(now, rd)]) = metric_trace cfg k lo ps @ [metrics_of cfg rd k lo']"
      "snd (snd (view_run cfg k ps (Some s, None, lo))) = lo'"
    using trace_snoc [of cfg k lo ps now rd] assms(1) v(1) by (metis fst_conv option.distinct(1))
  have "fst (eval_view cfg now rd k (Some s1, co1, lo')) = Some s2"
    using v(1) lo'(2) assms(4) by (simp add: view_run_def p)
  then show ?thesis using assms(2,5) v(3) lo'(1)
    by (auto simp: p eval_view_def Let_def quiet_tail_snoc resize_def split: if_splits)
qed

section \<open>Properties\<close>

text \<open>C12. The autoscaler respects the limits of a service: when a service starts within
  \<open>min_replicas\<close> and \<open>max_replicas\<close>, it is within them after any run of passes, with any readings,
  and its specification is otherwise as it was.\<close>

theorem autoscaler_within_limits:
  assumes "named (as_store a)" and "dict_get (as_store a) k = Some s"
    and "sp_min_replicas (ss_spec s) \<le> sp_replicas (ss_spec s)" "sp_replicas (ss_spec s) \<le> sp_max_replicas (ss_spec s)"
  shows "\<exists>s'. dict_get (as_store (snd (autoscale_run cfg ps a))) k = Some s'
    \<and> sp_min_replicas (ss_spec s) \<le> sp_replicas (ss_spec s') \<and> sp_replicas (ss_spec s') \<le> sp_max_replicas (ss_spec s)
    \<and> (ss_spec s')\<lparr>sp_replicas := sp_replicas (ss_spec s)\<rparr> = ss_spec s"
proof -
  obtain a' where a': "autoscale_run cfg ps a = (Inr (), a')" "svc_view k a' = view_run cfg k ps (svc_view k a)"
    using autoscale_run_views [OF assms(1), of cfg ps] by blast
  obtain s' where s': "dict_get (as_store a') k = Some s'" "replicas_in_bounds s'" "same_but_size s s'"
    using view_run_bounds [of "svc_view k a" s cfg k ps] assms(2-4) a'(2)
    by (auto simp: svc_view_store replicas_in_bounds_def) (metis svc_view_store)
  have "(ss_spec s')\<lparr>sp_replicas := sp_replicas (ss_spec s)\<rparr> = ss_spec s"
    using arg_cong [OF s'(3) [unfolded same_but_size_def], of "sp_replicas_update (\<lambda>_. sp_replicas (ss_spec s))"] by simp
  then show ?thesis using s' same_but_size_limits [OF s'(3)] a'(1) by (auto simp: replicas_in_bounds_def)
qed

text \<open>A service that may have one to four replicas, and readings that keep it busy or quiet.\<close>

definition demo_scaled :: service_state where
  "demo_scaled = (let s = new_service_state 0 (default_service_spec ''web'' ''img'') in
     s\<lparr>ss_spec := (ss_spec s)\<lparr>sp_replicas := 3, sp_max_replicas := 4\<rparr>\<rparr>)"

definition demo_autoscaler :: table_autoscaler where
  "demo_autoscaler = \<lparr>as_store = [(''web'', demo_scaled)], as_counters = [], as_decisions = [],
     as_last_counts = [], as_published = []\<rparr>"

definition cpu_reading :: "pyfloat \<Rightarrow> readings" where
  "cpu_reading c = \<lparr>rd_cpu = (\<lambda>_. Some c), rd_rps = (\<lambda>_. None)\<rparr>"

lemma demo_autoscaler: "named (as_store demo_autoscaler)" "dict_get (as_store demo_autoscaler) ''web'' = Some demo_scaled"
  by (auto simp: demo_autoscaler_def named_def demo_scaled_def default_service_spec_def new_service_state_def wf_dict_def
      Let_def split: if_splits)

theorem autoscaler_within_limits_witness:
  "\<exists>s'. dict_get (as_store (snd (autoscale_run default_settings
      [(0, cpu_reading 90), (10, cpu_reading 90), (20, cpu_reading 90)] demo_autoscaler))) ''web'' = Some s'
    \<and> 1 \<le> sp_replicas (ss_spec s') \<and> sp_replicas (ss_spec s') \<le> 4"
  using autoscaler_within_limits [OF demo_autoscaler, of default_settings
      "[(0, cpu_reading 90), (10, cpu_reading 90), (20, cpu_reading 90)]"]
  by (auto simp: demo_scaled_def default_service_spec_def new_service_state_def Let_def)

text \<open>C31. Scaling down waits: when the last pass of a run of a new autoscaler lowers the replicas of a
  service, the metrics of the service were below both scale-down thresholds in each of the last
  \<open>N\<close> passes, where \<open>N\<close> is \<open>autoscaler_scale_down_consecutive_checks\<close>.\<close>

theorem scale_down_after_quiet_passes:
  assumes "named (as_store a)" and "as_counters a = []" "as_last_counts a = []"
    and "cfg_autoscaler_scale_down_consecutive_checks cfg = int N"
    and "dict_get (as_store (snd (autoscale_run cfg ps a))) k = Some s1"
    and "dict_get (as_store (snd (autoscale_run cfg (ps @ [p]) a))) k = Some s2"
    and "sp_replicas (ss_spec s2) < sp_replicas (ss_spec s1)"
  shows "let ms = metric_trace cfg k None (ps @ [p]) in
    N \<le> length ms \<and> (\<forall>m \<in> set (drop (length ms - N) ms). quiet cfg m)"
proof -
  have v: "dict_get (as_store (snd (autoscale_run cfg qs a))) k = fst (view_run cfg k qs (dict_get (as_store a) k, None, None))" for qs
    using autoscale_run_views [OF assms(1), of cfg qs] assms(2,3) by (auto simp: svc_view_def) (metis fst_conv svc_view_def)
  have none: "view_run cfg k qs (None, None, None) = (None, None, None)" for qs
    by (induction qs rule: rev_induct) (auto simp: view_run_def eval_view_def)
  have fixed: "view_run cfg k qs (Some s, None, None) = (Some s, None, None)"
    if "sp_min_replicas (ss_spec s) = sp_max_replicas (ss_spec s)" for s qs
    using that by (induction qs rule: rev_induct) (auto simp: view_run_def eval_view_def)
  obtain s where s: "dict_get (as_store a) k = Some s"
    using v [of ps] assms(5) none by (cases "dict_get (as_store a) k") auto
  have "sp_min_replicas (ss_spec s) \<noteq> sp_max_replicas (ss_spec s)"
    using fixed [of s ps] fixed [of s "ps @ [p]"] v [of ps] v [of "ps @ [p]"] assms(5-7) s by auto
  then have q: "N \<le> quiet_tail cfg (metric_trace cfg k None (ps @ [p]))"
    using scale_down_quiet [OF _ assms(4), of s k ps None s1 p s2] v [of ps] v [of "ps @ [p]"] assms(5-7) s by simp
  then have "N \<le> length (metric_trace cfg k None (ps @ [p]))"
    using le_trans [OF q] length_takeWhile_le [of "quiet cfg" "rev (metric_trace cfg k None (ps @ [p]))"]
    by (simp add: quiet_tail_def)
  then show ?thesis using quiet_tail_take [OF q] by (simp add: Let_def)
qed

lemma demo_run_store:
  "dict_get (as_store (snd (autoscale_run cfg ps demo_autoscaler))) ''web'' = fst (view_run cfg ''web'' ps (Some demo_scaled, None, None))"
proof -
  have "svc_view ''web'' demo_autoscaler = (Some demo_scaled, None, None)"
    by (simp add: svc_view_def demo_autoscaler_def)
  then show ?thesis using autoscale_run_views [OF demo_autoscaler(1), of cfg ps] svc_view_store by (metis snd_conv)
qed

theorem scale_down_after_quiet_passes_witness:
  "let ms = metric_trace default_settings ''web'' None ([(0, cpu_reading 5)] @ [(10, cpu_reading 5)]) in
    2 \<le> length ms \<and> (\<forall>m \<in> set (drop (length ms - 2) ms). quiet default_settings m)"
proof -
  have m: "metrics_of default_settings (cpu_reading 5) ''web'' lo = \<lparr>sm_cpu = 5, sm_rps = 0\<rparr>" if "lo \<in> {None, Some 0}" for lo
    using that by (auto simp: metrics_of_def cpu_reading_def or_zero_def default_settings_def int_div_def)
  have q: "\<not> busy default_settings \<lparr>sm_cpu = 5, sm_rps = 0\<rparr>" "quiet default_settings \<lparr>sm_cpu = 5, sm_rps = 0\<rparr>"
    by (simp_all add: busy_def quiet_def default_settings_def)
  have d: "sp_min_replicas (ss_spec demo_scaled) = 1" "sp_max_replicas (ss_spec demo_scaled) = 4"
      "sp_replicas (ss_spec demo_scaled) = 3" "rd_rps (cpu_reading 5) ''web'' = None"
      "cfg_autoscaler_scale_down_consecutive_checks default_settings = 2"
    by (simp_all add: demo_scaled_def default_service_spec_def new_service_state_def Let_def cpu_reading_def default_settings_def)
  have 1: "fst (view_run default_settings ''web'' [(0, cpu_reading 5)] (Some demo_scaled, None, None)) = Some demo_scaled"
    by (simp add: view_run_def eval_view_def m q d or_zero_def Let_def)
  have 2: "fst (view_run default_settings ''web'' ([(0, cpu_reading 5)] @ [(10, cpu_reading 5)]) (Some demo_scaled, None, None))
      = Some (resize 10 2 demo_scaled)"
    by (simp add: view_run_def eval_view_def m q d or_zero_def Let_def)
  show ?thesis
    by (rule scale_down_after_quiet_passes [OF demo_autoscaler(1), of default_settings 2 "[(0, cpu_reading 5)]" "''web''"
          demo_scaled "(10, cpu_reading 5)" "resize 10 2 demo_scaled"])
      (simp_all only: demo_run_store 1 2,
       simp_all add: demo_autoscaler_def d resize_def)
qed

end
