(* ===== verification/Routing.thy ===== *)
theory Routing
  imports Models "HOL-Library.Multiset"
begin

text \<open>
  Routing of requests to replicas: the routing table of \<open>aws_light/proxy/routing_table.py\<close>, its
  Redis variant of \<open>aws_light/proxy/redis_routing_table.py\<close> and the round-robin balancer of
  \<open>aws_light/proxy/load_balancer.py\<close>. The protocol \<open>AnyRoutingTable\<close> is the record
  \<open>routing_ops\<close> with the locale \<open>routing\<close>; both tables are interpretations of it, and the
  balancer's laws are proved over it. Each method is one atomic step (the code holds a lock, and
  Redis runs a command or script at a time).
\<close>

section \<open>routing_table.py\<close>

record endpoint =
  ep_replica_id :: string
  ep_host :: string
  ep_port :: int
  ep_healthy :: bool

definition new_endpoint :: "string \<Rightarrow> string \<Rightarrow> int \<Rightarrow> endpoint" where
  "new_endpoint rid host port = \<lparr>ep_replica_id = rid, ep_host = host, ep_port = port, ep_healthy = False\<rparr>"

record 's routing_ops =
  rt_update :: "string \<Rightarrow> endpoint list \<Rightarrow> ('s, unit) prog"
  rt_get :: "string \<Rightarrow> ('s, endpoint list) prog"
  rt_set_healthy :: "string \<Rightarrow> bool \<Rightarrow> ('s, unit) prog"
  rt_remove :: "string \<Rightarrow> ('s, unit) prog"
  rt_names :: "('s, string list) prog"

type_synonym routing_table = "(string, endpoint list) pydict"

text \<open>An endpoint that stays in the table keeps its health; a new one brings its own.\<close>

definition keep_health :: "endpoint list \<Rightarrow> endpoint list \<Rightarrow> endpoint list" where
  "keep_health old new = (let existing_health = dict_of_list (map (\<lambda>e. (ep_replica_id e, ep_healthy e)) old) in
     map (\<lambda>e. e\<lparr>ep_healthy := dict_get_or existing_health (ep_replica_id e) (ep_healthy e)\<rparr>) new)"

definition update_service :: "string \<Rightarrow> endpoint list \<Rightarrow> (routing_table, unit) prog" where
  "update_service svc eps t = (Inr (), dict_put svc (keep_health (dict_get_or t svc []) eps) t)"

definition get_endpoints :: "string \<Rightarrow> (routing_table, endpoint list) prog" where
  "get_endpoints svc t = (Inr (dict_get_or t svc []), t)"

text \<open>The nested loops of \<open>set_healthy\<close> stop at the first endpoint of the replica; \<open>None\<close>: not found.\<close>

fun set_first :: "string \<Rightarrow> bool \<Rightarrow> endpoint list \<Rightarrow> endpoint list option" where
  "set_first rid h [] = None"
| "set_first rid h (e # es) = (if ep_replica_id e = rid then Some (e\<lparr>ep_healthy := h\<rparr> # es)
     else map_option (\<lambda>es'. e # es') (set_first rid h es))"

fun set_in_table :: "string \<Rightarrow> bool \<Rightarrow> routing_table \<Rightarrow> routing_table" where
  "set_in_table rid h [] = []"
| "set_in_table rid h ((svc, eps) # t) = (case set_first rid h eps of
     Some eps' \<Rightarrow> (svc, eps') # t
   | None \<Rightarrow> (svc, eps) # set_in_table rid h t)"

definition set_healthy :: "string \<Rightarrow> bool \<Rightarrow> (routing_table, unit) prog" where
  "set_healthy rid h t = (Inr (), set_in_table rid h t)"

definition remove_service :: "string \<Rightarrow> (routing_table, unit) prog" where
  "remove_service svc t = (Inr (), dict_pop svc t)"

definition all_service_names :: "(routing_table, string list) prog" where
  "all_service_names t = (Inr (dict_keys t), t)"

definition memory_routing :: "routing_table routing_ops" where
  "memory_routing = \<lparr>rt_update = update_service, rt_get = get_endpoints, rt_set_healthy = set_healthy,
     rt_remove = remove_service, rt_names = all_service_names\<rparr>"

section \<open>redis_routing_table.py\<close>

text \<open>
  The keys of the Redis database and their values, as the JSON they hold. \<open>KEYS\<close> answers in the
  order of the keys here; Redis promises no order, and nothing below depends on it.
\<close>

type_synonym redis_db = "(string, json) pydict"

definition routing_key :: "string \<Rightarrow> string" where
  "routing_key svc = ''routing:'' @ svc"

definition endpoint_dump :: "endpoint \<Rightarrow> json" where
  "endpoint_dump e = JDict [(''replica_id'', JStr (ep_replica_id e)), (''host'', JStr (ep_host e)),
     (''port'', JInt (ep_port e)), (''healthy'', JBool (ep_healthy e))]"

text \<open>\<open>item[key]\<close> raises \<open>KeyError\<close>; the values have the types they were written with.\<close>

definition endpoint_load :: "json \<Rightarrow> endpoint result" where
  "endpoint_load j = (case j of
     JDict d \<Rightarrow> (case (dict_get d ''replica_id'', dict_get d ''host'', dict_get d ''port'', dict_get d ''healthy'') of
         (Some (JStr r), Some (JStr h), Some (JInt p), Some (JBool b)) \<Rightarrow>
           Inr \<lparr>ep_replica_id = r, ep_host = h, ep_port = p, ep_healthy = b\<rparr>
       | _ \<Rightarrow> Inl (KeyError ''endpoint''))
   | _ \<Rightarrow> Inl (TypeError ''endpoint''))"

fun load_all :: "json list \<Rightarrow> endpoint list result" where
  "load_all [] = Inr []"
| "load_all (j # js) = bind_r (endpoint_load j) (\<lambda>e. bind_r (load_all js) (\<lambda>es. Inr (e # es)))"

definition redis_get_endpoints :: "string \<Rightarrow> (redis_db, endpoint list) prog" where
  "redis_get_endpoints svc db = (case dict_get db (routing_key svc) of
     None \<Rightarrow> (Inr [], db)
   | Some (JList items) \<Rightarrow> (load_all items, db)
   | Some _ \<Rightarrow> (Inl (TypeError ''endpoints''), db))"

definition redis_update_service :: "string \<Rightarrow> endpoint list \<Rightarrow> (redis_db, unit) prog" where
  "redis_update_service svc eps = bind_p (redis_get_endpoints svc) (\<lambda>old.
     mod_s (dict_put (routing_key svc) (JList (map endpoint_dump (keep_health old eps)))))"

text \<open>The script \<open>_SET_HEALTHY_LUA\<close>: it sets every endpoint of the replica and answers whether it
  found one.\<close>

definition lua_set :: "string \<Rightarrow> bool \<Rightarrow> json \<Rightarrow> json" where
  "lua_set rid h j = (case j of
     JDict d \<Rightarrow> if dict_get d ''replica_id'' = Some (JStr rid) then JDict (dict_put ''healthy'' (JBool h) d) else j
   | _ \<Rightarrow> j)"

definition lua_matches :: "string \<Rightarrow> json \<Rightarrow> bool" where
  "lua_matches rid j = (case j of JDict d \<Rightarrow> dict_get d ''replica_id'' = Some (JStr rid) | _ \<Rightarrow> False)"

definition lua_set_healthy :: "string \<Rightarrow> string \<Rightarrow> bool \<Rightarrow> redis_db \<Rightarrow> int \<times> redis_db" where
  "lua_set_healthy key rid h db = (case dict_get db key of
     None \<Rightarrow> (0, db)
   | Some (JList eps) \<Rightarrow>
       if list_ex (lua_matches rid) eps then (1, dict_put key (JList (map (lua_set rid h) eps)) db)
       else (0, db)
   | Some _ \<Rightarrow> (0, db))"

definition redis_all_service_names :: "(redis_db, string list) prog" where
  "redis_all_service_names db =
     (Inr (map (drop (length ''routing:'')) (filter (starts_with ''routing:'') (dict_keys db))), db)"

fun redis_set_loop :: "string \<Rightarrow> bool \<Rightarrow> string list \<Rightarrow> redis_db \<Rightarrow> redis_db" where
  "redis_set_loop rid h [] db = db"
| "redis_set_loop rid h (svc # svcs) db = (case lua_set_healthy (routing_key svc) rid h db of
     (r, db') \<Rightarrow> if r \<noteq> 0 then db' else redis_set_loop rid h svcs db')"

definition redis_set_healthy :: "string \<Rightarrow> bool \<Rightarrow> (redis_db, unit) prog" where
  "redis_set_healthy rid h = bind_p redis_all_service_names (\<lambda>keys. mod_s (redis_set_loop rid h keys))"

definition redis_remove_service :: "string \<Rightarrow> (redis_db, unit) prog" where
  "redis_remove_service svc = mod_s (dict_pop (routing_key svc))"

definition redis_routing :: "redis_db routing_ops" where
  "redis_routing = \<lparr>rt_update = redis_update_service, rt_get = redis_get_endpoints,
     rt_set_healthy = redis_set_healthy, rt_remove = redis_remove_service, rt_names = redis_all_service_names\<rparr>"

section \<open>load_balancer.py\<close>

text \<open>The balancer's state: the table's and its counters.\<close>

definition healthy_replicas_for_request ::
  "'s routing_ops \<Rightarrow> string \<Rightarrow> ('s \<times> (string, nat) pydict, endpoint list) prog" where
  "healthy_replicas_for_request rt svc x = (case x of (s, counters) \<Rightarrow>
     (case rt_get rt svc s of
        (Inl e, s') \<Rightarrow> (Inl e, (s', counters))
      | (Inr endpoints, s') \<Rightarrow>
          (let healthy = filter ep_healthy endpoints in
           if healthy = [] then (Inl (NoHealthyReplicaError svc), (s', counters))
           else (let current_index = dict_get_or counters svc 0;
                     offset = current_index mod length healthy
                 in (Inr (drop offset healthy @ take offset healthy),
                     (s', dict_put svc (current_index + 1) counters))))))"

definition next_healthy_replica :: "'s routing_ops \<Rightarrow> string \<Rightarrow> ('s \<times> (string, nat) pydict, endpoint) prog" where
  "next_healthy_replica rt svc = bind_p (healthy_replicas_for_request rt svc) (\<lambda>eps.
     case eps of e # _ \<Rightarrow> ret e | [] \<Rightarrow> raise (KeyError ''index''))"

section \<open>The contract of a routing table\<close>

definition ids :: "endpoint list \<Rightarrow> string list" where
  "ids eps = map ep_replica_id eps"

definition set_all :: "string \<Rightarrow> bool \<Rightarrow> endpoint list \<Rightarrow> endpoint list" where
  "set_all rid h eps = map_where (\<lambda>e. ep_replica_id e = rid) (\<lambda>e. e\<lparr>ep_healthy := h\<rparr>) eps"

text \<open>Replica ids are unique: an id has at most one endpoint, in one service.\<close>

definition one_home :: "string \<Rightarrow> (string \<Rightarrow> endpoint list) \<Rightarrow> bool" where
  "one_home rid v \<longleftrightarrow> (\<forall>svc. count_list (ids (v svc)) rid \<le> 1)
     \<and> (\<forall>svc svc'. rid \<in> set (ids (v svc)) \<and> rid \<in> set (ids (v svc')) \<longrightarrow> svc = svc')"

locale routing =
  fixes rt :: "'s routing_ops"
    and view :: "'s \<Rightarrow> string \<Rightarrow> endpoint list"
    and inv :: "'s \<Rightarrow> bool"
  assumes get_law: "inv s \<Longrightarrow> \<exists>s'. rt_get rt svc s = (Inr (view s svc), s') \<and> inv s' \<and> view s' = view s"
    and update_law: "inv s \<Longrightarrow> \<exists>s'. rt_update rt svc eps s = (Inr (), s') \<and> inv s'
      \<and> view s' = (view s)(svc := keep_health (view s svc) eps)"
    and set_law: "inv s \<Longrightarrow> one_home rid (view s) \<Longrightarrow> \<exists>s'. rt_set_healthy rt rid h s = (Inr (), s') \<and> inv s'
      \<and> view s' = (\<lambda>svc. set_all rid h (view s svc))"
    and remove_law: "inv s \<Longrightarrow> \<exists>s'. rt_remove rt svc s = (Inr (), s') \<and> inv s' \<and> view s' = (view s)(svc := [])"

lemma set_all_absent: "rid \<notin> set (ids eps) \<Longrightarrow> set_all rid h eps = eps"
  by (auto simp: set_all_def map_where_def ids_def intro!: map_idI)

lemma ids_set_all [simp]: "ids (set_all rid h eps) = ids eps"
  by (simp add: set_all_def map_where_def ids_def comp_def if_distrib cong: if_cong)

lemma ids_keep_health [simp]: "ids (keep_health old new) = ids new"
  by (simp add: keep_health_def ids_def Let_def comp_def)

lemma set_first_eq:
  "count_list (ids eps) rid \<le> 1 \<Longrightarrow>
    set_first rid h eps = (if rid \<in> set (ids eps) then Some (set_all rid h eps) else None)"
proof (induction eps)
  case (Cons e es)
  have "set_all rid h es = es" if "count_list (ids es) rid = 0"
    using that by (auto intro!: set_all_absent simp: count_list_0_iff)
  with Cons show ?case by (auto simp: ids_def set_all_def map_where_def)
qed (simp add: ids_def)

definition table_view :: "routing_table \<Rightarrow> string \<Rightarrow> endpoint list" where
  "table_view t svc = dict_get_or t svc []"

lemma set_in_table_keys [simp]: "dict_keys (set_in_table rid h t) = dict_keys t"
  by (induction rid h t rule: set_in_table.induct) (auto split: option.splits)

lemma set_in_table_view:
  assumes "wf_dict t" "one_home rid (table_view t)"
  shows "table_view (set_in_table rid h t) = (\<lambda>svc. set_all rid h (table_view t svc))"
proof -
  have "wf_dict t \<Longrightarrow> (\<forall>p \<in> set t. count_list (ids (snd p)) rid \<le> 1) \<Longrightarrow>
      (\<forall>p \<in> set t. \<forall>q \<in> set t. rid \<in> set (ids (snd p)) \<longrightarrow> rid \<in> set (ids (snd q)) \<longrightarrow> fst p = fst q) \<Longrightarrow>
      table_view (set_in_table rid h t) svc = set_all rid h (table_view t svc)" for t svc
  proof (induction t)
    case (Cons p t)
    obtain s eps where p: "p = (s, eps)" by force
    have f: "set_first rid h eps = (if rid \<in> set (ids eps) then Some (set_all rid h eps) else None)"
      using Cons.prems(2) p by (simp add: set_first_eq)
    show ?case
    proof (cases "rid \<in> set (ids eps)")
      case True
      have "rid \<notin> set (ids es)" if "(s', es) \<in> set t" for s' es
      proof
        assume "rid \<in> set (ids es)"
        then have "s = s'" using Cons.prems(3) [rule_format, of p "(s', es)"] True that p by simp
        then show False using Cons.prems(1) imageI [OF that, of fst] p by (simp add: wf_dict_def)
      qed
      then have "rid \<notin> set (ids (table_view t svc))"
        by (cases "dict_get t svc") (auto simp: table_view_def dict_get_or_def ids_def dest: map_of_SomeD)
      then have "set_all rid h (table_view t svc) = table_view t svc" by (rule set_all_absent)
      then show ?thesis using True f p by (simp add: table_view_def dict_get_or_def)
    next
      case False
      then show ?thesis using f p Cons set_all_absent [OF False, of h]
        by (auto simp: table_view_def dict_get_or_def wf_dict_def)
    qed
  qed (simp add: table_view_def dict_get_or_def set_all_def map_where_def)
  moreover have v: "\<forall>p \<in> set t. table_view t (fst p) = snd p"
    using assms(1) by (auto simp: table_view_def dict_get_or_def dict_mem_get)
  moreover have "\<forall>p \<in> set t. count_list (ids (snd p)) rid \<le> 1"
    using assms(2) v unfolding one_home_def by metis
  moreover have "\<forall>p \<in> set t. \<forall>q \<in> set t. rid \<in> set (ids (snd p)) \<longrightarrow> rid \<in> set (ids (snd q)) \<longrightarrow> fst p = fst q"
    using assms(2) v unfolding one_home_def by metis
  ultimately show ?thesis using assms(1) by blast
qed

interpretation mem_routing: routing memory_routing table_view wf_dict
proof (unfold_locales, goal_cases)
  case (3 t rid h)
  then show ?case using set_in_table_keys [of rid h t]
    by (auto simp: memory_routing_def set_healthy_def set_in_table_view wf_dict_def)
qed (auto simp: memory_routing_def get_endpoints_def update_service_def remove_service_def
    table_view_def dict_get_or_def fun_eq_iff)

text \<open>The Redis table: every routing key holds a dumped list of endpoints.\<close>

definition redis_view :: "redis_db \<Rightarrow> string \<Rightarrow> endpoint list" where
  "redis_view db svc = (case dict_get db (routing_key svc) of
     Some (JList items) \<Rightarrow> (case load_all items of Inr eps \<Rightarrow> eps | Inl _ \<Rightarrow> [])
   | _ \<Rightarrow> [])"

definition redis_inv :: "redis_db \<Rightarrow> bool" where
  "redis_inv db \<longleftrightarrow> wf_dict db
     \<and> (\<forall>svc j. dict_get db (routing_key svc) = Some j \<longrightarrow> (\<exists>eps. j = JList (map endpoint_dump eps)))"

lemma endpoint_load_dump [simp]: "endpoint_load (endpoint_dump e) = Inr e"
  by (simp add: endpoint_load_def endpoint_dump_def)

lemma load_all_dump [simp]: "load_all (map endpoint_dump eps) = Inr eps"
  by (induction eps) auto

lemma routing_key_inject [simp]: "routing_key a = routing_key b \<longleftrightarrow> a = b"
  by (simp add: routing_key_def)

lemma redis_stored:
  assumes "redis_inv db"
  obtains "dict_get db (routing_key svc) = None" "redis_view db svc = []"
  | eps where "dict_get db (routing_key svc) = Some (JList (map endpoint_dump eps))" "redis_view db svc = eps"
proof (cases "dict_get db (routing_key svc)")
  case (Some j)
  then obtain eps where "j = JList (map endpoint_dump eps)" using assms by (auto simp: redis_inv_def)
  then show ?thesis using Some that(2) by (simp add: redis_view_def)
qed (use that(1) in \<open>simp add: redis_view_def\<close>)

lemma redis_get_run: "redis_inv db \<Longrightarrow> redis_get_endpoints svc db = (Inr (redis_view db svc), db)"
  by (cases rule: redis_stored [of db svc]) (simp_all add: redis_get_endpoints_def)

lemma redis_put:
  assumes "redis_inv db"
  shows "redis_inv (dict_put (routing_key svc) (JList (map endpoint_dump eps)) db)"
    "redis_view (dict_put (routing_key svc) (JList (map endpoint_dump eps)) db) = (redis_view db)(svc := eps)"
  using assms by (auto simp: redis_inv_def redis_view_def fun_eq_iff)

lemma lua_dump [simp]:
  "lua_set rid h (endpoint_dump e) = endpoint_dump (if ep_replica_id e = rid then e\<lparr>ep_healthy := h\<rparr> else e)"
  "lua_matches rid (endpoint_dump e) \<longleftrightarrow> ep_replica_id e = rid"
  by (auto simp: lua_set_def lua_matches_def endpoint_dump_def)

lemma lua_run:
  assumes "redis_inv db"
  shows "lua_set_healthy (routing_key svc) rid h db =
    (if rid \<in> set (ids (redis_view db svc))
     then (1, dict_put (routing_key svc) (JList (map endpoint_dump (set_all rid h (redis_view db svc)))) db) else (0, db))"
proof (cases rule: redis_stored [OF assms, of svc])
  case (2 eps)
  have "list_ex (lua_matches rid) (map endpoint_dump eps) \<longleftrightarrow> rid \<in> set (ids eps)"
    by (auto simp: list_ex_iff ids_def)
  then show ?thesis using 2 by (simp add: lua_set_healthy_def set_all_def map_where_def comp_def)
qed (simp add: lua_set_healthy_def ids_def)

lemma redis_set_loop_run:
  assumes "redis_inv db" "one_home rid (redis_view db)"
  shows "redis_inv (redis_set_loop rid h svcs db) \<and>
    redis_view (redis_set_loop rid h svcs db) = (\<lambda>svc. if svc \<in> set svcs then set_all rid h (redis_view db svc) else redis_view db svc)"
proof (induction svcs)
  case (Cons s svcs)
  show ?case
  proof (cases "rid \<in> set (ids (redis_view db s))")
    case True
    then have "set_all rid h (redis_view db svc) = redis_view db svc" if "svc \<noteq> s" for svc
      using assms(2) that by (intro set_all_absent) (auto simp: one_home_def)
    with True show ?thesis by (auto simp: lua_run [OF assms(1)] redis_put [OF assms(1)] fun_eq_iff)
  next
    case False
    with Cons show ?thesis by (auto simp: lua_run [OF assms(1)] set_all_absent fun_eq_iff)
  qed
qed (use assms in simp)

lemma redis_names:
  assumes "redis_inv db" "redis_view db svc \<noteq> []"
  shows "svc \<in> set (map (drop (length ''routing:'')) (filter (starts_with ''routing:'') (dict_keys db)))"
proof -
  have "dict_has db (routing_key svc)"
    using assms by (cases rule: redis_stored [of db svc]) (auto simp: dict_has_def)
  then have "routing_key svc \<in> set (filter (starts_with ''routing:'') (dict_keys db))"
    by (simp add: dict_has_iff starts_with_def) (simp add: routing_key_def)
  then show ?thesis unfolding set_map by (rule rev_image_eqI) (simp add: routing_key_def)
qed

interpretation redis_rt: routing redis_routing redis_view redis_inv
proof (unfold_locales, goal_cases)
  case (1 db svc)
  then show ?case by (simp add: redis_routing_def redis_get_run)
next
  case (2 db svc eps)
  then show ?case using redis_put [of db svc "keep_health (redis_view db svc) eps"]
    by (simp add: redis_routing_def redis_update_service_def bind_p_def redis_get_run mod_s_def)
next
  case (3 db rid h)
  let ?names = "map (drop (length ''routing:'')) (filter (starts_with ''routing:'') (dict_keys db))"
  have "set_all rid h (redis_view db svc) = redis_view db svc" if "svc \<notin> set ?names" for svc
  proof -
    have "redis_view db svc = []" using redis_names [OF 3(1), of svc] that by blast
    then show ?thesis by (simp add: set_all_absent ids_def)
  qed
  then show ?case using redis_set_loop_run [OF 3, of h ?names]
    by (auto simp: redis_routing_def redis_set_healthy_def redis_all_service_names_def bind_p_def mod_s_def fun_eq_iff
        simp del: set_map set_filter)
next
  case (4 db svc)
  then show ?case
    by (auto simp: redis_routing_def redis_remove_service_def mod_s_def redis_inv_def redis_view_def fun_eq_iff)
qed

section \<open>The balancer over any table\<close>

lemma mset_rotate: "mset (rotate n xs) = mset xs"
  by (metis add.commute append_take_drop_id mset_append rotate_drop_take)

lemma pick_window:
  assumes "hs \<noteq> []"
  shows "mset (map (\<lambda>i. hs ! ((c + i) mod length hs)) [0..<k * length hs]) = repeat_mset k (mset hs)"
proof (induction k)
  case (Suc k)
  have "map (\<lambda>i. hs ! ((c + i) mod length hs)) [k * length hs..<Suc k * length hs] = rotate (c + k * length hs) hs"
    by (rule nth_equalityI) (auto simp: nth_rotate algebra_simps)
  moreover have "[0..<Suc k * length hs] = [0..<k * length hs] @ [k * length hs..<Suc k * length hs]"
    using upt_add_eq_append [of 0 "k * length hs" "length hs"] by (simp add: add.commute)
  ultimately show ?case using Suc by (simp add: mset_rotate)
qed simp

context routing
begin

abbreviation healthy_now :: "'s \<Rightarrow> string \<Rightarrow> endpoint list" where
  "healthy_now s svc \<equiv> filter ep_healthy (view s svc)"

lemma request_run:
  assumes "inv s"
  shows "\<exists>s'. inv s' \<and> view s' = view s \<and> healthy_replicas_for_request rt svc (s, counters) =
    (if healthy_now s svc = [] then (Inl (NoHealthyReplicaError svc), (s', counters))
     else (Inr (rotate (dict_get_or counters svc 0) (healthy_now s svc)),
           (s', dict_put svc (dict_get_or counters svc 0 + 1) counters)))"
proof -
  obtain s' where "rt_get rt svc s = (Inr (view s svc), s')" "inv s'" "view s' = view s"
    using get_law [OF assms] by blast
  then show ?thesis by (auto simp: healthy_replicas_for_request_def Let_def rotate_drop_take)
qed

lemma next_run:
  assumes "inv s" "healthy_now s svc = hs" "hs \<noteq> []"
  shows "\<exists>s'. inv s' \<and> view s' = view s \<and> next_healthy_replica rt svc (s, counters) =
    (Inr (hs ! (dict_get_or counters svc 0 mod length hs)), (s', dict_put svc (dict_get_or counters svc 0 + 1) counters))"
proof -
  obtain s' where s': "inv s'" "view s' = view s" "healthy_replicas_for_request rt svc (s, counters) =
      (Inr (rotate (dict_get_or counters svc 0) hs), (s', dict_put svc (dict_get_or counters svc 0 + 1) counters))"
    using request_run [OF assms(1), of svc counters] assms(2,3) by auto
  obtain e es where "rotate (dict_get_or counters svc 0) hs = e # es"
    using assms(3) by (cases "rotate (dict_get_or counters svc 0) hs") auto
  moreover from this have "e = hs ! (dict_get_or counters svc 0 mod length hs)"
    using hd_rotate_conv_nth [OF assms(3), of "dict_get_or counters svc 0"] by simp
  ultimately show ?thesis using s' by (auto simp: next_healthy_replica_def bind_p_def ret_def)
qed

lemma picks_run:
  assumes "hs \<noteq> []"
  shows "inv s \<Longrightarrow> healthy_now s svc = hs \<Longrightarrow> \<exists>x'. map_p (\<lambda>_. next_healthy_replica rt svc) xs (s, counters) =
    (Inr (map (\<lambda>i. hs ! ((dict_get_or counters svc 0 + i) mod length hs)) [0..<length xs]), x')"
proof (induction xs arbitrary: s counters)
  case (Cons x xs)
  let ?c = "dict_get_or counters svc 0"
  obtain s' where s': "inv s'" "view s' = view s" "next_healthy_replica rt svc (s, counters) =
      (Inr (hs ! (?c mod length hs)), (s', dict_put svc (?c + 1) counters))"
    using next_run [OF Cons.prems assms] by blast
  obtain x' where x': "map_p (\<lambda>_. next_healthy_replica rt svc) xs (s', dict_put svc (?c + 1) counters) =
      (Inr (map (\<lambda>i. hs ! ((?c + 1 + i) mod length hs)) [0..<length xs]), x')"
    using Cons.IH [OF s'(1), of "dict_put svc (?c + 1) counters"] Cons.prems(2) s'(2) by (auto simp: dict_get_or_def)
  have "[0..<length (x # xs)] = 0 # map Suc [0..<length xs]" by (simp add: map_Suc_upt upt_conv_Cons del: upt_Suc)
  then have "map (\<lambda>i. hs ! ((?c + i) mod length hs)) [0..<length (x # xs)]
      = hs ! (?c mod length hs) # map (\<lambda>i. hs ! ((?c + 1 + i) mod length hs)) [0..<length xs]"
    by (simp add: comp_def)
  with s' x' show ?case by (simp add: bind_p_def ret_def)
qed (simp add: ret_def)

lemma fair:
  assumes "inv s" "healthy_now s svc = hs" "hs \<noteq> []"
  shows "\<exists>ps x'. map_p (\<lambda>_. next_healthy_replica rt svc) [0..<k * length hs] (s, counters) = (Inr ps, x')
    \<and> mset ps = repeat_mset k (mset hs)"
  using picks_run [OF assms(3,1,2), of "[0..<k * length hs]" counters] pick_window [OF assms(3)] by auto

end

section \<open>Runs of a table\<close>

text \<open>A run of writes, on a table and on the plain map from services to endpoints it stands for.\<close>

datatype routing_op = UpdateService string "endpoint list" | SetHealthy string bool | RemoveService string

definition table_step :: "'s routing_ops \<Rightarrow> routing_op \<Rightarrow> 's \<Rightarrow> 's" where
  "table_step rt op s = (case op of
     UpdateService svc eps \<Rightarrow> snd (rt_update rt svc eps s)
   | SetHealthy rid h \<Rightarrow> snd (rt_set_healthy rt rid h s)
   | RemoveService svc \<Rightarrow> snd (rt_remove rt svc s))"

definition map_step :: "routing_op \<Rightarrow> (string \<Rightarrow> endpoint list) \<Rightarrow> string \<Rightarrow> endpoint list" where
  "map_step op v = (case op of
     UpdateService svc eps \<Rightarrow> v(svc := keep_health (v svc) eps)
   | SetHealthy rid h \<Rightarrow> (\<lambda>svc. set_all rid h (v svc))
   | RemoveService svc \<Rightarrow> v(svc := []))"

text \<open>The runs in which health is only ever set for a replica with one home.\<close>

fun well_homed :: "routing_op list \<Rightarrow> (string \<Rightarrow> endpoint list) \<Rightarrow> bool" where
  "well_homed [] v \<longleftrightarrow> True"
| "well_homed (op # ops) v \<longleftrightarrow> (case op of SetHealthy rid h \<Rightarrow> one_home rid v | _ \<Rightarrow> True) \<and> well_homed ops (map_step op v)"

context routing
begin

lemma table_step_view:
  "inv s \<Longrightarrow> (case op of SetHealthy rid h \<Rightarrow> one_home rid (view s) | _ \<Rightarrow> True) \<Longrightarrow>
    inv (table_step rt op s) \<and> view (table_step rt op s) = map_step op (view s)"
proof (cases op)
  case (UpdateService svc eps)
  assume "inv s"
  then show ?thesis using update_law [of s svc eps] UpdateService by (auto simp: table_step_def map_step_def)
next
  case (SetHealthy rid h)
  assume "inv s" "case op of SetHealthy rid h \<Rightarrow> one_home rid (view s) | _ \<Rightarrow> True"
  then show ?thesis using set_law [of s rid h] SetHealthy by (auto simp: table_step_def map_step_def)
next
  case (RemoveService svc)
  assume "inv s"
  then show ?thesis using remove_law [of s svc] RemoveService by (auto simp: table_step_def map_step_def)
qed

lemma run_view:
  "inv s \<Longrightarrow> well_homed ops (view s) \<Longrightarrow>
    inv (fold (table_step rt) ops s) \<and> view (fold (table_step rt) ops s) = fold map_step ops (view s)"
proof (induction ops arbitrary: s)
  case (Cons op ops)
  have "inv (table_step rt op s)" "view (table_step rt op s) = map_step op (view s)"
    using table_step_view [of s op] Cons.prems by auto
  then show ?case using Cons.IH [of "table_step rt op s"] Cons.prems(2) by simp
qed simp

lemma endpoints_after_run:
  "inv s \<Longrightarrow> well_homed ops (view s) \<Longrightarrow>
    fst (rt_get rt svc (fold (table_step rt) ops s)) = Inr (fold map_step ops (view s) svc)"
  using run_view [of s ops] get_law [of "fold (table_step rt) ops s" svc] by auto

end

lemma empty_views: "table_view [] = (\<lambda>_. [])" "redis_view [] = (\<lambda>_. [])" "redis_inv []"
  by (auto simp: table_view_def redis_view_def redis_inv_def dict_get_or_def fun_eq_iff)

section \<open>Properties\<close>

text \<open>C15. Round robin is fair: over \<open>k * n\<close> consecutive requests for a service whose \<open>n\<close> healthy
  endpoints stay the same, every endpoint is the first choice exactly \<open>k\<close> times, whatever the
  counter was before. It is stated for the Redis table the proxy runs with.\<close>

theorem round_robin_fair:
  assumes "redis_inv db" and "filter ep_healthy (redis_view db svc) = hs" and "hs \<noteq> []"
  shows "\<exists>ps x'. map_p (\<lambda>_. next_healthy_replica redis_routing svc) [0..<k * length hs] (db, counters) = (Inr ps, x')
    \<and> mset ps = repeat_mset k (mset hs)"
  by (rule redis_rt.fair [OF assms])

abbreviation demo_endpoint :: "string \<Rightarrow> bool \<Rightarrow> endpoint" where
  "demo_endpoint rid h \<equiv> \<lparr>ep_replica_id = rid, ep_host = ''10.0.0.1'', ep_port = 8080, ep_healthy = h\<rparr>"

definition demo_db :: redis_db where
  "demo_db = [(routing_key ''web'', JList (map endpoint_dump
     [demo_endpoint ''a'' True, demo_endpoint ''b'' False, demo_endpoint ''c'' True]))]"

lemma demo_db: "redis_inv demo_db"
    "redis_view demo_db ''web'' = [demo_endpoint ''a'' True, demo_endpoint ''b'' False, demo_endpoint ''c'' True]"
proof -
  have "redis_inv []" by (simp add: redis_inv_def)
  from redis_put [OF this, of "''web''" "[demo_endpoint ''a'' True, demo_endpoint ''b'' False, demo_endpoint ''c'' True]"]
  show "redis_inv demo_db"
      "redis_view demo_db ''web'' = [demo_endpoint ''a'' True, demo_endpoint ''b'' False, demo_endpoint ''c'' True]"
    by (simp_all add: demo_db_def)
qed

theorem round_robin_fair_witness:
  "\<exists>ps x'. map_p (\<lambda>_. next_healthy_replica redis_routing ''web'') [0..<4] (demo_db, [(''web'', 7)]) = (Inr ps, x')
    \<and> mset ps = repeat_mset 2 {#demo_endpoint ''a'' True, demo_endpoint ''c'' True#}"
  using round_robin_fair [OF demo_db(1), of "''web''" "[demo_endpoint ''a'' True, demo_endpoint ''c'' True]" 2 "[(''web'', 7)]"]
  by (simp add: demo_db del: upt_Suc)

text \<open>The candidates of a request are exactly the healthy endpoints of the service, each as often as
  the table has it, and the request fails exactly when there is none.\<close>

theorem candidates_are_healthy:
  assumes "redis_inv db"
  shows "case fst (healthy_replicas_for_request redis_routing svc (db, counters)) of
      Inl e \<Rightarrow> e = NoHealthyReplicaError svc \<and> filter ep_healthy (redis_view db svc) = []
    | Inr eps \<Rightarrow> eps \<noteq> [] \<and> mset eps = mset (filter ep_healthy (redis_view db svc))"
  using redis_rt.request_run [OF assms, of svc counters] by (auto simp: rotate_is_Nil_conv mset_rotate)

theorem candidates_are_healthy_witness:
  "case fst (healthy_replicas_for_request redis_routing ''web'' (demo_db, [])) of
      Inl e \<Rightarrow> False
    | Inr eps \<Rightarrow> mset eps = {#demo_endpoint ''a'' True, demo_endpoint ''c'' True#}"
  using candidates_are_healthy [OF demo_db(1), of "''web''" "[]"]
  by (auto simp: demo_db split: sum.splits)

text \<open>C25. The Redis table and the in-memory table are interchangeable: after the same writes, in which
  health is set for replicas with one home only, they answer every service with the same endpoints,
  those of the plain map of services.\<close>

theorem redis_refines_memory:
  assumes "well_homed ops (\<lambda>_. [])"
  shows "fst (redis_get_endpoints svc (fold (table_step redis_routing) ops [])) = Inr (fold map_step ops (\<lambda>_. []) svc)
    \<and> fst (get_endpoints svc (fold (table_step memory_routing) ops [])) = Inr (fold map_step ops (\<lambda>_. []) svc)"
  using redis_rt.endpoints_after_run [of "[]" ops svc] mem_routing.endpoints_after_run [of "[]" ops svc] assms
  by (simp add: empty_views) (simp add: redis_routing_def memory_routing_def)

theorem redis_refines_memory_witness:
  "fst (redis_get_endpoints ''web'' (fold (table_step redis_routing)
      [UpdateService ''web'' [demo_endpoint ''a'' False, demo_endpoint ''b'' False], SetHealthy ''b'' True,
       UpdateService ''web'' [demo_endpoint ''b'' False, demo_endpoint ''c'' False]] []))
    = Inr [demo_endpoint ''b'' True, demo_endpoint ''c'' False]"
proof -
  let ?ops = "[UpdateService ''web'' [demo_endpoint ''a'' False, demo_endpoint ''b'' False], SetHealthy ''b'' True,
       UpdateService ''web'' [demo_endpoint ''b'' False, demo_endpoint ''c'' False]]"
  have "well_homed ?ops (\<lambda>_. [])"
    by (auto simp: map_step_def one_home_def keep_health_def dict_of_list_def dict_merge_def dict_get_or_def ids_def)
  moreover have "fold map_step ?ops (\<lambda>_. []) ''web'' = [demo_endpoint ''b'' True, demo_endpoint ''c'' False]"
    by (simp add: map_step_def keep_health_def dict_of_list_def dict_merge_def dict_get_or_def set_all_def map_where_def)
  ultimately show ?thesis using redis_refines_memory [of ?ops "''web''"] by simp
qed

end
