(* ===== verification/Health.thy ===== *)
theory Health
  imports Routing
begin

text \<open>
  The health checker of \<open>aws_light/proxy/health_checker.py\<close>. Its state holds the counters of
  consecutive results per replica, the set of replicas it has announced, the routing table it
  writes, and the calls of \<open>event_bus.publish\<close> in order. A probe is one HTTP request: the
  function \<open>http_get\<close> gives its status code or the exception it raised.
\<close>

record 'r health_checker =
  hc_failures :: "(string, int) pydict"
  hc_successes :: "(string, int) pydict"
  hc_routeable :: "string set"
  hc_routing :: 'r
  hc_published :: "web_socket_event list"

definition probe_http :: "(string \<Rightarrow> int result) \<Rightarrow> string \<Rightarrow> bool" where
  "probe_http http_get url = (case http_get url of Inl e \<Rightarrow> False | Inr status_code \<Rightarrow> status_code < 500)"

definition probe_url :: "string \<Rightarrow> int \<Rightarrow> string \<Rightarrow> string" where
  "probe_url ip port path = ''http://'' @ ip @ '':'' @ str_int port @ path"

definition hc_publish :: "timestamp \<Rightarrow> event_kind \<Rightarrow> (string, json) pydict \<Rightarrow> ('r health_checker, unit) prog" where
  "hc_publish now kind payload = mod_s (\<lambda>h. h\<lparr>hc_published := hc_published h @
     [\<lparr>ev_kind = kind, ev_timestamp = now, ev_payload = payload\<rparr>]\<rparr>)"

text \<open>A call of the routing table.\<close>

definition on_routing :: "('r, 'a) prog \<Rightarrow> ('r health_checker, 'a) prog" where
  "on_routing m h = (case m (hc_routing h) of (r, rt) \<Rightarrow> (r, h\<lparr>hc_routing := rt\<rparr>))"

text \<open>What a probe answered: the two branches of \<open>_check_replica\<close>.\<close>

definition on_success :: "'r routing_ops \<Rightarrow> settings \<Rightarrow> timestamp \<Rightarrow> string \<Rightarrow> string \<Rightarrow> string
    \<Rightarrow> ('r health_checker, unit) prog" where
  "on_success rt cfg now rid svc url =
     bind_p (get_s (\<lambda>h. dict_has (hc_failures h) rid)) (\<lambda>had_failures.
     bind_p (get_s (\<lambda>h. dict_get_or (hc_successes h) rid 0 + 1)) (\<lambda>successes.
     bind_p (mod_s (\<lambda>h. h\<lparr>hc_successes := dict_put rid successes (hc_successes h)\<rparr>)) (\<lambda>_.
     when_p (cfg_health_check_success_threshold cfg \<le> successes)
       (bind_p (mod_s (\<lambda>h. h\<lparr>hc_successes := dict_pop rid (hc_successes h),
                              hc_failures := dict_pop rid (hc_failures h)\<rparr>)) (\<lambda>_.
        bind_p (on_routing (rt_set_healthy rt rid True)) (\<lambda>_.
        bind_p (get_s (\<lambda>h. rid \<in> hc_routeable h)) (\<lambda>known.
        bind_p (when_p (\<not> known)
          (bind_p (mod_s (\<lambda>h. h\<lparr>hc_routeable := insert rid (hc_routeable h)\<rparr>)) (\<lambda>_.
           hc_publish now HEALTH_CHECK_PASSED
             [(''replica_id'', JStr rid), (''service_name'', JStr svc), (''url'', JStr url),
              (''success_threshold'', JInt (cfg_health_check_success_threshold cfg))]))) (\<lambda>_.
        when_p had_failures
          (hc_publish now HEALTH_CHECK_RECOVERED
             [(''replica_id'', JStr rid), (''service_name'', JStr svc), (''url'', JStr url)])))))))))"

definition on_failure :: "'r routing_ops \<Rightarrow> settings \<Rightarrow> timestamp \<Rightarrow> string \<Rightarrow> string \<Rightarrow> string
    \<Rightarrow> ('r health_checker, unit) prog" where
  "on_failure rt cfg now rid svc url =
     bind_p (get_s (\<lambda>h. dict_get_or (hc_failures h) rid 0 + 1)) (\<lambda>failures.
     bind_p (mod_s (\<lambda>h. h\<lparr>hc_failures := dict_put rid failures (hc_failures h),
                           hc_successes := dict_pop rid (hc_successes h)\<rparr>)) (\<lambda>_.
     when_p (failures = cfg_health_check_failure_threshold cfg)
       (bind_p (mod_s (\<lambda>h. h\<lparr>hc_routeable := hc_routeable h - {rid}\<rparr>)) (\<lambda>_.
        bind_p (on_routing (rt_set_healthy rt rid False)) (\<lambda>_.
        hc_publish now HEALTH_CHECK_FAILED
          [(''replica_id'', JStr rid), (''service_name'', JStr svc), (''url'', JStr url),
           (''consecutive_failures'', JInt failures)])))))"

definition check_replica :: "'r routing_ops \<Rightarrow> settings \<Rightarrow> timestamp \<Rightarrow> (string \<Rightarrow> int result)
    \<Rightarrow> string \<Rightarrow> string \<Rightarrow> int \<Rightarrow> string \<Rightarrow> string \<Rightarrow> ('r health_checker, unit) prog" where
  "check_replica rt cfg now http_get rid ip port path svc =
     (if ip = [] then ret ()
      else (let url = probe_url ip port path in
        if probe_http http_get url then on_success rt cfg now rid svc url
        else on_failure rt cfg now rid svc url))"

definition check_all_services :: "'r routing_ops \<Rightarrow> settings \<Rightarrow> timestamp \<Rightarrow> (string \<Rightarrow> int result)
    \<Rightarrow> service_state list \<Rightarrow> ('r health_checker, unit) prog" where
  "check_all_services rt cfg now http_get services = for_p services (\<lambda>service_state.
     for_p (ss_replicas service_state) (\<lambda>replica.
       check_replica rt cfg now http_get (rs_replica_id replica) (rs_container_ip replica)
         (sp_port (ss_spec service_state)) (sp_health_check_path (ss_spec service_state))
         (sp_name (ss_spec service_state))))"

section \<open>One replica's results\<close>

text \<open>
  What the checker keeps of a replica, as an abstract machine: its counters of failures and
  successes, and whether it is routed.
\<close>

definition health_step :: "int \<Rightarrow> int \<Rightarrow> bool \<Rightarrow> int \<times> int \<times> bool \<Rightarrow> int \<times> int \<times> bool" where
  "health_step S F ok x = (case x of (f, s, h) \<Rightarrow>
     if ok then (if S \<le> s + 1 then (0, 0, True) else (f, s + 1, h))
     else (f + 1, 0, if f + 1 = F then False else h))"

text \<open>
  The results in which \<open>S\<close> successes in a row are followed by \<open>n\<close> failures.
\<close>

definition occurs :: "nat \<Rightarrow> nat \<Rightarrow> bool list \<Rightarrow> bool" where
  "occurs S n oks \<longleftrightarrow> (\<exists>pre post. oks = pre @ replicate S True @ post \<and> count_list post False = n)"

definition trail :: "bool list \<Rightarrow> nat" where
  "trail oks = length (takeWhile id (rev oks))"

lemma trail_snoc [simp]: "trail [] = 0" "trail (oks @ [True]) = Suc (trail oks)" "trail (oks @ [False]) = 0"
  by (simp_all add: trail_def)

lemma trail_ge: "S \<le> trail oks \<longleftrightarrow> (\<exists>pre. oks = pre @ replicate S True)"
proof
  assume "S \<le> trail oks"
  have t: "takeWhile id (rev oks) = replicate (trail oks) True"
    unfolding trail_def by (rule replicate_eqI) (auto dest: set_takeWhileD)
  have "rev oks = replicate (trail oks) True @ dropWhile id (rev oks)"
    unfolding t [symmetric] by simp
  then have "oks = rev (dropWhile id (rev oks)) @ replicate (trail oks) True"
    by (metis rev_append rev_replicate rev_rev_ident)
  moreover have "replicate (trail oks) True = replicate (trail oks - S) True @ replicate S True"
    using \<open>S \<le> trail oks\<close> by (metis le_add_diff_inverse2 replicate_add)
  ultimately show "\<exists>pre. oks = pre @ replicate S True" by (metis append.assoc)
next
  assume "\<exists>pre. oks = pre @ replicate S True"
  then obtain pre where "oks = pre @ replicate S True" by blast
  then show "S \<le> trail oks" by (simp add: trail_def takeWhile_append)
qed

lemma occurs_snoc_False:
  assumes "0 < S"
  shows "occurs S n (oks @ [False]) \<longleftrightarrow> 0 < n \<and> occurs S (n - 1) oks"
proof
  assume "occurs S n (oks @ [False])"
  then obtain pre post where e: "oks @ [False] = pre @ replicate S True @ post" "count_list post False = n"
    by (auto simp: occurs_def)
  show "0 < n \<and> occurs S (n - 1) oks"
  proof (cases post rule: rev_cases)
    case Nil
    then have "last (oks @ [False]) = last (pre @ replicate S True)" using e(1) by simp
    then show ?thesis using assms by (simp add: last_replicate)
  next
    case (snoc post' b)
    then have "oks = pre @ replicate S True @ post'" "b = False" using e(1) by auto
    moreover from this have "occurs S (count_list post' False) oks" unfolding occurs_def by blast
    ultimately show ?thesis using e(2) [symmetric] snoc by simp
  qed
next
  assume "0 < n \<and> occurs S (n - 1) oks"
  then obtain pre post where "0 < n" "oks = pre @ replicate S True @ post" "count_list post False = n - 1"
    by (auto simp: occurs_def)
  then show "occurs S n (oks @ [False])"
    unfolding occurs_def by (intro exI [of _ pre] exI [of _ "post @ [False]"]) auto
qed

lemma occurs_snoc_True:
  "occurs S n (oks @ [True]) \<longleftrightarrow> occurs S n oks \<or> n = 0 \<and> S \<le> trail (oks @ [True])"
proof
  assume "occurs S n (oks @ [True])"
  then obtain pre post where e: "oks @ [True] = pre @ replicate S True @ post" "count_list post False = n"
    by (auto simp: occurs_def)
  show "occurs S n oks \<or> n = 0 \<and> S \<le> trail (oks @ [True])"
  proof (cases post rule: rev_cases)
    case Nil
    then show ?thesis using e trail_ge [of S "oks @ [True]"] by auto
  next
    case (snoc post' b)
    then have "oks = pre @ replicate S True @ post'" "b = True" using e(1) by auto
    then show ?thesis using e(2) snoc by (auto simp: occurs_def)
  qed
next
  assume "occurs S n oks \<or> n = 0 \<and> S \<le> trail (oks @ [True])"
  then show "occurs S n (oks @ [True])"
  proof
    assume "occurs S n oks"
    then obtain pre post where "oks = pre @ replicate S True @ post" "count_list post False = n"
      by (auto simp: occurs_def)
    then show ?thesis
      unfolding occurs_def by (intro exI [of _ pre] exI [of _ "post @ [True]"]) auto
  next
    assume "n = 0 \<and> S \<le> trail (oks @ [True])"
    then show ?thesis unfolding trail_ge occurs_def by fastforce
  qed
qed

text \<open>The machine's invariant, and what it says of the routed replicas.\<close>

definition machine_inv :: "nat \<Rightarrow> nat \<Rightarrow> bool list \<Rightarrow> int \<times> int \<times> bool \<Rightarrow> bool" where
  "machine_inv S F oks x \<longleftrightarrow> (case x of (f, s, h) \<Rightarrow> 0 \<le> s \<and> s < int S \<and>
     ((\<forall>n. \<not> occurs S n oks) \<and> \<not> h \<and> int (trail oks) = s
      \<or> (0 \<le> f \<and> occurs S (nat f) oks \<and> (\<forall>n. occurs S n oks \<longrightarrow> nat f \<le> n) \<and> (h \<longleftrightarrow> f < int F)
          \<and> (f = 0 \<or> int (trail oks) = s))))"

lemma machine_inv_Nil: "0 < S \<Longrightarrow> machine_inv S F [] (f, 0, False)"
  by (auto simp: machine_inv_def occurs_def)

lemma machine_inv_True:
  assumes "0 < F" "machine_inv S F oks (f, s, h)"
  shows "machine_inv S F (oks @ [True]) (health_step (int S) (int F) True (f, s, h))"
proof (cases "int S \<le> s + 1")
  case True
  have "occurs S 0 (oks @ [True])"
    using assms(2) True by (auto simp: machine_inv_def occurs_snoc_True)
  then show ?thesis using assms True
    by (auto simp: machine_inv_def health_step_def)
next
  case False
  then have "occurs S n (oks @ [True]) \<longleftrightarrow> occurs S n oks" if "int (trail oks) = s" for n
    using that by (auto simp: occurs_snoc_True)
  then show ?thesis using assms False
    by (auto simp: machine_inv_def health_step_def) (auto simp: occurs_snoc_True)
qed

lemma machine_inv_False:
  assumes "0 < F" "0 < S" "machine_inv S F oks (f, s, h)"
  shows "machine_inv S F (oks @ [False]) (health_step (int S) (int F) False (f, s, h))"
proof -
  have o: "occurs S n (oks @ [False]) \<longleftrightarrow> 0 < n \<and> occurs S (n - 1) oks" for n
    by (rule occurs_snoc_False [OF assms(2)])
  show ?thesis
  proof (cases "\<exists>n. occurs S n oks")
    case True
    then have f: "0 \<le> f" "occurs S (nat f) oks" "\<forall>n. occurs S n oks \<longrightarrow> nat f \<le> n" "h \<longleftrightarrow> f < int F"
      using assms(3) by (auto simp: machine_inv_def)
    have "nat (f + 1) \<le> n" if "0 < n" "occurs S (n - 1) oks" for n
      using f(1,3) that by fastforce
    moreover have "nat (f + 1) - 1 = nat f" using f(1) by simp
    ultimately show ?thesis using f assms(2)
      by (auto simp: machine_inv_def health_step_def o)
  next
    case False
    then show ?thesis using assms by (auto simp: machine_inv_def health_step_def o)
  qed
qed

lemma machine_run:
  assumes "0 < F" "0 < S"
  shows "machine_inv S F oks (fold (health_step (int S) (int F)) oks (0, 0, False))"
proof (induction oks rule: rev_induct)
  case (snoc ok oks)
  obtain f s h where x: "fold (health_step (int S) (int F)) oks (0, 0, False) = (f, s, h)"
    by (rule prod_cases3)
  show ?case using snoc machine_inv_True [OF assms(1)] machine_inv_False [OF assms]
    by (cases ok) (simp_all add: x)
qed (simp add: machine_inv_Nil assms)

lemma machine_health:
  assumes "0 < F" "0 < S" "fold (health_step (int S) (int F)) oks (0, 0, False) = (f, s, h)"
  shows "h \<longleftrightarrow> (\<exists>n < F. occurs S n oks)"
proof -
  have "machine_inv S F oks (f, s, h)" using machine_run [OF assms(1,2), of oks] assms(3) by simp
  then show ?thesis
  proof (cases "\<exists>n. occurs S n oks")
    case True
    then have "0 \<le> f" "occurs S (nat f) oks" "\<forall>n. occurs S n oks \<longrightarrow> nat f \<le> n" "h \<longleftrightarrow> f < int F"
      using \<open>machine_inv S F oks (f, s, h)\<close> by (auto simp: machine_inv_def)
    then show ?thesis using le_less_trans by (fastforce simp: nat_less_iff)
  qed (auto simp: machine_inv_def)
qed

section \<open>The checker implements the machine\<close>

definition routed :: "(string \<Rightarrow> endpoint list) \<Rightarrow> string \<Rightarrow> bool" where
  "routed v rid \<longleftrightarrow> (\<exists>svc. \<exists>e \<in> set (v svc). ep_replica_id e = rid \<and> ep_healthy e)"

definition has_home :: "(string \<Rightarrow> endpoint list) \<Rightarrow> string \<Rightarrow> bool" where
  "has_home v rid \<longleftrightarrow> (\<exists>svc. rid \<in> set (ids (v svc)))"

lemma routed_set_all:
  "has_home v rid \<Longrightarrow> routed (\<lambda>svc. set_all rid h (v svc)) rid \<longleftrightarrow> h"
  "rid' \<noteq> rid \<Longrightarrow> routed (\<lambda>svc. set_all rid h (v svc)) rid' \<longleftrightarrow> routed v rid'"
proof -
  have m: "(\<exists>e' \<in> set (set_all rid h eps). ep_replica_id e' = r \<and> ep_healthy e') \<longleftrightarrow>
      (\<exists>e \<in> set eps. ep_replica_id e = r \<and> (if ep_replica_id e = rid then h else ep_healthy e))" for r eps
    unfolding set_all_def map_where_def set_map bex_simps(7) by (intro bex_cong refl) auto
  show "has_home v rid \<Longrightarrow> routed (\<lambda>svc. set_all rid h (v svc)) rid \<longleftrightarrow> h"
    unfolding routed_def m by (auto simp: has_home_def ids_def)
  show "rid' \<noteq> rid \<Longrightarrow> routed (\<lambda>svc. set_all rid h (v svc)) rid' \<longleftrightarrow> routed v rid'"
    unfolding routed_def m by auto
qed

text \<open>A check of one replica, as the loop over the services makes it.\<close>

type_synonym check = "timestamp \<times> string \<times> string \<times> int \<times> string \<times> string \<times> (string \<Rightarrow> int result)"

definition check_run :: "'r routing_ops \<Rightarrow> settings \<Rightarrow> check list \<Rightarrow> ('r health_checker, unit) prog" where
  "check_run rt cfg checks = for_p checks (\<lambda>(now, rid, ip, port, path, svc, http_get).
     check_replica rt cfg now http_get rid ip port path svc)"

text \<open>The results of a replica: those of its checks that have an address.\<close>

definition results :: "string \<Rightarrow> check list \<Rightarrow> bool list" where
  "results r checks = List.map_filter (\<lambda>(now, rid, ip, port, path, svc, http_get).
     if rid = r \<and> ip \<noteq> [] then Some (probe_http http_get (probe_url ip port path)) else None) checks"

lemma results_simps [simp]:
  "results r [] = []"
  "results r ((now, rid, ip, port, path, svc, g) # cs) =
     (if rid = r \<and> ip \<noteq> [] then probe_http g (probe_url ip port path) # results r cs else results r cs)"
  by (simp_all add: results_def List.map_filter_def)

context routing
begin

definition hc_ok :: "'s health_checker \<Rightarrow> bool" where
  "hc_ok h \<longleftrightarrow> inv (hc_routing h) \<and> (\<forall>r. one_home r (view (hc_routing h)))"

definition hc_abs :: "string \<Rightarrow> 's health_checker \<Rightarrow> int \<times> int \<times> bool" where
  "hc_abs r h = (dict_get_or (hc_failures h) r 0, dict_get_or (hc_successes h) r 0, routed (view (hc_routing h)) r)"

lemma one_home_set_all: "one_home r v \<Longrightarrow> one_home r (\<lambda>svc. set_all rid b (v svc))"
  by (simp add: one_home_def)

lemma on_success_run:
  assumes "hc_ok h"
  shows "\<exists>h'. on_success rt cfg now rid svc url h = (Inr (), h') \<and> hc_ok h' \<and>
    (if cfg_health_check_success_threshold cfg \<le> dict_get_or (hc_successes h) rid 0 + 1
     then hc_successes h' = dict_pop rid (dict_put rid (dict_get_or (hc_successes h) rid 0 + 1) (hc_successes h))
       \<and> hc_failures h' = dict_pop rid (hc_failures h)
       \<and> view (hc_routing h') = (\<lambda>svc. set_all rid True (view (hc_routing h) svc))
     else hc_successes h' = dict_put rid (dict_get_or (hc_successes h) rid 0 + 1) (hc_successes h)
       \<and> hc_failures h' = hc_failures h \<and> hc_routing h' = hc_routing h)"
proof -
  obtain s' where s': "rt_set_healthy rt rid True (hc_routing h) = (Inr (), s')" "inv s'"
      "view s' = (\<lambda>svc. set_all rid True (view (hc_routing h) svc))"
    using set_law [of "hc_routing h" rid True] assms by (auto simp: hc_ok_def)
  show ?thesis
    using assms s' by (cases "rid \<in> hc_routeable h"; cases "dict_has (hc_failures h) rid")
      (auto simp: on_success_def when_p_def on_routing_def hc_publish_def prog_defs hc_ok_def one_home_set_all Let_def)
qed

lemma on_failure_run:
  assumes "hc_ok h"
  shows "\<exists>h'. on_failure rt cfg now rid svc url h = (Inr (), h') \<and> hc_ok h' \<and>
     hc_successes h' = dict_pop rid (hc_successes h)
     \<and> hc_failures h' = dict_put rid (dict_get_or (hc_failures h) rid 0 + 1) (hc_failures h)
     \<and> view (hc_routing h') = (if dict_get_or (hc_failures h) rid 0 + 1 = cfg_health_check_failure_threshold cfg
         then (\<lambda>svc. set_all rid False (view (hc_routing h) svc)) else view (hc_routing h))"
proof -
  obtain s' where "rt_set_healthy rt rid False (hc_routing h) = (Inr (), s')" "inv s'"
      "view s' = (\<lambda>svc. set_all rid False (view (hc_routing h) svc))"
    using set_law [of "hc_routing h" rid False] assms by (auto simp: hc_ok_def)
  then show ?thesis
    using assms
    by (auto simp: on_failure_def when_p_def on_routing_def hc_publish_def prog_defs hc_ok_def one_home_set_all)
qed

lemma check_replica_run:
  assumes "hc_ok h"
  shows "\<exists>h'. check_replica rt cfg now http_get rid ip port path svc h = (Inr (), h') \<and> hc_ok h'
    \<and> (\<forall>r. has_home (view (hc_routing h)) r \<longrightarrow> has_home (view (hc_routing h')) r \<and>
        hc_abs r h' = (if rid = r \<and> ip \<noteq> [] then health_step (cfg_health_check_success_threshold cfg)
            (cfg_health_check_failure_threshold cfg) (probe_http http_get (probe_url ip port path)) (hc_abs r h)
          else hc_abs r h))"
proof -
  let ?url = "probe_url ip port path"
  have home: "has_home (\<lambda>svc. set_all rid b (v svc)) r \<longleftrightarrow> has_home v r" for b v r
    by (simp add: has_home_def)
  consider "ip = []" | "ip \<noteq> []" "probe_http http_get ?url" | "ip \<noteq> []" "\<not> probe_http http_get ?url" by blast
  then show ?thesis
  proof cases
    case 1
    then show ?thesis using assms by (simp add: check_replica_def ret_def)
  next
    case 2
    obtain h' where h': "on_success rt cfg now rid svc ?url h = (Inr (), h')" "hc_ok h'"
      "if cfg_health_check_success_threshold cfg \<le> dict_get_or (hc_successes h) rid 0 + 1
       then hc_successes h' = dict_pop rid (dict_put rid (dict_get_or (hc_successes h) rid 0 + 1) (hc_successes h))
         \<and> hc_failures h' = dict_pop rid (hc_failures h)
         \<and> view (hc_routing h') = (\<lambda>svc. set_all rid True (view (hc_routing h) svc))
       else hc_successes h' = dict_put rid (dict_get_or (hc_successes h) rid 0 + 1) (hc_successes h)
         \<and> hc_failures h' = hc_failures h \<and> hc_routing h' = hc_routing h"
      using on_success_run [OF assms, of cfg now rid svc ?url] by blast
    have "check_replica rt cfg now http_get rid ip port path svc h = (Inr (), h')"
      using 2 h'(1) by (simp add: check_replica_def Let_def)
    moreover have "has_home (view (hc_routing h')) r \<and> hc_abs r h' = (if rid = r then health_step
        (cfg_health_check_success_threshold cfg) (cfg_health_check_failure_threshold cfg) True (hc_abs r h) else hc_abs r h)"
      if "has_home (view (hc_routing h)) r" for r
      using h'(3) that home by (cases "rid = r"; cases "cfg_health_check_success_threshold cfg \<le> dict_get_or (hc_successes h) rid 0 + 1")
        (simp_all add: hc_abs_def health_step_def dict_get_or_def routed_set_all home)
    ultimately show ?thesis using 2 h'(2) by simp
  next
    case 3
    then show ?thesis using on_failure_run [OF assms, of cfg now rid svc ?url]
      by (auto simp: check_replica_def Let_def hc_abs_def health_step_def dict_get_or_def routed_set_all home)
  qed
qed

lemma check_run_abs:
  "hc_ok h \<Longrightarrow> has_home (view (hc_routing h)) r \<Longrightarrow> \<exists>h'. check_run rt cfg checks h = (Inr (), h') \<and> hc_ok h'
    \<and> hc_abs r h' = fold (health_step (cfg_health_check_success_threshold cfg) (cfg_health_check_failure_threshold cfg))
        (results r checks) (hc_abs r h)"
proof (induction checks arbitrary: h)
  case (Cons c checks)
  obtain now rid ip port path svc g where c: "c = (now, rid, ip, port, path, svc, g)" by (rule prod_cases7)
  obtain h1 where h1: "check_replica rt cfg now g rid ip port path svc h = (Inr (), h1)" "hc_ok h1"
      "has_home (view (hc_routing h1)) r"
      "hc_abs r h1 = (if rid = r \<and> ip \<noteq> [] then health_step (cfg_health_check_success_threshold cfg)
          (cfg_health_check_failure_threshold cfg) (probe_http g (probe_url ip port path)) (hc_abs r h) else hc_abs r h)"
    using check_replica_run [OF Cons.prems(1), of cfg now g rid ip port path svc] Cons.prems(2) by blast
  show ?case using Cons.IH [OF h1(2,3)] h1(1,4)
    by (auto simp: c check_run_def bind_p_Inr)
qed (simp add: check_run_def ret_def)

end

text \<open>One pass over the services makes the checks of their replicas, in order; the loop makes one pass
  after the other, each with the services and the answers of its time.\<close>

definition checks_of :: "timestamp \<times> (string \<Rightarrow> int result) \<times> service_state list \<Rightarrow> check list" where
  "checks_of pass = (case pass of (now, http_get, services) \<Rightarrow>
     concat (map (\<lambda>st. map (\<lambda>r. (now, rs_replica_id r, rs_container_ip r,
       sp_port (ss_spec st), sp_health_check_path (ss_spec st), sp_name (ss_spec st), http_get)) (ss_replicas st)) services))"

definition passes :: "'r routing_ops \<Rightarrow> settings \<Rightarrow> (timestamp \<times> (string \<Rightarrow> int result) \<times> service_state list) list
    \<Rightarrow> ('r health_checker, unit) prog" where
  "passes rt cfg ps = for_p ps (\<lambda>(now, http_get, services). check_all_services rt cfg now http_get services)"

lemma for_p_append: "for_p (xs @ ys) f = bind_p (for_p xs f) (\<lambda>_. for_p ys f)"
  by (induction xs) (simp_all add: bind_p_assoc)

lemma for_p_map: "for_p (map f xs) g = for_p xs (\<lambda>x. g (f x))"
  by (induction xs) simp_all

lemma for_p_concat: "for_p (concat xss) f = for_p xss (\<lambda>xs. for_p xs f)"
  by (induction xss) (simp_all add: for_p_append)

lemma check_all_services_run:
  "check_all_services rt cfg now http_get services = check_run rt cfg (checks_of (now, http_get, services))"
  by (simp add: check_all_services_def check_run_def checks_of_def for_p_concat for_p_map)

lemma passes_run: "passes rt cfg ps = check_run rt cfg (concat (map checks_of ps))"
proof -
  have "(\<lambda>p. check_run rt cfg (checks_of p)) = (\<lambda>(now, http_get, services). check_all_services rt cfg now http_get services)"
    by (auto simp: check_all_services_run)
  then show ?thesis
    by (simp add: passes_def check_run_def for_p_concat for_p_map)
qed

section \<open>Properties\<close>

definition new_checker :: "redis_db \<Rightarrow> redis_db health_checker" where
  "new_checker db = \<lparr>hc_failures = [], hc_successes = [], hc_routeable = {}, hc_routing = db, hc_published = []\<rparr>"

text \<open>C6. When a replica gets traffic. Let \<open>S\<close> and \<open>F\<close> be the success and failure thresholds. After any
  number of passes of a new checker over any services, a replica whose endpoint started unhealthy
  is routed exactly when its probes include \<open>S\<close> successes in a row that fewer than \<open>F\<close> failures
  follow. Its results are those of its probes with an address, in order; the results of other
  replicas do not matter.\<close>

theorem routed_iff_recovered:
  assumes "redis_inv db" and "\<forall>r. one_home r (redis_view db)"
    and "has_home (redis_view db) rid" and "\<not> routed (redis_view db) rid"
    and "cfg_health_check_success_threshold cfg = int S" and "0 < S"
    and "cfg_health_check_failure_threshold cfg = int F" and "0 < F"
    and "results rid (concat (map checks_of ps)) = oks"
  shows "routed (redis_view (hc_routing (snd (passes redis_routing cfg ps (new_checker db))))) rid \<longleftrightarrow>
    (\<exists>pre post. oks = pre @ replicate S True @ post \<and> count_list post False < F)"
proof -
  let ?h = "new_checker db"
  have ok: "redis_rt.hc_ok ?h" "has_home (redis_view (hc_routing ?h)) rid" "redis_rt.hc_abs rid ?h = (0, 0, False)"
    using assms(1-4) by (simp_all add: redis_rt.hc_ok_def redis_rt.hc_abs_def new_checker_def dict_get_or_def)
  obtain h' where h': "passes redis_routing cfg ps ?h = (Inr (), h')"
      "redis_rt.hc_abs rid h' = fold (health_step (int S) (int F)) oks (0, 0, False)"
    using redis_rt.check_run_abs [OF ok(1,2), of cfg "concat (map checks_of ps)"] assms(5,7,9) ok(3)
    by (auto simp: passes_run)
  have "routed (redis_view (hc_routing h')) rid \<longleftrightarrow> (\<exists>n < F. occurs S n oks)"
    by (rule machine_health [OF assms(8,6) h'(2) [unfolded redis_rt.hc_abs_def, symmetric]])
  then show ?thesis using h'(1) unfolding occurs_def by auto
qed

abbreviation demo_service :: service_state where
  "demo_service \<equiv> (new_service_state 0 (default_service_spec ''web'' ''img''))\<lparr>ss_replicas :=
     [\<lparr>rs_replica_id = ''b'', rs_container_id = ''c'', rs_node_id = ''node-00'', rs_status = RUNNING,
       rs_container_ip = ''10.0.0.1'', rs_image = ''img'', rs_cpu_percent = 0, rs_memory_mb = 0, rs_started_at = 0\<rparr>]\<rparr>"

theorem routed_iff_recovered_witness:
  "routed (redis_view (hc_routing (snd (passes redis_routing default_settings
     [(0, \<lambda>_. Inr 200, [demo_service]), (1, \<lambda>_. Inl OSError, [demo_service]), (2, \<lambda>_. Inr 503, [demo_service])]
     (new_checker demo_db))))) ''b''"
proof -
  let ?ps = "[(0, \<lambda>_. Inr 200, [demo_service]), (1, \<lambda>_. Inl OSError, [demo_service]), (2, \<lambda>_. Inr 503, [demo_service])]"
  have home: "ids (redis_view demo_db svc) = (if svc = ''web'' then [''a'', ''b'', ''c''] else [])" for svc
    by (simp add: demo_db_def redis_view_def ids_def)
  have one: "\<forall>r. one_home r (redis_view demo_db)" by (auto simp: one_home_def home split: if_splits)
  have has: "has_home (redis_view demo_db) ''b''" by (auto simp: has_home_def home)
  have not: "\<not> routed (redis_view demo_db) ''b''"
    by (auto simp: routed_def demo_db_def redis_view_def split: option.splits if_splits)
  have res: "results ''b'' (concat (map checks_of ?ps)) = [True, False, False]"
    by (simp add: checks_of_def probe_http_def new_service_state_def)
  have "\<exists>pre post. [True, False, False] = pre @ replicate 1 True @ post \<and> count_list post False < 3"
    by (rule exI [of _ "[]"]) simp
  then show ?thesis
    using routed_iff_recovered [OF demo_db(1) one has not, of default_settings 1 3 ?ps, OF _ _ _ _ res]
    by (simp add: default_settings_def)
qed

end
