(* ===== verification/Docker.thy ===== *)
theory Docker
  imports Models
begin

text \<open>
  The Docker client of \<open>aws_light/compute/docker_client.py\<close>. The Docker SDK and its daemon are a
  parameter: the record \<open>docker_daemon\<close> holds the calls the client makes, as methods on a daemon
  state of any type. Its exceptions are \<open>DockerNotFound\<close> and \<open>DockerAPIError\<close> with their text
  (\<open>str(error)\<close>); in the SDK the first is a subclass of the second. What the theorems need of the
  daemon is stated by \<open>docker_ok\<close>.
\<close>

section \<open>The daemon\<close>

record attachment =
  na_ip_address :: string
  na_aliases :: "string list"

text \<open>The attributes of a container that the client reads.\<close>

record container =
  ct_id :: string
  ct_name :: string
  ct_status :: string
  ct_labels :: "(string, string) pydict"
  ct_networks :: "(string, attachment) pydict"
  ct_image_tags :: "string list"
  ct_config_image :: string
  ct_health :: string
  ct_ports :: "(string, (string \<times> string) list) pydict"

record run_options =
  rn_image :: string
  rn_name :: string
  rn_environment :: "(string, string) pydict"
  rn_cpu_quota :: int
  rn_mem_limit :: string
  rn_network :: string
  rn_labels :: "(string, string) pydict"
  rn_volumes :: "(string, string \<times> string) pydict option"

record 'd docker_daemon =
  dd_network_get :: "string \<Rightarrow> ('d, unit) prog"
  dd_network_create :: "string \<Rightarrow> ('d, unit) prog"
  dd_network_remove :: "string \<Rightarrow> ('d, unit) prog"
  dd_network_connect :: "string \<Rightarrow> string \<Rightarrow> string list \<Rightarrow> ('d, unit) prog"
  dd_network_disconnect :: "string \<Rightarrow> string \<Rightarrow> ('d, unit) prog"
  dd_get :: "string \<Rightarrow> ('d, container) prog"
  dd_reload :: "string \<Rightarrow> ('d, container) prog"
  dd_run :: "run_options \<Rightarrow> ('d, string) prog"
  dd_stop :: "string \<Rightarrow> ('d, unit) prog"
  dd_remove :: "string \<Rightarrow> ('d, unit) prog"
  dd_stats :: "string \<Rightarrow> ('d, json) prog"
  dd_logs :: "string \<Rightarrow> int \<Rightarrow> ('d, string) prog"
  dd_list :: "bool \<Rightarrow> string option \<Rightarrow> ('d, container list) prog"
  dd_pull :: "string \<Rightarrow> ('d, unit) prog"

fun not_found :: "py_exn \<Rightarrow> bool" where
  "not_found (DockerNotFound m) = True"
| "not_found _ = False"

text \<open>The text of an \<open>APIError\<close>; \<open>None\<close> for other exceptions.\<close>

fun api_error :: "py_exn \<Rightarrow> string option" where
  "api_error (DockerNotFound m) = Some m"
| "api_error (DockerAPIError m) = Some m"
| "api_error _ = None"

text \<open>\<open>try: m  except NotFound: h\<close>.\<close>

definition except_not_found :: "('s, 'a) prog \<Rightarrow> ('s, 'a) prog \<Rightarrow> ('s, 'a) prog" where
  "except_not_found m h = try_p m (\<lambda>e. if not_found e then h else raise e)"

section \<open>Networks\<close>

definition ensure_network :: "'d docker_daemon \<Rightarrow> string \<Rightarrow> ('d, unit) prog" where
  "ensure_network dd network_name =
     except_not_found (dd_network_get dd network_name) (dd_network_create dd network_name)"

text \<open>
  The handler of \<open>except APIError\<close>; \<open>bound\<close> says that \<open>network\<close> and \<open>container\<close> have been
  assigned. The clause \<open>except NotFound\<close> after it is never reached.
\<close>

definition connect_handler :: "'d docker_daemon \<Rightarrow> string \<Rightarrow> string \<Rightarrow> string list \<Rightarrow> bool \<Rightarrow> py_exn \<Rightarrow> ('d, unit) prog" where
  "connect_handler dd container_id network_name aliases bound error = (case api_error error of
     None \<Rightarrow> raise error
   | Some message \<Rightarrow>
       if \<not> contains_sub ''already exists'' (lower message) then raise error
       else if aliases = [] then ret ()
       else if \<not> bound then raise (UnboundLocalError ''network'')
       else try_p (bind_p (dd_network_disconnect dd network_name container_id) (\<lambda>_.
                   dd_network_connect dd network_name container_id aliases))
              (\<lambda>reconnect_error. if api_error reconnect_error \<noteq> None then ret () else raise reconnect_error))"

text \<open>\<open>aliases\<close> is the empty list for \<open>None\<close>: the code tests \<open>not aliases\<close>.\<close>

definition connect_container_to_network :: "'d docker_daemon \<Rightarrow> string \<Rightarrow> string \<Rightarrow> string list \<Rightarrow> ('d, unit) prog" where
  "connect_container_to_network dd container_id network_name aliases d =
    (case bind_p (dd_network_get dd network_name) (\<lambda>_.
          bind_p (dd_get dd container_id) (\<lambda>_. dd_reload dd container_id)) d of
       (Inl e, d') \<Rightarrow> connect_handler dd container_id network_name aliases False e d'
     | (Inr c, d') \<Rightarrow>
        (case dict_get (ct_networks c) network_name of
           Some attached \<Rightarrow>
             if aliases = [] \<or> set aliases \<subseteq> set (na_aliases attached) then ret () d'
             else try_p (dd_network_connect dd network_name container_id aliases)
                    (connect_handler dd container_id network_name aliases True) d'
         | None \<Rightarrow> try_p (dd_network_connect dd network_name container_id aliases)
                     (connect_handler dd container_id network_name aliases True) d'))"

definition remove_network :: "'d docker_daemon \<Rightarrow> string \<Rightarrow> ('d, unit) prog" where
  "remove_network dd network_name =
     try_p (bind_p (dd_network_get dd network_name) (\<lambda>_. dd_network_remove dd network_name))
       (\<lambda>e. if api_error e \<noteq> None then ret () else raise e)"

section \<open>Containers\<close>

definition pull_image :: "'d docker_daemon \<Rightarrow> string \<Rightarrow> ('d, unit) prog" where
  "pull_image dd img = dd_pull dd img"

definition format_volume_bindings :: "(string, string) pydict option \<Rightarrow> (string, string \<times> string) pydict option" where
  "format_volume_bindings volumes = map_option (map (\<lambda>(volume_name, mount_path). (volume_name, (mount_path, ''rw'')))) volumes"

definition network_ip :: "container \<Rightarrow> string \<Rightarrow> string" where
  "network_ip c network = (case dict_get (ct_networks c) network of None \<Rightarrow> [] | Some a \<Rightarrow> na_ip_address a)"

fun poll_container_ip :: "'d docker_daemon \<Rightarrow> nat \<Rightarrow> string \<Rightarrow> string \<Rightarrow> ('d, string) prog" where
  "poll_container_ip dd 0 container_id network = ret []"
| "poll_container_ip dd (Suc retries) container_id network = bind_p (dd_reload dd container_id) (\<lambda>c.
     if network_ip c network \<noteq> [] then ret (network_ip c network)
     else poll_container_ip dd retries container_id network)"

definition create_container :: "'d docker_daemon \<Rightarrow> settings \<Rightarrow> string \<Rightarrow> string \<Rightarrow> (string, string) pydict
    \<Rightarrow> pyfloat \<Rightarrow> int \<Rightarrow> string \<Rightarrow> (string, string) pydict \<Rightarrow> (string, string) pydict option
    \<Rightarrow> ('d, string \<times> string) prog" where
  "create_container dd cfg img name env cpu_quota memory_mb network labels volumes =
     bind_p (dd_run dd \<lparr>rn_image = img, rn_name = name, rn_environment = env,
        rn_cpu_quota = float_to_int (fmul cpu_quota 100000), rn_mem_limit = str_int memory_mb @ ''m'',
        rn_network = network, rn_labels = labels, rn_volumes = format_volume_bindings volumes\<rparr>) (\<lambda>container_id.
     bind_p (poll_container_ip dd (cfg_container_ip_poll_retries cfg) container_id network) (\<lambda>container_ip.
     ret (container_id, container_ip)))"

definition get_container_ip :: "'d docker_daemon \<Rightarrow> string \<Rightarrow> string \<Rightarrow> ('d, string) prog" where
  "get_container_ip dd container_id network =
     except_not_found (bind_p (dd_get dd container_id) (\<lambda>_. bind_p (dd_reload dd container_id) (\<lambda>c.
       ret (network_ip c network)))) (ret [])"

definition remove_container :: "'d docker_daemon \<Rightarrow> string \<Rightarrow> ('d, unit) prog" where
  "remove_container dd container_id =
     except_not_found (bind_p (dd_get dd container_id) (\<lambda>c.
       bind_p (dd_stop dd (ct_id c)) (\<lambda>_. dd_remove dd (ct_id c)))) (ret ())"

record container_info =
  ci_container_id :: string
  ci_name :: string
  ci_status :: string
  ci_labels :: "(string, string) pydict"

definition container_info_of :: "container \<Rightarrow> container_info" where
  "container_info_of c = \<lparr>ci_container_id = ct_id c, ci_name = ct_name c, ci_status = ct_status c, ci_labels = ct_labels c\<rparr>"

definition list_containers_by_label :: "'d docker_daemon \<Rightarrow> string \<Rightarrow> string \<Rightarrow> ('d, container_info list) prog" where
  "list_containers_by_label dd label_key label_value =
     bind_p (dd_list dd False (Some (label_key @ ''='' @ label_value))) (\<lambda>containers. ret (map container_info_of containers))"

definition get_container_by_name :: "'d docker_daemon \<Rightarrow> string \<Rightarrow> ('d, container_info option) prog" where
  "get_container_by_name dd name =
     except_not_found (bind_p (dd_get dd name) (\<lambda>c. ret (Some (container_info_of c)))) (ret None)"

definition container_exists :: "'d docker_daemon \<Rightarrow> string \<Rightarrow> ('d, bool) prog" where
  "container_exists dd container_id =
     except_not_found (bind_p (dd_get dd container_id) (\<lambda>_. ret True)) (ret False)"

definition container_is_running :: "'d docker_daemon \<Rightarrow> string \<Rightarrow> ('d, bool) prog" where
  "container_is_running dd container_id =
     except_not_found (bind_p (dd_get dd container_id) (\<lambda>_. bind_p (dd_reload dd container_id) (\<lambda>c.
       ret (ct_status c = ''running'')))) (ret False)"

definition get_container_logs :: "'d docker_daemon \<Rightarrow> string \<Rightarrow> int \<Rightarrow> ('d, string) prog" where
  "get_container_logs dd container_id tail =
     except_not_found (bind_p (dd_get dd container_id) (\<lambda>_. bind_p (dd_logs dd container_id tail) (\<lambda>raw_logs.
       ret (decode_replace raw_logs)))) (ret [])"

section \<open>Statistics\<close>

text \<open>\<open>x[key]\<close> and \<open>x.get(key, default)\<close> on the JSON of a response.\<close>

definition js_item :: "json \<Rightarrow> string \<Rightarrow> json result" where
  "js_item j k = (case j of
     JDict d \<Rightarrow> (case dict_get d k of None \<Rightarrow> Inl (KeyError k) | Some v \<Rightarrow> Inr v)
   | _ \<Rightarrow> Inl (TypeError k))"

definition js_get :: "json \<Rightarrow> string \<Rightarrow> json \<Rightarrow> json result" where
  "js_get j k v = (case j of
     JDict d \<Rightarrow> Inr (dict_get_or d k v)
   | _ \<Rightarrow> Inl (AttributeError k))"

definition js_int :: "json \<Rightarrow> int result" where
  "js_int j = (case j of JInt i \<Rightarrow> Inr i | _ \<Rightarrow> Inl (TypeError ''int''))"

record container_stats =
  cs_cpu_percent :: pyfloat
  cs_memory_mb :: pyfloat

definition total_usage :: "json \<Rightarrow> string \<Rightarrow> int result" where
  "total_usage raw key = bind_r (js_item raw key) (\<lambda>s. bind_r (js_item s ''cpu_usage'') (\<lambda>u.
     bind_r (js_item u ''total_usage'') js_int))"

definition calculate_cpu_percent :: "json \<Rightarrow> pyfloat result" where
  "calculate_cpu_percent raw_stats =
     bind_r (total_usage raw_stats ''cpu_stats'') (\<lambda>total.
     bind_r (total_usage raw_stats ''precpu_stats'') (\<lambda>pretotal.
     bind_r (js_item raw_stats ''cpu_stats'') (\<lambda>cpu.
     bind_r (js_item raw_stats ''precpu_stats'') (\<lambda>precpu.
     bind_r (bind_r (js_get cpu ''system_cpu_usage'' (JInt 0)) js_int) (\<lambda>system.
     bind_r (bind_r (js_get precpu ''system_cpu_usage'' (JInt 0)) js_int) (\<lambda>presystem.
     bind_r (bind_r (js_get cpu ''online_cpus'' (JInt 1)) js_int) (\<lambda>num_cpus.
       (let cpu_delta = total - pretotal; system_delta = system - presystem in
        if system_delta \<le> 0 \<or> cpu_delta < 0 then Inr 0
        else Inr (fmul (fmul (int_div cpu_delta system_delta) (float_of_int num_cpus)) 100)))))))))"

definition lift_r :: "'a result \<Rightarrow> ('s, 'a) prog" where
  "lift_r r s = (r, s)"

definition get_container_stats :: "'d docker_daemon \<Rightarrow> string \<Rightarrow> ('d, container_stats option) prog" where
  "get_container_stats dd container_id =
     try_p (bind_p (dd_get dd container_id) (\<lambda>_. bind_p (dd_stats dd container_id) (\<lambda>raw_stats.
       bind_p (lift_r (calculate_cpu_percent raw_stats)) (\<lambda>cpu_percent.
       bind_p (lift_r (bind_r (js_item raw_stats ''memory_stats'') (\<lambda>m.
         bind_r (js_get m ''usage'' (JInt 0)) js_int))) (\<lambda>memory_bytes.
       ret (Some \<lparr>cs_cpu_percent = cpu_percent, cs_memory_mb = int_div memory_bytes (1024 * 1024)\<rparr>))))))
     (\<lambda>e. case e of DockerNotFound m \<Rightarrow> ret None | KeyError k \<Rightarrow> ret None | _ \<Rightarrow> raise e)"

section \<open>The containers of the compose project\<close>

record compose_container_info =
  cc_service :: string
  cc_container_id :: string
  cc_name :: string
  cc_image :: string
  cc_status :: string
  cc_health :: string
  cc_ports :: "string list"

definition service_name_from_container :: "string \<Rightarrow> string" where
  "service_name_from_container container_name =
     hd (rsplit1 CHR ''-'' (remove_prefix ''aws-light-'' container_name))"

definition format_ports :: "(string, (string \<times> string) list) pydict \<Rightarrow> string list" where
  "format_ports raw_ports = concat (map (\<lambda>(container_port, host_bindings).
     if host_bindings = [] then [container_port]
     else map (\<lambda>(host_ip, host_port). host_ip @ '':'' @ host_port @ ''->'' @ container_port) host_bindings) raw_ports)"

definition compose_container_info_of :: "container \<Rightarrow> compose_container_info" where
  "compose_container_info_of c = \<lparr>
     cc_service = dict_get_or (ct_labels c) ''com.docker.compose.service'' (service_name_from_container (ct_name c)),
     cc_container_id = ct_id c, cc_name = ct_name c,
     cc_image = (case ct_image_tags c of t # ts \<Rightarrow> t | [] \<Rightarrow> ct_config_image c),
     cc_status = ct_status c, cc_health = ct_health c, cc_ports = format_ports (ct_ports c)\<rparr>"

definition list_compose_containers :: "'d docker_daemon \<Rightarrow> string \<Rightarrow> ('d, compose_container_info list) prog" where
  "list_compose_containers dd project_name =
     bind_p (dd_list dd True (Some (''com.docker.compose.project='' @ project_name))) (\<lambda>labelled.
     bind_p (if labelled \<noteq> [] then ret labelled
             else bind_p (dd_list dd True None) (\<lambda>all.
               ret (filter (\<lambda>c. starts_with (project_name @ ''-'') (ct_name c)) all))) (\<lambda>containers.
     map_p (\<lambda>c. bind_p (dd_reload dd (ct_id c)) (\<lambda>c'. ret (compose_container_info_of c'))) containers))"

section \<open>What the daemon promises\<close>

text \<open>
  The laws of a healthy daemon, over its containers \<open>cs\<close> (what it finds under an id or a name) and
  its networks \<open>nets\<close>. Starting a container may fail; a call on a network may answer with an
  \<open>APIError\<close> that says the endpoint already exists; other calls fail with \<open>NotFound\<close> only.
\<close>

definition same_containers :: "('d \<Rightarrow> string \<Rightarrow> container option) \<Rightarrow> 'd \<Rightarrow> 'd \<Rightarrow> bool" where
  "same_containers cs d d' \<longleftrightarrow> (\<forall>x. rel_option (\<lambda>c c'. ct_id c' = ct_id c \<and> ct_status c' = ct_status c) (cs d x) (cs d' x))"

definition alive :: "('d \<Rightarrow> string \<Rightarrow> container option) \<Rightarrow> 'd \<Rightarrow> string \<Rightarrow> bool" where
  "alive cs d x \<longleftrightarrow> (case cs d x of None \<Rightarrow> False | Some c \<Rightarrow> ct_status c = ''running'')"

definition drop_container :: "string \<Rightarrow> (string \<Rightarrow> container option) \<Rightarrow> string \<Rightarrow> container option" where
  "drop_container cid m y = (case m y of None \<Rightarrow> None | Some c \<Rightarrow> if ct_id c = cid then None else Some c)"

definition already_exists :: "py_exn \<Rightarrow> bool" where
  "already_exists e \<longleftrightarrow> (\<exists>m. e = DockerAPIError m \<and> contains_sub ''already exists'' (lower m))"

locale docker_laws =
  fixes dd :: "'d docker_daemon"
    and cs :: "'d \<Rightarrow> string \<Rightarrow> container option"
    and nets :: "'d \<Rightarrow> string set"
  assumes by_id: "cs d x = Some c \<Longrightarrow> cs d (ct_id c) = Some c"
    and get_law: "cs d x = Some c \<Longrightarrow> dd_get dd x d = (Inr c, d)"
    and get_none: "cs d x = None \<Longrightarrow> \<exists>m. dd_get dd x d = (Inl (DockerNotFound m), d)"
    and reload_law: "cs d x = Some c \<Longrightarrow> dd_reload dd x d = (Inr c, d)"
    and stop_law: "cs d x = Some c \<Longrightarrow> ct_id c = x \<Longrightarrow> \<exists>d'. dd_stop dd x d = (Inr (), d') \<and> nets d' = nets d
      \<and> cs d' = (\<lambda>y. map_option (\<lambda>c'. if ct_id c' = x then c'\<lparr>ct_status := ''exited''\<rparr> else c') (cs d y))"
    and remove_law: "cs d x = Some c \<Longrightarrow> ct_id c = x \<Longrightarrow> \<exists>d'. dd_remove dd x d = (Inr (), d') \<and> nets d' = nets d
      \<and> cs d' = drop_container x (cs d)"
    and run_law: "\<exists>r d'. dd_run dd opts d = (r, d') \<and> nets d' = nets d \<and> (\<forall>y. cs d y \<noteq> None \<longrightarrow> cs d' y = cs d y)
      \<and> (\<forall>cid. r = Inr cid \<longrightarrow> cs d cid = None \<and> (\<exists>c. cs d' cid = Some c \<and> ct_id c = cid \<and> ct_status c = ''running''))"
    and list_law: "\<exists>xs. dd_list dd everything filters d = (Inr xs, d) \<and> (\<forall>c \<in> set xs. cs d (ct_id c) = Some c)"
    and network_get_law: "n \<in> nets d \<Longrightarrow> dd_network_get dd n d = (Inr (), d)"
    and network_get_none: "n \<notin> nets d \<Longrightarrow> \<exists>m. dd_network_get dd n d = (Inl (DockerNotFound m), d)"
    and network_create_law: "\<exists>d'. dd_network_create dd n d = (Inr (), d') \<and> cs d' = cs d \<and> nets d' = insert n (nets d)"
    and network_remove_law: "\<exists>r d'. dd_network_remove dd n d = (r, d') \<and> (\<forall>e. r = Inl e \<longrightarrow> api_error e \<noteq> None)
      \<and> same_containers cs d d' \<and> nets d - {n} \<subseteq> nets d'"
    and connect_law: "n \<in> nets d \<Longrightarrow> cs d x \<noteq> None \<Longrightarrow> \<exists>r d'. dd_network_connect dd n x aliases d = (r, d')
      \<and> (\<forall>e. r = Inl e \<longrightarrow> already_exists e) \<and> same_containers cs d d' \<and> nets d' = nets d"
    and disconnect_law: "n \<in> nets d \<Longrightarrow> cs d x \<noteq> None \<Longrightarrow> \<exists>r d'. dd_network_disconnect dd n x d = (r, d')
      \<and> (\<forall>e. r = Inl e \<longrightarrow> api_error e \<noteq> None) \<and> same_containers cs d d' \<and> nets d' = nets d"

lemma same_containers_refl [simp]: "same_containers cs d d"
  by (simp add: same_containers_def option.rel_refl)

lemma same_containers_trans: "same_containers cs d d' \<Longrightarrow> same_containers cs d' d'' \<Longrightarrow> same_containers cs d d''"
proof -
  assume a: "same_containers cs d d'" "same_containers cs d' d''"
  have "rel_option (\<lambda>c c'. ct_id c' = ct_id c \<and> ct_status c' = ct_status c) (cs d x) (cs d'' x)" for x
    using a [unfolded same_containers_def, rule_format, of x]
    by (cases "cs d x"; cases "cs d' x"; cases "cs d'' x") auto
  then show ?thesis by (simp add: same_containers_def)
qed

lemma same_containers_alive: "same_containers cs d d' \<Longrightarrow> alive cs d' x \<longleftrightarrow> alive cs d x"
  using same_containers_def [of cs d d'] by (auto simp: alive_def split: option.splits dest: spec [of _ x])

lemma same_containers_exists: "same_containers cs d d' \<Longrightarrow> cs d' x \<noteq> None \<longleftrightarrow> cs d x \<noteq> None"
  using same_containers_def [of cs d d'] by (cases "cs d x"; cases "cs d' x") (auto dest: spec [of _ x])

lemma already_exists_api: "already_exists e \<Longrightarrow> api_error e \<noteq> None \<and> contains_sub ''already exists'' (lower (the (api_error e)))"
  by (auto simp: already_exists_def)

context docker_laws
begin

lemma is_running_run: "container_is_running dd x d = (Inr (alive cs d x), d)"
proof (cases "cs d x")
  case None
  then show ?thesis using get_none [OF None]
    by (auto simp: container_is_running_def except_not_found_def alive_def prog_defs)
next
  case (Some c)
  then show ?thesis using get_law [OF Some] reload_law [OF Some]
    by (simp add: container_is_running_def except_not_found_def alive_def prog_defs)
qed

lemma get_container_ip_run: "\<exists>ip. get_container_ip dd x n d = (Inr ip, d)"
proof (cases "cs d x")
  case None
  then show ?thesis using get_none [OF None] by (auto simp: get_container_ip_def except_not_found_def prog_defs)
next
  case (Some c)
  then show ?thesis using get_law [OF Some] reload_law [OF Some]
    by (simp add: get_container_ip_def except_not_found_def prog_defs)
qed

text \<open>Removing a container never fails, and makes exactly that container disappear.\<close>

lemma remove_container_run:
  "\<exists>d'. remove_container dd x d = (Inr (), d') \<and> nets d' = nets d
    \<and> cs d' = (case cs d x of None \<Rightarrow> cs d | Some c \<Rightarrow> drop_container (ct_id c) (cs d))"
proof (cases "cs d x")
  case None
  then show ?thesis using get_none [OF None]
    by (auto simp: remove_container_def except_not_found_def prog_defs)
next
  case (Some c)
  obtain d1 where d1: "dd_stop dd (ct_id c) d = (Inr (), d1)" "nets d1 = nets d"
      "cs d1 = (\<lambda>y. map_option (\<lambda>c'. if ct_id c' = ct_id c then c'\<lparr>ct_status := ''exited''\<rparr> else c') (cs d y))"
    using stop_law [OF by_id [OF Some]] by blast
  have "cs d1 (ct_id c) = Some (c\<lparr>ct_status := ''exited''\<rparr>)" using d1(3) by_id [OF Some] by simp
  from remove_law [OF this] obtain d2 where d2: "dd_remove dd (ct_id c) d1 = (Inr (), d2)" "nets d2 = nets d1"
      "cs d2 = drop_container (ct_id c) (cs d1)" by auto
  have "drop_container (ct_id c) (cs d1) = drop_container (ct_id c) (cs d)"
    using d1(3) by (auto simp: drop_container_def fun_eq_iff split: option.split)
  then show ?thesis using Some d1 d2 get_law [OF Some]
    by (simp add: remove_container_def except_not_found_def prog_defs)
qed

lemma ensure_network_run:
  "\<exists>d'. ensure_network dd n d = (Inr (), d') \<and> cs d' = cs d \<and> nets d' = insert n (nets d)"
proof (cases "n \<in> nets d")
  case True
  then show ?thesis using network_get_law [OF True]
    by (simp add: ensure_network_def except_not_found_def prog_defs insert_absorb)
next
  case False
  then show ?thesis using network_get_none [OF False] network_create_law [of n d]
    by (auto simp: ensure_network_def except_not_found_def prog_defs)
qed

lemma remove_network_run:
  "\<exists>d'. remove_network dd n d = (Inr (), d') \<and> same_containers cs d d' \<and> nets d - {n} \<subseteq> nets d'"
proof (cases "n \<in> nets d")
  case True
  then show ?thesis using network_get_law [OF True] network_remove_law [of n d]
    by (auto simp: remove_network_def prog_defs split: sum.splits)
next
  case False
  then show ?thesis using network_get_none [OF False]
    by (auto simp: remove_network_def prog_defs)
qed

lemma connect_retry:
  assumes "n \<in> nets d" "cs d x \<noteq> None" "already_exists e"
  shows "\<exists>d'. connect_handler dd x n aliases True e d = (Inr (), d') \<and> same_containers cs d d' \<and> nets d' = nets d"
proof -
  obtain r1 d1 where d1: "dd_network_disconnect dd n x d = (r1, d1)" "\<forall>e. r1 = Inl e \<longrightarrow> api_error e \<noteq> None"
      "same_containers cs d d1" "nets d1 = nets d"
    using disconnect_law [OF assms(1,2)] by blast
  obtain r2 d2 where d2: "dd_network_connect dd n x aliases d1 = (r2, d2)" "\<forall>e. r2 = Inl e \<longrightarrow> already_exists e"
      "same_containers cs d1 d2" "nets d2 = nets d1"
    using connect_law [of n d1 x aliases] assms(1,2) d1(3,4) same_containers_exists [OF d1(3), of x] by auto
  have "r2 = Inl e \<Longrightarrow> api_error e \<noteq> None" for e using d2(2) already_exists_api by blast
  then show ?thesis
    using d1 d2 same_containers_trans [OF d1(3) d2(3)] already_exists_api [OF assms(3)]
    by (cases r1; cases r2) (auto simp: connect_handler_def prog_defs)
qed

lemma connect_run:
  assumes "n \<in> nets d" "cs d x \<noteq> None"
  shows "\<exists>d'. connect_container_to_network dd x n aliases d = (Inr (), d') \<and> same_containers cs d d' \<and> nets d' = nets d"
proof -
  obtain c where c: "cs d x = Some c" using assms(2) by blast
  obtain r d1 where d1: "dd_network_connect dd n x aliases d = (r, d1)" "\<forall>e. r = Inl e \<longrightarrow> already_exists e"
      "same_containers cs d d1" "nets d1 = nets d"
    using connect_law [OF assms] by blast
  have "\<exists>d'. try_p (dd_network_connect dd n x aliases) (connect_handler dd x n aliases True) d = (Inr (), d')
      \<and> same_containers cs d d' \<and> nets d' = nets d"
  proof (cases r)
    case (Inl e)
    then obtain d2 where "connect_handler dd x n aliases True e d1 = (Inr (), d2)" "same_containers cs d1 d2" "nets d2 = nets d1"
      using connect_retry [of n d1 x e aliases] d1 assms same_containers_exists [OF d1(3), of x] by auto
    then show ?thesis using Inl d1 same_containers_trans [OF d1(3)] by (auto simp: try_p_def)
  next
    case (Inr u)
    then show ?thesis using d1 by (simp add: try_p_def)
  qed
  then show ?thesis
    using network_get_law [OF assms(1)] get_law [OF c] reload_law [OF c]
    by (auto simp: connect_container_to_network_def bind_p_def ret_def split: option.split)
qed

lemma map_reload_run:
  "\<forall>c \<in> set xs. cs d (ct_id c) = Some c \<Longrightarrow>
    map_p (\<lambda>c. bind_p (dd_reload dd (ct_id c)) (\<lambda>c'. ret (compose_container_info_of c'))) xs d =
      (Inr (map compose_container_info_of xs), d)"
  by (induction xs) (auto simp: prog_defs dest!: reload_law)

lemma list_compose_run:
  "\<exists>xs. list_compose_containers dd project d = (Inr xs, d) \<and> (\<forall>i \<in> set xs. cs d (cc_container_id i) \<noteq> None)"
proof -
  obtain l1 where l1: "dd_list dd True (Some (''com.docker.compose.project='' @ project)) d = (Inr l1, d)"
      "\<forall>c \<in> set l1. cs d (ct_id c) = Some c"
    using list_law [of True "Some (''com.docker.compose.project='' @ project)" d] by blast
  obtain l2 where l2: "dd_list dd True None d = (Inr l2, d)" "\<forall>c \<in> set l2. cs d (ct_id c) = Some c"
    using list_law [of True None d] by blast
  let ?xs = "if l1 \<noteq> [] then l1 else filter (\<lambda>c. starts_with (project @ ''-'') (ct_name c)) l2"
  have x: "\<forall>c \<in> set ?xs. cs d (ct_id c) = Some c" using l1(2) l2(2) by auto
  define g where "g = (\<lambda>c :: container. bind_p (dd_reload dd (ct_id c)) (\<lambda>c'. ret (compose_container_info_of c')))"
  have "map_p g ?xs d = (Inr (map compose_container_info_of ?xs), d)"
    unfolding g_def by (rule map_reload_run [OF x])
  then have "list_compose_containers dd project d = (Inr (map compose_container_info_of ?xs), d)"
    unfolding list_compose_containers_def g_def [symmetric] using l1(1) l2(1)
    by (cases "l1 = []") (simp_all add: bind_p_def ret_def)
  then show ?thesis using x by (auto simp: compose_container_info_of_def)
qed

lemma poll_run: "cs d x = Some c \<Longrightarrow> \<exists>ip. poll_container_ip dd k x n d = (Inr ip, d)"
  by (induction k) (auto simp: prog_defs dest!: reload_law)

text \<open>Creating a container either starts one under a new id, or raises; what was there stays.\<close>

lemma create_container_run:
  "\<exists>r d'. create_container dd cfg img name env quota mem n labels vols d = (r, d') \<and> nets d' = nets d
    \<and> (\<forall>y. cs d y \<noteq> None \<longrightarrow> cs d' y = cs d y)
    \<and> (\<forall>cid ip. r = Inr (cid, ip) \<longrightarrow> cs d cid = None \<and> alive cs d' cid \<and> (\<exists>c. cs d' cid = Some c \<and> ct_id c = cid))"
proof -
  let ?o = "\<lparr>rn_image = img, rn_name = name, rn_environment = env, rn_cpu_quota = float_to_int (fmul quota 100000),
      rn_mem_limit = str_int mem @ ''m'', rn_network = n, rn_labels = labels, rn_volumes = format_volume_bindings vols\<rparr>"
  obtain r d' where r: "dd_run dd ?o d = (r, d')" "nets d' = nets d" "\<forall>y. cs d y \<noteq> None \<longrightarrow> cs d' y = cs d y"
      "\<forall>cid. r = Inr cid \<longrightarrow> cs d cid = None \<and> (\<exists>c. cs d' cid = Some c \<and> ct_id c = cid \<and> ct_status c = ''running'')"
    using run_law [of ?o d] by blast
  show ?thesis
  proof (cases r)
    case (Inl e)
    then show ?thesis using r by (auto simp: create_container_def bind_p_def)
  next
    case (Inr cid)
    then obtain c where c: "cs d cid = None" "cs d' cid = Some c" "ct_id c = cid" "ct_status c = ''running''"
      using r(4) by blast
    obtain ip where "poll_container_ip dd (cfg_container_ip_poll_retries cfg) cid n d' = (Inr ip, d')"
      using poll_run [OF c(2)] by blast
    then have "create_container dd cfg img name env quota mem n labels vols d = (Inr (cid, ip), d')"
      using r(1) Inr by (simp add: create_container_def bind_p_def ret_def)
    then show ?thesis using r(2,3) c by (auto simp: alive_def)
  qed
qed

lemma create_container_starts:
  assumes "\<And>opts d. \<exists>cid d'. dd_run dd opts d = (Inr cid, d')"
  shows "\<exists>x d'. create_container dd cfg img name env quota mem n labels vols d = (Inr x, d')"
proof -
  let ?o = "\<lparr>rn_image = img, rn_name = name, rn_environment = env, rn_cpu_quota = float_to_int (fmul quota 100000),
      rn_mem_limit = str_int mem @ ''m'', rn_network = n, rn_labels = labels, rn_volumes = format_volume_bindings vols\<rparr>"
  obtain cid d' where r: "dd_run dd ?o d = (Inr cid, d')" using assms by blast
  then obtain c where "cs d' cid = Some c" using run_law [of ?o d] by auto
  from poll_run [OF this] obtain ip where "poll_container_ip dd (cfg_container_ip_poll_retries cfg) cid n d' = (Inr ip, d')"
    by blast
  then have "create_container dd cfg img name env quota mem n labels vols d = (Inr (cid, ip), d')"
    using r by (simp add: create_container_def bind_p_def ret_def)
  then show ?thesis by blast
qed

end

text \<open>A small daemon in memory that meets the laws: it starts every container, under a new id, and
  finds containers by their id only.\<close>

record memory_daemon =
  md_containers :: "(string, container) pydict"
  md_networks :: "string list"

definition fresh_id :: "(string, container) pydict \<Rightarrow> string" where
  "fresh_id d = replicate (Suc (sum_list (map length (dict_keys d)))) CHR ''c''"

definition md_find :: "memory_daemon \<Rightarrow> string \<Rightarrow> container option" where
  "md_find d x = (case dict_get (md_containers d) x of None \<Rightarrow> None
     | Some c \<Rightarrow> Some (c\<lparr>ct_id := x\<rparr>))"

definition md_lookup :: "string \<Rightarrow> (memory_daemon, container) prog" where
  "md_lookup x d = (case md_find d x of None \<Rightarrow> (Inl (DockerNotFound ''No such container''), d) | Some c \<Rightarrow> (Inr c, d))"

definition md_network :: "string \<Rightarrow> (memory_daemon, unit) prog" where
  "md_network n d = (if n \<in> set (md_networks d) then (Inr (), d) else (Inl (DockerNotFound ''No such network''), d))"

definition md_attach :: "string \<Rightarrow> string \<Rightarrow> string list \<Rightarrow> (memory_daemon, unit) prog" where
  "md_attach n x aliases d = (case dict_get (md_containers d) x of
     None \<Rightarrow> (Inl (DockerNotFound ''No such container''), d)
   | Some c \<Rightarrow> if dict_has (ct_networks c) n
       then (Inl (DockerAPIError ''endpoint already exists in network''), d)
       else (Inr (), d\<lparr>md_containers := dict_put x (c\<lparr>ct_networks := dict_put n
          \<lparr>na_ip_address = ''10.0.0.2'', na_aliases = aliases\<rparr> (ct_networks c)\<rparr>) (md_containers d)\<rparr>))"

definition md_detach :: "string \<Rightarrow> string \<Rightarrow> (memory_daemon, unit) prog" where
  "md_detach n x d = (case dict_get (md_containers d) x of
     None \<Rightarrow> (Inl (DockerNotFound ''No such container''), d)
   | Some c \<Rightarrow> (Inr (), d\<lparr>md_containers := dict_put x (c\<lparr>ct_networks := dict_pop n (ct_networks c)\<rparr>) (md_containers d)\<rparr>))"

definition memory_docker :: "memory_daemon docker_daemon" where
  "memory_docker = \<lparr>
     dd_network_get = md_network,
     dd_network_create = (\<lambda>n. mod_s (\<lambda>d. d\<lparr>md_networks := n # md_networks d\<rparr>)),
     dd_network_remove = (\<lambda>n. mod_s (\<lambda>d. d\<lparr>md_networks := filter (\<lambda>m. m \<noteq> n) (md_networks d)\<rparr>)),
     dd_network_connect = md_attach,
     dd_network_disconnect = md_detach,
     dd_get = md_lookup,
     dd_reload = md_lookup,
     dd_run = (\<lambda>opts d. (Inr (fresh_id (md_containers d)), d\<lparr>md_containers := dict_put (fresh_id (md_containers d))
        \<lparr>ct_id = fresh_id (md_containers d), ct_name = rn_name opts, ct_status = ''running'', ct_labels = rn_labels opts,
         ct_networks = [(rn_network opts, \<lparr>na_ip_address = ''10.0.0.2'', na_aliases = []\<rparr>)], ct_image_tags = [],
         ct_config_image = rn_image opts, ct_health = [], ct_ports = []\<rparr> (md_containers d)\<rparr>)),
     dd_stop = (\<lambda>x. mod_s (\<lambda>d. d\<lparr>md_containers := map (\<lambda>(i, c). (i, if i = x then c\<lparr>ct_status := ''exited''\<rparr> else c)) (md_containers d)\<rparr>)),
     dd_remove = (\<lambda>x. mod_s (\<lambda>d. d\<lparr>md_containers := dict_pop x (md_containers d)\<rparr>)),
     dd_stats = (\<lambda>x. raise (KeyError ''cpu_stats'')),
     dd_logs = (\<lambda>x n. ret []),
     dd_list = (\<lambda>everything filters d. (Inr (List.map_filter (md_find d) (filter (\<lambda>x. case filters of
        None \<Rightarrow> True | Some f \<Rightarrow> (case md_find d x of None \<Rightarrow> False | Some c \<Rightarrow>
          (\<exists>(k, v) \<in> set (ct_labels c). f = k @ ''='' @ v))) (dict_keys (md_containers d)))), d)),
     dd_pull = (\<lambda>img. ret ())\<rparr>"

lemma fresh_id: "dict_get d (fresh_id d) = None"
proof -
  have "length x < length (fresh_id d)" if "x \<in> set (dict_keys d)" for x
    using member_le_sum_list [of "length x" "map length (dict_keys d)"] that by (auto simp: fresh_id_def less_Suc_eq_le)
  then have "fresh_id d \<notin> set (dict_keys d)" by blast
  then show ?thesis by (simp add: map_of_eq_None_iff)
qed

interpretation memory_laws: docker_laws memory_docker md_find "\<lambda>d. set (md_networks d)"
proof (unfold_locales, goal_cases)
  case (1 d x c)
  then show ?case by (auto simp: md_find_def split: option.splits)
next
  case (5 d x c)
  have "dict_get (map (\<lambda>(i, c). (i, if i = x then c\<lparr>ct_status := ''exited''\<rparr> else c)) m) y =
      map_option (\<lambda>c. if y = x then c\<lparr>ct_status := ''exited''\<rparr> else c) (dict_get m y)"
    for y and m :: "(string, container) pydict"
    by (induction m) auto
  then show ?case by (auto simp: memory_docker_def mod_s_def md_find_def fun_eq_iff split: option.split)
next
  case (6 d x c)
  then show ?case by (auto simp: memory_docker_def mod_s_def md_find_def drop_container_def fun_eq_iff split: option.split)
next
  case (7 opts d)
  then show ?case using fresh_id [of "md_containers d"] by (auto simp: memory_docker_def md_find_def)
next
  case (8 everything filters d)
  then show ?case
    by (auto simp: memory_docker_def List.map_filter_def) (auto simp: md_find_def split: option.splits)
next
  case (12 n d)
  then show ?case by (auto simp: memory_docker_def mod_s_def same_containers_def md_find_def option.rel_refl split: option.split)
next
  case (13 n d x aliases)
  have "same_containers md_find d (d\<lparr>md_containers := dict_put x (c\<lparr>ct_networks := m\<rparr>) (md_containers d)\<rparr>)"
    if "dict_get (md_containers d) x = Some c" for c m
    using that by (auto simp: same_containers_def md_find_def split: option.split)
  moreover have "already_exists (DockerAPIError ''endpoint already exists in network'')"
  proof -
    have "contains_sub ''already exists'' (lower ''endpoint already exists in network'')" by code_simp
    then show ?thesis by (simp add: already_exists_def)
  qed
  ultimately show ?case using 13
    by (auto simp: memory_docker_def md_attach_def md_find_def split: option.splits)
next
  case (14 n d x)
  have "same_containers md_find d (d\<lparr>md_containers := dict_put x (c\<lparr>ct_networks := m\<rparr>) (md_containers d)\<rparr>)"
    if "dict_get (md_containers d) x = Some c" for c m
    using that by (auto simp: same_containers_def md_find_def split: option.split)
  then show ?case using 14 by (auto simp: memory_docker_def md_detach_def md_find_def split: option.splits)
qed (auto simp: memory_docker_def md_lookup_def md_network_def mod_s_def md_find_def fun_eq_iff split: option.splits)

section \<open>Properties\<close>

text \<open>Removing a container on a healthy daemon never raises, also when the container is gone; the
  container with its id disappears, every other one stays as it is, and the networks do too.\<close>

theorem remove_container_effect:
  assumes "docker_laws dd cs nets"
  shows "\<exists>d'. remove_container dd x d = (Inr (), d') \<and> nets d' = nets d \<and> cs d' x = None
    \<and> (\<forall>y c. cs d y = Some c \<and> (\<forall>c'. cs d x = Some c' \<longrightarrow> ct_id c \<noteq> ct_id c') \<longrightarrow> cs d' y = Some c)"
  using docker_laws.remove_container_run [OF assms, of x d]
  by (cases "cs d x") (auto simp: drop_container_def)

abbreviation demo_container :: "string \<Rightarrow> container" where
  "demo_container cid \<equiv> \<lparr>ct_id = cid, ct_name = cid, ct_status = ''running'', ct_labels = [], ct_networks = [],
     ct_image_tags = [], ct_config_image = ''img'', ct_health = [], ct_ports = []\<rparr>"

theorem remove_container_effect_witness:
  "\<exists>d'. remove_container memory_docker ''a''
      \<lparr>md_containers = [(''a'', demo_container ''a''), (''b'', demo_container ''b'')], md_networks = []\<rparr> = (Inr (), d')
    \<and> md_find d' ''a'' = None \<and> md_find d' ''b'' = Some (demo_container ''b'')"
  using remove_container_effect [OF memory_laws.docker_laws_axioms, of "''a''"
      "\<lparr>md_containers = [(''a'', demo_container ''a''), (''b'', demo_container ''b'')], md_networks = []\<rparr>"]
  by (auto simp: md_find_def)

text \<open>The name Compose gives a container tells its service: stripping the project prefix and the
  number gives the service back, whatever dashes the service name has.\<close>

theorem service_name_roundtrip:
  assumes "CHR ''-'' \<notin> set number"
  shows "service_name_from_container (''aws-light-'' @ service @ ''-'' @ number) = service"
proof -
  have "remove_prefix ''aws-light-'' (''aws-light-'' @ t) = t" for t by (simp add: remove_prefix_def starts_with_def)
  then show ?thesis using rsplit1_append [OF assms, of service]
    by (simp only: service_name_from_container_def) simp
qed

theorem service_name_roundtrip_witness:
  "service_name_from_container ''aws-light-health-checker-1'' = ''health-checker''"
  using service_name_roundtrip [of "''1''" "''health-checker''"] by simp

text \<open>Connecting a container to a network that does not exist raises \<open>NotFound\<close>: the clause
  \<open>except NotFound\<close> of the method, which would only log a warning, stands after
  \<open>except APIError\<close> and is never reached.\<close>

theorem connect_missing_network_raises:
  assumes "dd_network_get dd network d = (Inl (DockerNotFound m), d')"
    and "\<not> contains_sub ''already exists'' (lower m)"
  shows "connect_container_to_network dd cid network aliases d = (Inl (DockerNotFound m), d')"
  using assms by (simp add: connect_container_to_network_def bind_p_def connect_handler_def raise_def)

theorem connect_missing_network_raises_witness:
  "connect_container_to_network memory_docker ''a'' ''gone'' [] \<lparr>md_containers = [(''a'', demo_container ''a'')], md_networks = []\<rparr>
     = (Inl (DockerNotFound ''No such network''), \<lparr>md_containers = [(''a'', demo_container ''a'')], md_networks = []\<rparr>)"
proof -
  have "\<not> contains_sub ''already exists'' (lower ''No such network'')" by code_simp
  then show ?thesis
    by (intro connect_missing_network_raises) (simp_all add: memory_docker_def md_network_def)
qed

end
