(* ===== verification/Nodes.thy ===== *)
theory Nodes
  imports Models
begin

text \<open>
  The simulated nodes of the platform: \<open>NodeManager\<close> of \<open>aws_light/compute/node_manager.py\<close>, which
  books the CPU and memory requests of replicas on nodes, and the two placement policies of
  \<open>aws_light/compute/scheduler.py\<close>. The contract of a policy is the locale \<open>placement\<close>, both
  policies are interpretations of it, and the capacity invariant is proved once inside it.
  Amounts are floats: the bookkeeping is exact, and proved so, for requests that are multiples of
  one power of two and capacities a double can count in that unit (the defaults, 0.5 and 0.25
  CPUs, are).
\<close>

section \<open>node_manager.py\<close>

type_synonym nodes = "(string, node_state) pydict"

definition node_id_of :: "nat \<Rightarrow> string" where
  "node_id_of i = ''node-'' @ (if i < 10 then CHR ''0'' # str_nat i else str_nat i)"

definition fresh_node :: "settings \<Rightarrow> string \<Rightarrow> node_state" where
  "fresh_node cfg nid = \<lparr>
     nd_spec = \<lparr>nsp_node_id = nid, nsp_cpu_capacity = cfg_node_cpu_capacity cfg,
                nsp_memory_capacity_mb = cfg_node_memory_capacity_mb cfg\<rparr>,
     nd_usage = zero_usage, nd_actual_usage = zero_usage, nd_status = RUNNING, nd_replica_ids = []\<rparr>"

definition initialize :: "settings \<Rightarrow> nodes \<Rightarrow> nodes" where
  "initialize cfg ns = foldl (\<lambda>ns i. dict_put (node_id_of i) (fresh_node cfg (node_id_of i)) ns) ns
     [0..<cfg_node_count cfg]"

definition get_all_nodes :: "nodes \<Rightarrow> node_state list" where
  "get_all_nodes ns = dict_values ns"

definition get_node :: "string \<Rightarrow> nodes \<Rightarrow> node_state option" where
  "get_node nid ns = dict_get ns nid"

definition allocate :: "string \<Rightarrow> string \<Rightarrow> pyfloat \<Rightarrow> pyfloat \<Rightarrow> (nodes, unit) prog" where
  "allocate nid rid cpu mem ns = (case dict_get ns nid of
     None \<Rightarrow> (Inl (KeyError nid), ns)
   | Some node \<Rightarrow>
       if rid \<in> set (nd_replica_ids node) then (Inr (), ns)
       else (Inr (), dict_put nid (node\<lparr>
           nd_usage := \<lparr>ru_cpu_used = fadd (ru_cpu_used (nd_usage node)) cpu,
                        ru_memory_used_mb = fadd (ru_memory_used_mb (nd_usage node)) mem\<rparr>,
           nd_replica_ids := nd_replica_ids node @ [rid]\<rparr>) ns))"

definition deallocate :: "string \<Rightarrow> string \<Rightarrow> pyfloat \<Rightarrow> pyfloat \<Rightarrow> nodes \<Rightarrow> nodes" where
  "deallocate nid rid cpu mem ns = (case dict_get ns nid of
     None \<Rightarrow> ns
   | Some node \<Rightarrow> dict_put nid (node\<lparr>
       nd_usage := \<lparr>ru_cpu_used = max 0 (fsub (ru_cpu_used (nd_usage node)) cpu),
                    ru_memory_used_mb = max 0 (fsub (ru_memory_used_mb (nd_usage node)) mem)\<rparr>,
       nd_replica_ids := remove1 rid (nd_replica_ids node)\<rparr>) ns)"

definition set_actual_usage :: "string \<Rightarrow> pyfloat \<Rightarrow> pyfloat \<Rightarrow> nodes \<Rightarrow> nodes" where
  "set_actual_usage nid cpu mem ns = (case dict_get ns nid of
     None \<Rightarrow> ns
   | Some node \<Rightarrow> dict_put nid (node\<lparr>nd_actual_usage := \<lparr>ru_cpu_used = max 0 cpu, ru_memory_used_mb = max 0 mem\<rparr>\<rparr>) ns)"

section \<open>scheduler.py\<close>

text \<open>A request is compared with a float exactly, whether it is a float or an \<open>int\<close>.\<close>

definition fits :: "rat \<Rightarrow> rat \<Rightarrow> node_state \<Rightarrow> bool" where
  "fits cpu mem node \<longleftrightarrow> cpu \<le> available_cpu node \<and> mem \<le> available_memory_mb node"

definition select_min :: "(node_state \<Rightarrow> 'k::linorder) \<Rightarrow> node_state list \<Rightarrow> rat \<Rightarrow> rat \<Rightarrow> node_state result" where
  "select_min key nodes cpu mem = (case filter (fits cpu mem) nodes of
     [] \<Rightarrow> Inl SchedulingError
   | n # ns \<Rightarrow> Inr (min_by key n ns))"

definition binpack_key :: "node_state \<Rightarrow> pyfloat \<times> pyfloat \<times> string" where
  "binpack_key n = (available_cpu n, available_memory_mb n, nsp_node_id (nd_spec n))"

definition spread_key :: "node_state \<Rightarrow> nat \<times> pyfloat \<times> pyfloat \<times> string" where
  "spread_key n = (length (nd_replica_ids n), ru_cpu_used (nd_usage n), ru_memory_used_mb (nd_usage n),
     nsp_node_id (nd_spec n))"

definition binpack_select :: "node_state list \<Rightarrow> rat \<Rightarrow> rat \<Rightarrow> node_state result" where
  "binpack_select = select_min binpack_key"

definition spread_select :: "node_state list \<Rightarrow> rat \<Rightarrow> rat \<Rightarrow> node_state result" where
  "spread_select = select_min spread_key"

definition create_scheduler :: "string \<Rightarrow> (node_state list \<Rightarrow> rat \<Rightarrow> rat \<Rightarrow> node_state result) result" where
  "create_scheduler policy = (let normalized = lower (strip policy) in
     if normalized = ''binpack'' then Inr binpack_select
     else if normalized = ''spread'' then Inr spread_select
     else Inl (ValueError (''Unknown scheduler policy '' @ policy)))"

section \<open>The contract of a policy\<close>

locale placement =
  fixes select :: "node_state list \<Rightarrow> rat \<Rightarrow> rat \<Rightarrow> node_state result"
  assumes select_fits: "select ns cpu mem = Inr n \<Longrightarrow> n \<in> set ns \<and> fits cpu mem n"
    and select_none: "select ns cpu mem = Inl e \<longleftrightarrow> e = SchedulingError \<and> (\<forall>n \<in> set ns. \<not> fits cpu mem n)"

text \<open>A policy that takes the least node by a key among those that fit.\<close>

locale keyed_placement = placement +
  fixes key :: "node_state \<Rightarrow> 'k::linorder"
  assumes select_least: "select ns cpu mem = Inr n \<Longrightarrow> n' \<in> set ns \<Longrightarrow> fits cpu mem n' \<Longrightarrow> key n \<le> key n'"

lemma select_min_cases:
  "select_min key ns cpu mem = Inr n \<Longrightarrow>
    n \<in> set ns \<and> fits cpu mem n \<and> (\<forall>n' \<in> set ns. fits cpu mem n' \<longrightarrow> key n \<le> key n')"
proof -
  assume a: "select_min key ns cpu mem = Inr n"
  then obtain x xs where f: "filter (fits cpu mem) ns = x # xs" "n = min_by key x xs"
    by (auto simp: select_min_def split: list.splits)
  have s: "insert x (set xs) = {n \<in> set ns. fits cpu mem n}"
    using arg_cong [OF f(1), of set] by auto
  have "n \<in> insert x (set xs)" unfolding f(2) by (rule min_by_mem)
  then have "n \<in> set ns \<and> fits cpu mem n" unfolding s by simp
  moreover have "key n \<le> key n'" if "n' \<in> set ns" "fits cpu mem n'" for n'
    unfolding f(2) by (rule min_by_le) (use s that in blast)
  ultimately show ?thesis by blast
qed

lemma select_min_none:
  "select_min key ns cpu mem = Inl e \<longleftrightarrow> e = SchedulingError \<and> (\<forall>n \<in> set ns. \<not> fits cpu mem n)"
  by (cases "filter (fits cpu mem) ns") (auto simp: select_min_def filter_empty_conv, (metis list.set_intros(1) mem_Collect_eq set_filter)+)

interpretation binpack: keyed_placement binpack_select binpack_key
  by unfold_locales (auto simp: binpack_select_def select_min_none dest: select_min_cases)

interpretation spread: keyed_placement spread_select spread_key
  by unfold_locales (auto simp: spread_select_def select_min_none dest: select_min_cases)

section \<open>The books\<close>

text \<open>
  The ledger of what is placed: for a replica its node and its requests. A run places new replicas
  through the policy and releases placed ones with the amounts they were placed with.
\<close>

type_synonym ledger = "(string, string \<times> rat \<times> int) pydict"

datatype node_event = Place string rat int | Release string

definition node_step :: "(node_state list \<Rightarrow> rat \<Rightarrow> rat \<Rightarrow> node_state result) \<Rightarrow> node_event
    \<Rightarrow> nodes \<times> ledger \<Rightarrow> nodes \<times> ledger" where
  "node_step select ev x = (case (ev, x) of
     (Place rid cpu mem, ns, led) \<Rightarrow>
       if dict_has led rid then (ns, led)
       else (case select (get_all_nodes ns) cpu (of_int mem) of
           Inl _ \<Rightarrow> (ns, led)
         | Inr n \<Rightarrow> (let nid = nsp_node_id (nd_spec n) in
             (snd (allocate nid rid cpu (float_of_int mem) ns), dict_put rid (nid, cpu, mem) led)))
   | (Release rid, ns, led) \<Rightarrow> (case dict_get led rid of
         None \<Rightarrow> (ns, led)
       | Some (nid, cpu, mem) \<Rightarrow> (deallocate nid rid cpu (float_of_int mem) ns, dict_pop rid led)))"

definition cpu_booked :: "string \<Rightarrow> ledger \<Rightarrow> rat" where
  "cpu_booked nid led = (\<Sum>(r, i, c, m) \<leftarrow> led. if i = nid then c else 0)"

definition mem_booked :: "string \<Rightarrow> ledger \<Rightarrow> int" where
  "mem_booked nid led = (\<Sum>(r, i, c, m) \<leftarrow> led. if i = nid then m else 0)"

definition placed_on :: "string \<Rightarrow> ledger \<Rightarrow> string set" where
  "placed_on nid led = {r. \<exists>c m. dict_get led r = Some (nid, c, m)}"

lemma sum_dict_put:
  "\<not> dict_has d r \<Longrightarrow> sum_list (map g (dict_put r v d)) = sum_list (map g d) + (g (r, v) :: 'a::comm_monoid_add)"
  by (induction d) (auto simp: dict_has_def add.assoc split: if_splits)

lemma sum_dict_pop:
  fixes g :: "'k \<times> 'v \<Rightarrow> 'a::ab_group_add"
  shows "wf_dict d \<Longrightarrow> dict_get d r = Some v \<Longrightarrow> sum_list (map g (dict_pop r d)) = sum_list (map g d) - g (r, v)"
proof (induction d)
  case (Cons p d)
  show ?case
  proof (cases "fst p = r")
    case True
    then have "\<not> dict_has d r" using Cons.prems(1) by (auto simp: wf_dict_def dict_has_iff)
    then show ?thesis using True Cons.prems(2) by (cases p) (simp add: dict_pop_absent)
  next
    case False
    then show ?thesis using Cons by (cases p) (auto simp: wf_dict_def)
  qed
qed simp

lemmas booked_defs = cpu_booked_def mem_booked_def

lemma booked_put:
  assumes "\<not> dict_has led r"
  shows "cpu_booked nid (dict_put r (i, c, m) led) = cpu_booked nid led + (if i = nid then c else 0)"
    "mem_booked nid (dict_put r (i, c, m) led) = mem_booked nid led + (if i = nid then m else 0)"
  using assms by (simp_all add: booked_defs sum_dict_put)

lemma booked_pop:
  assumes "wf_dict led" "dict_get led r = Some (i, c, m)"
  shows "cpu_booked nid (dict_pop r led) = cpu_booked nid led - (if i = nid then c else 0)"
    "mem_booked nid (dict_pop r led) = mem_booked nid led - (if i = nid then m else 0)"
  using assms by (simp_all add: booked_defs sum_dict_pop)

definition sane :: "int \<Rightarrow> ledger \<Rightarrow> bool" where
  "sane k led \<longleftrightarrow> wf_dict led \<and> (\<forall>(r, i, c, m) \<in> set led. 0 \<le> c \<and> on_grid k c \<and> 0 \<le> m)"

lemma sane_booked:
  assumes "sane k led"
  shows "0 \<le> cpu_booked nid led" "on_grid k (cpu_booked nid led)" "0 \<le> mem_booked nid led"
proof -
  have "\<forall>(r, i, c, m) \<in> set led. 0 \<le> c \<and> on_grid k c \<and> 0 \<le> m" using assms by (simp add: sane_def)
  then have "0 \<le> cpu_booked nid led \<and> on_grid k (cpu_booked nid led) \<and> 0 \<le> mem_booked nid led"
    by (induction led) (auto simp: booked_defs on_grid_add)
  then show "0 \<le> cpu_booked nid led" "on_grid k (cpu_booked nid led)" "0 \<le> mem_booked nid led" by auto
qed

text \<open>One node's books: what it has booked is the sum of the requests on it, within its capacity.\<close>

definition node_books :: "int \<Rightarrow> ledger \<Rightarrow> string \<Rightarrow> node_state \<Rightarrow> bool" where
  "node_books k led nid n \<longleftrightarrow> nsp_node_id (nd_spec n) = nid
     \<and> ru_cpu_used (nd_usage n) = cpu_booked nid led \<and> cpu_booked nid led \<le> nsp_cpu_capacity (nd_spec n)
     \<and> ru_memory_used_mb (nd_usage n) = of_int (mem_booked nid led)
     \<and> mem_booked nid led \<le> nsp_memory_capacity_mb (nd_spec n)
     \<and> distinct (nd_replica_ids n) \<and> set (nd_replica_ids n) = placed_on nid led
     \<and> on_grid k (nsp_cpu_capacity (nd_spec n)) \<and> nsp_cpu_capacity (nd_spec n) < grid_bound k
     \<and> nsp_memory_capacity_mb (nd_spec n) < 2 ^ 53"

definition books :: "int \<Rightarrow> nodes \<times> ledger \<Rightarrow> bool" where
  "books k x \<longleftrightarrow> wf_dict (fst x) \<and> sane k (snd x) \<and> (\<forall>(nid, n) \<in> set (fst x). node_books k (snd x) nid n)"

definition valid_event :: "int \<Rightarrow> node_event \<Rightarrow> bool" where
  "valid_event k ev \<longleftrightarrow> (case ev of Place rid c m \<Rightarrow> 0 \<le> c \<and> on_grid k c \<and> 0 \<le> m | Release rid \<Rightarrow> True)"

lemma grid_sub: "on_grid k x \<Longrightarrow> on_grid k y \<Longrightarrow> 0 \<le> y \<Longrightarrow> y \<le> x \<Longrightarrow> x < grid_bound k \<Longrightarrow> fsub x y = x - y"
  unfolding fsub_def by (rule fl_grid [OF on_grid_diff]) auto

lemma grid_add: "on_grid k x \<Longrightarrow> on_grid k y \<Longrightarrow> 0 \<le> x + y \<Longrightarrow> x + y < grid_bound k \<Longrightarrow> fadd x y = x + y"
  unfolding fadd_def by (rule fl_grid [OF on_grid_add]) auto

lemma grid_bound_0: "grid_bound 0 = 2 ^ 53"
  by (simp add: grid_bound_def pow2_def)

lemma small_int: "0 \<le> m \<Longrightarrow> m < 2 ^ 53 \<Longrightarrow> (of_int m :: rat) < grid_bound 0"
  unfolding grid_bound_0 by (metis of_int_less_iff of_int_numeral of_int_power)

lemma float_of_small: "0 \<le> m \<Longrightarrow> m < 2 ^ 53 \<Longrightarrow> float_of_int m = of_int m"
  unfolding float_of_int_def by (rule fl_grid [OF on_grid_of_int]) (simp add: small_int)

lemma int_sub: "0 \<le> n \<Longrightarrow> n \<le> m \<Longrightarrow> m < 2 ^ 53 \<Longrightarrow> fsub (of_int m) (of_int n) = of_int (m - n)"
  using grid_sub [of 0 "of_int m" "of_int n"] small_int [of m] by simp

lemma int_add: "0 \<le> m \<Longrightarrow> 0 \<le> n \<Longrightarrow> m + n < 2 ^ 53 \<Longrightarrow> fadd (of_int m) (of_int n) = of_int (m + n)"
  using grid_add [of 0 "of_int m" "of_int n"] small_int [of "m + n"] by simp

lemma books_available:
  assumes "books k (ns, led)" "(nid, n) \<in> set ns"
  shows "available_cpu n = nsp_cpu_capacity (nd_spec n) - cpu_booked nid led"
    "available_memory_mb n = of_int (nsp_memory_capacity_mb (nd_spec n) - mem_booked nid led)"
proof -
  have b: "node_books k led nid n" "sane k led" using assms by (auto simp: books_def)
  note s = sane_booked [OF b(2), of nid]
  show "available_cpu n = nsp_cpu_capacity (nd_spec n) - cpu_booked nid led"
    using b(1) s grid_sub [of k "nsp_cpu_capacity (nd_spec n)" "cpu_booked nid led"]
    by (auto simp: available_cpu_def node_books_def)
  show "available_memory_mb n = of_int (nsp_memory_capacity_mb (nd_spec n) - mem_booked nid led)"
    using b(1) s int_sub [of "mem_booked nid led" "nsp_memory_capacity_mb (nd_spec n)"]
    by (auto simp: available_memory_mb_def node_books_def float_of_small)
qed

lemma placed_on_put: "\<not> dict_has led r \<Longrightarrow>
    placed_on nid (dict_put r (i, c, m) led) = (if i = nid then insert r (placed_on nid led) else placed_on nid led)"
  by (auto simp: placed_on_def dict_has_def)

lemma placed_on_pop: "placed_on nid (dict_pop r led) = placed_on nid led - {r}"
  by (auto simp: placed_on_def)

lemma sane_put: "sane k led \<Longrightarrow> 0 \<le> c \<Longrightarrow> on_grid k c \<Longrightarrow> 0 \<le> m \<Longrightarrow> sane k (dict_put r (i, c, m) led)"
  by (auto simp: sane_def set_dict_put)

lemma sane_pop: "sane k led \<Longrightarrow> sane k (dict_pop r led)"
  by (auto simp: sane_def set_dict_pop)

lemma books_update:
  assumes "books k (ns, led)" "sane k led'" "node_books k led' nid n'"
    and "\<And>i n. i \<noteq> nid \<Longrightarrow> node_books k led i n \<Longrightarrow> node_books k led' i n"
  shows "books k (dict_put nid n' ns, led')"
  using assms by (auto simp: books_def set_dict_put)

lemma books_place:
  assumes b: "books k (ns, led)" and n: "dict_get ns nid = Some n" "fits c (of_int m) n"
    and r: "\<not> dict_has led r" and v: "0 \<le> c" "on_grid k c" "0 \<le> m"
  shows "books k (snd (allocate nid r c (float_of_int m) ns), dict_put r (nid, c, m) led)"
proof -
  let ?led = "dict_put r (nid, c, m) led"
  have mem: "(nid, n) \<in> set ns" by (rule dict_get_Some_mem [OF n(1)])
  then have nb: "node_books k led nid n" and sl: "sane k led" using b by (auto simp: books_def)
  note s = sane_booked [OF sl, of nid]
  have room: "cpu_booked nid led + c \<le> nsp_cpu_capacity (nd_spec n)"
      "mem_booked nid led + m \<le> nsp_memory_capacity_mb (nd_spec n)"
    using n(2) books_available [OF b mem] unfolding fits_def by (simp_all del: of_int_diff)
  have "fadd (ru_cpu_used (nd_usage n)) c = cpu_booked nid led + c"
    using nb s room v by (intro grid_add [of k, THEN trans]) (auto simp: node_books_def)
  moreover have "fadd (ru_memory_used_mb (nd_usage n)) (float_of_int m) = of_int (mem_booked nid led + m)"
    using nb s room v by (auto simp: node_books_def float_of_small int_add)
  moreover have "r \<notin> set (nd_replica_ids n)"
    using nb r by (auto simp: node_books_def placed_on_def dict_has_def)
  ultimately show ?thesis
    using nb room r v n(1) unfolding allocate_def
    by (auto intro!: books_update [OF b] sane_put [OF sl] simp: node_books_def booked_put placed_on_put)
qed

lemma books_release:
  assumes b: "books k (ns, led)" and g: "dict_get led r = Some (nid, c, m)"
  shows "books k (deallocate nid r c (float_of_int m) ns, dict_pop r led)"
proof -
  let ?led = "dict_pop r led"
  have sl: "sane k led" using b by (simp add: books_def)
  then have w: "wf_dict led" by (simp add: sane_def)
  have v: "0 \<le> c" "on_grid k c" "0 \<le> m" using sl dict_get_Some_mem [OF g] by (auto simp: sane_def)
  have other: "node_books k ?led i n" if "i \<noteq> nid" "node_books k led i n" for i n
  proof -
    have "placed_on i ?led = placed_on i led" using that(1) g by (auto simp: placed_on_pop placed_on_def)
    then show ?thesis using that booked_pop [OF w g] by (simp add: node_books_def)
  qed
  show ?thesis
  proof (cases "dict_get ns nid")
    case None
    then have "i \<noteq> nid" if "(i, n) \<in> set ns" for i n using that None by (auto dest: weak_map_of_SomeI)
    then show ?thesis using b None other by (auto simp: deallocate_def books_def sane_pop)
  next
    case (Some n)
    then have nb: "node_books k led nid n" using b dict_get_Some_mem [OF Some] by (auto simp: books_def)
    note s = sane_booked [OF sl, of nid] and s' = sane_booked [OF sane_pop [OF sl], of nid r]
    have le: "c \<le> cpu_booked nid led" "m \<le> mem_booked nid led"
      using s' booked_pop [OF w g, of nid] by auto
    have "fsub (ru_cpu_used (nd_usage n)) c = cpu_booked nid led - c"
      using nb s v le by (intro grid_sub [of k, THEN trans]) (auto simp: node_books_def)
    moreover have "fsub (ru_memory_used_mb (nd_usage n)) (float_of_int m) = of_int (mem_booked nid led - m)"
      using nb s v le by (auto simp: node_books_def float_of_small int_sub)
    ultimately have "node_books k ?led nid (n\<lparr>
         nd_usage := \<lparr>ru_cpu_used = max 0 (fsub (ru_cpu_used (nd_usage n)) c),
                      ru_memory_used_mb = max 0 (fsub (ru_memory_used_mb (nd_usage n)) (float_of_int m))\<rparr>,
         nd_replica_ids := remove1 r (nd_replica_ids n)\<rparr>)"
      using nb le v booked_pop [OF w g, of nid] by (auto simp: node_books_def placed_on_pop max_def)
    then show ?thesis using Some
      by (auto simp: deallocate_def intro!: books_update [OF b sane_pop [OF sl]] other)
  qed
qed

context placement
begin

lemma step_books: "books k x \<Longrightarrow> valid_event k ev \<Longrightarrow> books k (node_step select ev x)"
proof -
  assume b: "books k x" and v: "valid_event k ev"
  obtain ns led where x: "x = (ns, led)" by force
  show ?thesis
  proof (cases ev)
    case (Place r c m)
    consider "dict_has led r" | e where "select (get_all_nodes ns) c (of_int m) = Inl e"
      | n where "\<not> dict_has led r" "select (get_all_nodes ns) c (of_int m) = Inr n"
      by (cases "select (get_all_nodes ns) c (of_int m)") blast+
    then show ?thesis
    proof cases
      case 3
      obtain nid where mem: "(nid, n) \<in> set ns" using select_fits [OF 3(2)] by (auto simp: get_all_nodes_def)
      then have "nsp_node_id (nd_spec n) = nid" "dict_get ns nid = Some n"
        using b x by (auto simp: books_def node_books_def dict_mem_get)
      then show ?thesis using books_place [of k ns led nid n c m r] b v x 3 Place select_fits [OF 3(2)]
        by (simp add: node_step_def valid_event_def Let_def)
    qed (use b x Place in \<open>simp_all add: node_step_def\<close>)
  next
    case (Release r)
    then show ?thesis using b x books_release [of k ns led r]
      by (auto simp: node_step_def split: option.split)
  qed
qed

lemma run_books: "books k x \<Longrightarrow> \<forall>ev \<in> set evs. valid_event k ev \<Longrightarrow> books k (fold (node_step select) evs x)"
  by (induction evs arbitrary: x) (auto simp: step_books)

end

lemma initialize_mem: "(i, n) \<in> set (initialize cfg []) \<Longrightarrow> n = fresh_node cfg i"
proof -
  have "\<forall>p \<in> set ns. snd p = fresh_node cfg (fst p) \<Longrightarrow> wf_dict ns \<Longrightarrow>
      \<forall>p \<in> set (foldl (\<lambda>ns i. dict_put (node_id_of i) (fresh_node cfg (node_id_of i)) ns) ns is). snd p = fresh_node cfg (fst p)" for ns "is"
  proof (induction "is" arbitrary: ns)
    case (Cons a "is")
    show ?case unfolding foldl_Cons by (rule Cons.IH) (use Cons.prems in \<open>auto simp: set_dict_put\<close>)
  qed simp
  from this [of "[]" "[0..<cfg_node_count cfg]"] show "(i, n) \<in> set (initialize cfg []) \<Longrightarrow> n = fresh_node cfg i"
    by (auto simp: initialize_def)
qed

lemma initialize_wf: "wf_dict ns \<Longrightarrow> wf_dict (initialize cfg ns)"
proof -
  have "wf_dict ns \<Longrightarrow> wf_dict (foldl (\<lambda>ns i. dict_put (node_id_of i) (fresh_node cfg (node_id_of i)) ns) ns is)" for "is"
    by (induction "is" arbitrary: ns) auto
  then show "wf_dict ns \<Longrightarrow> wf_dict (initialize cfg ns)" by (simp add: initialize_def)
qed

text \<open>Capacities the floats of the books can count: non-negative, in units of \<open>pow2 k\<close>.\<close>

definition countable_capacity :: "int \<Rightarrow> settings \<Rightarrow> bool" where
  "countable_capacity k cfg \<longleftrightarrow> on_grid k (cfg_node_cpu_capacity cfg) \<and> 0 \<le> cfg_node_cpu_capacity cfg
     \<and> cfg_node_cpu_capacity cfg < grid_bound k
     \<and> 0 \<le> cfg_node_memory_capacity_mb cfg \<and> cfg_node_memory_capacity_mb cfg < 2 ^ 53"

lemma initial_books: "countable_capacity k cfg \<Longrightarrow> books k (initialize cfg [], [])"
  by (auto simp: books_def initialize_wf sane_def node_books_def fresh_node_def zero_usage_def
      booked_defs placed_on_def countable_capacity_def dest!: initialize_mem)

lemma create_scheduler_cases:
  assumes "create_scheduler policy = Inr select"
  obtains "lower (strip policy) = ''binpack''" "select = binpack_select"
  | "lower (strip policy) = ''spread''" "select = spread_select"
  using assms that by (auto simp: create_scheduler_def Let_def split: if_splits)

lemma binpack_least: "binpack_select ns cpu mem = Inr n \<Longrightarrow> n' \<in> set ns \<Longrightarrow> fits cpu mem n' \<Longrightarrow> available_cpu n \<le> available_cpu n'"
  by (drule (2) binpack.select_least) (auto simp: binpack_key_def)

lemma spread_least: "spread_select ns cpu mem = Inr n \<Longrightarrow> n' \<in> set ns \<Longrightarrow> fits cpu mem n' \<Longrightarrow>
    length (nd_replica_ids n) \<le> length (nd_replica_ids n')"
  by (drule (2) spread.select_least) (auto simp: spread_key_def)

lemma create_scheduler_placement: "create_scheduler policy = Inr select \<Longrightarrow> placement select"
  using binpack.placement_axioms spread.placement_axioms by (auto elim: create_scheduler_cases)

lemma node_id_of_inject [simp]: "node_id_of i = node_id_of j \<longleftrightarrow> i = j"
proof -
  have "digits_value 0 (drop 5 (node_id_of n)) = n" for n
    by (simp add: node_id_of_def str_nat_def digits_value_nat_digits digit_value_def)
  then show ?thesis by metis
qed

lemma allocate_again:
  "allocate nid rid cpu mem ns = (Inr (), ns') \<Longrightarrow> allocate nid rid cpu' mem' ns' = (Inr (), ns')"
  by (auto simp: allocate_def split: option.splits if_splits)

lemma initialize_keys: "dict_keys (initialize cfg []) = map node_id_of [0..<cfg_node_count cfg]"
proof -
  have "dict_keys (foldl (\<lambda>ns i. dict_put (node_id_of i) (fresh_node cfg (node_id_of i)) ns) [] [0..<n])
      = map node_id_of [0..<n]" for n
    by (induction n) (auto simp: dict_keys_put)
  then show ?thesis by (simp add: initialize_def)
qed

section \<open>Properties\<close>


lemma default_capacity: "countable_capacity (-2) default_settings"
  unfolding countable_capacity_def on_grid_def
  by (intro conjI exI [of _ 2]) (simp_all add: default_settings_def pow2_def grid_bound_def)

lemma quarter_on_grid: "on_grid (-2) (1 / 4)"
  unfolding on_grid_def by (rule exI [of _ 1]) (simp add: pow2_def)


text \<open>What the scheduler promises: it answers with a node that has room for the request, under
  \<open>binpack\<close> one with the least CPU left and under \<open>spread\<close> one with the fewest replicas among those
  with room, and fails exactly when no node has room.\<close>

theorem scheduler_choice:
  assumes "create_scheduler policy = Inr select"
  shows "case select ns cpu mem of
      Inl e \<Rightarrow> e = SchedulingError \<and> filter (fits cpu mem) ns = []
    | Inr n \<Rightarrow> n \<in> set (filter (fits cpu mem) ns) \<and>
        (lower (strip policy) = ''binpack'' \<longrightarrow> (\<forall>n' \<in> set (filter (fits cpu mem) ns). available_cpu n \<le> available_cpu n')) \<and>
        (lower (strip policy) = ''spread'' \<longrightarrow> (\<forall>n' \<in> set (filter (fits cpu mem) ns).
           length (nd_replica_ids n) \<le> length (nd_replica_ids n')))"
  using assms
proof (cases rule: create_scheduler_cases)
  case 1
  then show ?thesis
    using binpack.select_none [of ns cpu mem] binpack.select_fits [of ns cpu mem] binpack_least [of ns cpu mem]
    by (auto simp: filter_empty_conv split: sum.split)
next
  case 2
  then show ?thesis
    using spread.select_none [of ns cpu mem] spread.select_fits [of ns cpu mem] spread_least [of ns cpu mem]
    by (auto simp: filter_empty_conv split: sum.split)
qed

abbreviation demo_node :: "string \<Rightarrow> pyfloat \<Rightarrow> string list \<Rightarrow> node_state" where
  "demo_node nid used rids \<equiv> (fresh_node default_settings nid)
     \<lparr>nd_usage := \<lparr>ru_cpu_used = used, ru_memory_used_mb = 128\<rparr>, nd_replica_ids := rids\<rparr>"

theorem scheduler_choice_witness:
  "case binpack_select [demo_node ''node-00'' 0 [], demo_node ''node-01'' (1 / 4) [''a'']] (1 / 4) 128 of
      Inl e \<Rightarrow> False
    | Inr n \<Rightarrow> nsp_node_id (nd_spec n) = ''node-01''"
proof -
  define n0 n1 where n: "n0 = demo_node ''node-00'' 0 []" "n1 = demo_node ''node-01'' (1 / 4) [''a'']"
  have bp: "lower (strip ''binpack'') = ''binpack''" by code_simp
  then have s: "create_scheduler ''binpack'' = Inr binpack_select" by (simp add: create_scheduler_def)
  have f: "fsub (1 / 2) 0 = 1 / 2" "fsub (1 / 2) (1 / 4) = 1 / 4" by code_simp+
  have a: "available_cpu n0 = 1 / 2" "available_cpu n1 = 1 / 4" "nsp_node_id (nd_spec n1) = ''node-01''"
      "available_memory_mb n0 = 384" "available_memory_mb n1 = 384"
    using int_sub [of 128 512] by (simp_all add: n f available_cpu_def available_memory_mb_def fresh_node_def
        default_settings_def float_of_small)
  have t: "fits (1 / 4) 128 n0" "fits (1 / 4) 128 n1" by (simp_all add: fits_def a)
  show ?thesis unfolding n [symmetric]
    using scheduler_choice [OF s, where ns = "[n0, n1]" and cpu = "1 / 4" and mem = 128] bp a
    by (auto simp: t split: sum.splits)
qed

text \<open>Releasing a replica that is not booked is not harmless: \<open>deallocate\<close> subtracts its requests
  whatever the node has booked. The node's replicas stay the same, but it offers the released
  amount a second time, so that the scheduler fills it beyond its capacity.\<close>

theorem unbooked_release_frees_capacity:
  assumes "books k (ns, led)" and "get_node nid ns = Some n" and "rid \<notin> set (nd_replica_ids n)"
    and "on_grid k c" and "0 \<le> c" and "c \<le> cpu_booked nid led"
  shows "\<exists>n'. get_node nid (deallocate nid rid c mem ns) = Some n'
    \<and> nd_replica_ids n' = nd_replica_ids n \<and> available_cpu n' = available_cpu n + c"
proof -
  have mem: "(nid, n) \<in> set ns" using assms(2) by (simp add: get_node_def dict_get_Some_mem)
  then have nb: "node_books k led nid n" and sl: "sane k led" using assms(1) by (auto simp: books_def)
  note s = sane_booked [OF sl, of nid]
  have "fsub (cpu_booked nid led) c = cpu_booked nid led - c"
    using nb s assms(4-6) by (intro grid_sub [of k]) (auto simp: node_books_def)
  moreover have "fsub (nsp_cpu_capacity (nd_spec n)) (cpu_booked nid led - c)
      = nsp_cpu_capacity (nd_spec n) - (cpu_booked nid led - c)"
    using nb s assms(4-6) by (intro grid_sub [of k]) (auto simp: node_books_def on_grid_diff)
  ultimately show ?thesis
    using nb assms(2,3,6) books_available(1) [OF assms(1) mem]
    by (auto simp: get_node_def deallocate_def remove1_idem available_cpu_def node_books_def max_def)
qed

theorem unbooked_release_frees_capacity_witness:
  "\<exists>n'. get_node ''n'' (deallocate ''n'' ''gone'' (1 / 4) 128 [(''n'', demo_node ''n'' (1 / 4) [''a''])]) = Some n'
    \<and> nd_replica_ids n' = [''a''] \<and> available_cpu n' = available_cpu (demo_node ''n'' (1 / 4) [''a'']) + 1 / 4"
proof -
  let ?n = "demo_node ''n'' (1 / 4) [''a'']" and ?led = "[(''a'', ''n'', 1 / 4, 128)]"
  have "books (-2) ([(''n'', ?n)], ?led)"
    using default_capacity by (auto simp: books_def wf_dict_def sane_def quarter_on_grid node_books_def
        booked_defs placed_on_def fresh_node_def countable_capacity_def default_settings_def
        intro!: exI [of _ "1 / 4"])
  then show ?thesis
    using unbooked_release_frees_capacity [of "-2" "[(''n'', ?n)]" ?led "''n''" ?n "''gone''" "1 / 4" 128] quarter_on_grid
    by (simp add: get_node_def booked_defs)
qed

end
