(* ===== verification/Secrets.thy ===== *)
theory Secrets
  imports TtlCache Iam
begin

text \<open>
  Secrets: \<open>SecretsManager\<close> of \<open>aws_light/secrets/secrets_manager.py\<close>, the endpoints of
  \<open>aws_light/api/secrets.py\<close>, and the two kinds of secret the orchestrator makes by itself, the
  token of a service and the password of a database (\<open>aws_light/compute/orchestrator.py\<close>).
  The manager works over any store of secrets: the definitions take the store's operations, and
  their laws are proved once in the locale \<open>secret_store\<close>. Fernet is a parameter: its encryption
  takes the key, the randomness of the call and the text. Strings are their UTF-8 bytes, so that
  \<open>encode\<close> and \<open>decode\<close> are the identity.
\<close>

section \<open>SecretsManager\<close>

record fernet_lib =
  fe_encrypt :: "string \<Rightarrow> nat \<Rightarrow> string \<Rightarrow> string"
  fe_decrypt :: "string \<Rightarrow> string \<Rightarrow> string result"

text \<open>What Fernet promises: a token made with a key decrypts to its text with that key.\<close>

definition fernet_ok :: "fernet_lib \<Rightarrow> bool" where
  "fernet_ok fe \<longleftrightarrow> (\<forall>key nonce text. fe_decrypt fe key (fe_encrypt fe key nonce text) = Inr text)"

text \<open>\<open>_load_or_create_fernet\<close>: the configured key, or a generated one.\<close>

definition fernet_key :: "settings \<Rightarrow> string \<Rightarrow> string" where
  "fernet_key cfg generated = (if cfg_encryption_key cfg \<noteq> [] then cfg_encryption_key cfg else generated)"

definition create_secret :: "fernet_lib \<Rightarrow> string \<Rightarrow> nat \<Rightarrow> ('s, secret_spec) store_ops \<Rightarrow> string \<Rightarrow> string
    \<Rightarrow> ('s, unit) prog" where
  "create_secret fe key nonce st name value =
     so_put st name \<lparr>sec_name = name, sec_value = fe_encrypt fe key nonce value\<rparr>"

definition get_secret :: "fernet_lib \<Rightarrow> string \<Rightarrow> ('s, secret_spec) store_ops \<Rightarrow> string
    \<Rightarrow> ('s, string option) prog" where
  "get_secret fe key st name = bind_p (so_get st name) (\<lambda>found. case found of
     None \<Rightarrow> ret None
   | Some spec \<Rightarrow> (case fe_decrypt fe key (sec_value spec) of
         Inl e \<Rightarrow> raise e
       | Inr v \<Rightarrow> ret (Some v)))"

definition delete_secret :: "('s, secret_spec) store_ops \<Rightarrow> string \<Rightarrow> ('s, unit) prog" where
  "delete_secret st name = so_delete st name"

definition list_secret_names :: "('s, secret_spec) store_ops \<Rightarrow> ('s, string list) prog" where
  "list_secret_names st = bind_p (so_list st) (\<lambda>all. ret (map sec_name all))"

definition secret_exists :: "('s, secret_spec) store_ops \<Rightarrow> string \<Rightarrow> ('s, bool) prog" where
  "secret_exists st name = so_exists st name"

definition env_key :: "string \<Rightarrow> string" where
  "env_key name = replace_char CHR ''-'' CHR ''_'' (upper name)"

text \<open>The loop of \<open>inject_into_env\<close> with its dictionary \<open>env_vars\<close>.\<close>

fun inject_loop :: "fernet_lib \<Rightarrow> string \<Rightarrow> ('s, secret_spec) store_ops \<Rightarrow> string list
    \<Rightarrow> (string, string) pydict \<Rightarrow> ('s, (string, string) pydict) prog" where
  "inject_loop fe key st [] env = ret env"
| "inject_loop fe key st (n # ns) env = bind_p (get_secret fe key st n) (\<lambda>v. case v of
     None \<Rightarrow> inject_loop fe key st ns env
   | Some text \<Rightarrow> inject_loop fe key st ns (dict_put (env_key n) text env))"

definition inject_into_env :: "fernet_lib \<Rightarrow> string \<Rightarrow> ('s, secret_spec) store_ops \<Rightarrow> string list
    \<Rightarrow> ('s, (string, string) pydict) prog" where
  "inject_into_env fe key st secret_refs = inject_loop fe key st secret_refs []"

section \<open>The orchestrator's own secrets\<close>

definition service_token_prefix :: string where
  "service_token_prefix = ''aws-light-service-token-''"

definition database_password_prefix :: string where
  "database_password_prefix = ''aws-light-database-''"

text \<open>\<open>_service_token\<close> and \<open>_database_password\<close>: the stored secret when there is one that is not
  empty, otherwise \<open>fresh\<close>, the result of \<open>secrets.token_urlsafe\<close>, which is stored.\<close>

definition stored_or_fresh :: "fernet_lib \<Rightarrow> string \<Rightarrow> nat \<Rightarrow> string \<Rightarrow> ('s, secret_spec) store_ops
    \<Rightarrow> string \<Rightarrow> ('s, string) prog" where
  "stored_or_fresh fe key nonce fresh st secret_name = bind_p (get_secret fe key st secret_name) (\<lambda>existing.
     case existing of
       Some (c # cs) \<Rightarrow> ret (c # cs)
     | _ \<Rightarrow> bind_p (create_secret fe key nonce st secret_name fresh) (\<lambda>_. ret fresh))"

definition service_token :: "fernet_lib \<Rightarrow> string \<Rightarrow> nat \<Rightarrow> string \<Rightarrow> ('s, secret_spec) store_ops
    \<Rightarrow> string \<Rightarrow> ('s, string) prog" where
  "service_token fe key nonce fresh st service_name =
     stored_or_fresh fe key nonce fresh st (service_token_prefix @ service_name)"

definition database_password :: "fernet_lib \<Rightarrow> string \<Rightarrow> nat \<Rightarrow> string \<Rightarrow> ('s, secret_spec) store_ops
    \<Rightarrow> string \<Rightarrow> ('s, string) prog" where
  "database_password fe key nonce fresh st database_name =
     stored_or_fresh fe key nonce fresh st (database_password_prefix @ database_name @ ''-password'')"

section \<open>api/secrets.py\<close>

definition api_list_secrets :: "jwt_lib \<Rightarrow> settings \<Rightarrow> int \<Rightarrow> ('s, secret_spec) store_ops \<Rightarrow> string
    \<Rightarrow> ('s, string list) prog" where
  "api_list_secrets jwt cfg now st token = endpoint (get_current_user jwt cfg now token) (\<lambda>_. list_secret_names st)"

definition api_create_secret :: "jwt_lib \<Rightarrow> settings \<Rightarrow> int \<Rightarrow> fernet_lib \<Rightarrow> string \<Rightarrow> nat
    \<Rightarrow> ('s, secret_spec) store_ops \<Rightarrow> string \<Rightarrow> string \<Rightarrow> string \<Rightarrow> ('s, string) prog" where
  "api_create_secret jwt cfg now fe key nonce st token name value =
     endpoint (require_role jwt cfg now DEVELOPER token) (\<lambda>_.
       bind_p (secret_exists st name) (\<lambda>found.
         if found then raise (HTTPException 409 (''Secret '' @ quoted name @ '' already exists''))
         else bind_p (create_secret fe key nonce st name value) (\<lambda>_. ret name)))"

definition api_get_secret :: "jwt_lib \<Rightarrow> settings \<Rightarrow> int \<Rightarrow> fernet_lib \<Rightarrow> string
    \<Rightarrow> ('s, secret_spec) store_ops \<Rightarrow> string \<Rightarrow> string \<Rightarrow> ('s, string \<times> string) prog" where
  "api_get_secret jwt cfg now fe key st token name =
     endpoint (require_role jwt cfg now DEVELOPER token) (\<lambda>_.
       bind_p (get_secret fe key st name) (\<lambda>value. case value of
         None \<Rightarrow> raise (HTTPException 404 ''Secret not found'')
       | Some v \<Rightarrow> ret (name, v)))"

definition api_delete_secret :: "jwt_lib \<Rightarrow> settings \<Rightarrow> int \<Rightarrow> ('s, secret_spec) store_ops \<Rightarrow> string \<Rightarrow> string
    \<Rightarrow> ('s, unit) prog" where
  "api_delete_secret jwt cfg now st token name =
     endpoint (require_role jwt cfg now DEVELOPER token) (\<lambda>_.
       bind_p (secret_exists st name) (\<lambda>found.
         if \<not> found then raise (HTTPException 404 ''Secret not found'')
         else delete_secret st name))"

section \<open>The laws of the secrets manager\<close>

text \<open>The plain text the manager reads for a stored secret.\<close>

definition plain_of :: "fernet_lib \<Rightarrow> string \<Rightarrow> secret_spec option \<Rightarrow> string option" where
  "plain_of fe key found = (case found of None \<Rightarrow> None
     | Some spec \<Rightarrow> (case fe_decrypt fe key (sec_value spec) of Inl _ \<Rightarrow> None | Inr v \<Rightarrow> Some v))"

text \<open>The plain text of the token of a service.\<close>

definition token_of :: "fernet_lib \<Rightarrow> string \<Rightarrow> (string \<Rightarrow> secret_spec option) \<Rightarrow> string \<Rightarrow> string option" where
  "token_of fe key secrets source = plain_of fe key (secrets (service_token_prefix @ source))"

definition readable :: "fernet_lib \<Rightarrow> string \<Rightarrow> secret_spec option \<Rightarrow> bool" where
  "readable fe key found \<longleftrightarrow> (\<forall>spec. found = Some spec \<longrightarrow> (\<exists>v. fe_decrypt fe key (sec_value spec) = Inr v))"

text \<open>The environment the references stand for: the last reference of a variable wins.\<close>

definition env_of_refs :: "(string \<Rightarrow> string option) \<Rightarrow> string list \<Rightarrow> (string, string) pydict \<Rightarrow> (string, string) pydict" where
  "env_of_refs plain refs env =
     dict_merge env (List.map_filter (\<lambda>n. map_option (\<lambda>v. (env_key n, v)) (plain n)) refs)"

lemma env_of_refs_simps [simp]:
  "env_of_refs plain [] env = env"
  "env_of_refs plain (n # ns) env = (case plain n of None \<Rightarrow> env_of_refs plain ns env
     | Some v \<Rightarrow> env_of_refs plain ns (dict_put (env_key n) v env))"
  by (auto simp: env_of_refs_def dict_merge_def List.map_filter_def split: option.splits)

locale secret_store = any_store st view inv
  for st :: "('s, secret_spec) store_ops" and view and inv
begin

lemma get_secret_run:
  assumes "inv s" "readable fe key (view s name)"
  shows "\<exists>s'. get_secret fe key st name s = (Inr (plain_of fe key (view s name)), s') \<and> inv s' \<and> view s' = view s"
proof -
  obtain s' where "so_get st name s = (Inr (view s name), s')" "inv s'" "view s' = view s"
    using get_law [OF assms(1)] by blast
  with assms(2) show ?thesis
    by (cases "view s name") (auto simp: get_secret_def bind_p_def prog_defs plain_of_def readable_def)
qed

lemma get_secret_any:
  assumes "inv s" "get_secret fe key st name s = (r, s')"
  shows "inv s' \<and> view s' = view s \<and> (\<forall>v. r = Inr v \<longrightarrow> v = plain_of fe key (view s name))"
proof -
  obtain t where "so_get st name s = (Inr (view s name), t)" "inv t" "view t = view s"
    using get_law [OF assms(1)] by blast
  with assms(2) show ?thesis
    by (cases "view s name") (auto simp: get_secret_def bind_p_def prog_defs plain_of_def split: sum.splits)
qed

lemma create_secret_run:
  assumes "inv s"
  shows "\<exists>s'. create_secret fe key nonce st name v s = (Inr (), s') \<and> inv s'
    \<and> view s' = (view s)(name \<mapsto> \<lparr>sec_name = name, sec_value = fe_encrypt fe key nonce v\<rparr>)"
  using put_law [OF assms] by (auto simp: create_secret_def)

lemma get_after_create:
  assumes "fernet_ok fe" "inv s" "create_secret fe key nonce st name v s = (Inr (), s')"
  shows "fst (get_secret fe key st name' s') =
    (if name' = name then Inr (Some v) else fst (get_secret fe key st name' s))"
proof -
  let ?e = "\<lparr>sec_name = name, sec_value = fe_encrypt fe key nonce v\<rparr>"
  have s': "inv s'" "view s' = (view s)(name \<mapsto> ?e)"
    using create_secret_run [OF assms(2), of fe key nonce name v] assms(3) by auto
  have dec: "fe_decrypt fe key (fe_encrypt fe key nonce v) = Inr v" using assms(1) by (simp add: fernet_ok_def)
  obtain t where t: "so_get st name' s' = (Inr (view s' name'), t)" using get_law [OF s'(1)] by blast
  obtain u where u: "so_get st name' s = (Inr (view s name'), u)" using get_law [OF assms(2)] by blast
  show ?thesis using t u s'(2) dec
    by (cases "name' = name"; cases "view s name'")
      (auto simp: get_secret_def bind_p_def ret_def raise_def split: sum.splits)
qed

lemma inject_loop_run:
  "inv s \<Longrightarrow> \<forall>n \<in> set refs. readable fe key (view s n) \<Longrightarrow>
    \<exists>s'. inject_loop fe key st refs env s = (Inr (env_of_refs (\<lambda>n. plain_of fe key (view s n)) refs env), s')
      \<and> inv s' \<and> view s' = view s"
proof (induction refs arbitrary: s env)
  case (Cons n ns)
  obtain t where t: "get_secret fe key st n s = (Inr (plain_of fe key (view s n)), t)" "inv t" "view t = view s"
    using get_secret_run [of s fe key n] Cons.prems by auto
  then show ?case using Cons.IH [of t] Cons.prems(2)
    by (cases "plain_of fe key (view s n)") (simp_all add: bind_p_Inr)
qed (simp add: ret_def)

text \<open>A stored token is handed out again; a fresh one is stored under its name and changes no
  other secret.\<close>

lemma stored_or_fresh_run:
  assumes "fernet_ok fe" "inv s" "readable fe key (view s name)"
  shows "\<exists>s' v. stored_or_fresh fe key nonce fresh st name s = (Inr v, s') \<and> inv s'
    \<and> plain_of fe key (view s' name) = Some v \<and> readable fe key (view s' name)
    \<and> (\<forall>n. n \<noteq> name \<longrightarrow> view s' n = view s n)
    \<and> (\<forall>w. plain_of fe key (view s name) = Some w \<and> w \<noteq> [] \<longrightarrow> v = w \<and> view s' = view s)
    \<and> (plain_of fe key (view s name) \<in> {None, Some []} \<longrightarrow> v = fresh)"
proof -
  obtain t where t: "get_secret fe key st name s = (Inr (plain_of fe key (view s name)), t)" "inv t" "view t = view s"
    using get_secret_run [OF assms(2,3)] by blast
  obtain u where u: "create_secret fe key nonce st name fresh t = (Inr (), u)" "inv u"
      "view u = (view t)(name \<mapsto> \<lparr>sec_name = name, sec_value = fe_encrypt fe key nonce fresh\<rparr>)"
    using create_secret_run [OF t(2)] by blast
  have dec: "fe_decrypt fe key (fe_encrypt fe key nonce fresh) = Inr fresh" using assms(1) by (simp add: fernet_ok_def)
  show ?thesis
  proof (cases "plain_of fe key (view s name) \<in> {None, Some []}")
    case True
    then have "stored_or_fresh fe key nonce fresh st name s = (Inr fresh, u)"
      using t u by (auto simp: stored_or_fresh_def bind_p_def ret_def)
    then show ?thesis using t u dec True by (auto simp: plain_of_def readable_def)
  next
    case False
    then obtain c cs where p: "plain_of fe key (view s name) = Some (c # cs)" by (auto simp: neq_Nil_conv)
    then have "stored_or_fresh fe key nonce fresh st name s = (Inr (c # cs), t)"
      using t by (simp add: stored_or_fresh_def bind_p_def ret_def)
    then show ?thesis using t p assms(3) by auto
  qed
qed

lemma stored_or_fresh_stable:
  assumes "fernet_ok fe" "inv s" "readable fe key (view s name)" "fresh \<noteq> []"
    and "stored_or_fresh fe key nonce fresh st name s = (Inr v, s')"
  shows "fst (stored_or_fresh fe key nonce' fresh' st name s') = Inr v"
proof -
  note r = stored_or_fresh_run [OF assms(1-3), of nonce fresh]
  have s': "inv s'" "plain_of fe key (view s' name) = Some v" "readable fe key (view s' name)"
    using r assms(5) by auto
  have "v \<noteq> []" using r assms(4,5) by (cases "plain_of fe key (view s name)") auto
  then show ?thesis using stored_or_fresh_run [OF assms(1) s'(1,3), of nonce' fresh'] s'(2) by auto
qed

end

text \<open>The Postgres table of secrets, and the proxy's cache in front of it.\<close>

abbreviation secrets_table :: "(json table, secret_spec) store_ops" where
  "secrets_table \<equiv> pg_store secret_dump secret_validate"

interpretation secrets_db: secret_store secrets_table "raw_view secret_validate" "raw_inv secret_validate"
  by (simp add: secret_store_def secret_codec.pg_any_store)

interpretation cached_secrets: secret_store "ttl_store secrets_table"
    "\<lambda>c. raw_view secret_validate (tc_store c)" "secret_codec.pg.ttl_inv"
  by (simp add: secret_store_def secret_codec.pg.ttl_any_store)

text \<open>A cipher that meets the contract: it shows that the hypothesis can hold.\<close>

definition plain_fernet :: fernet_lib where
  "plain_fernet = \<lparr>fe_encrypt = (\<lambda>key nonce text. rev text), fe_decrypt = (\<lambda>key token. Inr (rev token))\<rparr>"

lemma plain_fernet_ok: "fernet_ok plain_fernet"
  by (simp add: fernet_ok_def plain_fernet_def)

section \<open>Properties\<close>

text \<open>A stored secret reads back: after a secret was created in the Postgres store, reading its
  name gives the value, and reading any other name gives what it gave before.\<close>

theorem secret_roundtrip:
  assumes "fernet_ok fe" "raw_inv secret_validate rows"
    and "create_secret fe key nonce secrets_table name value rows = (Inr (), rows')"
  shows "fst (get_secret fe key secrets_table name' rows') =
    (if name' = name then Inr (Some value) else fst (get_secret fe key secrets_table name' rows))"
  by (rule secrets_db.get_after_create [OF assms])

theorem secret_roundtrip_witness:
  "fst (get_secret plain_fernet ''k'' secrets_table ''db'' (snd (create_secret plain_fernet ''k'' 0 secrets_table ''db'' ''pw'' [])))
     = Inr (Some ''pw'')"
  using secret_roundtrip [OF plain_fernet_ok, of "[]" "''k''" 0 "''db''" "''pw''"
      "snd (create_secret plain_fernet ''k'' 0 secrets_table ''db'' ''pw'' [])" "''db''"]
  by (simp add: create_secret_def pg_store_def pg_put_def)

text \<open>The token of a service is made once: whatever token a first call returns, a later call
  returns the same one, and the call changes no other secret.\<close>

theorem service_token_stable:
  assumes "fernet_ok fe" "raw_inv secret_validate rows" "fresh \<noteq> []"
    and "readable fe key (raw_view secret_validate rows (service_token_prefix @ svc))"
    and "service_token fe key nonce fresh secrets_table svc rows = (Inr token, rows')"
  shows "fst (service_token fe key nonce' fresh' secrets_table svc rows') = Inr token \<and>
    (\<forall>name. name \<noteq> service_token_prefix @ svc \<longrightarrow>
       raw_view secret_validate rows' name = raw_view secret_validate rows name)"
  using secrets_db.stored_or_fresh_stable [OF assms(1,2,4,3)] assms(5)
    secrets_db.stored_or_fresh_run [OF assms(1,2,4), of nonce fresh]
  by (auto simp: service_token_def)

theorem service_token_stable_witness:
  "fst (service_token plain_fernet ''k'' 1 ''other'' secrets_table ''web''
     (snd (service_token plain_fernet ''k'' 0 ''tok'' secrets_table ''web'' []))) = Inr ''tok''"
proof -
  let ?r = "service_token plain_fernet ''k'' 0 ''tok'' secrets_table ''web'' []"
  have "?r = (Inr ''tok'', snd ?r)"
    by (simp add: service_token_def stored_or_fresh_def get_secret_def create_secret_def pg_store_def
        pg_get_def pg_put_def bind_p_def ret_def)
  then show ?thesis
    using service_token_stable [OF plain_fernet_ok, of "[]" "''tok''" "''k''" "''web''" 0 "''tok''" "snd ?r"]
    by (simp add: readable_def raw_view_def)
qed

text \<open>The environment of a replica: for references with different variable names, injecting
  them gives every variable the plain text of its secret, leaves out the references that name no
  secret, and has no other variable.\<close>

theorem inject_into_env_value:
  assumes "raw_inv secret_validate rows" "distinct (map env_key refs)"
    and "\<forall>n \<in> set refs. readable fe key (raw_view secret_validate rows n)"
  shows "\<exists>env rows'. inject_into_env fe key secrets_table refs rows = (Inr env, rows') \<and>
    (\<forall>n \<in> set refs. dict_get env (env_key n) = plain_of fe key (raw_view secret_validate rows n)) \<and>
    (\<forall>v. v \<notin> env_key ` set refs \<longrightarrow> dict_get env v = None)"
proof -
  let ?p = "\<lambda>n. plain_of fe key (raw_view secret_validate rows n)"
  have "(\<forall>n \<in> set refs. dict_get (env_of_refs ?p refs env) (env_key n) = (case ?p n of None \<Rightarrow> dict_get env (env_key n) | v \<Rightarrow> v))
      \<and> (\<forall>v. v \<notin> env_key ` set refs \<longrightarrow> dict_get (env_of_refs ?p refs env) v = dict_get env v)" for env
    using assms(2) by (induction refs arbitrary: env) (force simp: image_iff split: option.splits)+
  from this [of "[]"] show ?thesis
    using secrets_db.inject_loop_run [OF assms(1,3), of "[]"]
    by (auto simp: inject_into_env_def split: option.splits)
qed

theorem inject_into_env_value_witness:
  "\<exists>env rows'. inject_into_env plain_fernet ''k'' secrets_table [''api-key'', ''gone'']
      [(''api-key'', secret_dump \<lparr>sec_name = ''api-key'', sec_value = ''s3''\<rparr>)] = (Inr env, rows')
    \<and> dict_get env ''API_KEY'' = Some ''3s'' \<and> dict_get env ''GONE'' = None"
proof -
  let ?rows = "[(''api-key'', secret_dump \<lparr>sec_name = ''api-key'', sec_value = ''s3''\<rparr>)]"
  have k: "env_key ''api-key'' = ''API_KEY''" "env_key ''gone'' = ''GONE''"
    by code_simp+
  have inv: "raw_inv secret_validate ?rows"
    using secret_codec.validate_dump by (simp add: raw_inv_def wf_dict_def)
  have rd: "readable plain_fernet ''k'' x" for x
    by (simp add: readable_def plain_fernet_def)
  have v: "plain_of plain_fernet ''k'' (raw_view secret_validate ?rows ''api-key'') = Some ''3s''"
      "plain_of plain_fernet ''k'' (raw_view secret_validate ?rows ''gone'') = None"
    by (simp_all add: plain_of_def raw_view_def secret_codec.validate_dump plain_fernet_def)
  show ?thesis
    using inject_into_env_value [OF inv, of "[''api-key'', ''gone'']" plain_fernet "''k''"] rd k v by auto
qed

end
