(* ===== verification/Orchestrator.thy ===== *)
theory Orchestrator
  imports Docker Nodes Routing Secrets
begin

text \<open>
  \<open>ComputeOrchestrator\<close> of \<open>aws_light/compute/orchestrator.py\<close>: the reconcile loop that brings
  the containers of services and databases to their desired number, the life of a replica, the
  environment it gets, the clean-up and the CPU statistics. (The rollout loop is in the theory
  \<open>Rollout\<close>.) A pass runs as one step here: the code awaits inside it, but only on its stores.
  The state holds the stores and the components the orchestrator is given; the environment holds
  their methods. The stores of services, rollouts, databases and nodes are dictionaries, the
  contract \<open>any_store\<close> which \<open>PostgresStore\<close> meets.
\<close>

section \<open>State and environment\<close>

record ('d, 'r, 'k) world =
  w_services :: "(string, service_state) pydict"
  w_deployments :: "(string, rollout_state) pydict"
  w_databases :: "(string, database_state) pydict option"
  w_node_store :: "(string, node_state) pydict option"
  w_nodes :: nodes
  w_docker :: 'd
  w_routing :: 'r
  w_secrets :: 'k
  w_redis_cpu :: "(string, pyfloat) pydict"
  w_published :: "web_socket_event list"
  w_clock :: timestamp
  w_draws :: nat

text \<open>\<open>en_uuid i\<close> and \<open>en_urlsafe i n\<close> are the results of the \<open>i\<close>-th draw of \<open>uuid.uuid4\<close> and
  \<open>secrets.token_urlsafe(n)\<close>; \<open>en_dump\<close> is \<open>model_dump(mode="json")\<close>.\<close>

record ('d, 'r, 'k) env =
  en_docker :: "'d docker_daemon"
  en_routing :: "'r routing_ops"
  en_secrets :: "('k, secret_spec) store_ops"
  en_fernet :: fernet_lib
  en_key :: string
  en_select :: "node_state list \<Rightarrow> rat \<Rightarrow> rat \<Rightarrow> node_state result"
  en_cfg :: settings
  en_uuid :: "nat \<Rightarrow> string"
  en_urlsafe :: "nat \<Rightarrow> nat \<Rightarrow> string"
  en_dump :: "service_state \<Rightarrow> json"

text \<open>A call of a component.\<close>

definition call_docker :: "('d, 'a) prog \<Rightarrow> (('d, 'r, 'k) world, 'a) prog" where
  "call_docker m w = (case m (w_docker w) of (r, d) \<Rightarrow> (r, w\<lparr>w_docker := d\<rparr>))"

definition call_routing :: "('r, 'a) prog \<Rightarrow> (('d, 'r, 'k) world, 'a) prog" where
  "call_routing m w = (case m (w_routing w) of (r, t) \<Rightarrow> (r, w\<lparr>w_routing := t\<rparr>))"

definition call_secrets :: "('k, 'a) prog \<Rightarrow> (('d, 'r, 'k) world, 'a) prog" where
  "call_secrets m w = (case m (w_secrets w) of (r, k) \<Rightarrow> (r, w\<lparr>w_secrets := k\<rparr>))"

definition call_nodes :: "(nodes, 'a) prog \<Rightarrow> (('d, 'r, 'k) world, 'a) prog" where
  "call_nodes m w = (case m (w_nodes w) of (r, n) \<Rightarrow> (r, w\<lparr>w_nodes := n\<rparr>))"

definition get_service :: "string \<Rightarrow> (('d, 'r, 'k) world, service_state option) prog" where
  "get_service name = get_s (\<lambda>w. dict_get (w_services w) name)"

definition put_service :: "string \<Rightarrow> service_state \<Rightarrow> (('d, 'r, 'k) world, unit) prog" where
  "put_service name s = mod_s (\<lambda>w. w\<lparr>w_services := dict_put name s (w_services w)\<rparr>)"

definition put_database :: "string \<Rightarrow> database_state \<Rightarrow> (('d, 'r, 'k) world, unit) prog" where
  "put_database name s = mod_s (\<lambda>w. w\<lparr>w_databases := map_option (dict_put name s) (w_databases w)\<rparr>)"

definition publish :: "event_kind \<Rightarrow> (string, json) pydict \<Rightarrow> (('d, 'r, 'k) world, unit) prog" where
  "publish kind payload = mod_s (\<lambda>w. w\<lparr>w_published := w_published w @
     [\<lparr>ev_kind = kind, ev_timestamp = w_clock w, ev_payload = payload\<rparr>]\<rparr>)"

text \<open>The next random draw.\<close>

definition draw :: "(('d, 'r, 'k) world, nat) prog" where
  "draw w = (Inr (w_draws w), w\<lparr>w_draws := Suc (w_draws w)\<rparr>)"

section \<open>Names\<close>

definition proxy_workload_url :: string where
  "proxy_workload_url = ''http://proxy:8080''"

definition service_network_name :: "string \<Rightarrow> string" where
  "service_network_name service_name = ''aws-light-svc-'' @ service_name"

definition database_network_name :: "string \<Rightarrow> string" where
  "database_network_name database_name = ''aws-light-db-'' @ database_name"

definition database_volume_name :: "string \<Rightarrow> string" where
  "database_volume_name database_name = ''aws-light-db-'' @ database_name @ ''-data''"

definition env_resource_name :: "string \<Rightarrow> string" where
  "env_resource_name resource_name = replace_char CHR ''-'' CHR ''_'' (upper resource_name)"

definition database_identifier :: "string \<Rightarrow> string" where
  "database_identifier database_name = replace_char CHR ''-'' CHR ''_'' (lower database_name)"

section \<open>Emitters\<close>

definition node_capacity_payload :: "node_state \<Rightarrow> json" where
  "node_capacity_payload node = JDict [
     (''node_id'', JStr (nsp_node_id (nd_spec node))),
     (''cpu_used'', JFloat (ru_cpu_used (nd_usage node))),
     (''cpu_capacity'', JFloat (nsp_cpu_capacity (nd_spec node))),
     (''cpu_available'', JFloat (available_cpu node)),
     (''actual_cpu_used'', JFloat (ru_cpu_used (nd_actual_usage node))),
     (''memory_used_mb'', JFloat (ru_memory_used_mb (nd_usage node))),
     (''memory_capacity_mb'', JInt (nsp_memory_capacity_mb (nd_spec node))),
     (''memory_available_mb'', JFloat (available_memory_mb node)),
     (''actual_memory_used_mb'', JFloat (ru_memory_used_mb (nd_actual_usage node))),
     (''replica_count'', JInt (int (length (nd_replica_ids node))))]"

definition emit_service_updated :: "('d, 'r, 'k) env \<Rightarrow> service_state \<Rightarrow> (('d, 'r, 'k) world, unit) prog" where
  "emit_service_updated en s = publish SERVICE_UPDATED
     [(''service_name'', JStr (sp_name (ss_spec s))), (''status'', JStr (status_value (ss_status s))),
      (''replica_count'', JInt (int (length (ss_replicas s)))), (''service'', en_dump en s)]"

definition emit_node_updated :: "string \<Rightarrow> (('d, 'r, 'k) world, unit) prog" where
  "emit_node_updated node_id = bind_p (get_s (\<lambda>w. get_node node_id (w_nodes w))) (\<lambda>found. case found of
     None \<Rightarrow> ret ()
   | Some node \<Rightarrow> publish NODE_UPDATED
       [(''node_id'', JStr node_id), (''cpu_used'', JFloat (ru_cpu_used (nd_usage node))),
        (''actual_cpu_used'', JFloat (ru_cpu_used (nd_actual_usage node))),
        (''memory_used_mb'', JFloat (ru_memory_used_mb (nd_usage node))),
        (''actual_memory_used_mb'', JFloat (ru_memory_used_mb (nd_actual_usage node))),
        (''replica_count'', JInt (int (length (nd_replica_ids node))))])"

definition emit_rollout_progress :: "string \<Rightarrow> string \<Rightarrow> int \<Rightarrow> int \<Rightarrow> (('d, 'r, 'k) world, unit) prog" where
  "emit_rollout_progress deployment_id service_name step total_steps = publish ROLLOUT_PROGRESS
     [(''deployment_id'', JStr deployment_id), (''service_name'', JStr service_name), (''step'', JInt step),
      (''total_steps'', JInt total_steps),
      (''status'', JStr (if step < total_steps then ''in_progress'' else ''complete''))]"

section \<open>Networks and routes\<close>

definition platform_compose_containers :: "('d, 'r, 'k) env \<Rightarrow> (('d, 'r, 'k) world, compose_container_info list) prog" where
  "platform_compose_containers en = bind_p (call_docker (list_compose_containers (en_docker en) ''aws-light'')) (\<lambda>cs.
     ret (filter (\<lambda>c. cc_service c \<in> {''proxy'', ''health-checker''}) cs))"

definition ensure_service_network :: "('d, 'r, 'k) env \<Rightarrow> string \<Rightarrow> compose_container_info list option
    \<Rightarrow> (('d, 'r, 'k) world, string) prog" where
  "ensure_service_network en service_name platform_containers =
     (let network_name = service_network_name service_name in
      bind_p (call_docker (ensure_network (en_docker en) network_name)) (\<lambda>_.
      bind_p (case platform_containers of Some cs \<Rightarrow> ret cs | None \<Rightarrow> platform_compose_containers en) (\<lambda>containers.
      bind_p (for_p containers (\<lambda>c. call_docker
        (connect_container_to_network (en_docker en) (cc_container_id c) network_name [cc_service c]))) (\<lambda>_.
      ret network_name))))"

definition endpoints_of :: "service_state \<Rightarrow> endpoint list" where
  "endpoints_of s = map (\<lambda>r. new_endpoint (rs_replica_id r) (rs_container_ip r) (sp_port (ss_spec s)))
     (filter (\<lambda>r. rs_status r = RUNNING \<and> rs_container_ip r \<noteq> []) (ss_replicas s))"

definition sync_routing_table :: "('d, 'r, 'k) env \<Rightarrow> service_state \<Rightarrow> (('d, 'r, 'k) world, unit) prog" where
  "sync_routing_table en s = call_routing (rt_update (en_routing en) (sp_name (ss_spec s)) (endpoints_of s))"

section \<open>The environment of a replica\<close>

definition platform_env :: "('d, 'r, 'k) env \<Rightarrow> string \<Rightarrow> (('d, 'r, 'k) world, (string, string) pydict) prog" where
  "platform_env en service_name = bind_p draw (\<lambda>i.
     bind_p (call_secrets (service_token (en_fernet en) (en_key en) i (en_urlsafe en i 32) (en_secrets en) service_name)) (\<lambda>token.
     ret [(''AWS_LIGHT_SERVICE_NAME'', service_name), (''AWS_LIGHT_SERVICE_TOKEN'', token),
          (''AWS_LIGHT_PROXY_URL'', proxy_workload_url),
          (''AWS_LIGHT_STORAGE_URL'', proxy_workload_url @ ''/_aws-light/storage'')]))"

definition database_binding_env :: "('d, 'r, 'k) env \<Rightarrow> database_state
    \<Rightarrow> (('d, 'r, 'k) world, (string, string) pydict) prog" where
  "database_binding_env en database =
     (let database_name = dsp_name (ds_spec database);
          env_prefix = ''AWS_LIGHT_DATABASE_'' @ env_resource_name database_name;
          db_name = database_identifier database_name;
          db_user = db_name @ ''_user'';
          db_host = ''aws-light-db-'' @ database_name;
          db_port = ''5432''
      in bind_p draw (\<lambda>i. bind_p (call_secrets
           (database_password (en_fernet en) (en_key en) i (en_urlsafe en i 24) (en_secrets en) database_name)) (\<lambda>db_password.
      ret [(env_prefix @ ''_URL'', ''postgresql://'' @ db_user @ '':'' @ db_password @ ''@'' @ db_host @ '':'' @ db_port @ ''/'' @ db_name),
           (env_prefix @ ''_HOST'', db_host), (env_prefix @ ''_PORT'', db_port), (env_prefix @ ''_NAME'', db_name),
           (env_prefix @ ''_USER'', db_user), (env_prefix @ ''_PASSWORD'', db_password)])))"

text \<open>The loop of \<open>_database_env\<close> over the bindings with its dictionary \<open>env\<close>.\<close>

fun database_env_loop :: "('d, 'r, 'k) env \<Rightarrow> (string, database_state) pydict \<Rightarrow> database_binding list
    \<Rightarrow> (string, string) pydict \<Rightarrow> (('d, 'r, 'k) world, (string, string) pydict) prog" where
  "database_env_loop en databases [] env = ret env"
| "database_env_loop en databases (b # bs) env =
     (if AccessConnect \<notin> set (dbb_access b) then database_env_loop en databases bs env
      else (case dict_get databases (dbb_name b) of
          None \<Rightarrow> database_env_loop en databases bs env
        | Some database \<Rightarrow> bind_p (database_binding_env en database) (\<lambda>e.
            database_env_loop en databases bs (dict_merge env e))))"

definition database_env :: "('d, 'r, 'k) env \<Rightarrow> service_state \<Rightarrow> (('d, 'r, 'k) world, (string, string) pydict) prog" where
  "database_env en s = bind_p (get_s w_databases) (\<lambda>store. case store of
     None \<Rightarrow> ret []
   | Some databases \<Rightarrow> database_env_loop en databases (rb_databases (sp_resources (ss_spec s))) [])"

definition connect_bindings :: "service_state \<Rightarrow> string list" where
  "connect_bindings s = map dbb_name (filter (\<lambda>b. AccessConnect \<in> set (dbb_access b)) (rb_databases (sp_resources (ss_spec s))))"

definition attach_service_replica_networks :: "('d, 'r, 'k) env \<Rightarrow> service_state \<Rightarrow> string
    \<Rightarrow> (('d, 'r, 'k) world, unit) prog" where
  "attach_service_replica_networks en s container_id =
     bind_p (ensure_service_network en (sp_name (ss_spec s)) None) (\<lambda>network_name.
     bind_p (get_s w_databases) (\<lambda>store.
     if connect_bindings s = [] then ret ()
     else (case store of
         None \<Rightarrow> ret ()
       | Some databases \<Rightarrow> for_p (connect_bindings s) (\<lambda>database_name.
           case dict_get databases database_name of
             None \<Rightarrow> ret ()
           | Some database \<Rightarrow> when_p (ds_container_id database \<noteq> [])
               (call_docker (connect_container_to_network (en_docker en) (ds_container_id database) network_name []))))))"

definition attach_database_to_bound_service_networks :: "('d, 'r, 'k) env \<Rightarrow> database_state
    \<Rightarrow> (('d, 'r, 'k) world, unit) prog" where
  "attach_database_to_bound_service_networks en database =
     bind_p (get_s (\<lambda>w. dict_values (w_services w))) (\<lambda>services. for_p services (\<lambda>s.
       when_p (dsp_name (ds_spec database) \<in> set (connect_bindings s))
         (let network_name = service_network_name (sp_name (ss_spec s)) in
          bind_p (call_docker (ensure_network (en_docker en) network_name)) (\<lambda>_.
          call_docker (connect_container_to_network (en_docker en) (ds_container_id database) network_name [])))))"

section \<open>Databases\<close>

definition create_database_container :: "('d, 'r, 'k) env \<Rightarrow> database_state \<Rightarrow> (('d, 'r, 'k) world, unit) prog" where
  "create_database_container en database =
     (let spec = ds_spec database;
          container_name = ''aws-light-db-'' @ dsp_name spec;
          db_name = database_identifier (dsp_name spec);
          db_user = db_name @ ''_user'';
          database_network = database_network_name (dsp_name spec)
      in bind_p draw (\<lambda>i.
      bind_p (call_secrets (database_password (en_fernet en) (en_key en) i (en_urlsafe en i 24) (en_secrets en) (dsp_name spec))) (\<lambda>db_password.
      bind_p (call_docker (ensure_network (en_docker en) database_network)) (\<lambda>_.
      bind_p (try_p (bind_p (call_docker (create_container (en_docker en) (en_cfg en) (''postgres:'' @ dsp_version spec) container_name
            [(''POSTGRES_DB'', db_name), (''POSTGRES_USER'', db_user), (''POSTGRES_PASSWORD'', db_password)]
            (1 / 4) 256 database_network
            [(''aws-light.managed'', ''true''), (''aws-light.database'', dsp_name spec)]
            (Some [(database_volume_name (dsp_name spec), ''/var/lib/postgresql/data'')]))) (\<lambda>c. ret (Some c)))
          (\<lambda>_. ret None)) (\<lambda>created. case created of
        None \<Rightarrow> ret ()
      | Some (container_id, container_ip) \<Rightarrow>
          bind_p (get_s w_clock) (\<lambda>now.
          (let updated = database\<lparr>ds_status := RUNNING, ds_container_id := container_id,
                ds_container_name := container_name, ds_container_ip := container_ip, ds_updated_at := now\<rparr>
           in bind_p (put_database (dsp_name spec) updated) (\<lambda>_.
              attach_database_to_bound_service_networks en updated))))))))"

definition teardown_database :: "('d, 'r, 'k) env \<Rightarrow> database_state \<Rightarrow> (('d, 'r, 'k) world, unit) prog" where
  "teardown_database en database =
     bind_p (when_p (ds_container_id database \<noteq> [])
       (call_docker (remove_container (en_docker en) (ds_container_id database)))) (\<lambda>_.
     bind_p (call_docker (remove_network (en_docker en) (database_network_name (dsp_name (ds_spec database))))) (\<lambda>_.
     mod_s (\<lambda>w. w\<lparr>w_databases := map_option (dict_pop (dsp_name (ds_spec database))) (w_databases w)\<rparr>)))"

definition reconcile_database :: "('d, 'r, 'k) env \<Rightarrow> database_state \<Rightarrow> (('d, 'r, 'k) world, unit) prog" where
  "reconcile_database en database =
    (let name = dsp_name (ds_spec database);
         expected_container_name = ''aws-light-db-'' @ name;
         database_network = database_network_name name
     in if ds_status database = DELETING then teardown_database en database
     else if ds_container_id database \<noteq> [] then
       bind_p (call_docker (container_is_running (en_docker en) (ds_container_id database))) (\<lambda>running.
       bind_p (get_s w_clock) (\<lambda>now.
         if running then when_p (ds_status database \<noteq> RUNNING)
           (put_database name (database\<lparr>ds_status := RUNNING, ds_updated_at := now\<rparr>))
         else put_database name (database\<lparr>ds_status := PENDING, ds_container_id := [], ds_container_name := [],
             ds_container_ip := [], ds_updated_at := now\<rparr>)))
     else bind_p (call_docker (get_container_by_name (en_docker en) expected_container_name)) (\<lambda>existing. case existing of
         None \<Rightarrow> create_database_container en database
       | Some info \<Rightarrow>
           bind_p (call_docker (container_is_running (en_docker en) (ci_container_id info))) (\<lambda>running.
             if running then
               bind_p (call_docker (get_container_ip (en_docker en) (ci_container_id info) database_network)) (\<lambda>ip.
               bind_p (get_s w_clock) (\<lambda>now.
               (let updated = database\<lparr>ds_status := RUNNING, ds_container_id := ci_container_id info,
                     ds_container_name := expected_container_name, ds_container_ip := ip, ds_updated_at := now\<rparr>
                in bind_p (put_database name updated) (\<lambda>_. attach_database_to_bound_service_networks en updated))))
             else bind_p (call_docker (remove_container (en_docker en) (ci_container_id info))) (\<lambda>_.
               create_database_container en database))))"

section \<open>Replicas\<close>

definition scheduling_payload :: "('d, 'r, 'k) env \<Rightarrow> service_spec \<Rightarrow> node_state list \<Rightarrow> (string, json) pydict" where
  "scheduling_payload en spec nodes =
     [(''cpu_request'', JFloat (sp_cpu_request spec)), (''memory_request_mb'', JInt (sp_memory_request_mb spec)),
      (''scheduler_policy'', JStr (cfg_scheduler_policy (en_cfg en))),
      (''candidate_nodes'', JList (map node_capacity_payload (sort_key (\<lambda>n. nsp_node_id (nd_spec n)) nodes)))]"

definition replica_env :: "('d, 'r, 'k) env \<Rightarrow> service_state \<Rightarrow> (('d, 'r, 'k) world, (string, string) pydict) prog" where
  "replica_env en s =
     bind_p (call_secrets (inject_into_env (en_fernet en) (en_key en) (en_secrets en) (sp_secret_refs (ss_spec s)))) (\<lambda>secret_env.
     bind_p (platform_env en (sp_name (ss_spec s))) (\<lambda>p_env.
     bind_p (database_env en s) (\<lambda>db_env.
     ret (dict_merge (dict_merge (dict_merge (sp_env (ss_spec s)) secret_env) p_env) db_env))))"

definition replica_labels :: "service_spec \<Rightarrow> string \<Rightarrow> string \<Rightarrow> (string, string) pydict" where
  "replica_labels spec replica_id node_id =
     [(''aws-light.managed'', ''true''), (''aws-light.service'', sp_name spec),
      (''aws-light.replica-id'', replica_id), (''aws-light.node'', node_id)]"

text \<open>The part of \<open>_create_replica\<close> after its container has started.\<close>

definition register_replica :: "('d, 'r, 'k) env \<Rightarrow> service_state \<Rightarrow> string \<Rightarrow> string \<Rightarrow> string \<Rightarrow> string
    \<Rightarrow> (('d, 'r, 'k) world, unit) prog" where
  "register_replica en s node_id replica_id container_id container_ip =
    (let spec = ss_spec s in
     bind_p (attach_service_replica_networks en s container_id) (\<lambda>_.
     bind_p (call_nodes (allocate node_id replica_id (sp_cpu_request spec) (float_of_int (sp_memory_request_mb spec)))) (\<lambda>_.
     bind_p (emit_node_updated node_id) (\<lambda>_.
     bind_p (get_s w_clock) (\<lambda>now.
     (let replica = \<lparr>rs_replica_id = replica_id, rs_container_id = container_id, rs_node_id = node_id,
          rs_status = RUNNING, rs_container_ip = container_ip, rs_image = sp_image spec,
          rs_cpu_percent = 0, rs_memory_mb = 0, rs_started_at = now\<rparr> in
     bind_p (get_service (sp_name spec)) (\<lambda>current_service.
     bind_p (case current_service of
         None \<Rightarrow> ret ()
       | Some current \<Rightarrow>
           (let updated = current\<lparr>ss_replicas := ss_replicas current @ [replica], ss_updated_at := now\<rparr> in
            bind_p (put_service (sp_name spec) updated) (\<lambda>_. sync_routing_table en updated))) (\<lambda>_.
     publish REPLICA_STARTED
       [(''replica_id'', JStr replica_id), (''service_name'', JStr (sp_name spec)),
        (''node_id'', JStr node_id), (''container_ip'', JStr container_ip)]))))))))"

definition create_replica :: "('d, 'r, 'k) env \<Rightarrow> service_state \<Rightarrow> (('d, 'r, 'k) world, unit) prog" where
  "create_replica en s =
    (let spec = ss_spec s in
     bind_p (get_s (\<lambda>w. get_all_nodes (w_nodes w))) (\<lambda>nodes.
     case en_select en nodes (sp_cpu_request spec) (of_int (sp_memory_request_mb spec)) of
       Inl SchedulingError \<Rightarrow> publish SCHEDULER_NO_CAPACITY
         ((''service_name'', JStr (sp_name spec)) # scheduling_payload en spec nodes)
     | Inl e \<Rightarrow> raise e
     | Inr target_node \<Rightarrow>
        (let node_id = nsp_node_id (nd_spec target_node) in
         bind_p (publish SCHEDULER_SELECTED ((''service_name'', JStr (sp_name spec)) # (''node_id'', JStr node_id)
            # scheduling_payload en spec nodes)) (\<lambda>_.
         bind_p draw (\<lambda>i.
         (let replica_id = en_uuid en i; container_name = ''aws-light-'' @ sp_name spec @ ''-'' @ take 8 replica_id in
         bind_p (replica_env en s) (\<lambda>merged_env.
         bind_p (ensure_service_network en (sp_name spec) None) (\<lambda>service_network.
         bind_p (try_p (bind_p (call_docker (create_container (en_docker en) (en_cfg en) (sp_image spec) container_name
               merged_env (sp_cpu_request spec) (sp_memory_request_mb spec) service_network
               (replica_labels spec replica_id node_id) None)) (\<lambda>c. ret (Some c)))
             (\<lambda>_. ret None)) (\<lambda>created. case created of
           None \<Rightarrow> ret ()
         | Some (container_id, container_ip) \<Rightarrow>
             register_replica en s node_id replica_id container_id container_ip)))))))))"

definition remove_replica :: "('d, 'r, 'k) env \<Rightarrow> service_state \<Rightarrow> replica_state \<Rightarrow> (('d, 'r, 'k) world, unit) prog" where
  "remove_replica en s replica =
    (let spec = ss_spec s in
     bind_p (call_docker (remove_container (en_docker en) (rs_container_id replica))) (\<lambda>_.
     bind_p (mod_s (\<lambda>w. w\<lparr>w_nodes := deallocate (rs_node_id replica) (rs_replica_id replica) (sp_cpu_request spec)
        (float_of_int (sp_memory_request_mb spec)) (w_nodes w)\<rparr>)) (\<lambda>_.
     bind_p (emit_node_updated (rs_node_id replica)) (\<lambda>_.
     bind_p (get_service (sp_name spec)) (\<lambda>current_service.
     bind_p (get_s w_clock) (\<lambda>now.
     bind_p (case current_service of
         None \<Rightarrow> ret ()
       | Some current \<Rightarrow>
           (let updated = current\<lparr>ss_replicas := filter (\<lambda>r. rs_replica_id r \<noteq> rs_replica_id replica) (ss_replicas current),
                                  ss_updated_at := now\<rparr> in
            bind_p (put_service (sp_name spec) updated) (\<lambda>_. sync_routing_table en updated))) (\<lambda>_.
     publish REPLICA_STOPPED
       [(''replica_id'', JStr (rs_replica_id replica)), (''service_name'', JStr (sp_name spec)),
        (''node_id'', JStr (rs_node_id replica))])))))))"

section \<open>Reconciling a service\<close>

text \<open>The loop of \<open>_refresh_observed_replicas\<close>, with its variables \<open>changed\<close> and \<open>observed_replicas\<close>.\<close>

fun refresh_loop :: "('d, 'r, 'k) env \<Rightarrow> service_spec \<Rightarrow> replica_state list \<Rightarrow> bool \<Rightarrow> replica_state list
    \<Rightarrow> (('d, 'r, 'k) world, bool \<times> replica_state list) prog" where
  "refresh_loop en spec [] changed observed = ret (changed, observed)"
| "refresh_loop en spec (replica # replicas) changed observed =
    (if rs_status replica \<noteq> RUNNING then refresh_loop en spec replicas changed (observed @ [replica])
     else bind_p (call_docker (container_is_running (en_docker en) (rs_container_id replica))) (\<lambda>alive.
       if \<not> alive then
         bind_p (call_docker (remove_container (en_docker en) (rs_container_id replica))) (\<lambda>_.
         bind_p (mod_s (\<lambda>w. w\<lparr>w_nodes := deallocate (rs_node_id replica) (rs_replica_id replica) (sp_cpu_request spec)
            (float_of_int (sp_memory_request_mb spec)) (w_nodes w)\<rparr>)) (\<lambda>_.
         bind_p (emit_node_updated (rs_node_id replica)) (\<lambda>_.
         bind_p (publish REPLICA_FAILED
           [(''replica_id'', JStr (rs_replica_id replica)), (''service_name'', JStr (sp_name spec)),
            (''node_id'', JStr (rs_node_id replica)), (''error'', JStr ''container missing or stopped'')]) (\<lambda>_.
         refresh_loop en spec replicas True observed))))
       else
         (let service_network = service_network_name (sp_name spec) in
         bind_p (call_docker (connect_container_to_network (en_docker en) (rs_container_id replica) service_network [])) (\<lambda>_.
         bind_p (call_docker (get_container_ip (en_docker en) (rs_container_id replica) service_network)) (\<lambda>ip.
         (let moved = (ip \<noteq> [] \<and> rs_container_ip replica \<noteq> ip);
              replica' = (if moved then replica\<lparr>rs_container_ip := ip\<rparr> else replica) in
         bind_p (call_nodes (allocate (rs_node_id replica) (rs_replica_id replica) (sp_cpu_request spec)
            (float_of_int (sp_memory_request_mb spec)))) (\<lambda>_.
         refresh_loop en spec replicas (changed \<or> moved) (observed @ [replica']))))))))"

definition refresh_observed_replicas :: "('d, 'r, 'k) env \<Rightarrow> service_state \<Rightarrow> (('d, 'r, 'k) world, service_state) prog" where
  "refresh_observed_replicas en s =
     bind_p (refresh_loop en (ss_spec s) (ss_replicas s) False []) (\<lambda>(changed, observed).
     bind_p (get_s w_clock) (\<lambda>now.
     (let s' = (if changed then s\<lparr>ss_replicas := observed, ss_updated_at := now\<rparr> else s) in
      bind_p (when_p changed (put_service (sp_name (ss_spec s)) s')) (\<lambda>_.
      bind_p (sync_routing_table en s') (\<lambda>_. ret s')))))"

definition is_stale :: "service_spec \<Rightarrow> replica_state \<Rightarrow> bool" where
  "is_stale spec r \<longleftrightarrow> rs_image r \<noteq> [] \<and> rs_image r \<noteq> sp_image spec"

text \<open>The last part of \<open>_reconcile_service\<close>: the status of the service.\<close>

definition update_status :: "('d, 'r, 'k) env \<Rightarrow> string \<Rightarrow> bool \<Rightarrow> (('d, 'r, 'k) world, unit) prog" where
  "update_status en name replicas_changed = bind_p (get_service name) (\<lambda>found. case found of
     None \<Rightarrow> ret ()
   | Some updated_service \<Rightarrow>
      bind_p (get_s w_clock) (\<lambda>now.
      (let new_status = (if 1 \<le> length (running updated_service) then RUNNING else DEGRADED);
           status_changed = (ss_status updated_service \<noteq> new_status);
           final = (if status_changed then updated_service\<lparr>ss_status := new_status, ss_updated_at := now\<rparr> else updated_service) in
       bind_p (when_p status_changed (put_service name final)) (\<lambda>_.
       when_p (status_changed \<or> replicas_changed) (emit_service_updated en final)))))"

text \<open>\<open>for _ in range(n)\<close>.\<close>

fun repeat_p :: "nat \<Rightarrow> ('s, unit) prog \<Rightarrow> ('s, unit) prog" where
  "repeat_p 0 m = ret ()"
| "repeat_p (Suc n) m = bind_p m (\<lambda>_. repeat_p n m)"

definition scale_to :: "('d, 'r, 'k) env \<Rightarrow> service_state \<Rightarrow> replica_state list \<Rightarrow> int \<Rightarrow> bool
    \<Rightarrow> (('d, 'r, 'k) world, bool) prog" where
  "scale_to en s running_replicas desired_count replicas_changed =
    (let actual_count = int (length running_replicas) in
     if actual_count < desired_count then
       bind_p (repeat_p (nat (desired_count - actual_count)) (create_replica en s)) (\<lambda>_. ret True)
     else if desired_count < actual_count then
       (let surplus = slice_from desired_count running_replicas in
        bind_p (for_p surplus (remove_replica en s)) (\<lambda>_. ret (replicas_changed \<or> surplus \<noteq> [])))
     else ret replicas_changed)"

definition reconcile_service :: "('d, 'r, 'k) env \<Rightarrow> service_state \<Rightarrow> compose_container_info list option
    \<Rightarrow> (('d, 'r, 'k) world, unit) prog" where
  "reconcile_service en s0 platform_containers =
    (let spec = ss_spec s0 in
     bind_p (ensure_service_network en (sp_name spec) platform_containers) (\<lambda>_.
     bind_p (refresh_observed_replicas en s0) (\<lambda>s.
     (let stale_replicas = filter (is_stale spec) (running s) in
     bind_p (for_p stale_replicas (remove_replica en s)) (\<lambda>_.
     bind_p (if stale_replicas \<noteq> [] then bind_p (get_service (sp_name spec)) (\<lambda>found. ret (case found of Some s' \<Rightarrow> s' | None \<Rightarrow> s))
             else ret s) (\<lambda>s1.
     bind_p (scale_to en s1 (running s1) (sp_replicas spec) (stale_replicas \<noteq> [])) (\<lambda>replicas_changed.
     update_status en (sp_name spec) replicas_changed)))))))"

definition teardown_service :: "('d, 'r, 'k) env \<Rightarrow> service_state \<Rightarrow> (('d, 'r, 'k) world, unit) prog" where
  "teardown_service en s =
     bind_p (for_p (ss_replicas s) (remove_replica en s)) (\<lambda>_.
     bind_p (mod_s (\<lambda>w. w\<lparr>w_services := dict_pop (sp_name (ss_spec s)) (w_services w)\<rparr>)) (\<lambda>_.
     bind_p (call_routing (rt_remove (en_routing en) (sp_name (ss_spec s)))) (\<lambda>_.
     call_docker (remove_network (en_docker en) (service_network_name (sp_name (ss_spec s)))))))"

definition sync_nodes_to_store :: "(('d, 'r, 'k) world, unit) prog" where
  "sync_nodes_to_store = mod_s (\<lambda>w. w\<lparr>w_node_store := map_option (\<lambda>d.
     foldl (\<lambda>d n. dict_put (nsp_node_id (nd_spec n)) n d) d (get_all_nodes (w_nodes w))) (w_node_store w)\<rparr>)"

definition reconcile_all :: "('d, 'r, 'k) env \<Rightarrow> (('d, 'r, 'k) world, unit) prog" where
  "reconcile_all en =
     bind_p (get_s w_databases) (\<lambda>databases.
     bind_p (case databases of None \<Rightarrow> ret () | Some d \<Rightarrow> for_p (dict_values d) (reconcile_database en)) (\<lambda>_.
     bind_p (get_s (\<lambda>w. dict_values (w_services w))) (\<lambda>all_services.
     bind_p (platform_compose_containers en) (\<lambda>platform_containers.
     bind_p (for_p all_services (\<lambda>s.
       if ss_status s = DELETING then teardown_service en s
       else reconcile_service en s (Some platform_containers))) (\<lambda>_.
     sync_nodes_to_store)))))"

text \<open>One turn of \<open>_reconcile_loop\<close>: an exception ends the pass, not the loop.\<close>

definition reconcile_turn :: "('d, 'r, 'k) env \<Rightarrow> (('d, 'r, 'k) world, unit) prog" where
  "reconcile_turn en = try_p (reconcile_all en) (\<lambda>_. ret ())"

section \<open>Start, orphans and deletion\<close>

definition remove_orphan_containers :: "('d, 'r, 'k) env \<Rightarrow> (('d, 'r, 'k) world, unit) prog" where
  "remove_orphan_containers en =
     bind_p (get_s (\<lambda>w. concat (map (\<lambda>s. map rs_container_id (ss_replicas s)) (dict_values (w_services w))))) (\<lambda>known.
     bind_p (call_docker (list_containers_by_label (en_docker en) ''aws-light.managed'' ''true'')) (\<lambda>containers.
     for_p containers (\<lambda>c. when_p (ci_container_id c \<notin> set known)
       (call_docker (remove_container (en_docker en) (ci_container_id c))))))"

definition start_orchestrator :: "('d, 'r, 'k) env \<Rightarrow> (('d, 'r, 'k) world, unit) prog" where
  "start_orchestrator en = bind_p (mod_s (\<lambda>w. w\<lparr>w_nodes := initialize (en_cfg en) (w_nodes w)\<rparr>)) (\<lambda>_.
     remove_orphan_containers en)"

definition delete_service :: "('d, 'r, 'k) env \<Rightarrow> string \<Rightarrow> (('d, 'r, 'k) world, unit) prog" where
  "delete_service en service_name = bind_p (get_service service_name) (\<lambda>found. case found of
     None \<Rightarrow> ret ()
   | Some s \<Rightarrow>
      bind_p (for_p (ss_replicas s) (\<lambda>replica.
        bind_p (call_docker (remove_container (en_docker en) (rs_container_id replica))) (\<lambda>_.
        mod_s (\<lambda>w. w\<lparr>w_nodes := deallocate (rs_node_id replica) (rs_replica_id replica) (sp_cpu_request (ss_spec s))
          (float_of_int (sp_memory_request_mb (ss_spec s))) (w_nodes w)\<rparr>)))) (\<lambda>_.
      bind_p (mod_s (\<lambda>w. w\<lparr>w_services := dict_pop service_name (w_services w)\<rparr>)) (\<lambda>_.
      bind_p (call_routing (rt_remove (en_routing en) service_name)) (\<lambda>_.
      call_docker (remove_network (en_docker en) (service_network_name service_name))))))"

section \<open>CPU statistics\<close>

type_synonym usage_by_node = "(string, resource_usage) pydict"

text \<open>The inner loop over the replicas of a service and their statistics.\<close>

fun cpu_samples :: "pyfloat \<Rightarrow> (replica_state \<times> container_stats option) list \<Rightarrow> pyfloat list \<Rightarrow> usage_by_node
    \<Rightarrow> pyfloat list \<times> usage_by_node" where
  "cpu_samples requested_cpu [] samples usage = (samples, usage)"
| "cpu_samples requested_cpu ((replica, None) # rest) samples usage = cpu_samples requested_cpu rest samples usage"
| "cpu_samples requested_cpu ((replica, Some stats) # rest) samples usage =
    (let actual_cpu_cores = fdiv (cs_cpu_percent stats) 100;
         node_usage = dict_get_or usage (rs_node_id replica) zero_usage
     in cpu_samples requested_cpu rest (samples @ [fmul (fdiv actual_cpu_cores requested_cpu) 100])
          (dict_put (rs_node_id replica)
            \<lparr>ru_cpu_used = fadd (ru_cpu_used node_usage) actual_cpu_cores,
             ru_memory_used_mb = fadd (ru_memory_used_mb node_usage) (cs_memory_mb stats)\<rparr> usage))"

definition average_samples :: "pyfloat list \<Rightarrow> pyfloat" where
  "average_samples samples = (if samples = [] then 0
     else fdiv (foldl fadd 0 samples) (float_of_int (int (length samples))))"

fun cpu_services :: "('d, 'r, 'k) env \<Rightarrow> service_state list \<Rightarrow> usage_by_node \<Rightarrow> (('d, 'r, 'k) world, usage_by_node) prog" where
  "cpu_services en [] usage = ret usage"
| "cpu_services en (s # services) usage =
     bind_p (map_p (\<lambda>r. call_docker (get_container_stats (en_docker en) (rs_container_id r))) (ss_replicas s)) (\<lambda>stats_results.
     (let requested_cpu = max (sp_cpu_request (ss_spec s)) (fl (1 / 1000));
          (samples, usage') = cpu_samples requested_cpu (zip (ss_replicas s) stats_results) [] usage in
     bind_p (mod_s (\<lambda>w. w\<lparr>w_redis_cpu := dict_put (''cpu:'' @ sp_name (ss_spec s)) (average_samples samples) (w_redis_cpu w)\<rparr>)) (\<lambda>_.
     cpu_services en services usage')))"

definition collect_and_publish_cpu_stats :: "('d, 'r, 'k) env \<Rightarrow> (('d, 'r, 'k) world, unit) prog" where
  "collect_and_publish_cpu_stats en =
     bind_p (get_s (\<lambda>w. dict_of_list (map (\<lambda>n. (nsp_node_id (nd_spec n), zero_usage)) (get_all_nodes (w_nodes w))))) (\<lambda>usage0.
     bind_p (get_s (\<lambda>w. dict_values (w_services w))) (\<lambda>services.
     bind_p (cpu_services en services usage0) (\<lambda>usage.
     bind_p (for_p usage (\<lambda>(node_id, u).
       bind_p (mod_s (\<lambda>w. w\<lparr>w_nodes := set_actual_usage node_id (ru_cpu_used u) (ru_memory_used_mb u) (w_nodes w)\<rparr>)) (\<lambda>_.
       emit_node_updated node_id))) (\<lambda>_.
     sync_nodes_to_store))))"

text \<open>One turn of \<open>_cpu_stats_loop\<close>.\<close>

definition cpu_stats_turn :: "('d, 'r, 'k) env \<Rightarrow> (('d, 'r, 'k) world, unit) prog" where
  "cpu_stats_turn en = try_p (collect_and_publish_cpu_stats en) (\<lambda>_. ret ())"

section \<open>The orchestrator on components that keep their contracts\<close>

lemma call_docker_eq: "m (w_docker w) = (r, d) \<Longrightarrow> call_docker m w = (r, w\<lparr>w_docker := d\<rparr>)"
  by (simp add: call_docker_def)

lemma call_routing_eq: "m (w_routing w) = (r, t) \<Longrightarrow> call_routing m w = (r, w\<lparr>w_routing := t\<rparr>)"
  by (simp add: call_routing_def)

lemma call_secrets_eq: "m (w_secrets w) = (r, k) \<Longrightarrow> call_secrets m w = (r, w\<lparr>w_secrets := k\<rparr>)"
  by (simp add: call_secrets_def)

lemma call_nodes_eq: "m (w_nodes w) = (r, n) \<Longrightarrow> call_nodes m w = (r, w\<lparr>w_nodes := n\<rparr>)"
  by (simp add: call_nodes_def)

text \<open>The nodes are kept under their ids; booking keeps that and loses no node.\<close>

definition node_keys :: "nodes \<Rightarrow> bool" where
  "node_keys ns \<longleftrightarrow> wf_dict ns \<and> (\<forall>p \<in> set ns. nsp_node_id (nd_spec (snd p)) = fst p)"

lemma node_keys_put:
  "node_keys ns \<Longrightarrow> dict_get ns k = Some n \<Longrightarrow> nd_spec n' = nd_spec n \<Longrightarrow> node_keys (dict_put k n' ns)"
  by (auto simp: node_keys_def set_dict_put dest!: map_of_SomeD)

lemma deallocate_keys: "node_keys ns \<Longrightarrow> node_keys (deallocate nid rid c m ns)"
  "dict_has (deallocate nid rid c m ns) k \<longleftrightarrow> dict_has ns k"
  by (auto simp: deallocate_def dict_has_def intro!: node_keys_put split: option.split)

lemma allocate_run:
  assumes "node_keys ns" "dict_has ns nid"
  shows "\<exists>ns'. allocate nid rid c m ns = (Inr (), ns') \<and> node_keys ns' \<and> (\<forall>k. dict_has ns' k \<longleftrightarrow> dict_has ns k)"
  using assms by (auto simp: allocate_def dict_has_def intro!: node_keys_put split: option.split)

text \<open>Events by kind.\<close>

definition events_of :: "event_kind \<Rightarrow> ('d, 'r, 'k) world \<Rightarrow> nat" where
  "events_of kind w = length (filter (\<lambda>e. ev_kind e = kind) (w_published w))"

text \<open>A step that leaves the platform's own records alone.\<close>

definition frame :: "('d, 'r, 'k) world \<Rightarrow> ('d, 'r, 'k) world \<Rightarrow> bool" where
  "frame w w' \<longleftrightarrow> w_services w' = w_services w \<and> w_databases w' = w_databases w \<and> w_deployments w' = w_deployments w
     \<and> w_nodes w' = w_nodes w \<and> w_routing w' = w_routing w \<and> w_clock w' = w_clock w
     \<and> w_published w' = w_published w"

lemma frame_refl [simp]: "frame w w"
  by (simp add: frame_def)

lemma frame_trans: "frame w w' \<Longrightarrow> frame w' w'' \<Longrightarrow> frame w w''"
  by (simp add: frame_def)

definition runs :: "(('d, 'r, 'k) world \<Rightarrow> bool) \<Rightarrow> (('d, 'r, 'k) world, 'a) prog \<Rightarrow> ('d, 'r, 'k) world
    \<Rightarrow> ('a \<Rightarrow> ('d, 'r, 'k) world \<Rightarrow> bool) \<Rightarrow> bool" where
  "runs I m w Q \<longleftrightarrow> (\<exists>r w'. m w = (Inr r, w') \<and> I w' \<and> Q r w')"

lemma runs_bind: "runs I m w Q \<Longrightarrow> (\<And>r w'. I w' \<Longrightarrow> Q r w' \<Longrightarrow> runs I (f r) w' R) \<Longrightarrow> runs I (bind_p m f) w R"
  unfolding runs_def by (metis bind_p_Inr)

lemma runs_ret: "I w \<Longrightarrow> Q a w \<Longrightarrow> runs I (ret a) w Q"
  by (simp add: runs_def ret_def)

lemma runs_get_s: "I w \<Longrightarrow> Q (f w) w \<Longrightarrow> runs I (get_s f) w Q"
  by (simp add: runs_def get_s_def)

lemma runs_mod_s: "I (f w) \<Longrightarrow> Q () (f w) \<Longrightarrow> runs I (mod_s f) w Q"
  by (simp add: runs_def mod_s_def)

lemma runs_conseq: "runs I m w Q \<Longrightarrow> (\<And>r w'. I w' \<Longrightarrow> Q r w' \<Longrightarrow> R r w') \<Longrightarrow> runs I m w R"
  unfolding runs_def by blast

lemma runs_when: "(b \<Longrightarrow> runs I m w Q) \<Longrightarrow> (\<not> b \<Longrightarrow> I w \<and> Q () w) \<Longrightarrow> runs I (when_p b m) w Q"
  by (auto simp: when_p_def runs_def ret_def)

text \<open>What the components of the platform keep true between the steps of the orchestrator.\<close>

definition sound_world :: "('d, 'r, 'k) env \<Rightarrow> ('r \<Rightarrow> bool) \<Rightarrow> ('k \<Rightarrow> string \<Rightarrow> secret_spec option) \<Rightarrow> ('k \<Rightarrow> bool)
    \<Rightarrow> ('d, 'r, 'k) world \<Rightarrow> bool" where
  "sound_world en rinv sview sinv w \<longleftrightarrow> rinv (w_routing w) \<and> sinv (w_secrets w)
     \<and> (\<forall>n. readable (en_fernet en) (en_key en) (sview (w_secrets w) n)) \<and> node_keys (w_nodes w)"

text \<open>The addresses the routing table has for a service are those of its running replicas.\<close>

definition address :: "endpoint \<Rightarrow> string \<times> string \<times> int" where
  "address e = (ep_replica_id e, ep_host e, ep_port e)"

definition routed :: "('r \<Rightarrow> string \<Rightarrow> endpoint list) \<Rightarrow> ('d, 'r, 'k) world \<Rightarrow> service_state \<Rightarrow> bool" where
  "routed rview w s \<longleftrightarrow> map address (rview (w_routing w) (sp_name (ss_spec s))) = map address (endpoints_of s)"

lemma address_keep_health: "map address (keep_health old new) = map address new"
  by (simp add: keep_health_def Let_def address_def comp_def)

locale orchestrating =
  dk: docker_laws "en_docker en" cs nets + rt: routing "en_routing en" rview rinv +
  sec: secret_store "en_secrets en" sview sinv + pl: placement "en_select en"
  for en :: "('d, 'r, 'k) env" and cs nets rview rinv sview sinv +
  assumes fernet: "fernet_ok (en_fernet en)"
begin

abbreviation ok :: "('d, 'r, 'k) world \<Rightarrow> bool" where
  "ok \<equiv> sound_world en rinv sview sinv"

text \<open>Calls that only touch Docker's networks, the secrets and the random draws.\<close>

definition calm :: "('d, 'r, 'k) world \<Rightarrow> ('d, 'r, 'k) world \<Rightarrow> bool" where
  "calm w w' \<longleftrightarrow> frame w w' \<and> same_containers cs (w_docker w) (w_docker w') \<and> nets (w_docker w) \<subseteq> nets (w_docker w')"

lemma calm_refl [simp]: "calm w w"
  by (simp add: calm_def)

lemma calm_trans: "calm w w' \<Longrightarrow> calm w' w'' \<Longrightarrow> calm w w''"
  unfolding calm_def by (elim conjE, intro conjI) (erule (1) frame_trans, erule (1) same_containers_trans, erule (1) subset_trans)

lemma runs_docker:
  "m (w_docker w) = (Inr r, d) \<Longrightarrow> ok w \<Longrightarrow> Q r (w\<lparr>w_docker := d\<rparr>) \<Longrightarrow> runs ok (call_docker m) w Q"
  by (auto simp: runs_def call_docker_eq sound_world_def)

lemma ensure_network_calm:
  assumes "ok w"
  shows "runs ok (call_docker (ensure_network (en_docker en) n)) w (\<lambda>_ w'. calm w w' \<and> n \<in> nets (w_docker w'))"
proof -
  obtain d where d: "ensure_network (en_docker en) n (w_docker w) = (Inr (), d)" "cs d = cs (w_docker w)"
      "nets d = insert n (nets (w_docker w))" using dk.ensure_network_run by blast
  have "same_containers cs (w_docker w) d" using d(2) by (simp add: same_containers_def option.rel_refl)
  then show ?thesis using d assms by (intro runs_docker) (auto simp: calm_def frame_def)
qed

lemma connect_calm:
  assumes "ok w" "n \<in> nets (w_docker w)" "cs (w_docker w) x \<noteq> None"
  shows "runs ok (call_docker (connect_container_to_network (en_docker en) x n al)) w (\<lambda>_ w'. calm w w')"
proof -
  obtain d where "connect_container_to_network (en_docker en) x n al (w_docker w) = (Inr (), d)"
      "same_containers cs (w_docker w) d" "nets d = nets (w_docker w)" using dk.connect_run [OF assms(2,3)] by blast
  then show ?thesis using assms(1) by (intro runs_docker) (auto simp: calm_def frame_def)
qed

lemma calm_exists: "calm w w' \<Longrightarrow> cs (w_docker w') x \<noteq> None \<longleftrightarrow> cs (w_docker w) x \<noteq> None"
  by (rule same_containers_exists) (simp add: calm_def)

lemma calm_alive: "calm w w' \<Longrightarrow> alive cs (w_docker w') x \<longleftrightarrow> alive cs (w_docker w) x"
  by (rule same_containers_alive) (simp add: calm_def)

lemma connect_all_calm:
  "ok w \<Longrightarrow> n \<in> nets (w_docker w) \<Longrightarrow> \<forall>c \<in> set xs. cs (w_docker w) (cc_container_id c) \<noteq> None \<Longrightarrow>
    runs ok (for_p xs (\<lambda>c. call_docker (connect_container_to_network (en_docker en) (cc_container_id c) n (al c)))) w
      (\<lambda>_ w'. calm w w')"
proof (induction xs arbitrary: w)
  case (Cons c xs)
  show ?case unfolding for_p.simps
  proof (rule runs_bind [OF connect_calm [OF Cons.prems(1,2)]])
    show "cs (w_docker w) (cc_container_id c) \<noteq> None" using Cons.prems(3) by simp
    fix w' assume okw: "ok w'" and c: "calm w w'"
    have n: "n \<in> nets (w_docker w')" using c Cons.prems(2) by (auto simp: calm_def)
    have "\<forall>c \<in> set xs. cs (w_docker w') (cc_container_id c) \<noteq> None"
      unfolding calm_exists [OF c] using Cons.prems(3) by simp
    with okw n have "runs ok (for_p xs (\<lambda>c. call_docker (connect_container_to_network (en_docker en) (cc_container_id c) n (al c)))) w'
      (\<lambda>_ w''. calm w' w'')" by (intro Cons.IH)
    then show "runs ok (for_p xs (\<lambda>c. call_docker (connect_container_to_network (en_docker en) (cc_container_id c) n (al c)))) w'
      (\<lambda>_ w''. calm w w'')"
      by (rule runs_conseq) (use calm_trans [OF c] in blast)
  qed
qed (simp add: runs_ret)

lemma platform_containers_calm:
  assumes "ok w"
  shows "runs ok (platform_compose_containers en) w (\<lambda>xs w'. calm w w' \<and> (\<forall>c \<in> set xs. cs (w_docker w') (cc_container_id c) \<noteq> None))"
proof -
  obtain xs where "list_compose_containers (en_docker en) ''aws-light'' (w_docker w) = (Inr xs, w_docker w)"
      "\<forall>i \<in> set xs. cs (w_docker w) (cc_container_id i) \<noteq> None" using dk.list_compose_run by blast
  then show ?thesis unfolding platform_compose_containers_def using assms
    by (intro runs_bind [OF runs_docker, where Q = "\<lambda>ys w'. calm w w' \<and> (\<forall>i \<in> set ys. cs (w_docker w') (cc_container_id i) \<noteq> None)"] runs_ret)
      auto
qed

lemma ensure_service_network_calm:
  assumes "ok w" "\<forall>xs. pcs = Some xs \<longrightarrow> (\<forall>c \<in> set xs. cs (w_docker w) (cc_container_id c) \<noteq> None)"
  shows "runs ok (ensure_service_network en name pcs) w
    (\<lambda>n w'. calm w w' \<and> n = service_network_name name \<and> n \<in> nets (w_docker w'))"
proof -
  let ?n = "service_network_name name"
  show ?thesis unfolding ensure_service_network_def Let_def
  proof (rule runs_bind [OF ensure_network_calm [OF assms(1)]], elim conjE)
    fix w1 assume 1: "ok w1" "calm w w1" "?n \<in> nets (w_docker w1)"
    have "runs ok (case pcs of None \<Rightarrow> platform_compose_containers en | Some cs \<Rightarrow> ret cs) w1
        (\<lambda>xs w'. calm w1 w' \<and> (\<forall>c \<in> set xs. cs (w_docker w') (cc_container_id c) \<noteq> None))"
    proof (cases pcs)
      case None
      then show ?thesis using platform_containers_calm [OF 1(1)] by simp
    next
      case (Some xs)
      then have "\<forall>c \<in> set xs. cs (w_docker w1) (cc_container_id c) \<noteq> None"
        unfolding calm_exists [OF 1(2)] using assms(2) by blast
      then show ?thesis using Some 1(1) by (simp add: runs_ret)
    qed
    then show "runs ok (bind_p (case pcs of None \<Rightarrow> platform_compose_containers en | Some cs \<Rightarrow> ret cs) (\<lambda>containers.
        bind_p (for_p containers (\<lambda>c. call_docker (connect_container_to_network (en_docker en) (cc_container_id c) ?n [cc_service c])))
          (\<lambda>_. ret ?n))) w1 (\<lambda>n w'. calm w w' \<and> n = ?n \<and> n \<in> nets (w_docker w'))"
    proof (rule runs_bind, elim conjE)
      fix xs w2 assume 2: "ok w2" "calm w1 w2" "\<forall>c \<in> set xs. cs (w_docker w2) (cc_container_id c) \<noteq> None"
      have n2: "?n \<in> nets (w_docker w2)" using 1(3) 2(2) by (auto simp: calm_def)
      show "runs ok (bind_p (for_p xs (\<lambda>c. call_docker (connect_container_to_network (en_docker en) (cc_container_id c) ?n [cc_service c])))
          (\<lambda>_. ret ?n)) w2 (\<lambda>n w'. calm w w' \<and> n = ?n \<and> n \<in> nets (w_docker w'))"
        by (rule runs_bind [OF connect_all_calm [OF 2(1) n2 2(3)]], rule runs_ret)
          (use calm_trans [OF 1(2) calm_trans [OF 2(2)]] n2 in \<open>simp_all, meson calm_def subsetD\<close>)
    qed
  qed
qed

lemma runs_calm_bind:
  assumes "runs ok m w (\<lambda>_ w'. calm w w')" "\<And>r w'. ok w' \<Longrightarrow> calm w w' \<Longrightarrow> runs ok (f r) w' (\<lambda>_ w''. calm w' w'')"
  shows "runs ok (bind_p m f) w (\<lambda>_ w'. calm w w')"
proof (rule runs_bind [OF assms(1)])
  fix r w' assume a: "ok w'" "calm w w'"
  show "runs ok (f r) w' (\<lambda>_ w''. calm w w'')"
    by (rule runs_conseq [OF assms(2) [OF a]]) (rule calm_trans [OF a(2)])
qed

lemma runs_calm_ret: "ok w \<Longrightarrow> runs ok (ret a) w (\<lambda>_ w'. calm w w')"
  by (simp add: runs_ret)

lemma draw_calm: "ok w \<Longrightarrow> runs ok draw w (\<lambda>_ w'. calm w w')"
  by (auto simp: runs_def draw_def sound_world_def calm_def frame_def)

lemma secrets_calm:
  assumes "ok w" "m (w_secrets w) = (Inr r, k)" "sinv k" "\<forall>n. readable (en_fernet en) (en_key en) (sview k n)"
  shows "runs ok (call_secrets m) w (\<lambda>_ w'. calm w w')"
  using assms by (auto simp: runs_def call_secrets_eq sound_world_def calm_def frame_def)

lemma stored_or_fresh_calm:
  assumes "ok w"
  shows "runs ok (call_secrets (stored_or_fresh (en_fernet en) (en_key en) i fresh (en_secrets en) name)) w (\<lambda>_ w'. calm w w')"
proof -
  have a: "sinv (w_secrets w)" "\<forall>n. readable (en_fernet en) (en_key en) (sview (w_secrets w) n)"
    using assms by (auto simp: sound_world_def)
  obtain k v where k: "stored_or_fresh (en_fernet en) (en_key en) i fresh (en_secrets en) name (w_secrets w) = (Inr v, k)"
      "sinv k" "readable (en_fernet en) (en_key en) (sview k name)" "\<forall>n. n \<noteq> name \<longrightarrow> sview k n = sview (w_secrets w) n"
    using sec.stored_or_fresh_run [OF fernet a(1) a(2) [rule_format], of i fresh name] by blast
  have "\<forall>n. readable (en_fernet en) (en_key en) (sview k n)" using a(2) k(3,4) by metis
  then show ?thesis using k
    by (intro secrets_calm [where m = "stored_or_fresh (en_fernet en) (en_key en) i fresh (en_secrets en) name", OF assms])
qed

lemma inject_calm:
  assumes "ok w"
  shows "runs ok (call_secrets (inject_into_env (en_fernet en) (en_key en) (en_secrets en) refs)) w (\<lambda>_ w'. calm w w')"
proof -
  have a: "sinv (w_secrets w)" "\<forall>n. readable (en_fernet en) (en_key en) (sview (w_secrets w) n)"
    using assms by (auto simp: sound_world_def)
  obtain k e where k: "inject_into_env (en_fernet en) (en_key en) (en_secrets en) refs (w_secrets w) = (Inr e, k)"
      "sinv k" "sview k = sview (w_secrets w)"
    using sec.inject_loop_run [OF a(1), of refs "en_fernet en" "en_key en" "[]"] a(2)
    by (auto simp: inject_into_env_def)
  show ?thesis by (rule secrets_calm [where m = "inject_into_env (en_fernet en) (en_key en) (en_secrets en) refs",
    OF assms k(1,2)]) (simp add: k(3) a(2))
qed

lemma platform_env_calm: "ok w \<Longrightarrow> runs ok (platform_env en name) w (\<lambda>_ w'. calm w w')"
  unfolding platform_env_def service_token_def
  by (intro runs_calm_bind draw_calm stored_or_fresh_calm runs_calm_ret)

lemma database_env_loop_calm: "ok w \<Longrightarrow> runs ok (database_env_loop en dbs bs e) w (\<lambda>_ w'. calm w w')"
proof (induction bs arbitrary: w e)
  case (Cons b bs)
  have "runs ok (database_binding_env en db) w (\<lambda>_ w'. calm w w')" for db
    unfolding database_binding_env_def Let_def database_password_def
    by (intro runs_calm_bind draw_calm stored_or_fresh_calm runs_calm_ret Cons.prems)
  then show ?case using Cons.IH [OF Cons.prems]
    by (auto split: option.split intro!: runs_calm_bind Cons.IH)
qed (simp add: runs_calm_ret)

lemma database_env_calm: "ok w \<Longrightarrow> runs ok (database_env en s) w (\<lambda>_ w'. calm w w')"
  unfolding database_env_def
  by (rule runs_calm_bind) (auto intro: runs_get_s runs_calm_ret database_env_loop_calm split: option.split)

lemma replica_env_calm: "ok w \<Longrightarrow> runs ok (replica_env en s) w (\<lambda>_ w'. calm w w')"
  unfolding replica_env_def
  by (intro runs_calm_bind inject_calm platform_env_calm database_env_calm runs_calm_ret)

lemma attach_calm:
  assumes "ok w" "connect_bindings s = []"
  shows "runs ok (attach_service_replica_networks en s x) w (\<lambda>_ w'. calm w w')"
  unfolding attach_service_replica_networks_def
proof (rule runs_calm_bind)
  show "runs ok (ensure_service_network en (sp_name (ss_spec s)) None) w (\<lambda>_ w'. calm w w')"
    by (rule runs_conseq [OF ensure_service_network_calm [OF assms(1)]]) auto
qed (auto simp: assms(2) intro!: runs_calm_bind runs_get_s runs_calm_ret)

section \<open>Routes\<close>

lemma sync_routing_run:
  assumes "ok w"
  shows "runs ok (sync_routing_table en s) w (\<lambda>_ w'. routed rview w' s \<and> (\<exists>t. w' = w\<lparr>w_routing := t\<rparr>))"
proof -
  obtain t where "rt_update (en_routing en) (sp_name (ss_spec s)) (endpoints_of s) (w_routing w) = (Inr (), t)" "rinv t"
      "rview t = (rview (w_routing w))(sp_name (ss_spec s) := keep_health (rview (w_routing w) (sp_name (ss_spec s))) (endpoints_of s))"
    using rt.update_law [of "w_routing w"] assms unfolding sound_world_def by blast
  then show ?thesis using assms
    by (auto simp: runs_def sync_routing_table_def call_routing_eq routed_def address_keep_health sound_world_def)
qed

end

end
