(* ===== verification/Reconcile.thy ===== *)
theory Reconcile
  imports Orchestrator
begin

text \<open>
  What one pass of the orchestrator does to a service: the effect of starting, removing and
  re-observing replicas on its record, its routes, the books of the nodes and the containers, and
  from these the theorem on \<open>reconcile_service\<close>. The lemmas are proved once over components that
  keep their contracts (the locale \<open>orchestrating\<close>), which the stores, routing tables and placement
  policies of the code meet.
\<close>

section \<open>Views of the state\<close>

text \<open>The store holds a service with this specification, status and replicas.\<close>

definition carries :: "service_spec \<Rightarrow> resource_status \<Rightarrow> replica_state list \<Rightarrow> ('d, 'r, 'k) world \<Rightarrow> bool" where
  "carries sp st rs w \<longleftrightarrow> (\<exists>s. dict_get (w_services w) (sp_name sp) = Some s \<and> ss_spec s = sp \<and> ss_status s = st \<and> ss_replicas s = rs)"

text \<open>The routes of the service a store holds under a name.\<close>

definition routed_name :: "('r \<Rightarrow> string \<Rightarrow> endpoint list) \<Rightarrow> string \<Rightarrow> ('d, 'r, 'k) world \<Rightarrow> bool" where
  "routed_name rview name w \<longleftrightarrow> (\<forall>s. dict_get (w_services w) name = Some s \<longrightarrow> routed rview w s)"

definition knows :: "('d, 'r, 'k) world \<Rightarrow> replica_state list \<Rightarrow> bool" where
  "knows w rs \<longleftrightarrow> (\<forall>r \<in> set rs. dict_has (w_nodes w) (rs_node_id r))"

text \<open>Steps that forget no node and take back no complaint of the scheduler.\<close>

definition onward :: "('d, 'r, 'k) world \<Rightarrow> ('d, 'r, 'k) world \<Rightarrow> bool" where
  "onward w w' \<longleftrightarrow> (\<forall>k. dict_has (w_nodes w) k \<longrightarrow> dict_has (w_nodes w') k)
     \<and> events_of SCHEDULER_NO_CAPACITY w \<le> events_of SCHEDULER_NO_CAPACITY w'"

lemma onward_refl [simp]: "onward w w"
  by (simp add: onward_def)

lemma onward_trans: "onward w w' \<Longrightarrow> onward w' w'' \<Longrightarrow> onward w w''"
  by (auto simp: onward_def intro: le_trans)

lemma onward_knows: "onward w w' \<Longrightarrow> knows w rs \<Longrightarrow> knows w' rs"
  by (simp add: onward_def knows_def)

lemma frame_onward: "frame w w' \<Longrightarrow> onward w w'"
  by (simp add: frame_def onward_def events_of_def)

lemma frame_carries: "frame w w' \<Longrightarrow> carries sp st rs w' \<longleftrightarrow> carries sp st rs w"
  by (simp add: frame_def carries_def)

lemma frame_routed: "frame w w' \<Longrightarrow> routed rview w' s \<longleftrightarrow> routed rview w s"
  by (simp add: frame_def routed_def)

lemma publish_eq: "publish kind p w = (Inr (), w\<lparr>w_published := w_published w @ [\<lparr>ev_kind = kind, ev_timestamp = w_clock w, ev_payload = p\<rparr>]\<rparr>)"
  by (simp add: publish_def mod_s_def)

lemma emit_node_eq: "\<exists>evs. emit_node_updated nid w = (Inr (), w\<lparr>w_published := w_published w @ evs\<rparr>)
    \<and> (\<forall>e \<in> set evs. ev_kind e = NODE_UPDATED)"
proof (cases "get_node nid (w_nodes w)")
  case None
  then show ?thesis by (intro exI [of _ "[]"]) (simp add: emit_node_updated_def bind_p_def get_s_def ret_def)
next
  case (Some n)
  then show ?thesis by (simp add: emit_node_updated_def bind_p_def get_s_def publish_eq) (rule exI, rule conjI, rule refl, simp)
qed

lemma events_of_append: "events_of k (w\<lparr>w_published := w_published w @ evs\<rparr>)
    = events_of k w + length (filter (\<lambda>e. ev_kind e = k) evs)"
  by (simp add: events_of_def)


section \<open>One replica\<close>

text \<open>The common tail of \<open>remove_replica\<close> and \<open>register_replica\<close>: change the replicas of the stored
  service, route, announce. \<open>release\<close> is the common head of \<open>remove_replica\<close> and of the removal of a
  replica whose container has gone.\<close>

definition change_replicas :: "('d, 'r, 'k) env \<Rightarrow> string \<Rightarrow> (replica_state list \<Rightarrow> replica_state list)
    \<Rightarrow> event_kind \<Rightarrow> (string, json) pydict \<Rightarrow> (('d, 'r, 'k) world, unit) prog" where
  "change_replicas en n f kind p = (\<lambda>w. bind_p (case dict_get (w_services w) n of None \<Rightarrow> ret () | Some cur \<Rightarrow>
      (let u = cur\<lparr>ss_replicas := f (ss_replicas cur), ss_updated_at := w_clock w\<rparr> in
       bind_p (put_service n u) (\<lambda>_. sync_routing_table en u))) (\<lambda>_. publish kind p) w)"

definition release :: "('d, 'r, 'k) env \<Rightarrow> service_spec \<Rightarrow> replica_state \<Rightarrow> (('d, 'r, 'k) world, unit) prog" where
  "release en sp r = bind_p (call_docker (remove_container (en_docker en) (rs_container_id r))) (\<lambda>_.
      bind_p (mod_s (\<lambda>w. w\<lparr>w_nodes := deallocate (rs_node_id r) (rs_replica_id r) (sp_cpu_request sp)
        (float_of_int (sp_memory_request_mb sp)) (w_nodes w)\<rparr>)) (\<lambda>_. emit_node_updated (rs_node_id r)))"

lemma read_service: "bind_p (get_service n) (\<lambda>c. bind_p (get_s w_clock) (\<lambda>now. f c now))
    = (\<lambda>w. f (dict_get (w_services w) n) (w_clock w) w)"
  by (simp add: bind_p_def get_service_def get_s_def fun_eq_iff)

lemma remove_replica_eq:
  "remove_replica en s r = bind_p (release en (ss_spec s) r) (\<lambda>_.
     change_replicas en (sp_name (ss_spec s)) (filter (\<lambda>r'. rs_replica_id r' \<noteq> rs_replica_id r)) REPLICA_STOPPED
       [(''replica_id'', JStr (rs_replica_id r)), (''service_name'', JStr (sp_name (ss_spec s))),
        (''node_id'', JStr (rs_node_id r))])"
  by (simp add: remove_replica_def release_def change_replicas_def bind_p_assoc read_service Let_def)

context orchestrating
begin

text \<open>Writing a service back and publishing its routes.\<close>

lemma store_and_route_run:
  assumes "ok w" "ss_spec u = sp" "n = sp_name sp"
  shows "runs ok (bind_p (put_service n u) (\<lambda>_. sync_routing_table en u)) w
    (\<lambda>_ w'. \<exists>t. w' = w\<lparr>w_services := dict_put n u (w_services w), w_routing := t\<rparr>
       \<and> carries sp (ss_status u) (ss_replicas u) w' \<and> routed_name rview n w')"
proof -
  let ?w = "w\<lparr>w_services := dict_put n u (w_services w)\<rparr>"
  have "ok ?w" using assms(1) by (simp add: sound_world_def)
  from sync_routing_run [OF this, of u] have "runs ok (sync_routing_table en u) ?w
      (\<lambda>_ w'. \<exists>t. w' = ?w\<lparr>w_routing := t\<rparr> \<and> carries sp (ss_status u) (ss_replicas u) w' \<and> routed_name rview n w')"
    by (rule runs_conseq) (use assms(2,3) in \<open>auto simp: carries_def routed_name_def routed_def\<close>)
  then show ?thesis by (simp add: put_service_def runs_def bind_p_def mod_s_def)
qed

lemma change_replicas_run:
  assumes "ok w" "carries sp st rs w" "n = sp_name sp" "kind \<noteq> SCHEDULER_NO_CAPACITY"
  shows "runs ok (change_replicas en n f kind p) w
    (\<lambda>_ w'. carries sp st (f rs) w' \<and> routed_name rview n w' \<and> onward w w'
       \<and> events_of SCHEDULER_NO_CAPACITY w' = events_of SCHEDULER_NO_CAPACITY w \<and> w_docker w' = w_docker w)"
proof -
  obtain s where s: "dict_get (w_services w) n = Some s" "ss_spec s = sp" "ss_status s = st" "ss_replicas s = rs"
    using assms(2,3) by (auto simp: carries_def)
  define u where "u = s\<lparr>ss_replicas := f rs, ss_updated_at := w_clock w\<rparr>"
  have "runs ok (bind_p (bind_p (put_service n u) (\<lambda>_. sync_routing_table en u)) (\<lambda>_. publish kind p)) w
    (\<lambda>_ w'. carries sp st (f rs) w' \<and> routed_name rview n w' \<and> onward w w'
       \<and> events_of SCHEDULER_NO_CAPACITY w' = events_of SCHEDULER_NO_CAPACITY w \<and> w_docker w' = w_docker w)"
  proof (rule runs_bind [OF store_and_route_run [OF assms(1)]])
    show "ss_spec u = sp" "n = sp_name sp" using s(2) assms(3) by (simp_all add: u_def)
    fix r w' assume "ok w'" and "\<exists>t. w' = w\<lparr>w_services := dict_put n u (w_services w), w_routing := t\<rparr>
       \<and> carries sp (ss_status u) (ss_replicas u) w' \<and> routed_name rview n w'"
    then obtain t where t: "w' = w\<lparr>w_services := dict_put n u (w_services w), w_routing := t\<rparr>" "carries sp st (f rs) w'"
        "routed_name rview n w'" "ok w'" using s by (auto simp: u_def)
    show "runs ok (publish kind p) w' (\<lambda>_ w'. carries sp st (f rs) w' \<and> routed_name rview n w' \<and> onward w w'
       \<and> events_of SCHEDULER_NO_CAPACITY w' = events_of SCHEDULER_NO_CAPACITY w \<and> w_docker w' = w_docker w)"
      using t assms(4) by (auto simp: publish_def sound_world_def carries_def routed_name_def routed_def onward_def events_of_def
        intro!: runs_mod_s)
  qed
  then show ?thesis using s(1,4) by (simp add: runs_def change_replicas_def u_def Let_def)
qed

lemma deallocate_ok: "ok w \<Longrightarrow> ok (w\<lparr>w_nodes := deallocate nid rid c m (w_nodes w)\<rparr>)"
  by (simp add: sound_world_def deallocate_keys)

lemma ok_docker: "ok w \<Longrightarrow> ok (w\<lparr>w_docker := d\<rparr>)" and ok_published: "ok w \<Longrightarrow> ok (w\<lparr>w_published := evs\<rparr>)"
  by (simp_all add: sound_world_def)

text \<open>The containers after one of them was removed.\<close>

definition removed :: "string \<Rightarrow> 'd \<Rightarrow> 'd \<Rightarrow> bool" where
  "removed x d d' \<longleftrightarrow> nets d' = nets d
     \<and> cs d' = (case cs d x of None \<Rightarrow> cs d | Some c \<Rightarrow> drop_container (ct_id c) (cs d))"

lemma release_run:
  assumes "ok w"
  shows "runs ok (release en sp r) w
    (\<lambda>_ w'. onward w w' \<and> removed (rs_container_id r) (w_docker w) (w_docker w') \<and> w_services w' = w_services w
      \<and> w_routing w' = w_routing w \<and> events_of SCHEDULER_NO_CAPACITY w' = events_of SCHEDULER_NO_CAPACITY w)"
proof -
  let ?x = "rs_container_id r" and ?nid = "rs_node_id r"
  obtain d where d: "remove_container (en_docker en) ?x (w_docker w) = (Inr (), d)" "removed ?x (w_docker w) d"
    using dk.remove_container_run unfolding removed_def by blast
  let ?w = "w\<lparr>w_docker := d, w_nodes := deallocate ?nid (rs_replica_id r) (sp_cpu_request sp)
    (float_of_int (sp_memory_request_mb sp)) (w_nodes w)\<rparr>"
  obtain evs where e: "emit_node_updated ?nid ?w = (Inr (), ?w\<lparr>w_published := w_published ?w @ evs\<rparr>)"
      "\<forall>e \<in> set evs. ev_kind e = NODE_UPDATED" using emit_node_eq by blast
  have "ok (?w\<lparr>w_published := w_published ?w @ evs\<rparr>)"
    using deallocate_ok [OF ok_docker [OF assms, of d]] by (intro ok_published) simp
  moreover have "filter (\<lambda>e. ev_kind e = SCHEDULER_NO_CAPACITY) evs = []" using e(2) by (auto simp: filter_empty_conv)
  ultimately show ?thesis using d e(1)
    by (simp add: release_def runs_def bind_p_def call_docker_eq mod_s_def onward_def deallocate_keys events_of_def)
qed

lemma remove_replica_run:
  assumes "ok w" "carries (ss_spec s) st rs w"
  shows "runs ok (remove_replica en s r) w (\<lambda>_ w'.
    carries (ss_spec s) st (filter (\<lambda>r'. rs_replica_id r' \<noteq> rs_replica_id r) rs) w' \<and> routed_name rview (sp_name (ss_spec s)) w'
    \<and> onward w w' \<and> events_of SCHEDULER_NO_CAPACITY w' = events_of SCHEDULER_NO_CAPACITY w
    \<and> removed (rs_container_id r) (w_docker w) (w_docker w'))"
  unfolding remove_replica_eq
proof (rule runs_bind [OF release_run [OF assms(1)]], elim conjE)
  fix w1 assume 1: "ok w1" "onward w w1" "removed (rs_container_id r) (w_docker w) (w_docker w1)" "w_services w1 = w_services w"
    "events_of SCHEDULER_NO_CAPACITY w1 = events_of SCHEDULER_NO_CAPACITY w"
  have "carries (ss_spec s) st rs w1" using assms(2) 1(4) by (simp add: carries_def)
  from change_replicas_run [OF 1(1) this refl]
  show "runs ok (change_replicas en (sp_name (ss_spec s)) (filter (\<lambda>r'. rs_replica_id r' \<noteq> rs_replica_id r)) REPLICA_STOPPED
       [(''replica_id'', JStr (rs_replica_id r)), (''service_name'', JStr (sp_name (ss_spec s))),
        (''node_id'', JStr (rs_node_id r))]) w1 (\<lambda>_ w'.
    carries (ss_spec s) st (filter (\<lambda>r'. rs_replica_id r' \<noteq> rs_replica_id r) rs) w' \<and> routed_name rview (sp_name (ss_spec s)) w'
    \<and> onward w w' \<and> events_of SCHEDULER_NO_CAPACITY w' = events_of SCHEDULER_NO_CAPACITY w
    \<and> removed (rs_container_id r) (w_docker w) (w_docker w'))"
    by (rule runs_conseq) (use 1 onward_trans in \<open>auto\<close>)
qed

end

definition started_replica :: "service_spec \<Rightarrow> string \<Rightarrow> string \<Rightarrow> string \<Rightarrow> string \<Rightarrow> timestamp \<Rightarrow> replica_state" where
  "started_replica spec node_id replica_id container_id container_ip now =
     \<lparr>rs_replica_id = replica_id, rs_container_id = container_id, rs_node_id = node_id,
      rs_status = RUNNING, rs_container_ip = container_ip, rs_image = sp_image spec,
      rs_cpu_percent = 0, rs_memory_mb = 0, rs_started_at = now\<rparr>"

lemma register_replica_eq:
  "register_replica en s nid rid cid ip =
     bind_p (attach_service_replica_networks en s cid) (\<lambda>_.
     bind_p (call_nodes (allocate nid rid (sp_cpu_request (ss_spec s)) (float_of_int (sp_memory_request_mb (ss_spec s))))) (\<lambda>_.
     bind_p (emit_node_updated nid) (\<lambda>_.
     (\<lambda>w. change_replicas en (sp_name (ss_spec s)) (\<lambda>rs. rs @ [started_replica (ss_spec s) nid rid cid ip (w_clock w)])
       REPLICA_STARTED [(''replica_id'', JStr rid), (''service_name'', JStr (sp_name (ss_spec s))),
        (''node_id'', JStr nid), (''container_ip'', JStr ip)] w))))"
proof -
  have "bind_p (get_s w_clock) (\<lambda>now. bind_p (get_service n) (\<lambda>c. f c now)) = (\<lambda>w. f (dict_get (w_services w) n) (w_clock w) w)"
    for n and f :: "service_state option \<Rightarrow> timestamp \<Rightarrow> (('a, 'b, 'c) world, unit) prog"
    by (simp add: bind_p_def get_service_def get_s_def fun_eq_iff)
  then show ?thesis
    by (simp add: register_replica_def change_replicas_def started_replica_def Let_def)
qed

text \<open>What an attempt to start replicas may change: some running replicas of the current image are
  added at the end, at most \<open>k\<close> of them.\<close>

definition grown :: "('r \<Rightarrow> string \<Rightarrow> endpoint list) \<Rightarrow> bool \<Rightarrow> nat \<Rightarrow> service_spec \<Rightarrow> resource_status \<Rightarrow> replica_state list
    \<Rightarrow> ('d, 'r, 'k) world \<Rightarrow> ('d, 'r, 'k) world \<Rightarrow> bool" where
  "grown rview starts k sp st rs w w' \<longleftrightarrow> (\<exists>new. carries sp st (rs @ new) w' \<and> length new \<le> k
     \<and> (\<forall>r \<in> set new. rs_status r = RUNNING \<and> rs_image r = sp_image sp)
     \<and> (starts \<longrightarrow> events_of SCHEDULER_NO_CAPACITY w + k \<le> events_of SCHEDULER_NO_CAPACITY w' + length new)
     \<and> onward w w' \<and> (routed_name rview (sp_name sp) w \<longrightarrow> routed_name rview (sp_name sp) w'))"

lemma carries_fun: "carries sp st rs w \<Longrightarrow> carries sp st rs' w \<Longrightarrow> rs = rs'"
  by (auto simp: carries_def)

lemma grown_trans1:
  assumes "carries sp st (rs @ n1) w1" "grown rview starts k' sp st (rs @ n1) w1 w2" "grown rview starts k sp st rs w w1"
  shows "grown rview starts (k + k') sp st rs w w2"
proof -
  obtain new where n: "carries sp st (rs @ new) w1" "length new \<le> k" "\<forall>r \<in> set new. rs_status r = RUNNING \<and> rs_image r = sp_image sp"
      "starts \<longrightarrow> events_of SCHEDULER_NO_CAPACITY w + k \<le> events_of SCHEDULER_NO_CAPACITY w1 + length new" "onward w w1"
      "routed_name rview (sp_name sp) w \<longrightarrow> routed_name rview (sp_name sp) w1"
    using assms(3) by (auto simp: grown_def)
  obtain new' where n': "carries sp st ((rs @ new) @ new') w2" "length new' \<le> k'" "\<forall>r \<in> set new'. rs_status r = RUNNING \<and> rs_image r = sp_image sp"
      "starts \<longrightarrow> events_of SCHEDULER_NO_CAPACITY w1 + k' \<le> events_of SCHEDULER_NO_CAPACITY w2 + length new'" "onward w1 w2"
      "routed_name rview (sp_name sp) w1 \<longrightarrow> routed_name rview (sp_name sp) w2"
    using assms(2) carries_fun [OF n(1) assms(1)] by (auto simp: grown_def)
  show ?thesis unfolding grown_def
    by (rule exI [of _ "new @ new'"]) (use n n' onward_trans in \<open>auto\<close>)
qed

lemma grown_start:
  "grown rview starts k sp st rs w1 w' \<Longrightarrow> onward w w1 \<Longrightarrow>
     (routed_name rview (sp_name sp) w \<Longrightarrow> routed_name rview (sp_name sp) w1) \<Longrightarrow> grown rview starts k sp st rs w w'"
  unfolding grown_def onward_def by (elim exE, rule exI) (auto intro: le_trans)

lemma grown_none:
  "carries sp st rs w' \<Longrightarrow> onward w w' \<Longrightarrow> (routed_name rview (sp_name sp) w \<Longrightarrow> routed_name rview (sp_name sp) w') \<Longrightarrow>
     (starts \<Longrightarrow> events_of SCHEDULER_NO_CAPACITY w + k \<le> events_of SCHEDULER_NO_CAPACITY w') \<Longrightarrow> grown rview starts k sp st rs w w'"
  unfolding grown_def by (rule exI [of _ "[]"]) simp

context orchestrating
begin

lemma register_replica_run:
  assumes "ok w" "carries (ss_spec s) st rs w" "dict_has (w_nodes w) nid" "connect_bindings s = []"
  shows "runs ok (register_replica en s nid rid cid ip) w (\<lambda>_ w'. grown rview b 1 (ss_spec s) st rs w w')"
  unfolding register_replica_eq
proof (rule runs_bind [OF attach_calm [OF assms(1,4)]])
  fix w1 assume 1: "ok w1" "calm w w1"
  have f: "frame w w1" using 1(2) by (simp add: calm_def)
  have "node_keys (w_nodes w1)" "dict_has (w_nodes w1) nid" using 1 f assms(3) by (simp_all add: sound_world_def frame_def)
  from allocate_run [OF this, of rid "sp_cpu_request (ss_spec s)" "float_of_int (sp_memory_request_mb (ss_spec s))"]
  obtain ns where ns: "allocate nid rid (sp_cpu_request (ss_spec s)) (float_of_int (sp_memory_request_mb (ss_spec s))) (w_nodes w1)
      = (Inr (), ns)" "node_keys ns" "\<forall>k. dict_has ns k \<longleftrightarrow> dict_has (w_nodes w1) k" by blast
  let ?w = "w1\<lparr>w_nodes := ns\<rparr>"
  obtain evs where e: "emit_node_updated nid ?w = (Inr (), ?w\<lparr>w_published := w_published ?w @ evs\<rparr>)"
      "\<forall>e \<in> set evs. ev_kind e = NODE_UPDATED" using emit_node_eq by blast
  let ?w2 = "?w\<lparr>w_published := w_published ?w @ evs\<rparr>"
  have nc: "filter (\<lambda>e. ev_kind e = SCHEDULER_NO_CAPACITY) evs = []" using e(2) by (auto simp: filter_empty_conv)
  have "ok ?w2" using 1(1) ns(2) by (simp add: sound_world_def)
  moreover have "carries (ss_spec s) st rs ?w2" using assms(2) f by (simp add: carries_def frame_def)
  ultimately have "runs ok (change_replicas en (sp_name (ss_spec s)) (\<lambda>rs. rs @ [started_replica (ss_spec s) nid rid cid ip (w_clock ?w2)])
       REPLICA_STARTED [(''replica_id'', JStr rid), (''service_name'', JStr (sp_name (ss_spec s))),
        (''node_id'', JStr nid), (''container_ip'', JStr ip)]) ?w2 (\<lambda>_ w'. grown rview b 1 (ss_spec s) st rs w w')"
  proof (rule runs_conseq [OF change_replicas_run])
    fix w' assume a: "carries (ss_spec s) st (rs @ [started_replica (ss_spec s) nid rid cid ip (w_clock ?w2)]) w'
        \<and> routed_name rview (sp_name (ss_spec s)) w' \<and> onward ?w2 w'
        \<and> events_of SCHEDULER_NO_CAPACITY w' = events_of SCHEDULER_NO_CAPACITY ?w2 \<and> w_docker w' = w_docker ?w2"
    have "onward w ?w2" using f ns(3) by (simp add: onward_def events_of_def frame_def)
    then show "grown rview b 1 (ss_spec s) st rs w w'" unfolding grown_def
      using a f nc by (intro exI [of _ "[started_replica (ss_spec s) nid rid cid ip (w_clock ?w2)]"])
        (auto simp: started_replica_def events_of_def frame_def intro: onward_trans)
  qed simp_all
  then show "runs ok (bind_p (call_nodes (allocate nid rid (sp_cpu_request (ss_spec s)) (float_of_int (sp_memory_request_mb (ss_spec s))))) (\<lambda>_.
     bind_p (emit_node_updated nid) (\<lambda>_.
     (\<lambda>w. change_replicas en (sp_name (ss_spec s)) (\<lambda>rs. rs @ [started_replica (ss_spec s) nid rid cid ip (w_clock w)])
       REPLICA_STARTED [(''replica_id'', JStr rid), (''service_name'', JStr (sp_name (ss_spec s))),
        (''node_id'', JStr nid), (''container_ip'', JStr ip)] w)))) w1 (\<lambda>_ w'. grown rview b 1 (ss_spec s) st rs w w')"
    using e(1) by (simp add: runs_def bind_p_def call_nodes_eq [of "allocate nid rid (sp_cpu_request (ss_spec s)) (float_of_int (sp_memory_request_mb (ss_spec s)))", OF ns(1)])
qed

text \<open>The container of a new replica: when it starts, the replica is registered.\<close>

lemma start_container_run:
  fixes sp :: service_spec
  assumes "ok w" "carries (ss_spec s) st rs w" "dict_has (w_nodes w) nid" "connect_bindings s = []"
    and starts: "b \<Longrightarrow> \<forall>opts d. \<exists>cid d'. dd_run (en_docker en) opts d = (Inr cid, d')"
  shows "runs ok (bind_p (try_p (bind_p (call_docker (create_container (en_docker en) (en_cfg en) img nm env q mem net labels vols))
        (\<lambda>c. ret (Some c))) (\<lambda>_. ret None)) (\<lambda>created. case created of None \<Rightarrow> ret ()
      | Some (cid, ip) \<Rightarrow> register_replica en s nid rid cid ip)) w (\<lambda>_ w'. grown rview b 1 (ss_spec s) st rs w w')"
proof -
  obtain r d where r: "create_container (en_docker en) (en_cfg en) img nm env q mem net labels vols (w_docker w) = (r, d)"
    by fastforce
  let ?w = "w\<lparr>w_docker := d\<rparr>"
  have f: "frame w ?w" by (simp add: frame_def)
  have okw: "ok ?w" by (rule ok_docker [OF assms(1)])
  have c: "carries (ss_spec s) st rs ?w" using assms(2) by (simp add: frame_carries [OF f])
  show ?thesis
  proof (cases r)
    case (Inl e)
    have "\<not> b"
    proof
      assume b
      then have "\<exists>cid d'. dd_run (en_docker en) opts d = (Inr cid, d')" for opts d using starts by blast
      from dk.create_container_starts [OF this, of "en_cfg en" img nm env q mem net labels vols "w_docker w"]
      show False using r Inl by auto
    qed
    then have "grown rview b 1 (ss_spec s) st rs w ?w"
      by (intro grown_none c frame_onward f) (simp_all add: routed_name_def routed_def)
    then show ?thesis using r Inl okw by (simp add: runs_def bind_p_def try_p_def call_docker_def ret_def)
  next
    case (Inr x)
    obtain cid ip where x: "x = (cid, ip)" by (cases x)
    have "runs ok (register_replica en s nid rid cid ip) ?w (\<lambda>_ w'. grown rview b 1 (ss_spec s) st rs w w')"
      by (rule runs_conseq [OF register_replica_run [OF okw c _ assms(4)]])
        (use assms(3) frame_onward [OF f] in \<open>auto intro: grown_start simp: routed_name_def routed_def\<close>)
    then show ?thesis using r Inr x by (simp add: runs_def bind_p_def try_p_def call_docker_def ret_def)
  qed
qed

lemma create_replica_run:
  assumes "ok w" "carries (ss_spec s) st rs w" "connect_bindings s = []"
    and starts: "b \<Longrightarrow> \<forall>opts d. \<exists>cid d'. dd_run (en_docker en) opts d = (Inr cid, d')"
  shows "runs ok (create_replica en s) w (\<lambda>_ w'. grown rview b 1 (ss_spec s) st rs w w')"
proof (cases "en_select en (get_all_nodes (w_nodes w)) (sp_cpu_request (ss_spec s)) (of_int (sp_memory_request_mb (ss_spec s)))")
  case (Inl e)
  then have e: "e = SchedulingError" using pl.select_none by blast
  have "runs ok (publish SCHEDULER_NO_CAPACITY p) w (\<lambda>_ w'. grown rview b 1 (ss_spec s) st rs w w')" for p
    using assms(1,2) unfolding publish_def
    by (intro runs_mod_s grown_none) (auto simp: sound_world_def carries_def onward_def events_of_def routed_name_def routed_def)
  then show ?thesis using Inl e by (simp add: create_replica_def Let_def runs_def bind_p_def get_s_def)
next
  case (Inr n)
  let ?nid = "nsp_node_id (nd_spec n)"
  have "n \<in> set (get_all_nodes (w_nodes w))" using Inr pl.select_fits by blast
  then have n: "dict_has (w_nodes w) ?nid" using assms(1)
    by (force simp: get_all_nodes_def sound_world_def node_keys_def dict_has_iff)
  have "runs ok (bind_p (publish SCHEDULER_SELECTED ((''service_name'', JStr (sp_name (ss_spec s))) # (''node_id'', JStr ?nid)
            # scheduling_payload en (ss_spec s) (get_all_nodes (w_nodes w)))) (\<lambda>_.
         bind_p draw (\<lambda>i.
         (let replica_id = en_uuid en i; container_name = ''aws-light-'' @ sp_name (ss_spec s) @ ''-'' @ take 8 replica_id in
         bind_p (replica_env en s) (\<lambda>merged_env.
         bind_p (ensure_service_network en (sp_name (ss_spec s)) None) (\<lambda>service_network.
         bind_p (try_p (bind_p (call_docker (create_container (en_docker en) (en_cfg en) (sp_image (ss_spec s)) container_name
               merged_env (sp_cpu_request (ss_spec s)) (sp_memory_request_mb (ss_spec s)) service_network
               (replica_labels (ss_spec s) replica_id ?nid) None)) (\<lambda>c. ret (Some c)))
             (\<lambda>_. ret None)) (\<lambda>created. case created of
           None \<Rightarrow> ret ()
         | Some (container_id, container_ip) \<Rightarrow>
             register_replica en s ?nid replica_id container_id container_ip))))))) w
      (\<lambda>_ w'. grown rview b 1 (ss_spec s) st rs w w')" (is "runs ok (bind_p ?pub ?rest) w ?Q")
  proof (rule runs_bind [where Q = "\<lambda>_ w'. onward w w' \<and> w_services w' = w_services w \<and> w_routing w' = w_routing w \<and> dict_has (w_nodes w') ?nid"])
    show "runs ok ?pub w (\<lambda>_ w'. onward w w' \<and> w_services w' = w_services w \<and> w_routing w' = w_routing w \<and> dict_has (w_nodes w') ?nid)"
      using assms(1) n unfolding publish_def by (intro runs_mod_s) (auto simp: onward_def events_of_def sound_world_def)
    fix w1 assume okw: "ok w1" and 1: "onward w w1 \<and> w_services w1 = w_services w \<and> w_routing w1 = w_routing w \<and> dict_has (w_nodes w1) ?nid"
    have start: "runs ok (bind_p (try_p (bind_p (call_docker (create_container (en_docker en) (en_cfg en) (sp_image (ss_spec s)) nm
               env (sp_cpu_request (ss_spec s)) (sp_memory_request_mb (ss_spec s)) net labels None)) (\<lambda>c. ret (Some c)))
             (\<lambda>_. ret None)) (\<lambda>created. case created of None \<Rightarrow> ret ()
         | Some (cid, ip) \<Rightarrow> register_replica en s ?nid rid cid ip)) w2 ?Q"
      if "ok w2" "calm w1 w2" for w2 nm env net labels rid
    proof -
      have f: "frame w1 w2" using that(2) by (simp add: calm_def)
      have c: "carries (ss_spec s) st rs w2" using assms(2) 1 f by (simp add: carries_def frame_def)
      have h: "dict_has (w_nodes w2) ?nid" using 1 f by (simp add: frame_def)
      show ?thesis
        by (rule runs_conseq [OF start_container_run [where b = b, OF that(1) c h assms(3) starts]], assumption, erule grown_start)
          (use 1 f frame_onward [OF f] onward_trans in \<open>auto simp: routed_name_def routed_def frame_def\<close>)
    qed
    show "runs ok (?rest ()) w1 ?Q"
      unfolding Let_def
      by (rule runs_bind [OF draw_calm [OF okw]], rule runs_bind [OF replica_env_calm], assumption,
          rule runs_bind [OF ensure_service_network_calm], assumption, simp, rule start)
        (auto intro: calm_trans)
  qed
  then show ?thesis using Inr by (simp add: create_replica_def Let_def runs_def bind_p_def get_s_def)
qed

lemma create_replicas_run:
  assumes "ok w" "carries (ss_spec s) st rs w" "connect_bindings s = []"
    and starts: "b \<Longrightarrow> \<forall>opts d. \<exists>cid d'. dd_run (en_docker en) opts d = (Inr cid, d')"
  shows "runs ok (repeat_p k (create_replica en s)) w (\<lambda>_ w'. grown rview b k (ss_spec s) st rs w w')"
  using assms(1,2)
proof (induction k arbitrary: w rs)
  case 0
  then show ?case by (auto intro!: runs_ret grown_none)
next
  case (Suc k)
  show ?case unfolding repeat_p.simps
  proof (rule runs_bind [OF create_replica_run [OF Suc.prems assms(3) starts]])
    fix w1 assume 1: "ok w1" "grown rview b 1 (ss_spec s) st rs w w1"
    then obtain new where n: "carries (ss_spec s) st (rs @ new) w1" by (auto simp: grown_def)
    have "grown rview b (Suc k) (ss_spec s) st rs w w2" if "grown rview b k (ss_spec s) st (rs @ new) w1 w2" for w2
      using grown_trans1 [OF n that 1(2)] by simp
    then show "runs ok (repeat_p k (create_replica en s)) w1 (\<lambda>_ w'. grown rview b (Suc k) (ss_spec s) st rs w w')"
      by (intro runs_conseq [OF Suc.IH [OF 1(1) n]])
  qed
qed

section \<open>Observing the replicas\<close>

text \<open>Steps that only observe: no route, no service and no complaint changes, and what runs goes on
  running.\<close>

definition watch :: "('d, 'r, 'k) world \<Rightarrow> ('d, 'r, 'k) world \<Rightarrow> bool" where
  "watch w w' \<longleftrightarrow> onward w w' \<and> events_of SCHEDULER_NO_CAPACITY w' = events_of SCHEDULER_NO_CAPACITY w
     \<and> w_services w' = w_services w \<and> w_routing w' = w_routing w \<and> nets (w_docker w) \<subseteq> nets (w_docker w')
     \<and> (\<forall>x. alive cs (w_docker w') x = alive cs (w_docker w) x)"

lemma watch_refl [simp]: "watch w w"
  by (simp add: watch_def)

lemma watch_trans: "watch w w' \<Longrightarrow> watch w' w'' \<Longrightarrow> watch w w''"
  unfolding watch_def by (auto intro: onward_trans)

lemma calm_watch: "calm w w' \<Longrightarrow> watch w w'"
  using frame_onward calm_alive [of w w'] by (auto simp: watch_def calm_def frame_def events_of_def onward_def)

text \<open>Clearing away a container that has stopped leaves every running one alone.\<close>

lemma removed_alive:
  assumes "removed x d d'" "\<not> alive cs d x"
  shows "alive cs d' y \<longleftrightarrow> alive cs d y"
proof (cases "cs d x")
  case (Some c)
  have "ct_id c' \<noteq> ct_id c" if "cs d y = Some c'" "ct_status c' = ''running''" for c'
    using dk.by_id [OF Some] dk.by_id [OF that(1)] assms(2) that(2) Some by (auto simp: alive_def)
  then show ?thesis using assms(1) Some
    by (auto simp: removed_def alive_def drop_container_def split: option.splits)
qed (use assms(1) in \<open>simp add: removed_def alive_def\<close>)

lemma lost_replica_run:
  assumes "ok w" "\<not> alive cs (w_docker w) (rs_container_id r)" "kind \<noteq> SCHEDULER_NO_CAPACITY"
  shows "runs ok (bind_p (release en sp r) (\<lambda>_. publish kind p)) w (\<lambda>_ w'. watch w w')"
proof (rule runs_bind [OF release_run [OF assms(1)]], elim conjE)
  fix w1 assume 1: "ok w1" "onward w w1" "removed (rs_container_id r) (w_docker w) (w_docker w1)" "w_services w1 = w_services w"
    "w_routing w1 = w_routing w" "events_of SCHEDULER_NO_CAPACITY w1 = events_of SCHEDULER_NO_CAPACITY w"
  show "runs ok (publish kind p) w1 (\<lambda>_ w'. watch w w')"
    unfolding publish_def
    by (rule runs_mod_s) (use 1 assms(3) removed_alive [OF 1(3) assms(2)] in
      \<open>auto simp: watch_def sound_world_def onward_def events_of_def removed_def\<close>)
qed

definition kept :: "('d, 'r, 'k) world \<Rightarrow> replica_state list \<Rightarrow> replica_state list" where
  "kept w rs = filter (\<lambda>r. rs_status r = RUNNING \<longrightarrow> alive cs (w_docker w) (rs_container_id r)) rs"

lemma kept_watch: "watch w w' \<Longrightarrow> kept w' rs = kept w rs"
  by (simp add: kept_def watch_def)

end

text \<open>A replica that may have got another address.\<close>

definition moved :: "replica_state \<Rightarrow> replica_state \<Rightarrow> bool" where
  "moved r r' \<longleftrightarrow> (\<exists>ip. r' = r\<lparr>rs_container_ip := ip\<rparr>)"

lemma moved_refl [simp]: "moved r r"
  unfolding moved_def by (rule exI [of _ "rs_container_ip r"]) simp

lemma moved_keeps: "moved r r' \<Longrightarrow> rs_replica_id r' = rs_replica_id r \<and> rs_status r' = rs_status r \<and> rs_image r' = rs_image r
    \<and> rs_container_id r' = rs_container_id r \<and> rs_node_id r' = rs_node_id r"
  by (auto simp: moved_def)

context orchestrating
begin

lemma known_replica_run:
  assumes "ok w" "alive cs (w_docker w) (rs_container_id r)" "service_network_name (sp_name sp) \<in> nets (w_docker w)"
    "dict_has (w_nodes w) (rs_node_id r)"
    and go: "\<And>r' c w'. ok w' \<Longrightarrow> watch w w' \<Longrightarrow> moved r r' \<Longrightarrow> (\<not> c \<Longrightarrow> r' = r) \<Longrightarrow> runs ok (f c r') w' Q"
  shows "runs ok (bind_p (call_docker (connect_container_to_network (en_docker en) (rs_container_id r) (service_network_name (sp_name sp)) [])) (\<lambda>_.
         bind_p (call_docker (get_container_ip (en_docker en) (rs_container_id r) (service_network_name (sp_name sp)))) (\<lambda>ip.
         (let mv = (ip \<noteq> [] \<and> rs_container_ip r \<noteq> ip);
              r' = (if mv then r\<lparr>rs_container_ip := ip\<rparr> else r) in
         bind_p (call_nodes (allocate (rs_node_id r) (rs_replica_id r) (sp_cpu_request sp)
            (float_of_int (sp_memory_request_mb sp)))) (\<lambda>_. f mv r'))))) w Q"
proof -
  let ?n = "service_network_name (sp_name sp)"
  have "cs (w_docker w) (rs_container_id r) \<noteq> None" using assms(2) by (auto simp: alive_def split: option.splits)
  from connect_calm [OF assms(1,3) this] show ?thesis
  proof (rule runs_bind)
    fix w1 assume 1: "ok w1" "calm w w1"
    obtain ip where ip: "get_container_ip (en_docker en) (rs_container_id r) ?n (w_docker w1) = (Inr ip, w_docker w1)"
      using dk.get_container_ip_run by blast
    have "node_keys (w_nodes w1)" "dict_has (w_nodes w1) (rs_node_id r)" using 1 assms(4)
      by (simp_all add: sound_world_def calm_def frame_def)
    from allocate_run [OF this, of "rs_replica_id r" "sp_cpu_request sp" "float_of_int (sp_memory_request_mb sp)"]
    obtain ns where ns: "allocate (rs_node_id r) (rs_replica_id r) (sp_cpu_request sp) (float_of_int (sp_memory_request_mb sp)) (w_nodes w1)
        = (Inr (), ns)" "node_keys ns" "\<forall>k. dict_has ns k \<longleftrightarrow> dict_has (w_nodes w1) k" by blast
    let ?w = "w1\<lparr>w_nodes := ns\<rparr>"
    have okw: "ok ?w" using 1(1) ns(2) by (simp add: sound_world_def)
    have "watch w1 ?w" using ns(3) by (simp add: watch_def onward_def events_of_def)
    with calm_watch [OF 1(2)] have w: "watch w ?w" by (rule watch_trans)
    have u: "w1\<lparr>w_docker := w_docker w1\<rparr> = w1" by simp
    define c where "c \<longleftrightarrow> ip \<noteq> [] \<and> rs_container_ip r \<noteq> ip"
    have "runs ok (f c (if c then r\<lparr>rs_container_ip := ip\<rparr> else r)) ?w Q"
      by (rule go [OF okw w]) (auto simp: moved_def [of r "r\<lparr>rs_container_ip := ip\<rparr>"])
    then show "runs ok (bind_p (call_docker (get_container_ip (en_docker en) (rs_container_id r) ?n)) (\<lambda>ip.
         (let mv = (ip \<noteq> [] \<and> rs_container_ip r \<noteq> ip);
              r' = (if mv then r\<lparr>rs_container_ip := ip\<rparr> else r) in
         bind_p (call_nodes (allocate (rs_node_id r) (rs_replica_id r) (sp_cpu_request sp)
            (float_of_int (sp_memory_request_mb sp)))) (\<lambda>_. f mv r')))) w1 Q"
      unfolding runs_def bind_p_def Let_def
      by (simp add: call_docker_eq [of "get_container_ip (en_docker en) (rs_container_id r) ?n", OF ip] u call_nodes_eq [of "allocate (rs_node_id r) (rs_replica_id r) (sp_cpu_request sp)
            (float_of_int (sp_memory_request_mb sp))", OF ns(1)] c_def)
  qed
qed

definition observed :: "replica_state list \<Rightarrow> ('d, 'r, 'k) world \<Rightarrow> bool \<times> replica_state list \<Rightarrow> ('d, 'r, 'k) world \<Rightarrow> bool" where
  "observed rs w res w' \<longleftrightarrow> list_all2 moved (kept w rs) (snd res) \<and> (\<not> fst res \<longrightarrow> snd res = rs) \<and> watch w w'"

lemma refresh_loop_run:
  assumes "ok w" "service_network_name (sp_name sp) \<in> nets (w_docker w)" "knows w rs"
  shows "runs ok (refresh_loop en sp rs ch acc) w (\<lambda>res w'. \<exists>zs. snd res = acc @ zs \<and> (ch \<longrightarrow> fst res) \<and> observed rs w (fst res, zs) w')"
  using assms
proof (induction rs arbitrary: w ch acc)
  case Nil
  then show ?case by (simp add: runs_ret observed_def kept_def watch_def)
next
  case (Cons r rs)
  let ?n = "service_network_name (sp_name sp)"
  let ?Q = "\<lambda>(res :: bool \<times> replica_state list) w'. \<exists>zs. snd res = acc @ zs \<and> (ch \<longrightarrow> fst res) \<and> observed (r # rs) w (fst res, zs) w'"
  have further: "runs ok (refresh_loop en sp rs ch' acc') w' (\<lambda>res w''. \<exists>zs. snd res = acc' @ zs \<and> (ch' \<longrightarrow> fst res) \<and> observed rs w' (fst res, zs) w'')"
    if "ok w'" "watch w w'" for w' ch' acc'
    by (rule Cons.IH) (use that Cons.prems in \<open>auto simp: watch_def knows_def onward_def\<close>)
  have obs: "observed (r # rs) w (c, r' # zs) w''"
    if "observed rs w' (c, zs) w''" "watch w w'" "moved r r'" "\<not> c \<longrightarrow> r' = r" "rs_status r = RUNNING \<longrightarrow> alive cs (w_docker w) (rs_container_id r)"
    for w' c r' zs w''
    using that kept_watch [OF that(2), of rs] by (auto simp: observed_def kept_def intro: watch_trans)
  show ?case
  proof (cases "rs_status r = RUNNING")
    case False
    have "runs ok (refresh_loop en sp rs ch (acc @ [r])) w ?Q"
      by (rule runs_conseq [OF further [OF Cons.prems(1) watch_refl]]) (use False obs [OF _ watch_refl moved_refl] in \<open>auto\<close>)
    then show ?thesis using False by simp
  next
    case True
    have a: "call_docker (container_is_running (en_docker en) (rs_container_id r)) w = (Inr (alive cs (w_docker w) (rs_container_id r)), w)"
      by (simp add: call_docker_eq [of "container_is_running (en_docker en) (rs_container_id r)", OF dk.is_running_run])
    show ?thesis
    proof (cases "alive cs (w_docker w) (rs_container_id r)")
      case dead: False
      have "runs ok (bind_p (bind_p (release en sp r) (\<lambda>_. publish REPLICA_FAILED p)) (\<lambda>_. refresh_loop en sp rs True acc)) w ?Q" for p
      proof (rule runs_bind [OF lost_replica_run [OF Cons.prems(1) dead]])
        fix w1 assume 1: "ok w1" "watch w w1"
        have "observed (r # rs) w (True, zs) w2" if "observed rs w1 (True, zs) w2" for zs w2
          using that 1(2) True dead kept_watch [OF 1(2), of rs] by (auto simp: observed_def kept_def intro: watch_trans)
        then show "runs ok (refresh_loop en sp rs True acc) w1 ?Q"
          by (intro runs_conseq [OF further [OF 1]]) auto
      qed simp
      then show ?thesis using True dead a by (simp add: runs_def bind_p_Inr release_def bind_p_assoc)
    next
      case live: True
      have "dict_has (w_nodes w) (rs_node_id r)" using Cons.prems(3) by (simp add: knows_def)
      from known_replica_run [OF Cons.prems(1) live Cons.prems(2) this, where f = "\<lambda>mv r'. refresh_loop en sp rs (ch \<or> mv) (acc @ [r'])" and Q = ?Q]
      have "runs ok (bind_p (call_docker (connect_container_to_network (en_docker en) (rs_container_id r) ?n [])) (\<lambda>_.
         bind_p (call_docker (get_container_ip (en_docker en) (rs_container_id r) ?n)) (\<lambda>ip.
         (let mv = (ip \<noteq> [] \<and> rs_container_ip r \<noteq> ip); r' = (if mv then r\<lparr>rs_container_ip := ip\<rparr> else r) in
         bind_p (call_nodes (allocate (rs_node_id r) (rs_replica_id r) (sp_cpu_request sp)
            (float_of_int (sp_memory_request_mb sp)))) (\<lambda>_. refresh_loop en sp rs (ch \<or> mv) (acc @ [r'])))))) w ?Q"
      proof this
        fix r' c w1 assume 1: "ok w1" "watch w w1" "moved r r'" and c: "\<not> c \<Longrightarrow> r' = r"
        show "runs ok (refresh_loop en sp rs (ch \<or> c) (acc @ [r'])) w1 ?Q"
          by (rule runs_conseq [OF further [OF 1(1,2)]]) (use 1 c live in \<open>auto intro!: obs\<close>)
      qed
      then show ?thesis using True live a unfolding runs_def by (simp add: bind_p_Inr Let_def)
    qed
  qed
qed

text \<open>\<open>refresh_observed_replicas\<close> on the service the store holds.\<close>

lemma refresh_observed_run:
  assumes "ok w" "service_network_name (sp_name (ss_spec s)) \<in> nets (w_docker w)" "knows w (ss_replicas s)"
    and stored: "dict_get (w_services w) (sp_name (ss_spec s)) = Some s"
  shows "runs ok (refresh_observed_replicas en s) w (\<lambda>s' w'. ss_spec s' = ss_spec s \<and> list_all2 moved (kept w (ss_replicas s)) (ss_replicas s')
    \<and> carries (ss_spec s) (ss_status s) (ss_replicas s') w' \<and> routed_name rview (sp_name (ss_spec s)) w'
    \<and> onward w w' \<and> events_of SCHEDULER_NO_CAPACITY w' = events_of SCHEDULER_NO_CAPACITY w)" (is "runs ok _ w ?Q")
  unfolding refresh_observed_replicas_def
proof (rule runs_bind [OF refresh_loop_run [OF assms(1-3)]])
  fix res w1 assume ok1: "ok w1" and "\<exists>zs. snd res = [] @ zs \<and> (False \<longrightarrow> fst res) \<and> observed (ss_replicas s) w (fst res, zs) w1"
  then obtain c zs where r: "res = (c, zs)" and 1: "list_all2 moved (kept w (ss_replicas s)) zs" "c \<or> zs = ss_replicas s" "watch w w1"
    by (cases res) (auto simp: observed_def)
  define s' where "s' = (if c then s\<lparr>ss_replicas := zs, ss_updated_at := w_clock w1\<rparr> else s)"
  have s': "ss_spec s' = ss_spec s" "ss_status s' = ss_status s" "ss_replicas s' = zs" using 1(2) by (auto simp: s'_def)
  define w2 where "w2 = (if c then w1\<lparr>w_services := dict_put (sp_name (ss_spec s)) s' (w_services w1)\<rparr> else w1)"
  have w2: "when_p c (put_service (sp_name (ss_spec s)) s') w1 = (Inr (), w2)"
    by (auto simp: w2_def when_p_def put_service_def mod_s_def ret_def)
  have ok2: "ok w2" using ok1 by (simp add: w2_def sound_world_def)
  have get: "dict_get (w_services w2) (sp_name (ss_spec s)) = Some s'"
    using stored 1(3) by (auto simp: w2_def s'_def watch_def)
  have "runs ok (bind_p (sync_routing_table en s') (\<lambda>_. ret s')) w2 ?Q"
    by (rule runs_bind [OF sync_routing_run [OF ok2]], rule runs_ret)
      (use get s' 1 in \<open>auto simp: carries_def routed_name_def w2_def watch_def onward_def events_of_def split: if_splits\<close>)
  then show "runs ok (case res of (changed, seen) \<Rightarrow> bind_p (get_s w_clock) (\<lambda>now.
     (let s' = (if changed then s\<lparr>ss_replicas := seen, ss_updated_at := now\<rparr> else s) in
      bind_p (when_p changed (put_service (sp_name (ss_spec s)) s')) (\<lambda>_.
      bind_p (sync_routing_table en s') (\<lambda>_. ret s'))))) w1 ?Q"
    unfolding r using w2 by (simp add: runs_def bind_p_def get_s_def s'_def Let_def)
qed

text \<open>Removing several replicas.\<close>

lemma remove_all_run:
  assumes "ok w" "carries (ss_spec s) st rs w"
  shows "runs ok (for_p xs (remove_replica en s)) w (\<lambda>_ w'.
    carries (ss_spec s) st (filter (\<lambda>r. rs_replica_id r \<notin> rs_replica_id ` set xs) rs) w'
    \<and> (routed_name rview (sp_name (ss_spec s)) w \<longrightarrow> routed_name rview (sp_name (ss_spec s)) w')
    \<and> onward w w' \<and> events_of SCHEDULER_NO_CAPACITY w' = events_of SCHEDULER_NO_CAPACITY w)"
  using assms
proof (induction xs arbitrary: w rs)
  case (Cons x xs)
  show ?case unfolding for_p.simps
  proof (rule runs_bind [OF remove_replica_run [OF Cons.prems]], elim conjE)
    fix w1 assume 1: "ok w1" "carries (ss_spec s) st (filter (\<lambda>r'. rs_replica_id r' \<noteq> rs_replica_id x) rs) w1"
      "routed_name rview (sp_name (ss_spec s)) w1" "onward w w1" "events_of SCHEDULER_NO_CAPACITY w1 = events_of SCHEDULER_NO_CAPACITY w"
    show "runs ok (for_p xs (remove_replica en s)) w1 (\<lambda>_ w'.
      carries (ss_spec s) st (filter (\<lambda>r. rs_replica_id r \<notin> rs_replica_id ` set (x # xs)) rs) w'
      \<and> (routed_name rview (sp_name (ss_spec s)) w \<longrightarrow> routed_name rview (sp_name (ss_spec s)) w')
      \<and> onward w w' \<and> events_of SCHEDULER_NO_CAPACITY w' = events_of SCHEDULER_NO_CAPACITY w)"
      by (rule runs_conseq [OF Cons.IH [OF 1(1,2)]])
        (use 1 in \<open>auto intro: onward_trans simp: conj_commute\<close>)
  qed
qed (simp add: runs_ret)

end

end
