(* ===== verification/Converge.thy ===== *)
theory Converge
  imports Reconcile
begin

section \<open>Reconciling a service\<close>

text \<open>The replicas of a service that may stay: running, with a living container, of the current image.\<close>

definition fit :: "('d \<Rightarrow> string \<Rightarrow> container option) \<Rightarrow> ('d, 'r, 'k) world \<Rightarrow> service_state \<Rightarrow> replica_state list" where
  "fit cs w s = filter (\<lambda>r. alive cs (w_docker w) (rs_container_id r) \<and> \<not> is_stale (ss_spec s) r) (running s)"

lemma moved_filter:
  "list_all2 moved xs ys \<Longrightarrow> (\<And>r r'. moved r r' \<Longrightarrow> P r' = P r) \<Longrightarrow>
    map rs_replica_id (filter P ys) = map rs_replica_id (filter P xs)"
proof (induction rule: list_all2_induct)
  case (Cons x xs y ys)
  then show ?case using moved_keeps [OF Cons(1)] by simp
qed simp

lemma distinct_ids_eq:
  "distinct (map rs_replica_id rs) \<Longrightarrow> set xs \<subseteq> set rs \<Longrightarrow> r \<in> set rs \<Longrightarrow>
    rs_replica_id r \<in> rs_replica_id ` set xs \<longleftrightarrow> r \<in> set xs"
  by (auto simp: distinct_map inj_on_def)

lemma filter_drop_ids:
  assumes "distinct (map rs_replica_id xs)"
  shows "filter (\<lambda>r. rs_replica_id r \<notin> rs_replica_id ` set (drop k xs)) xs = take k xs"
proof -
  let ?P = "\<lambda>r. rs_replica_id r \<notin> rs_replica_id ` set (drop k xs)"
  have "distinct (map rs_replica_id (take k xs @ drop k xs))" using assms by simp
  then have d: "rs_replica_id ` set (take k xs) \<inter> rs_replica_id ` set (drop k xs) = {}"
    unfolding map_append distinct_append by simp
  have "filter ?P (take k xs @ drop k xs) = filter ?P (take k xs) @ filter ?P (drop k xs)" by (rule filter_append)
  also have "filter ?P (take k xs) = take k xs" using d by (intro filter_True) blast
  also have "filter ?P (drop k xs) = []" by (intro filter_False) blast
  finally show ?thesis by simp
qed

context orchestrating
begin

text \<open>What is reached when the replicas \<open>base\<close> were running before the scaling step.\<close>

definition scaled :: "bool \<Rightarrow> int \<Rightarrow> service_spec \<Rightarrow> resource_status \<Rightarrow> replica_state list \<Rightarrow> ('d, 'r, 'k) world \<Rightarrow> ('d, 'r, 'k) world \<Rightarrow> bool" where
  "scaled b n sp st base w w' \<longleftrightarrow> (\<exists>fin new. carries sp st fin w' \<and> routed_name rview (sp_name sp) w'
     \<and> filter (\<lambda>r. rs_status r = RUNNING) fin = take (nat n) base @ new \<and> length new \<le> nat n - length base
     \<and> (\<forall>r \<in> set new. rs_image r = sp_image sp)
     \<and> (b \<longrightarrow> events_of SCHEDULER_NO_CAPACITY w' = events_of SCHEDULER_NO_CAPACITY w \<longrightarrow> length (take (nat n) base @ new) = nat n)
     \<and> events_of SCHEDULER_NO_CAPACITY w \<le> events_of SCHEDULER_NO_CAPACITY w')"

lemma scale_to_run:
  assumes "ok w" "carries (ss_spec s) st (ss_replicas s) w" "routed_name rview (sp_name (ss_spec s)) w"
    "connect_bindings s = []" "distinct (map rs_replica_id (ss_replicas s))" "0 \<le> n"
    and starts: "b \<Longrightarrow> \<forall>opts d. \<exists>cid d'. dd_run (en_docker en) opts d = (Inr cid, d')"
  shows "runs ok (scale_to en s (running s) n ch) w (\<lambda>_ w'. scaled b n (ss_spec s) st (running s) w w')"
proof -
  let ?k = "length (running s)"
  consider (less) "int ?k < n" | (more) "n < int ?k" | (equal) "n = int ?k" by linarith
  then show ?thesis
  proof cases
    case less
    have "runs ok (bind_p (repeat_p (nat (n - int ?k)) (create_replica en s)) (\<lambda>_. ret True)) w (\<lambda>_ w'. scaled b n (ss_spec s) st (running s) w w')"
    proof (rule runs_bind [OF create_replicas_run [where b = b, OF assms(1,2,4) starts]], assumption, rule runs_ret, assumption)
      fix w' assume "grown rview b (nat (n - int ?k)) (ss_spec s) st (ss_replicas s) w w'"
      then obtain new where g: "carries (ss_spec s) st (ss_replicas s @ new) w'" "length new \<le> nat (n - int ?k)"
          "\<forall>r \<in> set new. rs_status r = RUNNING \<and> rs_image r = sp_image (ss_spec s)"
          "b \<longrightarrow> events_of SCHEDULER_NO_CAPACITY w + nat (n - int ?k) \<le> events_of SCHEDULER_NO_CAPACITY w' + length new"
          "onward w w'" "routed_name rview (sp_name (ss_spec s)) w'"
        using assms(3) by (auto simp: grown_def)
      have t: "take (nat n) (running s) = running s" using less by simp
      have f: "filter (\<lambda>r. rs_status r = RUNNING) (ss_replicas s @ new) = running s @ new"
        using g(3) by (simp add: running_def)
      show "scaled b n (ss_spec s) st (running s) w w'" unfolding scaled_def t
        by (rule exI [of _ "ss_replicas s @ new"], rule exI [of _ new])
          (use g f less in \<open>auto simp: onward_def\<close>)
    qed
    then show ?thesis using less by (simp add: scale_to_def)
  next
    case more
    let ?x = "drop (nat n) (running s)"
    have sub: "set (running s) \<subseteq> set (ss_replicas s)" by (auto simp: running_def)
    have dr: "distinct (map rs_replica_id (running s))" using assms(5) by (simp add: running_def distinct_map_filter)
    have f: "filter (\<lambda>r. rs_status r = RUNNING) (filter (\<lambda>r. rs_replica_id r \<notin> rs_replica_id ` set ?x) (ss_replicas s)) = take (nat n) (running s)"
      using filter_drop_ids [OF dr, of "nat n"] by (simp add: running_def conj_commute)
    have "runs ok (bind_p (for_p ?x (remove_replica en s)) (\<lambda>_. ret (ch \<or> ?x \<noteq> []))) w (\<lambda>_ w'. scaled b n (ss_spec s) st (running s) w w')"
      by (rule runs_bind [OF remove_all_run [OF assms(1,2)]], rule runs_ret, assumption, unfold scaled_def,
          rule exI [of _ "filter (\<lambda>r. rs_replica_id r \<notin> rs_replica_id ` set ?x) (ss_replicas s)"], rule exI [of _ "[]"])
        (use f more assms(3,6) in \<open>auto\<close>)
    then show ?thesis using more assms(6) by (simp add: scale_to_def slice_from_def Let_def)
  next
    case equal
    have "scaled b n (ss_spec s) st (running s) w w" unfolding scaled_def
      by (rule exI [of _ "ss_replicas s"], rule exI [of _ "[]"]) (use assms(2,3) equal in \<open>simp add: running_def\<close>)
    then show ?thesis using assms(1) equal by (simp add: scale_to_def runs_ret)
  qed
qed

lemma stale_run:
  assumes "ok w" "ss_spec s = sp" "carries sp st (ss_replicas s) w" "routed_name rview (sp_name sp) w"
    "distinct (map rs_replica_id (ss_replicas s))" "connect_bindings s = []"
  shows "runs ok (bind_p (for_p (filter (is_stale sp) (running s)) (remove_replica en s)) (\<lambda>_.
     if filter (is_stale sp) (running s) \<noteq> [] then bind_p (get_service (sp_name sp)) (\<lambda>found. ret (case found of Some s' \<Rightarrow> s' | None \<Rightarrow> s))
     else ret s)) w (\<lambda>s1 w'. ss_spec s1 = sp \<and> carries sp st (ss_replicas s1) w' \<and> routed_name rview (sp_name sp) w'
        \<and> running s1 = filter (\<lambda>r. \<not> is_stale sp r) (running s) \<and> distinct (map rs_replica_id (ss_replicas s1))
        \<and> connect_bindings s1 = [] \<and> onward w w' \<and> events_of SCHEDULER_NO_CAPACITY w' = events_of SCHEDULER_NO_CAPACITY w)"
    (is "runs ok (bind_p (for_p ?stale _) _) w ?Q")
proof (rule runs_bind [OF remove_all_run [OF assms(1), of s st "ss_replicas s"]])
  show "carries (ss_spec s) st (ss_replicas s) w" using assms(2,3) by simp
  fix u :: unit and w1
  let ?P = "\<lambda>r. rs_replica_id r \<notin> rs_replica_id ` set ?stale"
  assume ok1: "ok w1" and "carries (ss_spec s) st (filter ?P (ss_replicas s)) w1
      \<and> (routed_name rview (sp_name (ss_spec s)) w \<longrightarrow> routed_name rview (sp_name (ss_spec s)) w1)
      \<and> onward w w1 \<and> events_of SCHEDULER_NO_CAPACITY w1 = events_of SCHEDULER_NO_CAPACITY w"
  then have 1: "carries sp st (filter ?P (ss_replicas s)) w1" "routed_name rview (sp_name sp) w1" "onward w w1"
      "events_of SCHEDULER_NO_CAPACITY w1 = events_of SCHEDULER_NO_CAPACITY w" using assms(2,4) by auto
  have sub: "set ?stale \<subseteq> set (ss_replicas s)" by (auto simp: running_def)
  have "?P r \<longleftrightarrow> \<not> is_stale sp r" if "r \<in> set (running s)" for r
    using distinct_ids_eq [OF assms(5) sub, of r] that by (auto simp: running_def)
  then have "filter ?P (running s) = filter (\<lambda>r. \<not> is_stale sp r) (running s)" by (intro filter_cong) auto
  then have run: "filter (\<lambda>r. rs_status r = RUNNING) (filter ?P (ss_replicas s)) = filter (\<lambda>r. \<not> is_stale sp r) (running s)"
    by (simp add: running_def conj_commute)
  show "runs ok (if ?stale \<noteq> [] then bind_p (get_service (sp_name sp)) (\<lambda>found. ret (case found of Some s' \<Rightarrow> s' | None \<Rightarrow> s))
     else ret s) w1 ?Q"
  proof (cases "?stale = []")
    case True
    have "filter (\<lambda>r. \<not> is_stale sp r) (running s) = running s" using True by (simp add: filter_empty_conv)
    then show ?thesis using True ok1 1 assms by (simp add: runs_ret)
  next
    case False
    obtain s1 where s1: "dict_get (w_services w1) (sp_name sp) = Some s1" "ss_spec s1 = sp" "ss_replicas s1 = filter ?P (ss_replicas s)"
      using 1(1) by (auto simp: carries_def)
    then have "running s1 = filter (\<lambda>r. \<not> is_stale sp r) (running s)" unfolding running_def [of s1] using run by simp
    moreover have "connect_bindings s1 = []" using assms(2,6) s1(2) by (simp add: connect_bindings_def)
    ultimately have "?Q s1 w1" using s1 1 assms(5) by (simp add: distinct_map_filter)
    then show ?thesis using False ok1 s1(1) by (simp add: runs_def get_service_def bind_p_def get_s_def ret_def)
  qed
qed

lemma update_status_run:
  assumes "ok w" "carries sp st rs w" "routed_name rview (sp_name sp) w"
  shows "runs ok (update_status en (sp_name sp) ch) w (\<lambda>_ w'. \<exists>s. dict_get (w_services w') (sp_name sp) = Some s \<and> ss_spec s = sp
    \<and> ss_replicas s = rs \<and> ss_status s = (if running s = [] then DEGRADED else RUNNING) \<and> routed rview w' s
    \<and> events_of SCHEDULER_NO_CAPACITY w' = events_of SCHEDULER_NO_CAPACITY w)"
proof -
  obtain s where s: "dict_get (w_services w) (sp_name sp) = Some s" "ss_spec s = sp" "ss_replicas s = rs"
    using assms(2) by (auto simp: carries_def)
  define st' where "st' = (if 1 \<le> length (running s) then RUNNING else DEGRADED)"
  define c where "c \<longleftrightarrow> ss_status s \<noteq> st'"
  define u where "u = (if c then s\<lparr>ss_status := st', ss_updated_at := w_clock w\<rparr> else s)"
  define w1 where "w1 = (if c then w\<lparr>w_services := dict_put (sp_name sp) u (w_services w)\<rparr> else w)"
  have "update_status en (sp_name sp) ch w = bind_p (when_p c (put_service (sp_name sp) u)) (\<lambda>_. when_p (c \<or> ch) (emit_service_updated en u)) w"
    by (simp only: update_status_def get_service_def bind_p_def get_s_def s(1) prod.case sum.case option.case Let_def c_def u_def st'_def)
  also have "\<dots> = when_p (c \<or> ch) (emit_service_updated en u) w1"
    by (simp add: bind_p_def when_p_def put_service_def mod_s_def ret_def w1_def)
  finally have eq: "update_status en (sp_name sp) ch w = when_p (c \<or> ch) (emit_service_updated en u) w1" .
  have g: "dict_get (w_services w1) (sp_name sp) = Some u" using s(1) by (simp add: w1_def u_def)
  have "running u = running s" by (simp add: running_def u_def)
  then have u: "ss_spec u = sp" "ss_replicas u = rs" "ss_status u = (if running u = [] then DEGRADED else RUNNING)"
    using s(2,3) by (auto simp: u_def c_def st'_def Suc_le_eq)
  have r: "routed rview w1 u" using assms(3) s(1) by (auto simp: routed_name_def routed_def endpoints_of_def w1_def u_def)
  have ok1: "ok w1" using assms(1) by (simp add: sound_world_def w1_def)
  let ?Q = "\<lambda>w'. \<exists>s. dict_get (w_services w') (sp_name sp) = Some s \<and> ss_spec s = sp
    \<and> ss_replicas s = rs \<and> ss_status s = (if running s = [] then DEGRADED else RUNNING) \<and> routed rview w' s
    \<and> events_of SCHEDULER_NO_CAPACITY w' = events_of SCHEDULER_NO_CAPACITY w"
  have "runs ok (when_p (c \<or> ch) (emit_service_updated en u)) w1 (\<lambda>_ w'. ?Q w')"
  proof (rule runs_when)
    show "runs ok (emit_service_updated en u) w1 (\<lambda>_ w'. ?Q w')"
      unfolding emit_service_updated_def publish_def
      by (rule runs_mod_s, use ok1 in \<open>simp add: sound_world_def\<close>, rule exI [of _ u])
        (use g u r in \<open>simp add: routed_def events_of_def w1_def\<close>)
    show "ok w1 \<and> ?Q w1" using ok1 g u r by (auto simp: events_of_def w1_def)
  qed
  then show ?thesis by (simp add: runs_def eq)
qed

text \<open>The scaling step and the status, from the replicas that were not stale.\<close>

definition settled :: "bool \<Rightarrow> int \<Rightarrow> service_spec \<Rightarrow> string list \<Rightarrow> nat \<Rightarrow> replica_state list \<Rightarrow> ('d, 'r, 'k) world \<Rightarrow> bool" where
  "settled b n sp rids e fin w' \<longleftrightarrow> (\<exists>new. map rs_replica_id (filter (\<lambda>r. rs_status r = RUNNING) fin) = take (nat n) rids @ new
     \<and> length new \<le> nat n - length rids)
     \<and> (b \<longrightarrow> events_of SCHEDULER_NO_CAPACITY w' = e \<longrightarrow> length (filter (\<lambda>r. rs_status r = RUNNING) fin) = nat n)
     \<and> (\<forall>r \<in> set (filter (\<lambda>r. rs_status r = RUNNING) fin). \<not> is_stale sp r)"

lemma scaled_settled:
  assumes "scaled b n sp st base w w'" "\<forall>r \<in> set base. \<not> is_stale sp r"
  shows "\<exists>fin. carries sp st fin w' \<and> routed_name rview (sp_name sp) w'
    \<and> settled b n sp (map rs_replica_id base) (events_of SCHEDULER_NO_CAPACITY w) fin w'"
proof -
  obtain fin new where f: "carries sp st fin w'" "routed_name rview (sp_name sp) w'"
      "filter (\<lambda>r. rs_status r = RUNNING) fin = take (nat n) base @ new" "length new \<le> nat n - length base"
      "\<forall>r \<in> set new. rs_image r = sp_image sp"
      "b \<longrightarrow> events_of SCHEDULER_NO_CAPACITY w' = events_of SCHEDULER_NO_CAPACITY w \<longrightarrow> length (take (nat n) base @ new) = nat n"
    using assms(1) unfolding scaled_def by blast
  have "\<forall>r \<in> set (take (nat n) base @ new). \<not> is_stale sp r"
    using f(5) assms(2) by (auto simp: is_stale_def dest!: in_set_takeD)
  moreover have "map rs_replica_id (take (nat n) base @ new) = take (nat n) (map rs_replica_id base) @ map rs_replica_id new"
      "length (map rs_replica_id new) \<le> nat n - length (map rs_replica_id base)"
    using f(4) by (simp_all add: take_map)
  ultimately show ?thesis unfolding settled_def using f(1,2,6) unfolding f(3) [symmetric] by blast
qed

definition reached :: "bool \<Rightarrow> service_spec \<Rightarrow> string list \<Rightarrow> nat \<Rightarrow> ('d, 'r, 'k) world \<Rightarrow> bool" where
  "reached b sp rids e w' \<longleftrightarrow> (\<exists>svc. dict_get (w_services w') (sp_name sp) = Some svc \<and> ss_spec svc = sp
     \<and> settled b (sp_replicas sp) sp rids e (ss_replicas svc) w'
     \<and> ss_status svc = (if running svc = [] then DEGRADED else RUNNING) \<and> routed rview w' svc)"

lemma scale_and_update_run:
  assumes "ok w" "ss_spec s = sp" "carries sp st (ss_replicas s) w" "routed_name rview (sp_name sp) w"
    "connect_bindings s = []" "distinct (map rs_replica_id (ss_replicas s))" "0 \<le> sp_replicas sp"
    "\<forall>r \<in> set (running s). \<not> is_stale sp r"
    and starts: "b \<Longrightarrow> \<forall>opts d. \<exists>cid d'. dd_run (en_docker en) opts d = (Inr cid, d')"
  shows "runs ok (bind_p (scale_to en s (running s) (sp_replicas sp) ch) (update_status en (sp_name sp))) w
    (\<lambda>_ w'. reached b sp (map rs_replica_id (running s)) (events_of SCHEDULER_NO_CAPACITY w) w')"
proof (rule runs_bind [OF scale_to_run [where b = b and st = st, OF assms(1) _ _ assms(5,6,7) starts]])
  show "carries (ss_spec s) st (ss_replicas s) w" "routed_name rview (sp_name (ss_spec s)) w"
    using assms(2-4) by simp_all
  fix ch' w1 assume 1: "ok w1" "scaled b (sp_replicas sp) (ss_spec s) st (running s) w w1"
  obtain fin where f: "carries sp st fin w1" "routed_name rview (sp_name sp) w1"
      "settled b (sp_replicas sp) sp (map rs_replica_id (running s)) (events_of SCHEDULER_NO_CAPACITY w) fin w1"
    using scaled_settled [OF 1(2) [unfolded assms(2)] assms(8)] by blast
  show "runs ok (update_status en (sp_name sp) ch') w1
      (\<lambda>_ w'. reached b sp (map rs_replica_id (running s)) (events_of SCHEDULER_NO_CAPACITY w) w')"
  proof (rule runs_conseq [OF update_status_run [OF 1(1) f(1,2)]], elim exE conjE)
    fix w2 :: "('d, 'r, 'k) world" and svc :: service_state
    assume 2: "dict_get (w_services w2) (sp_name sp) = Some svc" "ss_spec svc = sp" "ss_replicas svc = fin"
      "ss_status svc = (if running svc = [] then DEGRADED else RUNNING)" "routed rview w2 svc"
      "events_of SCHEDULER_NO_CAPACITY w2 = events_of SCHEDULER_NO_CAPACITY w1"
    have "settled b (sp_replicas sp) sp (map rs_replica_id (running s)) (events_of SCHEDULER_NO_CAPACITY w) (ss_replicas svc) w2"
      using f(3) unfolding settled_def 2(3,6) .
    with 2 show "reached b sp (map rs_replica_id (running s)) (events_of SCHEDULER_NO_CAPACITY w) w2"
      unfolding reached_def by blast
  qed
qed assumption

lemma from_observed_run:
  assumes "ok w" "ss_spec s = sp" "carries sp st (ss_replicas s) w" "routed_name rview (sp_name sp) w"
    "distinct (map rs_replica_id (ss_replicas s))" "connect_bindings s = []" "0 \<le> sp_replicas sp"
    and starts: "b \<Longrightarrow> \<forall>opts d. \<exists>cid d'. dd_run (en_docker en) opts d = (Inr cid, d')"
  shows "runs ok (bind_p (for_p (filter (is_stale sp) (running s)) (remove_replica en s)) (\<lambda>_.
     bind_p (if filter (is_stale sp) (running s) \<noteq> [] then bind_p (get_service (sp_name sp)) (\<lambda>found. ret (case found of Some s' \<Rightarrow> s' | None \<Rightarrow> s))
             else ret s) (\<lambda>s1.
     bind_p (scale_to en s1 (running s1) (sp_replicas sp) ch) (update_status en (sp_name sp))))) w
    (\<lambda>_ w'. reached b sp (map rs_replica_id (filter (\<lambda>r. \<not> is_stale sp r) (running s))) (events_of SCHEDULER_NO_CAPACITY w) w')"
  unfolding bind_p_assoc [of _ _ "\<lambda>s1. bind_p (scale_to en s1 (running s1) (sp_replicas sp) ch) (update_status en (sp_name sp))", symmetric]
proof (rule runs_bind [OF stale_run [OF assms(1-6)]], elim conjE)
  fix s1 :: service_state and w1
  assume 1: "ok w1" "ss_spec s1 = sp" "carries sp st (ss_replicas s1) w1" "routed_name rview (sp_name sp) w1"
    "running s1 = filter (\<lambda>r. \<not> is_stale sp r) (running s)" "distinct (map rs_replica_id (ss_replicas s1))"
    "connect_bindings s1 = []" "onward w w1" "events_of SCHEDULER_NO_CAPACITY w1 = events_of SCHEDULER_NO_CAPACITY w"
  have "\<forall>r \<in> set (running s1). \<not> is_stale sp r" unfolding 1(5) by simp
  from scale_and_update_run [where b = b, OF 1(1-4,7,6) assms(7) this starts]
  show "runs ok (bind_p (scale_to en s1 (running s1) (sp_replicas sp) ch) (update_status en (sp_name sp))) w1
    (\<lambda>_ w'. reached b sp (map rs_replica_id (filter (\<lambda>r. \<not> is_stale sp r) (running s))) (events_of SCHEDULER_NO_CAPACITY w) w')"
    unfolding 1(5,9) .
qed

lemma reconcile_service_run:
  assumes "ok w" and stored: "dict_get (w_services w) (sp_name (ss_spec s)) = Some s"
    and d: "distinct (map rs_replica_id (ss_replicas s))" and k: "knows w (ss_replicas s)"
    and cb: "connect_bindings s = []" and n: "0 \<le> sp_replicas (ss_spec s)"
    and pcs: "\<forall>xs. pcs = Some xs \<longrightarrow> (\<forall>c \<in> set xs. cs (w_docker w) (cc_container_id c) \<noteq> None)"
    and starts: "b \<Longrightarrow> \<forall>opts d. \<exists>cid d'. dd_run (en_docker en) opts d = (Inr cid, d')"
  shows "runs ok (reconcile_service en s pcs) w
    (\<lambda>_ w'. reached b (ss_spec s) (map rs_replica_id (fit cs w s)) (events_of SCHEDULER_NO_CAPACITY w) w')" (is "runs ok _ w ?Q")
  unfolding reconcile_service_def Let_def
proof (rule runs_bind [OF ensure_service_network_calm [OF assms(1) pcs]], elim conjE)
  let ?sp = "ss_spec s"
  let ?n = "sp_name ?sp"
  fix net w1 assume 0: "ok w1" "calm w w1" "net = service_network_name ?n" "net \<in> nets (w_docker w1)"
  note 1 = 0(1,2) 0(4) [unfolded 0(3)]
  have w1: "w_services w1 = w_services w" "onward w w1" "events_of SCHEDULER_NO_CAPACITY w1 = events_of SCHEDULER_NO_CAPACITY w"
      "kept w1 rs = kept w rs" for rs
    using calm_watch [OF 1(2)] kept_watch [OF calm_watch [OF 1(2)]] by (auto simp: watch_def)
  have s1: "dict_get (w_services w1) ?n = Some s" using stored w1(1) by simp
  show "runs ok (bind_p (refresh_observed_replicas en s) (\<lambda>s'. bind_p (for_p (filter (is_stale ?sp) (running s')) (remove_replica en s')) (\<lambda>_.
     bind_p (if filter (is_stale ?sp) (running s') \<noteq> [] then bind_p (get_service ?n) (\<lambda>found. ret (case found of Some s'' \<Rightarrow> s'' | None \<Rightarrow> s'))
             else ret s') (\<lambda>s1.
     bind_p (scale_to en s1 (running s1) (sp_replicas ?sp) (filter (is_stale ?sp) (running s') \<noteq> [])) (update_status en ?n))))) w1 ?Q"
  proof (rule runs_bind [OF refresh_observed_run [OF 1(1,3) onward_knows [OF w1(2) k] s1]], elim conjE)
    fix s' :: service_state and w2
    assume 2: "ok w2" "ss_spec s' = ?sp" "list_all2 moved (kept w1 (ss_replicas s)) (ss_replicas s')"
      "carries ?sp (ss_status s) (ss_replicas s') w2" "routed_name rview ?n w2" "onward w1 w2"
      "events_of SCHEDULER_NO_CAPACITY w2 = events_of SCHEDULER_NO_CAPACITY w1"
    have ids: "map rs_replica_id (filter P (ss_replicas s')) = map rs_replica_id (filter P (kept w (ss_replicas s)))"
      if "\<And>r r'. moved r r' \<Longrightarrow> P r' = P r" for P
      using moved_filter [OF 2(3) that] w1(4) by simp
    have d2: "distinct (map rs_replica_id (ss_replicas s'))"
      using ids [of "\<lambda>_. True"] d by (simp add: kept_def distinct_map_filter)
    have cb2: "connect_bindings s' = []" using cb 2(2) by (simp add: connect_bindings_def)
    have "filter (\<lambda>r. \<not> is_stale ?sp r \<and> rs_status r = RUNNING) (kept w (ss_replicas s)) = fit cs w s"
      by (auto simp: fit_def running_def kept_def intro: filter_cong)
    then have base: "map rs_replica_id (filter (\<lambda>r. \<not> is_stale ?sp r) (running s')) = map rs_replica_id (fit cs w s)"
      using ids [of "\<lambda>r. \<not> is_stale ?sp r \<and> rs_status r = RUNNING"] by (simp add: running_def is_stale_def moved_keeps conj_commute)
    show "runs ok (bind_p (for_p (filter (is_stale ?sp) (running s')) (remove_replica en s')) (\<lambda>_.
     bind_p (if filter (is_stale ?sp) (running s') \<noteq> [] then bind_p (get_service ?n) (\<lambda>found. ret (case found of Some s'' \<Rightarrow> s'' | None \<Rightarrow> s'))
             else ret s') (\<lambda>s1.
     bind_p (scale_to en s1 (running s1) (sp_replicas ?sp) (filter (is_stale ?sp) (running s') \<noteq> [])) (update_status en ?n)))) w2 ?Q"
      using from_observed_run [where b = b, OF 2(1,2,4,5) d2 cb2 n starts] unfolding base 2(7) w1(3) .
  qed
qed

end

section \<open>The platform as it is deployed\<close>

text \<open>
  The control plane runs on the Redis routing table, the secret store of the database and the
  binpack scheduler. The Docker daemon, the cipher and the random draws are concrete here to run the
  theorems below.
\<close>

definition plain_env :: "(memory_daemon, redis_db, (string, json) pydict) env" where
  "plain_env = \<lparr>en_docker = memory_docker, en_routing = redis_routing, en_secrets = secrets_table, en_fernet = plain_fernet,
     en_key = ''key'', en_select = binpack_select, en_cfg = default_settings, en_uuid = (\<lambda>i. replicate (Suc i) CHR ''u''),
     en_urlsafe = (\<lambda>i n. replicate n CHR ''t''), en_dump = (\<lambda>_. JNull)\<rparr>"

interpretation deployed: orchestrating plain_env md_find "\<lambda>d. set (md_networks d)" redis_view redis_inv
  "raw_view secret_validate" "raw_inv secret_validate"
  unfolding orchestrating_def orchestrating_axioms_def plain_env_def env.select_convs
  by (intro conjI memory_laws.docker_laws_axioms redis_rt.routing_axioms secrets_db.secret_store_axioms binpack.placement_axioms
    plain_fernet_ok)

text \<open>One node, and a service that wants one replica and has three: one whose container has died, one
  that runs an old image and one that fits.\<close>

definition old_replica :: "string \<Rightarrow> string \<Rightarrow> string \<Rightarrow> replica_state" where
  "old_replica rid cid img = \<lparr>rs_replica_id = rid, rs_container_id = cid, rs_node_id = ''node-0'', rs_status = RUNNING,
     rs_container_ip = ''10.0.0.2'', rs_image = img, rs_cpu_percent = 0, rs_memory_mb = 0, rs_started_at = 0\<rparr>"

definition demo_service :: service_state where
  "demo_service = (new_service_state 0 (default_service_spec ''web'' ''img:2''))\<lparr>ss_replicas :=
     [old_replica ''r1'' ''gone'' ''img:2'', old_replica ''r2'' ''b'' ''img:1'', old_replica ''r3'' ''c'' ''img:2'']\<rparr>"

definition demo_world :: "(memory_daemon, redis_db, (string, json) pydict) world" where
  "demo_world = \<lparr>w_services = [(''web'', demo_service)], w_deployments = [], w_databases = None, w_node_store = None,
     w_nodes = [(''node-0'', fresh_node default_settings ''node-0'')],
     w_docker = \<lparr>md_containers = [(''b'', demo_container ''b''), (''c'', demo_container ''c'')], md_networks = []\<rparr>,
     w_routing = [], w_secrets = [], w_redis_cpu = [], w_published = [], w_clock = 1, w_draws = 0\<rparr>"

lemma demo_ok: "sound_world plain_env redis_inv (raw_view secret_validate) (raw_inv secret_validate) demo_world"
  by (simp add: sound_world_def demo_world_def plain_env_def redis_inv_def raw_inv_def raw_view_def readable_def node_keys_def
    fresh_node_def wf_dict_def)

lemma reconcile_service_converges:
  assumes "orchestrating en cs nets rview rinv sview sinv" "sound_world en rinv sview sinv w"
    and "dict_get (w_services w) (sp_name (ss_spec s)) = Some s"
    and "distinct (map rs_replica_id (ss_replicas s))" "knows w (ss_replicas s)"
    and "connect_bindings s = []" "0 \<le> sp_replicas (ss_spec s)"
    and "\<forall>xs. pcs = Some xs \<longrightarrow> (\<forall>c \<in> set xs. cs (w_docker w) (cc_container_id c) \<noteq> None)"
  shows "\<exists>w' svc new. reconcile_service en s pcs w = (Inr (), w')
    \<and> dict_get (w_services w') (sp_name (ss_spec s)) = Some svc \<and> ss_spec svc = ss_spec s
    \<and> map rs_replica_id (running svc) = take (nat (sp_replicas (ss_spec s))) (map rs_replica_id (fit cs w s)) @ new
    \<and> length new \<le> nat (sp_replicas (ss_spec s)) - length (fit cs w s)
    \<and> ((\<forall>opts d. \<exists>cid d'. dd_run (en_docker en) opts d = (Inr cid, d')) \<and>
        events_of SCHEDULER_NO_CAPACITY w' = events_of SCHEDULER_NO_CAPACITY w \<longrightarrow>
        length (running svc) = nat (sp_replicas (ss_spec s)))
    \<and> (\<forall>r \<in> set (running svc). \<not> is_stale (ss_spec s) r)
    \<and> ss_status svc = (if running svc = [] then DEGRADED else RUNNING) \<and> routed rview w' svc"
proof -
  let ?b = "\<forall>opts d. \<exists>cid d'. dd_run (en_docker en) opts d = (Inr cid, d')"
  obtain w' where "reconcile_service en s pcs w = (Inr (), w')"
      "orchestrating.reached rview ?b (ss_spec s) (map rs_replica_id (fit cs w s)) (events_of SCHEDULER_NO_CAPACITY w) w'"
    using orchestrating.reconcile_service_run [OF assms(1-8), of ?b] by (auto simp: runs_def)
  then obtain svc new where "dict_get (w_services w') (sp_name (ss_spec s)) = Some svc" "ss_spec svc = ss_spec s"
      "map rs_replica_id (running svc) = take (nat (sp_replicas (ss_spec s))) (map rs_replica_id (fit cs w s)) @ new"
      "length new \<le> nat (sp_replicas (ss_spec s)) - length (fit cs w s)"
      "?b \<longrightarrow> events_of SCHEDULER_NO_CAPACITY w' = events_of SCHEDULER_NO_CAPACITY w \<longrightarrow>
        length (running svc) = nat (sp_replicas (ss_spec s))"
      "\<forall>r \<in> set (running svc). \<not> is_stale (ss_spec s) r"
      "ss_status svc = (if running svc = [] then DEGRADED else RUNNING)" "routed rview w' svc"
    unfolding orchestrating.reached_def [OF assms(1)] orchestrating.settled_def [OF assms(1)] running_def [symmetric] length_map
    by blast
  with \<open>reconcile_service en s pcs w = (Inr (), w')\<close> show ?thesis by blast
qed

section \<open>Properties\<close>



end
