(* ===== verification/Lifecycle.thy ===== *)
theory Lifecycle
  imports Converge
begin

text \<open>
  The end of a service (\<open>teardown_service\<close>) and the start of the control plane
  (\<open>start_orchestrator\<close>, which clears away the containers that belong to no replica), over
  components that keep their contracts.
\<close>

text \<open>The containers that belong to a replica of a stored service.\<close>

definition known_containers :: "('d, 'r, 'k) world \<Rightarrow> string set" where
  "known_containers w = set (concat (map (\<lambda>s. map rs_container_id (ss_replicas s)) (dict_values (w_services w))))"

context orchestrating
begin

text \<open>Removing replicas: their containers are gone, and none comes back.\<close>

definition fewer :: "'d \<Rightarrow> 'd \<Rightarrow> bool" where
  "fewer d d' \<longleftrightarrow> (\<forall>x. cs d x = None \<longrightarrow> cs d' x = None)"

lemma fewer_trans: "fewer d d' \<Longrightarrow> fewer d' d'' \<Longrightarrow> fewer d d''"
  by (simp add: fewer_def)

lemma removed_fewer: "removed x d d' \<Longrightarrow> fewer d d' \<and> cs d' x = None"
  by (auto simp: removed_def fewer_def drop_container_def split: option.splits)

lemma clear_replicas_run:
  assumes "ok w" "carries (ss_spec s) st rs w"
  shows "runs ok (for_p xs (remove_replica en s)) w (\<lambda>_ w'. (\<exists>rs'. carries (ss_spec s) st rs' w')
    \<and> fewer (w_docker w) (w_docker w') \<and> (\<forall>x \<in> set xs. cs (w_docker w') (rs_container_id x) = None))"
  using assms
proof (induction xs arbitrary: w rs)
  case Nil
  then show ?case by (auto simp: fewer_def intro!: runs_ret)
next
  case (Cons x xs)
  show ?case unfolding for_p.simps
  proof (rule runs_bind [OF remove_replica_run [OF Cons.prems]], elim conjE)
    fix w1 assume 1: "ok w1" "carries (ss_spec s) st (filter (\<lambda>r'. rs_replica_id r' \<noteq> rs_replica_id x) rs) w1"
      "removed (rs_container_id x) (w_docker w) (w_docker w1)"
    have "fewer (w_docker w) (w_docker w1)" "cs (w_docker w1) (rs_container_id x) = None" using removed_fewer [OF 1(3)] by auto
    then show "runs ok (for_p xs (remove_replica en s)) w1 (\<lambda>_ w'. (\<exists>rs'. carries (ss_spec s) st rs' w')
      \<and> fewer (w_docker w) (w_docker w') \<and> (\<forall>x \<in> set (x # xs). cs (w_docker w') (rs_container_id x) = None))"
      by (intro runs_conseq [OF Cons.IH [OF 1(1,2)]]) (auto simp: fewer_def)
  qed
qed

lemma remove_network_fewer:
  assumes "ok w"
  shows "runs ok (call_docker (remove_network (en_docker en) n)) w
    (\<lambda>_ w'. fewer (w_docker w) (w_docker w') \<and> w_services w' = w_services w \<and> w_routing w' = w_routing w)"
proof -
  obtain d where d: "remove_network (en_docker en) n (w_docker w) = (Inr (), d)" "same_containers cs (w_docker w) d"
    using dk.remove_network_run by blast
  have "fewer (w_docker w) d" unfolding fewer_def using same_containers_exists [OF d(2)] by blast
  then show ?thesis using d(1) assms by (intro runs_docker) auto
qed

lemma drop_routes_run:
  assumes "ok w"
  shows "runs ok (call_routing (rt_remove (en_routing en) n)) w
    (\<lambda>_ w'. rview (w_routing w') n = [] \<and> w_services w' = w_services w \<and> w_docker w' = w_docker w)"
proof -
  obtain t where "rt_remove (en_routing en) n (w_routing w) = (Inr (), t)" "rinv t" "rview t = (rview (w_routing w))(n := [])"
    using rt.remove_law [of "w_routing w"] assms unfolding sound_world_def by blast
  then show ?thesis using assms by (simp add: runs_def call_routing_eq sound_world_def)
qed

lemma teardown_service_run:
  assumes "ok w" "carries (ss_spec s) st rs w"
  shows "runs ok (teardown_service en s) w (\<lambda>_ w'. dict_get (w_services w') (sp_name (ss_spec s)) = None
    \<and> rview (w_routing w') (sp_name (ss_spec s)) = [] \<and> (\<forall>r \<in> set (ss_replicas s). cs (w_docker w') (rs_container_id r) = None))"
    (is "runs ok _ w ?Q")
  unfolding teardown_service_def
proof (rule runs_bind [OF clear_replicas_run [OF assms]])
  let ?n = "sp_name (ss_spec s)"
  fix w1 assume 1: "ok w1" "(\<exists>rs'. carries (ss_spec s) st rs' w1) \<and> fewer (w_docker w) (w_docker w1)
    \<and> (\<forall>x \<in> set (ss_replicas s). cs (w_docker w1) (rs_container_id x) = None)"
  let ?w = "w1\<lparr>w_services := dict_pop ?n (w_services w1)\<rparr>"
  have ok2: "ok ?w" using 1(1) by (simp add: sound_world_def)
  have "runs ok (bind_p (call_routing (rt_remove (en_routing en) ?n)) (\<lambda>_. call_docker (remove_network (en_docker en) (service_network_name ?n)))) ?w ?Q"
    by (rule runs_bind [OF drop_routes_run [OF ok2]], rule runs_conseq [OF remove_network_fewer], assumption)
      (use 1(2) in \<open>auto simp: fewer_def\<close>)
  then show "runs ok (bind_p (mod_s (\<lambda>w. w\<lparr>w_services := dict_pop ?n (w_services w)\<rparr>)) (\<lambda>_.
     bind_p (call_routing (rt_remove (en_routing en) ?n)) (\<lambda>_. call_docker (remove_network (en_docker en) (service_network_name ?n))))) w1 ?Q"
    by (simp add: runs_def bind_p_Inr mod_s_def)
qed

text \<open>Clearing away the orphans: a container that is known stays, when those cleared away are found
  under their ids.\<close>

definition shrunk :: "'d \<Rightarrow> 'd \<Rightarrow> bool" where
  "shrunk d d' \<longleftrightarrow> (\<forall>x. cs d' x = None \<or> cs d' x = cs d x)"

definition by_ids :: "container_info list \<Rightarrow> 'd \<Rightarrow> bool" where
  "by_ids xs d \<longleftrightarrow> (\<forall>i \<in> set xs. \<forall>c. cs d (ci_container_id i) = Some c \<longrightarrow> ct_id c = ci_container_id i)"

definition spares :: "string set \<Rightarrow> 'd \<Rightarrow> 'd \<Rightarrow> bool" where
  "spares known d d' \<longleftrightarrow> (\<forall>x \<in> known. \<forall>c. cs d x = Some c \<longrightarrow> ct_id c = x \<longrightarrow> cs d' x = Some c)"

lemma removed_shrunk: "removed x d d' \<Longrightarrow> shrunk d d' \<and> cs d' x = None"
  by (auto simp: removed_def shrunk_def drop_container_def split: option.splits)

lemma removed_spares:
  assumes "removed x d d'" "\<forall>c. cs d x = Some c \<longrightarrow> ct_id c = x" "x \<notin> known"
  shows "spares known d d'"
  using assms by (auto simp: removed_def spares_def drop_container_def split: option.splits)

lemma clear_orphans_run:
  assumes "ok w" "by_ids xs (w_docker w)"
  shows "runs ok (for_p xs (\<lambda>c. when_p (ci_container_id c \<notin> known) (call_docker (remove_container (en_docker en) (ci_container_id c))))) w
    (\<lambda>_ w'. shrunk (w_docker w) (w_docker w') \<and> (\<forall>c \<in> set xs. ci_container_id c \<notin> known \<longrightarrow> cs (w_docker w') (ci_container_id c) = None)
       \<and> spares known (w_docker w) (w_docker w'))"
  using assms
proof (induction xs arbitrary: w)
  case Nil
  then show ?case by (auto simp: shrunk_def spares_def intro!: runs_ret)
next
  case (Cons x xs)
  let ?i = "ci_container_id x"
  let ?loop = "for_p xs (\<lambda>c. when_p (ci_container_id c \<notin> known) (call_docker (remove_container (en_docker en) (ci_container_id c))))"
  let ?Q = "\<lambda>w w'. shrunk (w_docker w) (w_docker w') \<and> (\<forall>c \<in> set (x # xs). ci_container_id c \<notin> known \<longrightarrow> cs (w_docker w') (ci_container_id c) = None)
       \<and> spares known (w_docker w) (w_docker w')"
  have ids: "by_ids xs (w_docker w)" using Cons.prems(2) by (simp add: by_ids_def)
  show ?case
  proof (cases "?i \<in> known")
    case True
    have "runs ok ?loop w (\<lambda>_ w'. ?Q w w')"
      by (rule runs_conseq [OF Cons.IH [OF Cons.prems(1) ids]]) (use True in auto)
    then show ?thesis using True by (simp add: when_p_def bind_p_def ret_def runs_def)
  next
    case False
    obtain d where d: "remove_container (en_docker en) ?i (w_docker w) = (Inr (), d)" "removed ?i (w_docker w) d"
      using dk.remove_container_run unfolding removed_def by blast
    have sh: "shrunk (w_docker w) d" "cs d ?i = None" using removed_shrunk [OF d(2)] by auto
    have sp: "spares known (w_docker w) d"
      by (rule removed_spares [OF d(2) _ False]) (use Cons.prems(2) in \<open>simp add: by_ids_def\<close>)
    let ?w = "w\<lparr>w_docker := d\<rparr>"
    have "by_ids xs (w_docker ?w)" unfolding by_ids_def
    proof (intro ballI allI impI)
      fix i c assume a: "i \<in> set xs" "cs (w_docker ?w) (ci_container_id i) = Some c"
      have "cs d (ci_container_id i) = None \<or> cs d (ci_container_id i) = cs (w_docker w) (ci_container_id i)"
        using sh(1) by (simp add: shrunk_def)
      then have "cs (w_docker w) (ci_container_id i) = Some c" using a(2) by simp
      then show "ct_id c = ci_container_id i" using ids a(1) by (simp add: by_ids_def)
    qed
    have "runs ok ?loop ?w (\<lambda>_ w'. ?Q w w')"
    proof (rule runs_conseq [OF Cons.IH [OF ok_docker [OF Cons.prems(1)] \<open>by_ids xs (w_docker ?w)\<close>]], elim conjE)
      fix w2 assume 2: "shrunk (w_docker ?w) (w_docker w2)" "spares known (w_docker ?w) (w_docker w2)"
        "\<forall>c \<in> set xs. ci_container_id c \<notin> known \<longrightarrow> cs (w_docker w2) (ci_container_id c) = None"
      have "shrunk (w_docker w) (w_docker w2)" using sh(1) 2(1) by (fastforce simp: shrunk_def)
      moreover have "spares known (w_docker w) (w_docker w2)" using sp 2(2) by (simp add: spares_def)
      moreover have "cs (w_docker w2) ?i = None" using sh(2) 2(1) by (auto simp: shrunk_def)
      ultimately show "?Q w w2" using 2(3) by simp
    qed
    then show ?thesis using False d(1) by (simp add: when_p_def bind_p_Inr call_docker_eq runs_def)
  qed
qed

lemma remove_orphans_run:
  assumes "ok w" and l: "dd_list (en_docker en) False (Some ''aws-light.managed=true'') (w_docker w) = (Inr xs, w_docker w)"
    and ids: "\<forall>c \<in> set xs. cs (w_docker w) (ct_id c) = Some c"
  shows "runs ok (remove_orphan_containers en) w (\<lambda>_ w'.
    (\<forall>c \<in> set xs. ct_id c \<notin> known_containers w \<longrightarrow> cs (w_docker w') (ct_id c) = None)
     \<and> spares (known_containers w) (w_docker w) (w_docker w'))"
proof -
  have li: "list_containers_by_label (en_docker en) ''aws-light.managed'' ''true'' (w_docker w) = (Inr (map container_info_of xs), w_docker w)"
    using l by (simp add: list_containers_by_label_def bind_p_def ret_def)
  have ci: "ci_container_id (container_info_of c) = ct_id c" for c by (simp add: container_info_of_def Let_def)
  have "by_ids (map container_info_of xs) (w_docker w)" using ids by (auto simp: by_ids_def ci)
  from clear_orphans_run [OF assms(1) this, of "known_containers w"]
  have "runs ok (for_p (map container_info_of xs) (\<lambda>c. when_p (ci_container_id c \<notin> known_containers w)
      (call_docker (remove_container (en_docker en) (ci_container_id c))))) w (\<lambda>_ w'.
    (\<forall>c \<in> set xs. ct_id c \<notin> known_containers w \<longrightarrow> cs (w_docker w') (ct_id c) = None)
     \<and> spares (known_containers w) (w_docker w) (w_docker w'))"
    by (rule runs_conseq) (auto simp: ci)
  then show ?thesis
    by (simp add: remove_orphan_containers_def bind_p_def get_s_def runs_def
      call_docker_eq [of "list_containers_by_label (en_docker en) ''aws-light.managed'' ''true''", OF li] known_containers_def)
qed

end

lemma fresh_node_keys: "node_keys ns \<Longrightarrow> node_keys (dict_put nid (fresh_node cfg nid) ns)"
  by (auto simp: node_keys_def set_dict_put fresh_node_def)

lemma initialize_loop_keys:
  "node_keys ns \<Longrightarrow> node_keys (foldl (\<lambda>ns i. dict_put (node_id_of i) (fresh_node cfg (node_id_of i)) ns) ns xs)"
proof (induction xs arbitrary: ns)
  case (Cons x xs)
  show ?case unfolding foldl.simps by (rule Cons.IH [OF fresh_node_keys [OF Cons.prems]])
qed simp

lemma initialize_node_keys: "node_keys ns \<Longrightarrow> node_keys (initialize cfg ns)"
  unfolding initialize_def by (rule initialize_loop_keys)

section \<open>Properties\<close>

text \<open>C13. Tearing down a deleted service on components that keep their contracts never raises, and leaves
  nothing of it: the store has no service of its name, the routing table no endpoint, and no container
  of its replicas exists any more.\<close>

theorem teardown_leaves_nothing:
  assumes "orchestrating en cs nets rview rinv sview sinv" "sound_world en rinv sview sinv w"
    and "dict_get (w_services w) (sp_name (ss_spec s)) = Some s"
  shows "\<exists>w'. teardown_service en s w = (Inr (), w') \<and> dict_get (w_services w') (sp_name (ss_spec s)) = None
    \<and> rview (w_routing w') (sp_name (ss_spec s)) = [] \<and> (\<forall>r \<in> set (ss_replicas s). cs (w_docker w') (rs_container_id r) = None)"
proof -
  have "carries (ss_spec s) (ss_status s) (ss_replicas s) w" using assms(3) by (simp add: carries_def)
  from orchestrating.teardown_service_run [OF assms(1,2) this] show ?thesis by (auto simp: runs_def)
qed

theorem teardown_leaves_nothing_witness:
  "\<exists>w'. teardown_service plain_env demo_service demo_world = (Inr (), w') \<and> dict_get (w_services w') ''web'' = None
    \<and> md_find (w_docker w') ''c'' = None"
proof -
  have n: "sp_name (ss_spec demo_service) = ''web''" "old_replica ''r3'' ''c'' ''img:2'' \<in> set (ss_replicas demo_service)"
    by (simp_all add: demo_service_def new_service_state_def default_service_spec_def)
  have "dict_get (w_services demo_world) (sp_name (ss_spec demo_service)) = Some demo_service" by (simp add: n demo_world_def)
  from teardown_leaves_nothing [OF deployed.orchestrating_axioms demo_ok this] n(2) show ?thesis
    unfolding n(1) by (fastforce simp: old_replica_def)
qed


abbreviation managed_world :: "(memory_daemon, redis_db, (string, json) pydict) world" where
  "managed_world \<equiv> demo_world\<lparr>w_docker := \<lparr>md_containers =
     [(''db'', demo_container ''db''\<lparr>ct_labels := [(''aws-light.managed'', ''true''), (''aws-light.database'', ''main'')]\<rparr>),
      (''c'', demo_container ''c'')], md_networks = []\<rparr>\<rparr>"


end
