(* ===== verification/Rollout.thy ===== *)
theory Rollout
  imports Lifecycle
begin

text \<open>
  The rollout loop of \<open>compute/orchestrator.py\<close>: \<open>_dispatch_pending_rollouts\<close> starts a task for
  every pending rollout that has none, and \<open>_run_rollout\<close> replaces the replicas of a service batch by
  batch, waiting for new ones in between. A task is a state machine: each turn is the code between
  two calls of \<open>asyncio.sleep\<close>, and between two turns the other loops may change the stores.
\<close>

section \<open>A rollout as a state machine\<close>

definition rollout_wait_interval :: int where
  "rollout_wait_interval = 2"

definition rollout_wait_timeout :: int where
  "rollout_wait_timeout = 60"

text \<open>The local variables of \<open>_run_rollout\<close> while it waits for the replicas of a batch.\<close>

record rollout_frame =
  rf_rollout :: rollout_state
  rf_total_steps :: nat
  rf_batch :: "replica_state list"
  rf_old_replicas :: "replica_state list"
  rf_waited :: int
  rf_step :: nat

datatype rollout_task = Rollout_Ready rollout_state | Rollout_Waiting rollout_frame | Rollout_Done

definition put_rollout :: "rollout_state \<Rightarrow> (('d, 'r, 'k) world, unit) prog" where
  "put_rollout r = mod_s (\<lambda>w. w\<lparr>w_deployments := dict_put (ro_deployment_id r) r (w_deployments w)\<rparr>)"

text \<open>The end of a rollout. It reads the service once more and changes the copy it got, which it
  does not store.\<close>

definition finish_rollout :: "rollout_state \<Rightarrow> (('d, 'r, 'k) world, rollout_task) prog" where
  "finish_rollout r = bind_p (get_s w_clock) (\<lambda>now.
     bind_p (put_rollout (r\<lparr>ro_status := RUNNING, ro_completed_at := Some now\<rparr>)) (\<lambda>_.
     bind_p (get_service (dp_service_name (ro_spec r))) (\<lambda>_. ret Rollout_Done)))"

definition batch_size :: "rollout_state \<Rightarrow> nat" where
  "batch_size r = nat (max 1 (st_max_surge (dp_strategy (ro_spec r))))"

definition resize_spec :: "int \<Rightarrow> service_state \<Rightarrow> service_state" where
  "resize_spec k s = s\<lparr>ss_spec := (ss_spec s)\<lparr>sp_replicas := sp_replicas (ss_spec s) + k\<rparr>\<rparr>"

text \<open>From the head of the loop over the batches to the next sleep.\<close>

definition start_batch :: "rollout_state \<Rightarrow> nat \<Rightarrow> replica_state list \<Rightarrow> nat \<Rightarrow> (('d, 'r, 'k) world, rollout_task) prog" where
  "start_batch r total_steps old_replicas step =
    (if old_replicas = [] then finish_rollout r
     else (let batch = take (batch_size r) old_replicas; rest = drop (batch_size r) old_replicas in
       bind_p (get_service (dp_service_name (ro_spec r))) (\<lambda>found. case found of
         None \<Rightarrow> finish_rollout r
       | Some current \<Rightarrow>
           bind_p (put_service (sp_name (ss_spec current)) (resize_spec (int (length batch)) current)) (\<lambda>_.
           ret (Rollout_Waiting \<lparr>rf_rollout = r, rf_total_steps = total_steps, rf_batch = batch, rf_old_replicas = rest,
             rf_waited = 0, rf_step = step\<rparr>)))))"

text \<open>From the end of the waiting to the next sleep.\<close>

definition complete_batch :: "('d, 'r, 'k) env \<Rightarrow> rollout_frame \<Rightarrow> (('d, 'r, 'k) world, rollout_task) prog" where
  "complete_batch en f =
    (let r = rf_rollout f; batch = rf_batch f; step = rf_step f + length batch in
     bind_p (get_service (dp_service_name (ro_spec r))) (\<lambda>found. case found of
         None \<Rightarrow> finish_rollout r
       | Some current \<Rightarrow>
          (let current' = resize_spec (- int (length batch)) current in
           bind_p (put_service (sp_name (ss_spec current)) current') (\<lambda>_.
           bind_p (for_p batch (remove_replica en current')) (\<lambda>_.
           bind_p (emit_rollout_progress (ro_deployment_id r) (dp_service_name (ro_spec r)) (int step) (int (rf_total_steps f))) (\<lambda>_.
           start_batch r (rf_total_steps f) (rf_old_replicas f) step))))))"

definition new_running :: "replica_state list \<Rightarrow> service_state \<Rightarrow> nat" where
  "new_running batch s = length (filter (\<lambda>r. rs_status r = RUNNING \<and> rs_replica_id r \<notin> set (map rs_replica_id batch)) (ss_replicas s))"

text \<open>A turn after a sleep: look whether the new replicas run, or the time is up.\<close>

definition check_batch :: "('d, 'r, 'k) env \<Rightarrow> rollout_frame \<Rightarrow> (('d, 'r, 'k) world, rollout_task) prog" where
  "check_batch en f =
    (let f' = f\<lparr>rf_waited := rf_waited f + rollout_wait_interval\<rparr> in
     bind_p (get_service (dp_service_name (ro_spec (rf_rollout f)))) (\<lambda>found. case found of
         None \<Rightarrow> complete_batch en f'
       | Some current \<Rightarrow>
           if length (rf_batch f) \<le> new_running (rf_batch f) current then complete_batch en f'
           else if rf_waited f' < rollout_wait_timeout then ret (Rollout_Waiting f')
           else complete_batch en f'))"

definition begin_rollout :: "rollout_state \<Rightarrow> (('d, 'r, 'k) world, rollout_task) prog" where
  "begin_rollout r0 =
    (let r = r0\<lparr>ro_status := UPDATING\<rparr> in
     bind_p (put_rollout r) (\<lambda>_.
     bind_p (get_service (dp_service_name (ro_spec r))) (\<lambda>found. case found of
         None \<Rightarrow> ret Rollout_Done
       | Some s \<Rightarrow> bind_p (get_s w_clock) (\<lambda>now.
          bind_p (put_service (sp_name (ss_spec s))
            (s\<lparr>ss_spec := (ss_spec s)\<lparr>sp_image := dp_new_image (ro_spec r)\<rparr>, ss_status := UPDATING, ss_updated_at := now\<rparr>)) (\<lambda>_.
          start_batch r (length (ss_replicas s)) (ss_replicas s) 0)))))"

fun rollout_turn :: "('d, 'r, 'k) env \<Rightarrow> rollout_task \<Rightarrow> (('d, 'r, 'k) world, rollout_task) prog" where
  "rollout_turn en (Rollout_Ready r) = begin_rollout r"
| "rollout_turn en (Rollout_Waiting f) = check_batch en f"
| "rollout_turn en Rollout_Done = ret Rollout_Done"

section \<open>The tasks\<close>

text \<open>\<open>_executing_rollouts\<close> and the tasks that were created, by deployment.\<close>

record rollout_tasks =
  rt_executing :: "string list"
  rt_tasks :: "(string \<times> rollout_task) list"

fun dispatch_rollouts :: "rollout_state list \<Rightarrow> rollout_tasks \<Rightarrow> rollout_tasks" where
  "dispatch_rollouts [] ts = ts"
| "dispatch_rollouts (r # rs) ts =
    (if ro_status r = PENDING \<and> ro_deployment_id r \<notin> set (rt_executing ts)
     then dispatch_rollouts rs (ts\<lparr>rt_executing := ro_deployment_id r # rt_executing ts,
            rt_tasks := rt_tasks ts @ [(ro_deployment_id r, Rollout_Ready r)]\<rparr>)
     else dispatch_rollouts rs ts)"

text \<open>\<open>finally: self._executing_rollouts.discard(...)\<close>\<close>

definition end_rollout :: "string \<Rightarrow> rollout_tasks \<Rightarrow> rollout_tasks" where
  "end_rollout i ts = ts\<lparr>rt_executing := filter (\<lambda>j. j \<noteq> i) (rt_executing ts)\<rparr>"

text \<open>The steps of the rollout loop, of its tasks, and of everything else.\<close>

inductive rollout_step :: "('d, 'r, 'k) env \<Rightarrow> ('d, 'r, 'k) world \<times> rollout_tasks \<Rightarrow> ('d, 'r, 'k) world \<times> rollout_tasks \<Rightarrow> bool"
  for en where
  Dispatch: "rollout_step en (w, ts) (w, dispatch_rollouts (dict_values (w_deployments w)) ts)"
| Turn: "rt_tasks ts = xs @ (i, t) # ys \<Longrightarrow> rollout_turn en t w = (Inr t', w') \<Longrightarrow> t' \<noteq> Rollout_Done \<Longrightarrow>
    rollout_step en (w, ts) (w', ts\<lparr>rt_tasks := xs @ (i, t') # ys\<rparr>)"
| Return: "rt_tasks ts = xs @ (i, t) # ys \<Longrightarrow> rollout_turn en t w = (Inr Rollout_Done, w') \<Longrightarrow>
    rollout_step en (w, ts) (w', end_rollout i (ts\<lparr>rt_tasks := xs @ ys\<rparr>))"
| Raise: "rt_tasks ts = xs @ (i, t) # ys \<Longrightarrow> rollout_turn en t w = (Inl e, w') \<Longrightarrow>
    rollout_step en (w, ts) (w', end_rollout i (ts\<lparr>rt_tasks := xs @ ys\<rparr>))"
| Others: "rollout_step en (w, ts) (w', ts)"

inductive_cases rollout_stepE: "rollout_step en (w, ts) st"

definition no_rollouts :: rollout_tasks where
  "no_rollouts = \<lparr>rt_executing = [], rt_tasks = []\<rparr>"

text \<open>One task alone: before each of its turns the others do something.\<close>

fun rollout_run :: "('d, 'r, 'k) env \<Rightarrow> (('d, 'r, 'k) world \<Rightarrow> ('d, 'r, 'k) world) list \<Rightarrow> rollout_task \<Rightarrow> ('d, 'r, 'k) world
    \<Rightarrow> rollout_task \<times> ('d, 'r, 'k) world" where
  "rollout_run en others Rollout_Done w = (Rollout_Done, w)"
| "rollout_run en [] t w = (t, w)"
| "rollout_run en (other # others) t w = (case rollout_turn en t (other w) of
     (Inr t', w') \<Rightarrow> rollout_run en others t' w'
   | (Inl e, w') \<Rightarrow> (Rollout_Done, w'))"

section \<open>One task per rollout\<close>

definition one_task_each :: "rollout_tasks \<Rightarrow> bool" where
  "one_task_each ts \<longleftrightarrow> distinct (map fst (rt_tasks ts)) \<and> set (rt_executing ts) = set (map fst (rt_tasks ts))"

lemma dispatch_one_task: "one_task_each ts \<Longrightarrow> one_task_each (dispatch_rollouts rs ts)"
  by (induction rs ts rule: dispatch_rollouts.induct) (auto simp: one_task_each_def)

lemma end_one_task:
  "one_task_each ts \<Longrightarrow> rt_tasks ts = xs @ (i, t) # ys \<Longrightarrow> one_task_each (end_rollout i (ts\<lparr>rt_tasks := xs @ ys\<rparr>))"
  by (auto simp: one_task_each_def end_rollout_def)

lemma step_one_task: "rollout_step en st st' \<Longrightarrow> one_task_each (snd st) \<Longrightarrow> one_task_each (snd st')"
proof (induction rule: rollout_step.induct)
  case (Turn ts xs i t ys w t' w')
  then show ?case by (simp add: one_task_each_def)
qed (simp_all add: dispatch_one_task end_one_task)

section \<open>A rollout ends\<close>

definition batches :: "nat \<Rightarrow> nat \<Rightarrow> nat" where
  "batches b n = (n + b - 1) div b"

lemma batches_step: "0 < b \<Longrightarrow> 0 < n \<Longrightarrow> batches b n = Suc (batches b (n - b))"
  by (cases "n \<le> b") (auto simp: batches_def div_if le_div_geq Suc_diff_le)

text \<open>The turns a task can still take.\<close>

fun turns_left :: "rollout_task \<Rightarrow> nat" where
  "turns_left (Rollout_Ready r) = 0"
| "turns_left (Rollout_Waiting f) = nat ((60 - rf_waited f) div 2) + 30 * batches (batch_size (rf_rollout f)) (length (rf_old_replicas f))"
| "turns_left Rollout_Done = 0"

fun waits :: "rollout_task \<Rightarrow> bool" where
  "waits (Rollout_Ready r) \<longleftrightarrow> False"
| "waits (Rollout_Waiting f) \<longleftrightarrow> 0 \<le> rf_waited f \<and> rf_waited f < 60 \<and> even (rf_waited f)"
| "waits Rollout_Done \<longleftrightarrow> True"

definition leads_to :: "nat \<Rightarrow> rollout_task result \<Rightarrow> bool" where
  "leads_to n res \<longleftrightarrow> (\<forall>t. res = Inr t \<longrightarrow> waits t \<and> turns_left t \<le> n)"

lemma bind_leads: "(\<And>a w'. leads_to n (fst (f a w'))) \<Longrightarrow> leads_to n (fst (bind_p m f w))"
  by (auto simp: bind_p_def leads_to_def split: prod.splits sum.splits)

lemma finish_leads: "leads_to n (fst (finish_rollout r w))"
  unfolding finish_rollout_def by (intro bind_leads) (simp add: leads_to_def ret_def)

lemma batch_size_pos: "0 < batch_size r"
  by (simp add: batch_size_def)

lemma option_leads:
  "leads_to n (fst (f w)) \<Longrightarrow> (\<And>x. leads_to n (fst (g x w))) \<Longrightarrow> leads_to n (fst ((case v of None \<Rightarrow> f | Some x \<Rightarrow> g x) w))"
  by (cases v) auto

lemma waiting_leads:
  "waits (Rollout_Waiting f) \<Longrightarrow> turns_left (Rollout_Waiting f) \<le> n \<Longrightarrow> leads_to n (fst (ret (Rollout_Waiting f) w))"
  by (simp add: leads_to_def ret_def)

lemma start_batch_leads:
  assumes "30 * batches (batch_size r) (length old) \<le> n"
  shows "leads_to n (fst (start_batch r total_steps old step w))"
proof (cases "old = []")
  case True
  then show ?thesis by (simp add: start_batch_def finish_leads)
next
  case False
  with assms have "30 + 30 * batches (batch_size r) (length old - batch_size r) \<le> n"
    using batches_step [OF batch_size_pos, of "length old" r] by simp
  with False show ?thesis unfolding start_batch_def Let_def
    by simp (intro bind_leads option_leads finish_leads waiting_leads; simp)
qed

lemma complete_batch_leads:
  "30 * batches (batch_size (rf_rollout f)) (length (rf_old_replicas f)) \<le> n \<Longrightarrow> leads_to n (fst (complete_batch en f w))"
  unfolding complete_batch_def Let_def by (intro bind_leads option_leads finish_leads start_batch_leads)

lemma check_batch_leads:
  assumes "waits (Rollout_Waiting f)" "turns_left (Rollout_Waiting f) \<le> Suc n"
  shows "leads_to n (fst (check_batch en f w))"
proof -
  let ?f = "f\<lparr>rf_waited := rf_waited f + 2\<rparr>"
  obtain k where k: "rf_waited f = 2 * k" "0 \<le> k" "k < 30" using assms(1) by (auto elim!: evenE)
  have "30 * batches (batch_size (rf_rollout f)) (length (rf_old_replicas f)) + nat (30 - k) \<le> Suc n"
    using assms(2) k by simp
  then have "30 * batches (batch_size (rf_rollout ?f)) (length (rf_old_replicas ?f)) \<le> n"
    and "rf_waited ?f < 60 \<Longrightarrow> leads_to n (fst (ret (Rollout_Waiting ?f) w'))" for w' :: "('a, 'b, 'c) world"
    using k by (auto simp: nat_le_iff intro!: waiting_leads)
  then show ?thesis unfolding check_batch_def Let_def rollout_wait_interval_def rollout_wait_timeout_def
    by (intro bind_leads option_leads complete_batch_leads) (auto intro: complete_batch_leads)
qed

lemma begin_leads:
  assumes "\<And>s. dict_get (w_services w) (dp_service_name (ro_spec r)) = Some s \<Longrightarrow>
    30 * batches (batch_size r) (length (ss_replicas s)) \<le> n"
  shows "leads_to n (fst (begin_rollout r w))"
proof (cases "dict_get (w_services w) (dp_service_name (ro_spec r))")
  case None
  then show ?thesis
    by (simp add: begin_rollout_def put_rollout_def get_service_def bind_p_def mod_s_def get_s_def ret_def leads_to_def Let_def)
next
  case (Some s)
  let ?r = "r\<lparr>ro_status := UPDATING\<rparr>"
  have "30 * batches (batch_size ?r) (length (ss_replicas s)) \<le> n" using assms [OF Some] by (simp add: batch_size_def)
  then have "leads_to n (fst (start_batch ?r (length (ss_replicas s)) (ss_replicas s) 0 w'))" for w' :: "('a, 'b, 'c) world"
    by (rule start_batch_leads)
  with Some show ?thesis
    by (simp add: begin_rollout_def put_rollout_def put_service_def get_service_def bind_p_def mod_s_def get_s_def Let_def)
qed

lemma rollout_run_ends:
  "waits t \<Longrightarrow> turns_left t \<le> length others \<Longrightarrow> fst (rollout_run en others t w) = Rollout_Done"
proof (induction others arbitrary: t w)
  case Nil
  then show ?case
  proof (cases t)
    case (Rollout_Waiting f)
    then show ?thesis using Nil by auto
  qed auto
next
  case (Cons other others)
  show ?case
  proof (cases t)
    case (Rollout_Waiting f)
    obtain res w' where r: "check_batch en f (other w) = (res, w')" by fastforce
    have "leads_to (length others) res"
      using check_batch_leads [of f "length others" en "other w"] Cons.prems Rollout_Waiting r by simp
    then show ?thesis using Cons.IH Rollout_Waiting r by (cases res) (auto simp: leads_to_def)
  qed (use Cons.prems in auto)
qed

section \<open>What an undisturbed rollout leaves\<close>

definition spec_of :: "string \<Rightarrow> ('d, 'r, 'k) world \<Rightarrow> service_spec option" where
  "spec_of name w = map_option ss_spec (dict_get (w_services w) name)"

definition finished :: "rollout_state \<Rightarrow> ('d, 'r, 'k) world \<Rightarrow> bool" where
  "finished r w \<longleftrightarrow> (\<exists>r'. dict_get (w_deployments w) (ro_deployment_id r) = Some r' \<and> ro_status r' = RUNNING \<and> ro_completed_at r' \<noteq> None)"

text \<open>The specification between the turns: while a batch is replaced it asks for as many more replicas.\<close>

fun on_course :: "service_spec \<Rightarrow> rollout_state \<Rightarrow> rollout_task \<Rightarrow> ('d, 'r, 'k) world \<Rightarrow> bool" where
  "on_course sp r (Rollout_Ready r') w \<longleftrightarrow> False"
| "on_course sp r (Rollout_Waiting f) w \<longleftrightarrow> rf_rollout f = r
     \<and> spec_of (sp_name sp) w = Some (sp\<lparr>sp_replicas := sp_replicas sp + int (length (rf_batch f))\<rparr>)"
| "on_course sp r Rollout_Done w \<longleftrightarrow> spec_of (sp_name sp) w = Some sp \<and> finished r w"

lemma finish_eq: "finish_rollout r w = (Inr Rollout_Done, w\<lparr>w_deployments := dict_put (ro_deployment_id r)
    (r\<lparr>ro_status := RUNNING, ro_completed_at := Some (w_clock w)\<rparr>) (w_deployments w)\<rparr>)"
  by (simp add: finish_rollout_def put_rollout_def get_service_def bind_p_def mod_s_def get_s_def ret_def)

context orchestrating
begin

lemma finish_run:
  "ok w \<Longrightarrow> spec_of (sp_name sp) w = Some sp \<Longrightarrow> runs ok (finish_rollout r) w (on_course sp r)"
  by (simp add: runs_def finish_eq sound_world_def spec_of_def finished_def)

lemma start_batch_run:
  assumes "ok w" "spec_of (sp_name sp) w = Some sp" "dp_service_name (ro_spec r) = sp_name sp"
  shows "runs ok (start_batch r total_steps old step) w (on_course sp r)"
proof -
  obtain s where s: "dict_get (w_services w) (sp_name sp) = Some s" "ss_spec s = sp" using assms(2) by (auto simp: spec_of_def)
  then show ?thesis using finish_run [OF assms(1,2), of r] assms(1,3)
    by (auto simp: start_batch_def Let_def runs_def get_service_def put_service_def bind_p_def get_s_def mod_s_def ret_def
      sound_world_def spec_of_def resize_spec_def)
qed

lemma complete_batch_run:
  assumes "ok w" "on_course sp r (Rollout_Waiting f) w" "dp_service_name (ro_spec r) = sp_name sp"
  shows "runs ok (complete_batch en f) w (on_course sp r)"
proof -
  let ?k = "int (length (rf_batch f))"
  obtain s where s: "dict_get (w_services w) (sp_name sp) = Some s" "ss_spec s = sp\<lparr>sp_replicas := sp_replicas sp + ?k\<rparr>" "rf_rollout f = r"
    using assms(2) by (auto simp: spec_of_def)
  define s' where "s' = resize_spec (- ?k) s"
  have sp': "ss_spec s' = sp" using s(2) by (simp add: s'_def resize_spec_def)
  let ?w = "w\<lparr>w_services := dict_put (sp_name sp) s' (w_services w)\<rparr>"
  have "ok ?w" using assms(1) by (simp add: sound_world_def)
  moreover have "carries (ss_spec s') (ss_status s') (ss_replicas s') ?w" using sp' by (simp add: carries_def)
  ultimately have rm: "runs ok (for_p (rf_batch f) (remove_replica en s')) ?w (\<lambda>_ w'. \<exists>rs. carries sp (ss_status s') rs w')"
    by (rule runs_conseq [OF remove_all_run]) (auto simp: sp')
  have "runs ok (bind_p (for_p (rf_batch f) (remove_replica en s')) (\<lambda>_. bind_p (publish ROLLOUT_PROGRESS p)
      (\<lambda>_. start_batch r (rf_total_steps f) (rf_old_replicas f) (rf_step f + length (rf_batch f))))) ?w (on_course sp r)" for p
  proof (rule runs_bind [OF rm])
    fix w1 assume 1: "ok w1" "\<exists>rs. carries sp (ss_status s') rs w1"
    let ?w2 = "w1\<lparr>w_published := w_published w1 @ [\<lparr>ev_kind = ROLLOUT_PROGRESS, ev_timestamp = w_clock w1, ev_payload = p\<rparr>]\<rparr>"
    have "ok ?w2" "spec_of (sp_name sp) ?w2 = Some sp" using 1 by (auto simp: sound_world_def spec_of_def carries_def)
    from start_batch_run [OF this assms(3)]
    show "runs ok (bind_p (publish ROLLOUT_PROGRESS p)
      (\<lambda>_. start_batch r (rf_total_steps f) (rf_old_replicas f) (rf_step f + length (rf_batch f)))) w1 (on_course sp r)"
      by (simp add: runs_def bind_p_def publish_eq)
  qed
  then show ?thesis using s sp' assms(3)
    by (simp add: complete_batch_def Let_def runs_def get_service_def put_service_def bind_p_Inr get_s_def mod_s_def s'_def
      emit_rollout_progress_def)
qed

lemma check_batch_run:
  assumes "ok w" "on_course sp r (Rollout_Waiting f) w" "dp_service_name (ro_spec r) = sp_name sp"
  shows "runs ok (check_batch en f) w (on_course sp r)"
proof -
  let ?f = "f\<lparr>rf_waited := rf_waited f + rollout_wait_interval\<rparr>"
  have f: "on_course sp r (Rollout_Waiting ?f) w" using assms(2) by simp
  from complete_batch_run [OF assms(1) f assms(3)] show ?thesis using f assms
    by (auto simp: check_batch_def Let_def runs_def get_service_def bind_p_def get_s_def ret_def split: option.split)
qed

lemma begin_rollout_run:
  assumes "ok w" "spec_of (sp_name sp) w = Some sp" "dp_service_name (ro_spec r) = sp_name sp"
  shows "runs ok (begin_rollout r) w (on_course (sp\<lparr>sp_image := dp_new_image (ro_spec r)\<rparr>) (r\<lparr>ro_status := UPDATING\<rparr>))"
proof -
  let ?r = "r\<lparr>ro_status := UPDATING\<rparr>" and ?sp = "sp\<lparr>sp_image := dp_new_image (ro_spec r)\<rparr>"
  obtain s where s: "dict_get (w_services w) (sp_name sp) = Some s" "ss_spec s = sp" using assms(2) by (auto simp: spec_of_def)
  let ?w = "w\<lparr>w_deployments := dict_put (ro_deployment_id r) ?r (w_deployments w), w_services := dict_put (sp_name sp)
     (s\<lparr>ss_spec := ?sp, ss_status := UPDATING, ss_updated_at := w_clock w\<rparr>) (w_services w)\<rparr>"
  have "ok ?w" "spec_of (sp_name ?sp) ?w = Some ?sp" using assms(1) by (simp_all add: sound_world_def spec_of_def)
  from start_batch_run [OF this, of ?r "length (ss_replicas s)" "ss_replicas s" 0] show ?thesis using s assms(3)
    by (simp add: begin_rollout_def Let_def runs_def put_rollout_def get_service_def put_service_def bind_p_def get_s_def mod_s_def)
qed

definition minds :: "string \<Rightarrow> (('d, 'r, 'k) world \<Rightarrow> ('d, 'r, 'k) world) \<Rightarrow> bool" where
  "minds name f \<longleftrightarrow> (\<forall>w. ok w \<longrightarrow> ok (f w) \<and> spec_of name (f w) = spec_of name w)"

lemma waiting_run:
  assumes "\<forall>f \<in> set others. minds (sp_name sp) f" "ok w" "on_course sp r t w" "dp_service_name (ro_spec r) = sp_name sp"
    "waits t" "turns_left t \<le> length others"
  shows "on_course sp r Rollout_Done (snd (rollout_run en others t w))"
  using assms
proof (induction others arbitrary: t w)
  case Nil
  then show ?case by (cases t) auto
next
  case (Cons other others)
  show ?case
  proof (cases t)
    case (Rollout_Waiting f)
    have m: "ok (other w)" "on_course sp r (Rollout_Waiting f) (other w)"
      using Cons.prems(1-3) Rollout_Waiting by (auto simp: minds_def)
    obtain t' w' where t: "check_batch en f (other w) = (Inr t', w')" "ok w'" "on_course sp r t' w'"
      using check_batch_run [OF m Cons.prems(4)] by (auto simp: runs_def)
    have "waits t' \<and> turns_left t' \<le> length others"
      using check_batch_leads [of f "length others" en "other w"] Cons.prems(5,6) Rollout_Waiting t(1) by (auto simp: leads_to_def)
    then show ?thesis using Cons.IH [of w' t'] Cons.prems(1,4) t Rollout_Waiting by simp
  qed (use Cons.prems in auto)
qed

lemma undisturbed_run:
  assumes "\<forall>f \<in> set (other # others). minds (sp_name sp) f" "ok w" "spec_of (sp_name sp) w = Some sp"
    "dp_service_name (ro_spec r) = sp_name sp" "dict_get (w_services (other w)) (sp_name sp) = Some s"
    "30 * batches (batch_size r) (length (ss_replicas s)) \<le> length others"
  shows "on_course (sp\<lparr>sp_image := dp_new_image (ro_spec r)\<rparr>) (r\<lparr>ro_status := UPDATING\<rparr>) Rollout_Done
    (snd (rollout_run en (other # others) (Rollout_Ready r) w))"
proof -
  let ?sp = "sp\<lparr>sp_image := dp_new_image (ro_spec r)\<rparr>" and ?r = "r\<lparr>ro_status := UPDATING\<rparr>"
  have m: "ok (other w)" "spec_of (sp_name sp) (other w) = Some sp" using assms(1-3) by (auto simp: minds_def)
  obtain t w' where t: "begin_rollout r (other w) = (Inr t, w')" "ok w'" "on_course ?sp ?r t w'"
    using begin_rollout_run [OF m assms(4)] by (auto simp: runs_def)
  have "waits t \<and> turns_left t \<le> length others"
    using begin_leads [of "other w" r "length others"] assms(4-6) t(1) by (auto simp: leads_to_def)
  then have "on_course ?sp ?r Rollout_Done (snd (rollout_run en others t w'))"
    using assms(1,4) t(2,3) by (intro waiting_run) auto
  then show ?thesis using t(1) by simp
qed

end

section \<open>Properties\<close>

text \<open>However the loops of the control plane interleave, and whatever the others do to the stores,
  at most one task runs for a deployment, and a deployment counts as executing exactly as long as its
  task runs.\<close>

theorem one_task_per_rollout:
  assumes "(rollout_step en)\<^sup>*\<^sup>* (w0, no_rollouts) (w, ts)"
  shows "distinct (map fst (rt_tasks ts)) \<and> set (rt_executing ts) = set (map fst (rt_tasks ts))"
proof -
  have "one_task_each (snd (w, ts))"
    using assms
  proof (induction rule: rtranclp_induct)
    case base
    then show ?case by (simp add: one_task_each_def no_rollouts_def)
  next
    case (step y z)
    then show ?case using step_one_task by blast
  qed
  then show ?thesis by (simp add: one_task_each_def)
qed


abbreviation demo_rollout :: rollout_state where
  "demo_rollout \<equiv> \<lparr>ro_deployment_id = ''d1'', ro_spec = \<lparr>dp_service_name = ''web'', dp_new_image = ''img:3'',
     dp_strategy = \<lparr>st_max_surge = 1, st_max_unavailable = 0\<rparr>\<rparr>, ro_status = PENDING, ro_old_replica_ids = [],
     ro_new_replica_ids = [], ro_started_at = 0, ro_completed_at = None\<rparr>"

lemma demo_batches:
  "30 * batches (batch_size demo_rollout) (length (ss_replicas demo_service)) \<le> length (replicate 90 (\<lambda>w. w))"
  by (simp add: batches_def batch_size_def demo_service_def)

lemma demo_lookup: "dict_get (w_services demo_world) (dp_service_name (ro_spec demo_rollout)) = Some demo_service"
  by (simp add: demo_world_def)

theorem one_task_per_rollout_witness:
  "let ts = dispatch_rollouts [demo_rollout] (dispatch_rollouts [demo_rollout] no_rollouts) in
     map fst (rt_tasks ts) = [''d1''] \<and> distinct (map fst (rt_tasks ts)) \<and> set (rt_executing ts) = {''d1''}"
proof -
  let ?w = "demo_world\<lparr>w_deployments := [(''d1'', demo_rollout)]\<rparr>"
  let ?t1 = "dispatch_rollouts [demo_rollout] no_rollouts" and ?t2 = "dispatch_rollouts [demo_rollout] (dispatch_rollouts [demo_rollout] no_rollouts)"
  have d: "rollout_step plain_env (?w, ts) (?w, dispatch_rollouts [demo_rollout] ts)" for ts
    using rollout_step.Dispatch [of plain_env ?w ts] by simp
  have "(rollout_step plain_env)\<^sup>*\<^sup>* (?w, no_rollouts) (?w, ?t2)"
    using d [of no_rollouts] d [of ?t1] by (meson rtranclp.rtrancl_into_rtrancl r_into_rtranclp)
  from one_task_per_rollout [OF this] show ?thesis by (simp add: no_rollouts_def)
qed




text \<open>A rollout of a service that is not there never gets beyond its first state: its task ends, and
  the deployment stays stored as updating.\<close>

theorem rollout_without_service_stays_updating:
  assumes "dict_get (w_services w) (dp_service_name (ro_spec r)) = None"
  shows "\<exists>w'. rollout_turn en (Rollout_Ready r) w = (Inr Rollout_Done, w')
    \<and> dict_get (w_deployments w') (ro_deployment_id r) = Some (r\<lparr>ro_status := UPDATING\<rparr>)"
  using assms by (simp add: begin_rollout_def Let_def put_rollout_def get_service_def bind_p_def get_s_def mod_s_def ret_def)

theorem rollout_without_service_stays_updating_witness:
  "\<exists>w'. rollout_turn plain_env (Rollout_Ready demo_rollout) (demo_world\<lparr>w_services := []\<rparr>) = (Inr Rollout_Done, w')
    \<and> dict_get (w_deployments w') ''d1'' = Some (demo_rollout\<lparr>ro_status := UPDATING\<rparr>)"
  using rollout_without_service_stays_updating [of "demo_world\<lparr>w_services := []\<rparr>" demo_rollout plain_env] by simp

end
