(* ===== verification/HttpText.thy ===== *)
theory HttpText
  imports PyText
begin

text \<open>
  The text of HTTP messages in \<open>proxy/proxy_server.py\<close>: header lines, the values the proxy reads
  from them, the rewriting of request and response headers, and the responses the proxy makes itself.
  A message is a string of bytes.
\<close>

section \<open>Header lines\<close>

definition header_delimiter :: string where
  "header_delimiter = crlf @ crlf"

definition hop_by_hop_headers :: "string list" where
  "hop_by_hop_headers = [''connection'', ''keep-alive'', ''proxy-authenticate'', ''proxy-authorization'', ''te'',
     ''trailer'', ''transfer-encoding'', ''upgrade'']"

definition response_hop_by_hop_headers :: "string list" where
  "response_hop_by_hop_headers = filter (\<lambda>n. n \<noteq> ''transfer-encoding'') hop_by_hop_headers"

definition header_lines :: "string \<Rightarrow> string list" where
  "header_lines header_bytes = filter (\<lambda>line. line \<noteq> []) (split_crlf header_bytes)"

definition header_name :: "string \<Rightarrow> string option" where
  "header_name line = (if CHR '':'' \<notin> set line then None else Some (lower (strip (before_char CHR '':'' line))))"

text \<open>The first line with a name, and its value; \<open>find_header\<close> is the loop over the lines.\<close>

fun find_header :: "string list \<Rightarrow> string \<Rightarrow> string option" where
  "find_header [] name = None"
| "find_header (line # ls) name =
     (if header_name line = Some name then Some (strip (after_char CHR '':'' line)) else find_header ls name)"

definition header_value :: "string \<Rightarrow> string \<Rightarrow> string option" where
  "header_value header_bytes name = find_header (split_crlf header_bytes) name"

definition has_transfer_encoding :: "string \<Rightarrow> bool" where
  "has_transfer_encoding header_bytes \<longleftrightarrow> header_value header_bytes ''transfer-encoding'' \<noteq> None"

definition extract_content_length :: "string \<Rightarrow> nat option" where
  "extract_content_length header_bytes = (case header_value header_bytes ''content-length'' of
     None \<Rightarrow> None
   | Some value \<Rightarrow> (case py_int value of None \<Rightarrow> None
       | Some content_length \<Rightarrow> if content_length < 0 then None else Some (nat content_length)))"

definition extract_request_content_length :: "string \<Rightarrow> nat option" where
  "extract_request_content_length header_bytes = (case header_value header_bytes ''content-length'' of
     None \<Rightarrow> Some 0
   | Some value \<Rightarrow> extract_content_length header_bytes)"

fun find_host :: "string list \<Rightarrow> string option" where
  "find_host [] = None"
| "find_host (line # ls) = (if starts_with ''host:'' (lower line) then
     (let host_value = decode_replace (strip (drop 5 line));
          hostname = hd (split_char CHR '':'' host_value)
      in Some (if ends_with ''.localhost'' hostname then drop_last 10 hostname else hostname))
     else find_host ls)"

definition extract_service_name :: "string \<Rightarrow> string option" where
  "extract_service_name header_bytes = find_host (split_crlf header_bytes)"

definition extract_request_path :: "string \<Rightarrow> string" where
  "extract_request_path header_bytes = (case split_ws (hd (split_crlf header_bytes)) of
     _ # path # _ \<Rightarrow> decode_replace path
   | _ \<Rightarrow> [])"

definition is_websocket_upgrade :: "string \<Rightarrow> bool" where
  "is_websocket_upgrade header_bytes \<longleftrightarrow> contains_sub ''upgrade: websocket'' (lower header_bytes)"

definition extract_response_status :: "string \<Rightarrow> int option" where
  "extract_response_status response_bytes = (case split_ws (hd (split_crlf response_bytes)) of
     _ # status # _ \<Rightarrow> py_int status
   | _ \<Rightarrow> None)"

section \<open>Rewriting\<close>

definition kept_line :: "string list \<Rightarrow> string \<Rightarrow> bool" where
  "kept_line dropped line \<longleftrightarrow> (case header_name line of None \<Rightarrow> False | Some name \<Rightarrow> name \<notin> set dropped)"

definition rewrite_request_headers :: "string \<Rightarrow> string \<Rightarrow> int \<Rightarrow> string" where
  "rewrite_request_headers header_bytes upstream_host upstream_port = (case header_lines header_bytes of
     [] \<Rightarrow> header_bytes
   | first # ls \<Rightarrow> join crlf ([first, ''Host: '' @ upstream_host @ '':'' @ str_int upstream_port]
       @ filter (kept_line (''host'' # hop_by_hop_headers)) ls @ [''Connection: close'']) @ header_delimiter)"

definition rewrite_response_headers :: "string \<Rightarrow> string" where
  "rewrite_response_headers header_bytes = (case header_lines header_bytes of
     [] \<Rightarrow> header_bytes
   | first # ls \<Rightarrow> join crlf ([first] @ filter (kept_line response_hop_by_hop_headers) ls @ [''Connection: close''])
       @ header_delimiter)"

section \<open>The responses of the proxy itself\<close>

definition error_response :: "string \<Rightarrow> string \<Rightarrow> string" where
  "error_response status_line body = status_line @ crlf @ ''Content-Type: application/json'' @ crlf
     @ ''Content-Length: '' @ str_nat (length body) @ crlf @ ''Connection: close'' @ crlf @ crlf @ body"

definition response_503 :: string where
  "response_503 = error_response ''HTTP/1.1 503 Service Unavailable'' ''{\"error\": \"no healthy replica found\"}''"

definition response_502 :: string where
  "response_502 = error_response ''HTTP/1.1 502 Bad Gateway'' ''{\"error\": \"upstream unreachable\"}''"

definition response_504 :: string where
  "response_504 = error_response ''HTTP/1.1 504 Gateway Timeout'' ''{\"error\": \"upstream timeout\"}''"

definition response_400 :: string where
  "response_400 = error_response ''HTTP/1.1 400 Bad Request'' ''{\"error\": \"bad request\"}''"

definition response_403 :: string where
  "response_403 = error_response ''HTTP/1.1 403 Forbidden'' ''{\"error\": \"external ingress denied\"}''"

definition response_403_internal :: string where
  "response_403_internal = error_response ''HTTP/1.1 403 Forbidden'' ''{\"error\": \"internal ingress denied\"}''"

definition response_501 :: string where
  "response_501 = error_response ''HTTP/1.1 501 Not Implemented'' ''{\"error\": \"transfer encoding unsupported\"}''"

section \<open>Lemmas\<close>

lemma find_header_append:
  "find_header (xs @ ys) name = (case find_header xs name of None \<Rightarrow> find_header ys name | Some v \<Rightarrow> Some v)"
  by (induction xs) auto

lemma find_header_filter:
  "(\<And>l. header_name l = Some name \<Longrightarrow> P l) \<Longrightarrow> find_header (filter P ls) name = find_header ls name"
  by (induction ls) auto

lemma find_header_None: "(\<And>l. l \<in> set ls \<Longrightarrow> header_name l \<noteq> Some name) \<Longrightarrow> find_header ls name = None"
  by (induction ls) auto

lemma header_value_lines: "header_value h name = find_header (header_lines h) name"
  unfolding header_value_def header_lines_def
  by (rule find_header_filter [symmetric]) (auto simp: header_name_def)

lemma header_lines_pieces: "l \<in> set (header_lines h) \<Longrightarrow> no_crlf l \<and> l \<noteq> []"
  by (auto simp: header_lines_def dest: split_crlf_pieces)

lemma split_crlf_trailer: "split_crlf header_delimiter = [[], [], []]"
  by (simp add: header_delimiter_def crlf_def)

lemma join_snoc: "ls \<noteq> [] \<Longrightarrow> join sep ls @ sep @ r = join sep (ls @ [r])"
proof (induction ls)
  case (Cons l ls)
  then show ?case by (cases "ls = []") (auto simp: join_Cons)
qed simp

text \<open>A message built from lines has exactly those lines.\<close>

lemma header_lines_built:
  assumes "\<forall>l \<in> set ls. no_crlf l \<and> l \<noteq> []" "ls \<noteq> []"
  shows "header_lines (join crlf ls @ header_delimiter) = ls"
proof -
  have "join crlf ls @ header_delimiter = join crlf ((ls @ [[]]) @ [[]])"
    using join_snoc [OF assms(2), of crlf "[]"] join_snoc [of "ls @ [[]]" crlf "[]"]
    by (simp add: header_delimiter_def) (metis append_assoc)
  moreover have "split_crlf (join crlf ((ls @ [[]]) @ [[]])) = (ls @ [[]]) @ [[]]"
    by (rule split_join_crlf) (use assms in auto)
  ultimately have "split_crlf (join crlf ls @ header_delimiter) = ls @ [[], []]" by simp
  moreover have "filter (\<lambda>l. l \<noteq> []) ls = ls" using assms(1) by (intro filter_True) auto
  ultimately show ?thesis by (simp add: header_lines_def)
qed

lemma no_crlf_no_CR: "CR \<notin> set s \<Longrightarrow> no_crlf s"
  by (auto simp: no_crlf_def crlf_def sublist_def)

text \<open>The lines the proxy adds.\<close>

lemma last_digit: "s \<noteq> [] \<Longrightarrow> \<forall>c \<in> set s. is_digit c \<Longrightarrow> \<not> is_space (last s) \<and> CR \<notin> set s"
  using is_digit_not by (fastforce simp: is_digit_def)

lemma str_int_text: "str_int i \<noteq> [] \<and> \<not> is_space (last (str_int i)) \<and> CR \<notin> set (str_int i)"
  using last_digit [OF nat_digits_neq_Nil nat_digits_all] by (auto simp: str_int_def str_nat_def nat_digits_neq_Nil)

lemma host_line:
  assumes "host \<noteq> []" "\<forall>c \<in> set host. \<not> is_space c"
  shows "header_name (''Host: '' @ host @ '':'' @ str_int p) = Some ''host''"
    "strip (after_char CHR '':'' (''Host: '' @ host @ '':'' @ str_int p)) = host @ '':'' @ str_int p"
    "no_crlf (''Host: '' @ host @ '':'' @ str_int p)"
proof -
  have "before_char CHR '':'' (''Host: '' @ host @ '':'' @ str_int p) = ''Host''"
    using before_char_append [of "CHR '':''" "''Host''" "'' '' @ host @ '':'' @ str_int p"] by simp
  moreover have "lower (strip ''Host'') = ''host''" by code_simp
  ultimately show "header_name (''Host: '' @ host @ '':'' @ str_int p) = Some ''host''" by (simp add: header_name_def)
  have "after_char CHR '':'' (''Host: '' @ host @ '':'' @ str_int p) = CHR '' '' # host @ '':'' @ str_int p"
    using after_char_append [of "CHR '':''" "''Host''" "'' '' @ host @ '':'' @ str_int p"] by simp
  moreover have "strip (CHR '' '' # host @ '':'' @ str_int p) = strip (host @ '':'' @ str_int p)"
    by (simp add: strip_def is_space_def)
  moreover have "strip (host @ '':'' @ str_int p) = host @ '':'' @ str_int p"
    by (rule strip_id) (use assms str_int_text [of p] in \<open>auto simp: neq_Nil_conv\<close>)
  ultimately show "strip (after_char CHR '':'' (''Host: '' @ host @ '':'' @ str_int p)) = host @ '':'' @ str_int p" by simp
  have "is_space CR" by (simp add: is_space_def)
  then show "no_crlf (''Host: '' @ host @ '':'' @ str_int p)"
    using assms(2) str_int_text [of p] by (intro no_crlf_no_CR) auto
qed

lemma connection_line:
  "header_name ''Connection: close'' = Some ''connection''" "strip (after_char CHR '':'' ''Connection: close'') = ''close''"
  "no_crlf ''Connection: close''"
proof -
  show "header_name ''Connection: close'' = Some ''connection''" by code_simp
  show "strip (after_char CHR '':'' ''Connection: close'') = ''close''" by code_simp
  show "no_crlf ''Connection: close''" by (rule no_crlf_no_CR) simp
qed

lemma find_kept: "name \<notin> set dropped \<Longrightarrow> find_header (filter (kept_line dropped) ls) name = find_header ls name"
  by (rule find_header_filter) (simp add: kept_line_def)

lemma find_dropped: "name \<in> set dropped \<Longrightarrow> find_header (filter (kept_line dropped) ls) name = None"
  by (rule find_header_None) (auto simp: kept_line_def split: option.splits)

lemma rewritten_request_lines:
  assumes "header_lines h = first # ls" "host \<noteq> []" "\<forall>c \<in> set host. \<not> is_space c"
  shows "header_lines (rewrite_request_headers h host p) = [first, ''Host: '' @ host @ '':'' @ str_int p]
       @ filter (kept_line (''host'' # hop_by_hop_headers)) ls @ [''Connection: close'']"
  unfolding rewrite_request_headers_def assms(1) list.case
  by (rule header_lines_built)
    (use header_lines_pieces [of _ h] assms(1) host_line(3) [OF assms(2,3)] connection_line(3) in auto)

lemma rewritten_response_lines:
  assumes "header_lines h = first # ls"
  shows "header_lines (rewrite_response_headers h) = [first] @ filter (kept_line response_hop_by_hop_headers) ls @ [''Connection: close'']"
  unfolding rewrite_response_headers_def assms(1) list.case
  by (rule header_lines_built) (use header_lines_pieces [of _ h] assms(1) connection_line(3) in auto)

section \<open>Properties\<close>

text \<open>Rewriting a request for an upstream keeps its request line and every end-to-end header: a header
  that is neither \<open>Host\<close> nor a hop-by-hop header has the same value for the upstream as for the proxy
  (also the service token). The upstream sees its own address as \<open>Host\<close> and \<open>Connection: close\<close>, and no
  other hop-by-hop header, so neither a transfer encoding nor the \<open>Upgrade\<close> of a WebSocket.\<close>

theorem rewrite_request_values:
  assumes "header_lines h = first # ls" "header_name first = None" "host \<noteq> []" "\<forall>c \<in> set host. \<not> is_space c"
  shows "let r = rewrite_request_headers h host p in
    hd (header_lines r) = first
    \<and> (\<forall>name. name \<notin> set (''host'' # hop_by_hop_headers) \<longrightarrow> header_value r name = header_value h name)
    \<and> header_value r ''host'' = Some (host @ '':'' @ str_int p) \<and> header_value r ''connection'' = Some ''close''
    \<and> (\<forall>name \<in> set hop_by_hop_headers - {''connection''}. header_value r name = None)"
proof -
  note l = rewritten_request_lines [OF assms(1,3,4), of p] and c = connection_line and n = host_line [OF assms(3,4), of p]
  note f = find_header_append find_kept find_dropped
  let ?r = "rewrite_request_headers h host p"
  have "hd (header_lines ?r) = first" by (simp add: l)
  moreover have "name \<notin> set (''host'' # hop_by_hop_headers) \<longrightarrow> header_value ?r name = header_value h name" for name
    unfolding header_value_lines l assms(1)
    using c n assms(2) by (auto simp: f hop_by_hop_headers_def split: option.split simp del: append_assoc)
  moreover have "header_value ?r ''host'' = Some (host @ '':'' @ str_int p)"
    unfolding header_value_lines l using n(1,2) assms(2) by simp
  moreover have "header_value ?r ''connection'' = Some ''close''"
    unfolding header_value_lines l using c n(1) assms(2) by (simp add: f hop_by_hop_headers_def)
  moreover have "name \<in> set hop_by_hop_headers - {''connection''} \<longrightarrow> header_value ?r name = None" for name
    unfolding header_value_lines l using c(1) n(1) assms(2) by (auto simp: f hop_by_hop_headers_def)
  ultimately show ?thesis unfolding Let_def by blast
qed

definition demo_request :: string where
  "demo_request = join crlf [''GET /chat HTTP/1.1'', ''Host: web.localhost'', ''X-Aws-Light-Service-Token: abc'',
     ''Upgrade: websocket'', ''Accept: text/html''] @ header_delimiter"

theorem rewrite_request_values_witness:
  "header_value (rewrite_request_headers demo_request ''10.0.0.2'' 80) ''x-aws-light-service-token'' = Some ''abc''
    \<and> header_value (rewrite_request_headers demo_request ''10.0.0.2'' 80) ''upgrade'' = None"
proof -
  have l: "header_lines demo_request = ''GET /chat HTTP/1.1'' # [''Host: web.localhost'', ''X-Aws-Light-Service-Token: abc'',
     ''Upgrade: websocket'', ''Accept: text/html'']" by code_simp
  have n: "header_name ''GET /chat HTTP/1.1'' = None" by (simp add: header_name_def)
  have h: "\<forall>c \<in> set ''10.0.0.2''. \<not> is_space c" by (simp add: is_space_def)
  have v: "header_value demo_request ''x-aws-light-service-token'' = Some ''abc''" by code_simp
  show ?thesis using rewrite_request_values [OF l n _ h, of 80] v by (simp add: Let_def hop_by_hop_headers_def)
qed

end
