(* ===== verification/ProxyMetrics.thy ===== *)
theory ProxyMetrics
  imports PyText PyFloat Models
begin

text \<open>
  The counters of the proxy (\<open>_ProxyTrafficActivity\<close> and \<open>_ProxyMetrics\<close> in
  \<open>proxy/proxy_server.py\<close>): what a request adds to them, the snapshot the event bus gets every ten
  seconds, and the flush that adds the pending counts to those in Redis every second. The locks
  make each of these one step.
\<close>

section \<open>Counters\<close>

text \<open>\<open>collections.Counter\<close>: a missing key counts as zero.\<close>

definition count_of :: "('k, int) pydict \<Rightarrow> 'k \<Rightarrow> int" where
  "count_of d k = dict_get_or d k 0"

definition count_add :: "'k \<Rightarrow> int \<Rightarrow> ('k, int) pydict \<Rightarrow> ('k, int) pydict" where
  "count_add k n d = dict_put k (count_of d k + n) d"

text \<open>\<open>defaultdict(Counter)\<close>: \<open>d[bucket][k] += n\<close>.\<close>

definition bucket_add :: "int \<Rightarrow> 'k \<Rightarrow> int \<Rightarrow> (int, ('k, int) pydict) pydict \<Rightarrow> (int, ('k, int) pydict) pydict" where
  "bucket_add b k n d = dict_put b (count_add k n (dict_get_or d b [])) d"

section \<open>The traffic of the last seconds\<close>

record traffic =
  tr_total :: int
  tr_by_service :: "(string, int) pydict"
  tr_by_status :: "(int, int) pydict"
  tr_failures :: "(string, int) pydict"

record traffic_snapshot =
  sn_total :: int
  sn_by_service :: "(string, int) pydict"
  sn_by_status :: "(string, int) pydict"
  sn_failures :: "(string, int) pydict"

definition no_traffic :: traffic where
  "no_traffic = \<lparr>tr_total = 0, tr_by_service = [], tr_by_status = [], tr_failures = []\<rparr>"

text \<open>\<open>service_name or "__unknown__"\<close>; an empty name counts as missing. \<open>truthy\<close> is the truth value of a
  \<open>str | None\<close>.\<close>

definition known_name :: "string option \<Rightarrow> string" where
  "known_name service_name = (case service_name of None \<Rightarrow> ''__unknown__'' | Some n \<Rightarrow> if n = [] then ''__unknown__'' else n)"

definition truthy :: "string option \<Rightarrow> bool" where
  "truthy s \<longleftrightarrow> s \<noteq> None \<and> s \<noteq> Some []"

definition traffic_record :: "string option \<Rightarrow> int \<Rightarrow> string option \<Rightarrow> traffic \<Rightarrow> traffic" where
  "traffic_record service_name status_code failure_reason t = t\<lparr>
     tr_total := tr_total t + 1,
     tr_by_service := count_add (known_name service_name) 1 (tr_by_service t),
     tr_by_status := count_add status_code 1 (tr_by_status t),
     tr_failures := (if truthy failure_reason then count_add (the failure_reason) 1 (tr_failures t) else tr_failures t)\<rparr>"

definition traffic_snapshot :: "traffic \<Rightarrow> traffic_snapshot \<times> traffic" where
  "traffic_snapshot t = (\<lparr>sn_total = tr_total t, sn_by_service = tr_by_service t,
     sn_by_status = dict_of_list (map (\<lambda>(status, count). (str_int status, count)) (tr_by_status t)),
     sn_failures = tr_failures t\<rparr>, no_traffic)"

section \<open>The metrics\<close>

record metrics =
  me_total :: int
  me_by_service :: "(string, int) pydict"
  me_by_status :: "(int, int) pydict"
  me_failures :: "(string, int) pydict"
  me_last_duration_ms :: "(string, pyfloat) pydict"
  me_rps :: "(string, int) pydict"
  me_ts_requests :: "(int, (string, int) pydict) pydict"
  me_ts_status :: "(int, (string, int) pydict) pydict"
  me_ts_latency_sum :: "(int, (string, int) pydict) pydict"
  me_ts_latency_count :: "(int, (string, int) pydict) pydict"
  me_ts_errors :: "(int, (string, int) pydict) pydict"

definition no_metrics :: metrics where
  "no_metrics = \<lparr>me_total = 0, me_by_service = [], me_by_status = [], me_failures = [], me_last_duration_ms = [], me_rps = [],
     me_ts_requests = [], me_ts_status = [], me_ts_latency_sum = [], me_ts_latency_count = [], me_ts_errors = []\<rparr>"

text \<open>\<open>now\<close> is \<open>time.time()\<close> rounded down to seconds.\<close>

definition metrics_record :: "int \<Rightarrow> string option \<Rightarrow> int \<Rightarrow> string option \<Rightarrow> pyfloat \<Rightarrow> metrics \<Rightarrow> metrics" where
  "metrics_record now service_name status_code failure_reason duration_ms m =
    (let bucket = now div 10 * 10; timeseries_service = known_name service_name in m\<lparr>
     me_total := me_total m + 1,
     me_by_status := count_add status_code 1 (me_by_status m),
     me_by_service := (if truthy service_name then count_add (the service_name) 1 (me_by_service m) else me_by_service m),
     me_last_duration_ms := (if truthy service_name then dict_put (the service_name) duration_ms (me_last_duration_ms m)
        else me_last_duration_ms m),
     me_rps := (if truthy service_name then count_add (the service_name) 1 (me_rps m) else me_rps m),
     me_ts_requests := bucket_add bucket timeseries_service 1 (me_ts_requests m),
     me_ts_status := bucket_add bucket (str_int status_code) 1 (me_ts_status m),
     me_ts_latency_sum := bucket_add bucket timeseries_service (float_to_int (fmul duration_ms 100)) (me_ts_latency_sum m),
     me_ts_latency_count := bucket_add bucket timeseries_service 1 (me_ts_latency_count m),
     me_ts_errors := (if 500 \<le> status_code then bucket_add bucket timeseries_service 1 (me_ts_errors m) else me_ts_errors m),
     me_failures := (if truthy failure_reason then count_add (the failure_reason) 1 (me_failures m) else me_failures m)\<rparr>)"

text \<open>\<open>f"{x:.2f}"\<close>: the nearest decimal with two places, ties to even.\<close>

definition format_2f :: "pyfloat \<Rightarrow> string" where
  "format_2f x = (let n = round_even (\<bar>x\<bar> * 100) in
     (if x < 0 then ''-'' else []) @ str_int (n div 100) @ ''.'' @ str_int (n div 10 mod 10) @ str_int (n mod 10))"

text \<open>The keys of Redis the proxy writes: counters, fields of hashes, and texts.\<close>

record metric_redis =
  mr_counters :: "(string, int) pydict"
  mr_hashes :: "(string \<times> string, int) pydict"
  mr_texts :: "(string, string) pydict"
  mr_reachable :: bool

definition incrby :: "string \<Rightarrow> int \<Rightarrow> metric_redis \<Rightarrow> metric_redis" where
  "incrby key n r = r\<lparr>mr_counters := count_add key n (mr_counters r)\<rparr>"

definition hincrby :: "string \<Rightarrow> string \<Rightarrow> int \<Rightarrow> metric_redis \<Rightarrow> metric_redis" where
  "hincrby key field n r = r\<lparr>mr_hashes := count_add (key, field) n (mr_hashes r)\<rparr>"

definition set_text :: "string \<Rightarrow> string \<Rightarrow> metric_redis \<Rightarrow> metric_redis" where
  "set_text key v r = r\<lparr>mr_texts := dict_put key v (mr_texts r)\<rparr>"

definition push_series :: "string \<Rightarrow> (int, (string, int) pydict) pydict \<Rightarrow> metric_redis \<Rightarrow> metric_redis" where
  "push_series name d r = foldl (\<lambda>r (bucket, values).
     foldl (\<lambda>r (field, n). hincrby (name @ str_int bucket) field n r) r values) r d"

text \<open>The commands of the pipeline, in their order.\<close>

definition push_metrics :: "metrics \<Rightarrow> metric_redis \<Rightarrow> metric_redis" where
  "push_metrics m r =
    (let r = incrby ''proxy:requests:total'' (me_total m) r;
         r = foldl (\<lambda>r (service, n). incrby (''rps:'' @ service) n r) r (me_rps m);
         r = foldl (\<lambda>r (status_code, n). hincrby ''proxy:responses:status'' (str_int status_code) n r) r (me_by_status m);
         r = foldl (\<lambda>r (service, n). hincrby ''proxy:requests:service'' service n r) r (me_by_service m);
         r = foldl (\<lambda>r (service, d). set_text (''proxy:last_duration_ms:'' @ service) (format_2f d) r) r (me_last_duration_ms m);
         r = push_series ''proxy:ts:requests:'' (me_ts_requests m) r;
         r = push_series ''proxy:ts:status:'' (me_ts_status m) r;
         r = push_series ''proxy:ts:latency_sum:'' (me_ts_latency_sum m) r;
         r = push_series ''proxy:ts:latency_count:'' (me_ts_latency_count m) r;
         r = push_series ''proxy:ts:errors:'' (me_ts_errors m) r
     in foldl (\<lambda>r (reason, n). hincrby ''proxy:failures'' reason n r) r (me_failures m))"

text \<open>The flush takes the counts and clears them before it executes the pipeline; the transaction of the
  pipeline is applied whole or, when Redis cannot be reached, not at all.\<close>

definition metrics_flush :: "(metrics \<times> metric_redis, unit) prog" where
  "metrics_flush = (\<lambda>(m, r). if me_total m = 0 then (Inr (), (no_metrics, r))
     else if mr_reachable r then (Inr (), (no_metrics, push_metrics m r))
     else (Inl OSError, (no_metrics, r)))"

text \<open>\<open>_metric_flush_loop\<close>, one turn after each second; an exception ends the task (\<open>False\<close>).\<close>

definition flush_turn :: "bool \<times> metrics \<times> metric_redis \<Rightarrow> bool \<times> metrics \<times> metric_redis" where
  "flush_turn = (\<lambda>(alive, mr). if alive then (case metrics_flush mr of (Inr _, mr') \<Rightarrow> (True, mr') | (Inl _, mr') \<Rightarrow> (False, mr'))
     else (False, mr))"

section \<open>Counting\<close>

lemma count_of_add [simp]: "count_of (count_add k n d) k' = (if k' = k then count_of d k' + n else count_of d k')"
  by (simp add: count_of_def count_add_def dict_get_or_def)

lemma wf_count_add [simp]: "wf_dict d \<Longrightarrow> wf_dict (count_add k n d)"
  by (simp add: count_add_def)

lemma count_of_Nil [simp]: "count_of [] k = 0"
  by (simp add: count_of_def dict_get_or_def)

lemma count_of_Cons: "count_of ((a, n) # d) k = (if k = a then n else count_of d k)"
  by (simp add: count_of_def dict_get_or_def)

text \<open>Adding up the entries of a dictionary under the images of their keys.\<close>

lemma count_push:
  assumes "inj f" "wf_dict d"
  shows "count_of (foldl (\<lambda>h (k, n). count_add (f k) n h) h d) (f k) = count_of h (f k) + count_of d k"
  using assms(2)
proof (induction d arbitrary: h)
  case (Cons p d)
  obtain a n where p: "p = (a, n)" by (cases p)
  have "dict_get d a = None" using Cons.prems p by (auto simp: wf_dict_def map_of_eq_None_iff)
  then have "count_of d a = 0" by (simp add: count_of_def dict_get_or_def)
  then show ?case using Cons p injD [OF assms(1)] by (auto simp: wf_dict_def count_of_Cons)
qed simp

lemma count_push_other:
  assumes "\<And>j. k \<noteq> f j"
  shows "count_of (foldl (\<lambda>h (j, n). count_add (f j) n h) h d) k = count_of h k"
  by (induction d arbitrary: h) (auto simp: assms)

lemma push_hashes:
  "mr_hashes (foldl (\<lambda>r (k, n). hincrby key (g k) n r) r d) = foldl (\<lambda>h (k, n). count_add (key, g k) n h) (mr_hashes r) d"
  "mr_counters (foldl (\<lambda>r (k, n). hincrby key (g k) n r) r d) = mr_counters r"
  "mr_reachable (foldl (\<lambda>r (k, n). hincrby key (g k) n r) r d) = mr_reachable r"
  by (induction d arbitrary: r) (auto simp: hincrby_def)

lemma push_counters:
  "mr_counters (foldl (\<lambda>r (k, n). incrby (g k) n r) r d) = foldl (\<lambda>h (k, n). count_add (g k) n h) (mr_counters r) d"
  "mr_hashes (foldl (\<lambda>r (k, n). incrby (g k) n r) r d) = mr_hashes r"
  "mr_reachable (foldl (\<lambda>r (k, n). incrby (g k) n r) r d) = mr_reachable r"
  by (induction d arbitrary: r) (auto simp: incrby_def)

lemma push_texts:
  "mr_counters (foldl (\<lambda>r (k, v). set_text (g k) (h v) r) r d) = mr_counters r"
  "mr_hashes (foldl (\<lambda>r (k, v). set_text (g k) (h v) r) r d) = mr_hashes r"
  "mr_reachable (foldl (\<lambda>r (k, v). set_text (g k) (h v) r) r d) = mr_reachable r"
  by (induction d arbitrary: r) (auto simp: set_text_def)

lemma push_series_frame:
  "mr_counters (push_series name d r) = mr_counters r" "mr_reachable (push_series name d r) = mr_reachable r"
proof -
  have "mr_counters (push_series name d r) = mr_counters r \<and> mr_reachable (push_series name d r) = mr_reachable r"
    unfolding push_series_def
  proof (induction d arbitrary: r)
    case (Cons p d)
    then show ?case using push_hashes(2,3) [where g = "\<lambda>k. k"] by (cases p) simp
  qed simp
  then show "mr_counters (push_series name d r) = mr_counters r" "mr_reachable (push_series name d r) = mr_reachable r" by auto
qed

lemma push_series_other:
  assumes "\<And>b. key \<noteq> name @ str_int b"
  shows "count_of (mr_hashes (push_series name d r)) (key, f) = count_of (mr_hashes r) (key, f)"
  unfolding push_series_def
proof (induction d arbitrary: r)
  case (Cons p d)
  obtain b v where p: "p = (b, v)" by (cases p)
  have "count_of (foldl (\<lambda>h (k, n). count_add (name @ str_int b, k) n h) (mr_hashes r) v) (key, f) = count_of (mr_hashes r) (key, f)"
    by (rule count_push_other) (use assms in auto)
  then show ?case using Cons p push_hashes(1) [where g = "\<lambda>k. k"] by simp
qed simp

text \<open>A series of buckets.\<close>

definition in_bucket :: "(int, (string, int) pydict) pydict \<Rightarrow> int \<Rightarrow> string \<Rightarrow> int" where
  "in_bucket d b f = count_of (dict_get_or d b []) f"

definition wf_series :: "(int, (string, int) pydict) pydict \<Rightarrow> bool" where
  "wf_series d \<longleftrightarrow> wf_dict d \<and> (\<forall>v \<in> set (dict_values d). wf_dict v)"

lemma in_bucket_add [simp]:
  "in_bucket (bucket_add b k n d) b' f = (if b' = b \<and> f = k then in_bucket d b' f + n else in_bucket d b' f)"
  by (simp add: in_bucket_def bucket_add_def dict_get_or_def)

lemma wf_bucket_add [simp]: "wf_series d \<Longrightarrow> wf_series (bucket_add b k n d)"
  by (auto simp: wf_series_def bucket_add_def set_dict_put dict_get_or_def split: option.split dest!: map_of_SomeD)

lemma str_int_inj: "inj str_int"
proof (rule injI)
  have d: "hd (str_nat n) \<noteq> CHR ''-''" for n
    using nat_digits_all [of n] hd_in_set [OF nat_digits_neq_Nil, of n] is_digit_not [of "hd (nat_digits n)"] by (auto simp: str_nat_def)
  have e: "str_nat a = str_nat b \<Longrightarrow> a = b" for a b by (simp add: str_nat_inject)
  fix i j :: int assume a: "str_int i = str_int j"
  have "CHR ''-'' # s \<noteq> str_nat n" for s n using d [of n] by (cases "str_nat n") auto
  then show "i = j" using a e [of "nat i" "nat j"] e [of "nat (- i)" "nat (- j)"]
    by (auto simp: str_int_def split: if_splits dest: sym)
qed

lemma push_series_own:
  "wf_series d \<Longrightarrow> count_of (mr_hashes (push_series name d r)) (name @ str_int b, f) = count_of (mr_hashes r) (name @ str_int b, f) + in_bucket d b f"
  unfolding push_series_def
proof (induction d arbitrary: r)
  case (Cons p d)
  obtain c v where p: "p = (c, v)" by (cases p)
  have wf: "wf_dict v" "wf_series d" "dict_get d c = None" using Cons.prems p
    by (auto simp: wf_series_def wf_dict_def map_of_eq_None_iff)
  let ?h = "foldl (\<lambda>h (k, n). count_add (name @ str_int c, k) n h) (mr_hashes r) v"
  have "count_of ?h (name @ str_int b, f) = count_of (mr_hashes r) (name @ str_int b, f) + (if b = c then count_of v f else 0)"
  proof (cases "b = c")
    case True
    then show ?thesis using count_push [of "\<lambda>k. (name @ str_int c, k)" v "mr_hashes r" f] wf(1) by (simp add: inj_def)
  next
    case False
    then show ?thesis using injD [OF str_int_inj, of b c]
      by (subst count_push_other) auto
  qed
  then show ?case using Cons.IH [OF wf(2)] p wf(3) push_hashes(1) [where g = "\<lambda>k. k"]
    by (simp add: in_bucket_def dict_get_or_def)
qed (simp add: in_bucket_def dict_get_or_def)

section \<open>What Redis and the proxy hold together\<close>

definition wf_metrics :: "metrics \<Rightarrow> bool" where
  "wf_metrics m \<longleftrightarrow> wf_dict (me_by_status m) \<and> wf_dict (me_by_service m) \<and> wf_dict (me_rps m) \<and> wf_dict (me_failures m)
     \<and> wf_series (me_ts_requests m) \<and> wf_series (me_ts_errors m) \<and> 0 \<le> me_total m \<and> (me_total m = 0 \<longrightarrow> m = no_metrics)"

lemma wf_no_metrics [simp]: "wf_metrics no_metrics"
  by (simp add: wf_metrics_def no_metrics_def wf_series_def)

lemma wf_metrics_record: "wf_metrics m \<Longrightarrow> wf_metrics (metrics_record now svc st fr d m)"
  by (simp add: wf_metrics_def metrics_record_def Let_def)

text \<open>One count of each kind, as the sum of what Redis holds and what the proxy has not flushed yet.\<close>

datatype gauge = GTotal | GStatus int | GService string | GRps string | GFailure string | GRequests int string | GErrors int string

fun stored :: "gauge \<Rightarrow> metric_redis \<Rightarrow> int" where
  "stored GTotal r = count_of (mr_counters r) ''proxy:requests:total''"
| "stored (GStatus s) r = count_of (mr_hashes r) (''proxy:responses:status'', str_int s)"
| "stored (GService n) r = count_of (mr_hashes r) (''proxy:requests:service'', n)"
| "stored (GRps n) r = count_of (mr_counters r) (''rps:'' @ n)"
| "stored (GFailure f) r = count_of (mr_hashes r) (''proxy:failures'', f)"
| "stored (GRequests b n) r = count_of (mr_hashes r) (''proxy:ts:requests:'' @ str_int b, n)"
| "stored (GErrors b n) r = count_of (mr_hashes r) (''proxy:ts:errors:'' @ str_int b, n)"

fun pending :: "gauge \<Rightarrow> metrics \<Rightarrow> int" where
  "pending GTotal m = me_total m"
| "pending (GStatus s) m = count_of (me_by_status m) s"
| "pending (GService n) m = count_of (me_by_service m) n"
| "pending (GRps n) m = count_of (me_rps m) n"
| "pending (GFailure f) m = count_of (me_failures m) f"
| "pending (GRequests b n) m = in_bucket (me_ts_requests m) b n"
| "pending (GErrors b n) m = in_bucket (me_ts_errors m) b n"

lemma pending_none [simp]: "pending g no_metrics = 0"
  by (cases g) (simp_all add: no_metrics_def in_bucket_def dict_get_or_def)

lemmas push_frames = push_hashes(2,3) [where g = "\<lambda>k. k"] push_hashes(2,3) push_counters(2,3) push_texts push_series_frame

lemma push_keyed:
  assumes "inj g" "wf_dict d"
  shows "count_of (mr_hashes (foldl (\<lambda>r (k, n). hincrby key (g k) n r) r d)) (key, g k) = count_of (mr_hashes r) (key, g k) + count_of d k"
    "key' \<noteq> key \<Longrightarrow> count_of (mr_hashes (foldl (\<lambda>r (k, n). hincrby key (g k) n r) r d)) (key', f) = count_of (mr_hashes r) (key', f)"
proof -
  have "inj (\<lambda>k. (key, g k))" using assms(1) by (simp add: inj_def)
  from count_push [OF this assms(2)] show "count_of (mr_hashes (foldl (\<lambda>r (k, n). hincrby key (g k) n r) r d)) (key, g k)
      = count_of (mr_hashes r) (key, g k) + count_of d k" by (simp add: push_hashes(1))
  assume "key' \<noteq> key"
  then show "count_of (mr_hashes (foldl (\<lambda>r (k, n). hincrby key (g k) n r) r d)) (key', f) = count_of (mr_hashes r) (key', f)"
    by (simp add: push_hashes(1)) (rule count_push_other, simp)
qed

lemma push_rps:
  assumes "wf_dict d"
  shows "count_of (mr_counters (foldl (\<lambda>r (k, n). incrby (''rps:'' @ k) n r) r d)) (''rps:'' @ k) = count_of (mr_counters r) (''rps:'' @ k) + count_of d k"
    "count_of (mr_counters (foldl (\<lambda>r (k, n). incrby (''rps:'' @ k) n r) r d)) ''proxy:requests:total'' = count_of (mr_counters r) ''proxy:requests:total''"
proof -
  show "count_of (mr_counters (foldl (\<lambda>r (k, n). incrby (''rps:'' @ k) n r) r d)) (''rps:'' @ k) = count_of (mr_counters r) (''rps:'' @ k) + count_of d k"
    unfolding push_counters(1) by (rule count_push [OF _ assms, where f = "\<lambda>k. ''rps:'' @ k"]) (simp add: inj_def)
  show "count_of (mr_counters (foldl (\<lambda>r (k, n). incrby (''rps:'' @ k) n r) r d)) ''proxy:requests:total'' = count_of (mr_counters r) ''proxy:requests:total''"
    unfolding push_counters(1) by (rule count_push_other) simp
qed

lemma push_total:
  "mr_hashes (incrby key n r) = mr_hashes r"
  "count_of (mr_counters (incrby ''proxy:requests:total'' n r)) ''proxy:requests:total'' = count_of (mr_counters r) ''proxy:requests:total'' + n"
  "count_of (mr_counters (incrby ''proxy:requests:total'' n r)) (''rps:'' @ k) = count_of (mr_counters r) (''rps:'' @ k)"
  by (simp_all add: incrby_def)

text \<open>The hashes have different names.\<close>

lemma hash_names:
  "''proxy:responses:status'' \<noteq> ''proxy:requests:service''" "''proxy:responses:status'' \<noteq> ''proxy:failures''"
  "''proxy:requests:service'' \<noteq> ''proxy:responses:status''" "''proxy:requests:service'' \<noteq> ''proxy:failures''"
  "''proxy:failures'' \<noteq> ''proxy:requests:service''" "''proxy:failures'' \<noteq> ''proxy:responses:status''"
  by simp_all

lemma series_names:
  "''proxy:ts:requests:'' @ x \<noteq> ''proxy:responses:status''" "''proxy:ts:requests:'' @ x \<noteq> ''proxy:requests:service''"
  "''proxy:ts:requests:'' @ x \<noteq> ''proxy:failures''" "''proxy:ts:errors:'' @ x \<noteq> ''proxy:responses:status''"
  "''proxy:ts:errors:'' @ x \<noteq> ''proxy:requests:service''" "''proxy:ts:errors:'' @ x \<noteq> ''proxy:failures''"
  by simp_all

lemma series_other:
  assumes "key \<in> {''proxy:responses:status'', ''proxy:requests:service'', ''proxy:failures''}"
    "name \<in> {''proxy:ts:requests:'', ''proxy:ts:status:'', ''proxy:ts:latency_sum:'', ''proxy:ts:latency_count:'', ''proxy:ts:errors:''}"
  shows "count_of (mr_hashes (push_series name d r)) (key, f) = count_of (mr_hashes r) (key, f)"
  by (rule push_series_other) (use assms in auto)

lemma series_series:
  assumes "(name', name) \<in> {''proxy:ts:requests:'', ''proxy:ts:errors:''} \<times>
     {''proxy:ts:requests:'', ''proxy:ts:status:'', ''proxy:ts:latency_sum:'', ''proxy:ts:latency_count:'', ''proxy:ts:errors:''}" "name' \<noteq> name"
  shows "count_of (mr_hashes (push_series name d r)) (name' @ x, f) = count_of (mr_hashes r) (name' @ x, f)"
  by (rule push_series_other) (use assms in auto)

lemma push_metrics_stored:
  assumes "wf_metrics m"
  shows "stored g (push_metrics m r) = stored g r + pending g m"
proof -
  have wf: "wf_dict (me_by_status m)" "wf_dict (me_by_service m)" "wf_dict (me_rps m)" "wf_dict (me_failures m)"
      "wf_series (me_ts_requests m)" "wf_series (me_ts_errors m)" using assms by (auto simp: wf_metrics_def)
  have id: "inj (\<lambda>k. k)" by (simp add: inj_def)
  note p = push_metrics_def Let_def push_frames push_keyed [OF str_int_inj wf(1)] push_keyed [OF id wf(2)] push_keyed [OF id wf(4)]
    push_rps [OF wf(3)] push_total hash_names series_names
  show ?thesis
  proof (cases g)
    case (GRequests b n)
    show ?thesis unfolding GRequests stored.simps pending.simps
      by (simp only: p not_False_eq_True)
        (simp only: series_series insert_iff mem_Sigma_iff HOL.simp_thms list.inject char.inject push_series_own [OF wf(5)] p)
  next
    case (GErrors b n)
    show ?thesis unfolding GErrors stored.simps pending.simps
      by (simp only: p not_False_eq_True)
        (simp only: push_series_own [OF wf(6)] series_series insert_iff mem_Sigma_iff HOL.simp_thms list.inject char.inject p)
  qed (simp_all only: stored.simps pending.simps p series_other insert_iff HOL.simp_thms)
qed

section \<open>Properties\<close>

datatype metric_op = RecordRequest int "string option" int "string option" pyfloat | FlushMetrics

definition metric_step :: "metric_op \<Rightarrow> metrics \<times> metric_redis \<Rightarrow> metrics \<times> metric_redis" where
  "metric_step oper mr = (case oper of
     RecordRequest now svc st fr d \<Rightarrow> (metrics_record now svc st fr d (fst mr), snd mr)
   | FlushMetrics \<Rightarrow> snd (metrics_flush mr))"

text \<open>Whether a request counts for a gauge.\<close>

fun counts_for :: "gauge \<Rightarrow> metric_op \<Rightarrow> bool" where
  "counts_for g FlushMetrics = False"
| "counts_for GTotal (RecordRequest now svc st fr d) = True"
| "counts_for (GStatus s) (RecordRequest now svc st fr d) = (st = s)"
| "counts_for (GService n) (RecordRequest now svc st fr d) = (n \<noteq> [] \<and> svc = Some n)"
| "counts_for (GRps n) (RecordRequest now svc st fr d) = (n \<noteq> [] \<and> svc = Some n)"
| "counts_for (GFailure f) (RecordRequest now svc st fr d) = (f \<noteq> [] \<and> fr = Some f)"
| "counts_for (GRequests b n) (RecordRequest now svc st fr d) = (now div 10 * 10 = b \<and> known_name svc = n)"
| "counts_for (GErrors b n) (RecordRequest now svc st fr d) = (now div 10 * 10 = b \<and> known_name svc = n \<and> 500 \<le> st)"

lemma record_pending:
  "pending g (metrics_record now svc st fr d m) = pending g m + (if counts_for g (RecordRequest now svc st fr d) then 1 else 0)"
  by (cases g; cases svc; cases fr) (auto simp: metrics_record_def Let_def truthy_def)

lemma push_reachable: "mr_reachable (push_metrics m r) = mr_reachable r"
proof -
  have "mr_reachable (incrby key n r) = mr_reachable r" for key n by (simp add: incrby_def)
  then show ?thesis by (simp only: push_metrics_def Let_def push_frames)
qed

lemma flush_keeps:
  assumes "wf_metrics m" "mr_reachable r" "metrics_flush (m, r) = (res, m', r')"
  shows "wf_metrics m' \<and> mr_reachable r' \<and> stored g r' + pending g m' = stored g r + pending g m"
  using assms push_metrics_stored [OF assms(1), of g r]
  by (cases "me_total m = 0")
    (auto simp: metrics_flush_def push_reachable wf_metrics_def [of m])

lemma metric_steps_count:
  assumes "mr_reachable r0" "fold metric_step ops (no_metrics, r0) = (m, r)"
  shows "mr_reachable r \<and> stored g r + pending g m = stored g r0 + int (length (filter (counts_for g) ops))
    \<and> (ops \<noteq> [] \<and> last ops = FlushMetrics \<longrightarrow> pending g m = 0)"
proof -
  have "wf_metrics m \<and> mr_reachable r \<and> stored g r + pending g m = stored g r0 + int (length (filter (counts_for g) ops))"
    using assms(2)
  proof (induction ops arbitrary: m r rule: rev_induct)
    case Nil
    then show ?case using assms(1) by simp
  next
    case (snoc oper ops)
    obtain m1 r1 where 1: "fold metric_step ops (no_metrics, r0) = (m1, r1)" by fastforce
    note ih = snoc.IH [OF 1]
    have st: "metric_step oper (m1, r1) = (m, r)" using snoc.prems 1 by simp
    show ?case
    proof (cases oper)
      case (RecordRequest now svc st fr d)
      then have "m = metrics_record now svc st fr d m1" "r = r1" using st by (simp_all add: metric_step_def)
      then show ?thesis using ih RecordRequest by (simp add: record_pending wf_metrics_record)
    next
      case FlushMetrics
      obtain res where "metrics_flush (m1, r1) = (res, m, r)"
        using st FlushMetrics by (cases "metrics_flush (m1, r1)") (auto simp: metric_step_def)
      from flush_keeps [OF _ _ this, of g] ih FlushMetrics show ?thesis by simp
    qed
  qed
  moreover have "m = no_metrics" if "ops = ops' @ [FlushMetrics]" for ops'
  proof -
    have "metric_step FlushMetrics (fold metric_step ops' (no_metrics, r0)) = (m, r)" using assms(2) that by simp
    then show ?thesis
      by (cases "fold metric_step ops' (no_metrics, r0)") (auto simp: metric_step_def metrics_flush_def split: if_splits)
  qed
  then have "ops \<noteq> [] \<and> last ops = FlushMetrics \<Longrightarrow> m = no_metrics" by (metis append_butlast_last_id)
  ultimately show ?thesis by auto
qed

text \<open>While Redis can be reached no request is lost and none counted twice: after any sequence of
  requests and flushes, what Redis holds of a count (all requests, those of a status, a service, a
  failure reason, the rate of a service, the requests and errors of a service in a ten second bucket)
  and what the proxy has not flushed yet add up to the number of such requests. After a flush Redis
  holds all of them.\<close>

theorem metrics_count_every_request:
  assumes "mr_reachable r0" "fold metric_step ops (no_metrics, r0) = (m, r)"
  shows "stored g r + pending g m = stored g r0 + int (length (filter (counts_for g) ops))
    \<and> (ops \<noteq> [] \<and> last ops = FlushMetrics \<longrightarrow> pending g m = 0)"
  using metric_steps_count [OF assms, of g] by blast

abbreviation empty_redis :: metric_redis where
  "empty_redis \<equiv> \<lparr>mr_counters = [], mr_hashes = [], mr_texts = [], mr_reachable = True\<rparr>"

theorem metrics_count_every_request_witness:
  "stored (GStatus 200) (snd (fold metric_step [RecordRequest 1 (Some ''web'') 200 None 3, FlushMetrics,
     RecordRequest 2 None 503 (Some ''missing_host'') 0, RecordRequest 12 (Some ''web'') 200 None 5, FlushMetrics]
     (no_metrics, empty_redis))) = 2"
proof -
  let ?ops = "[RecordRequest 1 (Some ''web'') 200 None 3, FlushMetrics,
     RecordRequest 2 None 503 (Some ''missing_host'') 0, RecordRequest 12 (Some ''web'') 200 None 5, FlushMetrics]"
  obtain m r where mr: "fold metric_step ?ops (no_metrics, empty_redis) = (m, r)" by (metis surj_pair)
  have "stored (GStatus 200) r + pending (GStatus 200) m = 2 \<and> pending (GStatus 200) m = 0"
    using metrics_count_every_request [OF _ mr, of "GStatus 200"] by simp
  then show ?thesis unfolding mr by simp
qed

text \<open>A flush that cannot reach Redis loses the counts it was to write: they are cleared before the
  pipeline is executed, and the exception ends the flush loop, so no later request is ever flushed.\<close>

theorem failed_flush_ends_metrics:
  assumes "\<not> mr_reachable r" "me_total m \<noteq> 0"
  shows "flush_turn (True, m, r) = (False, no_metrics, r) \<and> flush_turn (False, m', r') = (False, m', r')"
  using assms by (simp add: flush_turn_def metrics_flush_def)

theorem failed_flush_ends_metrics_witness:
  "flush_turn (True, metrics_record 1 (Some ''web'') 200 None 3 no_metrics, empty_redis\<lparr>mr_reachable := False\<rparr>)
     = (False, no_metrics, empty_redis\<lparr>mr_reachable := False\<rparr>)"
  using failed_flush_ends_metrics [of "empty_redis\<lparr>mr_reachable := False\<rparr>" "metrics_record 1 (Some ''web'') 200 None 3 no_metrics"]
  by (simp add: metrics_record_def Let_def no_metrics_def)

end
