(* ===== verification/Proxy.thy ===== *)
theory Proxy
  imports HttpText ProxyMetrics Routing Secrets
begin

text \<open>
  \<open>proxy/proxy_server.py\<close>: one client connection, from reading the request head to the response. A
  stream of bytes is the list of what arrives on it; a connection to an upstream takes the next of the
  outcomes the network has in store. What the proxy writes to the client and to each upstream is kept
  in the state. \<open>TimeoutError\<close> is an \<open>OSError\<close> in Python; the clauses of the sources catch it first.
\<close>

section \<open>Streams\<close>

text \<open>Bytes that have arrived, a silence that outlasts the timeout of the reader, or a connection that
  breaks; after the last one the stream has ended.\<close>

datatype arrival = Arrived string | Stalled | Broken

fun read_bytes :: "nat \<Rightarrow> arrival list \<Rightarrow> string result \<times> arrival list" where
  "read_bytes n [] = (Inr [], [])"
| "read_bytes n (Arrived bs # rest) =
     (if bs = [] then read_bytes n rest
      else (Inr (take n bs), if length bs \<le> n then rest else Arrived (drop n bs) # rest))"
| "read_bytes n (Stalled # rest) = (Inl TimeoutError, rest)"
| "read_bytes n (Broken # rest) = (Inl OSError, rest)"

text \<open>\<open>readexactly(n)\<close> for a positive \<open>n\<close>.\<close>

fun read_exactly :: "nat \<Rightarrow> arrival list \<Rightarrow> string result \<times> arrival list" where
  "read_exactly n [] = (Inl IncompleteReadError, [])"
| "read_exactly n (Arrived bs # rest) =
     (if length bs < n then (case read_exactly (n - length bs) rest of
        (Inr bs', rest') \<Rightarrow> (Inr (bs @ bs'), rest') | (Inl e, rest') \<Rightarrow> (Inl e, rest'))
      else (Inr (take n bs), Arrived (drop n bs) # rest))"
| "read_exactly n (Stalled # rest) = (Inl TimeoutError, rest)"
| "read_exactly n (Broken # rest) = (Inl OSError, rest)"

fun stream_size :: "arrival list \<Rightarrow> nat" where
  "stream_size [] = 0"
| "stream_size (Arrived bs # rest) = Suc (length bs) + stream_size rest"
| "stream_size (a # rest) = Suc (stream_size rest)"

lemma read_bytes_shrinks: "0 < n \<Longrightarrow> read_bytes n st = (Inr bs, st') \<Longrightarrow> bs \<noteq> [] \<Longrightarrow> stream_size st' < stream_size st"
  by (induction n st rule: read_bytes.induct) (auto split: if_splits)

definition max_header_bytes :: nat where
  "max_header_bytes = 64 * 1024"

text \<open>The head of a message and what came with it of the body.\<close>

definition split_head :: "string \<Rightarrow> string \<times> string" where
  "split_head buffer = (case find_sub header_delimiter buffer of
     None \<Rightarrow> (buffer, [])
   | Some header_end \<Rightarrow> (take (header_end + 4) buffer, drop (header_end + 4) buffer))"

function read_head :: "string \<Rightarrow> arrival list \<Rightarrow> (string \<times> string) result \<times> arrival list" where
  "read_head buffer st =
    (if contains_sub header_delimiter buffer then (Inr (split_head buffer), st)
     else (case read_bytes 4096 st of
         (Inl e, st') \<Rightarrow> (Inl e, st')
       | (Inr chunk, st') \<Rightarrow>
           if chunk = [] then (Inr (split_head buffer), st')
           else if max_header_bytes < length (buffer @ chunk) then (Inr ([], []), st')
           else read_head (buffer @ chunk) st'))"
  by pat_completeness auto
termination
  by (relation "measure (\<lambda>(buffer, st). stream_size st)") (auto intro: read_bytes_shrinks [where n = 4096, simplified, OF sym])

declare read_head.simps [simp del]

definition read_http_head :: "arrival list \<Rightarrow> (string \<times> string) result \<times> arrival list" where
  "read_http_head st = read_head [] st"

section \<open>The response of an upstream\<close>

text \<open>The two loops of \<open>_read_full_response\<close>: until the end of the stream, and for a known number of
  bytes. (The pieces they read are joined, so the size of a piece does not matter.)\<close>

fun read_to_end :: "arrival list \<Rightarrow> string result" where
  "read_to_end [] = Inr []"
| "read_to_end (Arrived bs # rest) = bind_r (read_to_end rest) (\<lambda>bs'. Inr (bs @ bs'))"
| "read_to_end (Stalled # rest) = Inl TimeoutError"
| "read_to_end (Broken # rest) = Inl OSError"

fun read_remaining :: "nat \<Rightarrow> arrival list \<Rightarrow> string result" where
  "read_remaining 0 st = Inr []"
| "read_remaining (Suc n) [] = Inl UpstreamResponseError"
| "read_remaining (Suc n) (Arrived bs # rest) =
     (if Suc n \<le> length bs then Inr (take (Suc n) bs)
      else bind_r (read_remaining (Suc n - length bs) rest) (\<lambda>bs'. Inr (bs @ bs')))"
| "read_remaining (Suc n) (Stalled # rest) = Inl TimeoutError"
| "read_remaining (Suc n) (Broken # rest) = Inl OSError"

definition timeout_as_response_timeout :: "'a result \<Rightarrow> 'a result" where
  "timeout_as_response_timeout r = (if r = Inl TimeoutError then Inl UpstreamResponseTimeout else r)"

definition read_full_response :: "arrival list \<Rightarrow> string result" where
  "read_full_response st = (case read_http_head st of
     (Inl e, st') \<Rightarrow> timeout_as_response_timeout (Inl e)
   | (Inr (header_bytes, body_prefix), st') \<Rightarrow>
      if header_bytes = [] then Inl UpstreamResponseError
      else timeout_as_response_timeout (case extract_content_length header_bytes of
          None \<Rightarrow> bind_r (read_to_end st') (\<lambda>bs. Inr (rewrite_response_headers header_bytes @ body_prefix @ bs))
        | Some content_length \<Rightarrow>
            (let body = take content_length body_prefix in
             bind_r (read_remaining (content_length - length body) st') (\<lambda>bs.
               Inr (rewrite_response_headers header_bytes @ body @ bs)))))"

section \<open>State\<close>

record upstream =
  up_reader :: "arrival list"
  up_drains :: bool

datatype connection = Connected upstream | Refused | ConnectTimeout

record ('t, 'k) proxy =
  px_routing :: 't
  px_counters :: "(string, nat) pydict"
  px_services :: "(string, service_state) pydict option"
  px_secrets :: 'k
  px_client :: "arrival list"
  px_client_drains :: bool
  px_written :: string
  px_network :: "connection list"
  px_sent :: "(string \<times> int \<times> string) list"
  px_metrics :: metrics
  px_traffic :: traffic
  px_published :: "web_socket_event list"
  px_readings :: nat
  px_now :: int

text \<open>\<open>px_services\<close> is what the service store of the proxy answers (\<open>None\<close>: the server has none); the
  store is a cache, whose staleness is the subject of \<open>TtlCache\<close>. \<open>pe_perf i\<close> is the \<open>i\<close>-th reading of \<open>time.perf_counter\<close>; \<open>pe_redis\<close>, \<open>pe_events\<close> and
  \<open>pe_manages_secrets\<close> say whether the server was given a Redis client, an event bus and a secrets manager.
  \<open>pe_tunnelled\<close> says how many bytes a tunnel delivers in either direction before one side closes it.\<close>

record ('t, 'k) proxy_env =
  pe_routing :: "'t routing_ops"
  pe_secrets :: "('k, secret_spec) store_ops"
  pe_fernet :: fernet_lib
  pe_key :: string
  pe_manages_secrets :: bool
  pe_redis :: bool
  pe_events :: bool
  pe_perf :: "nat \<Rightarrow> pyfloat"
  pe_tunnelled :: "nat \<times> nat"

definition on_balancer :: "('t \<times> (string, nat) pydict, 'a) prog \<Rightarrow> (('t, 'k) proxy, 'a) prog" where
  "on_balancer m w = (case m (px_routing w, px_counters w) of (r, (t, c)) \<Rightarrow> (r, w\<lparr>px_routing := t, px_counters := c\<rparr>))"

definition on_secrets :: "('k, 'a) prog \<Rightarrow> (('t, 'k) proxy, 'a) prog" where
  "on_secrets m w = (case m (px_secrets w) of (r, k) \<Rightarrow> (r, w\<lparr>px_secrets := k\<rparr>))"

text \<open>\<open>writer.write(...)\<close> and \<open>await writer.drain()\<close>.\<close>

definition write_client :: "string \<Rightarrow> (('t, 'k) proxy, unit) prog" where
  "write_client data w = (if px_client_drains w then (Inr (), w\<lparr>px_written := px_written w @ data\<rparr>) else (Inl OSError, w))"

definition perf_counter :: "('t, 'k) proxy_env \<Rightarrow> (('t, 'k) proxy, pyfloat) prog" where
  "perf_counter en w = (Inr (pe_perf en (px_readings w)), w\<lparr>px_readings := Suc (px_readings w)\<rparr>)"

definition open_connection :: "(('t, 'k) proxy, upstream) prog" where
  "open_connection w = (case px_network w of
     [] \<Rightarrow> (Inl OSError, w)
   | Connected u # rest \<Rightarrow> (Inr u, w\<lparr>px_network := rest\<rparr>)
   | Refused # rest \<Rightarrow> (Inl OSError, w\<lparr>px_network := rest\<rparr>)
   | ConnectTimeout # rest \<Rightarrow> (Inl TimeoutError, w\<lparr>px_network := rest\<rparr>))"

definition send_upstream :: "upstream \<Rightarrow> string \<Rightarrow> int \<Rightarrow> string \<Rightarrow> (('t, 'k) proxy, unit) prog" where
  "send_upstream u host port data w = (if up_drains u then Inr () else Inl OSError, w\<lparr>px_sent := px_sent w @ [(host, port, data)]\<rparr>)"

section \<open>Results\<close>

definition record_proxy_result :: "('t, 'k) proxy_env \<Rightarrow> string option \<Rightarrow> int \<Rightarrow> string option \<Rightarrow> pyfloat
    \<Rightarrow> (('t, 'k) proxy, unit) prog" where
  "record_proxy_result en service_name status_code failure_reason duration_ms =
    when_p (pe_redis en) (mod_s (\<lambda>w. w\<lparr>
      px_metrics := metrics_record (px_now w) service_name status_code failure_reason duration_ms (px_metrics w),
      px_traffic := traffic_record service_name status_code failure_reason (px_traffic w),
      px_published := px_published w @ (if truthy failure_reason \<and> pe_events en then
        [\<lparr>ev_kind = PROXY_REQUEST_FAILED, ev_timestamp = px_now w, ev_payload =
          [(''service_name'', case service_name of None \<Rightarrow> JNull | Some n \<Rightarrow> JStr n), (''status_code'', JInt status_code),
           (''failure_reason'', JStr (the failure_reason)), (''duration_ms'', JFloat (round2 duration_ms))]\<rparr>] else [])\<rparr>))"

text \<open>Answer with a response of the proxy's own, and record it.\<close>

definition reply :: "('t, 'k) proxy_env \<Rightarrow> string \<Rightarrow> string option \<Rightarrow> int \<Rightarrow> string \<Rightarrow> (('t, 'k) proxy, unit) prog" where
  "reply en response service_name status_code failure_reason =
     bind_p (write_client response) (\<lambda>_. record_proxy_result en service_name status_code (Some failure_reason) 0)"

definition publish_traffic_activity :: "('t, 'k) proxy_env \<Rightarrow> (('t, 'k) proxy, unit) prog" where
  "publish_traffic_activity en = (if \<not> pe_events en then ret () else mod_s (\<lambda>w.
    (let (snapshot, t) = traffic_snapshot (px_traffic w);
         error_count = sum_list (map (\<lambda>(status, n). if 500 \<le> the (py_int status) then n else 0) (sn_by_status snapshot));
         counts = (\<lambda>d. JDict (map (\<lambda>(k, n). (k, JInt n)) d))
     in w\<lparr>px_traffic := t, px_published := px_published w @ (if sn_total snapshot = 0 then [] else
       [\<lparr>ev_kind = PROXY_TRAFFIC_OBSERVED, ev_timestamp = px_now w, ev_payload =
         [(''component'', JStr ''proxy''), (''window_seconds'', JInt 10), (''requests_total'', JInt (sn_total snapshot)),
          (''errors_total'', JInt error_count), (''requests_by_service'', counts (sn_by_service snapshot)),
          (''responses_by_status'', counts (sn_by_status snapshot)), (''failures'', counts (sn_failures snapshot))]\<rparr>])\<rparr>)))"

section \<open>Forwarding\<close>

definition forward_http_to_endpoint :: "string \<Rightarrow> string \<Rightarrow> endpoint \<Rightarrow> (('t, 'k) proxy, int) prog" where
  "forward_http_to_endpoint header_bytes body e =
     bind_p open_connection (\<lambda>u.
     bind_p (send_upstream u (ep_host e) (ep_port e) (rewrite_request_headers header_bytes (ep_host e) (ep_port e) @ body)) (\<lambda>_.
     case read_full_response (up_reader u) of
       Inl err \<Rightarrow> raise err
     | Inr upstream_response \<Rightarrow>
         (let status_code = (case extract_response_status upstream_response of
              None \<Rightarrow> 502 | Some s \<Rightarrow> if s = 0 then 502 else s) in
          bind_p (write_client upstream_response) (\<lambda>_. ret status_code))))"

text \<open>The loop over the candidates with its variable \<open>timeout_seen\<close>.\<close>

fun forward_loop :: "('t, 'k) proxy_env \<Rightarrow> string \<Rightarrow> string \<Rightarrow> endpoint list \<Rightarrow> string \<Rightarrow> pyfloat \<Rightarrow> bool
    \<Rightarrow> (('t, 'k) proxy, unit) prog" where
  "forward_loop en header_bytes body [] metric_service started timeout_seen =
     bind_p (write_client (if timeout_seen then response_504 else response_502)) (\<lambda>_.
     bind_p (perf_counter en) (\<lambda>now.
     record_proxy_result en (Some metric_service) (if timeout_seen then 504 else 502)
       (Some (if timeout_seen then ''upstream_response_timeout'' else ''upstream_unreachable'')) (fmul (fsub now started) 1000)))"
| "forward_loop en header_bytes body (e # endpoints) metric_service started timeout_seen = (\<lambda>w.
     case forward_http_to_endpoint header_bytes body e w of
       (Inr status_code, w') \<Rightarrow>
         bind_p (perf_counter en) (\<lambda>now.
         record_proxy_result en (Some metric_service) status_code None (fmul (fsub now started) 1000)) w'
     | (Inl err, w') \<Rightarrow>
         if err \<in> {TimeoutError, UpstreamResponseTimeout}
         then forward_loop en header_bytes body endpoints metric_service started True w'
         else if err \<in> {OSError, UpstreamResponseError}
         then forward_loop en header_bytes body endpoints metric_service started timeout_seen w'
         else (Inl err, w'))"

definition forward_http_to_candidates :: "('t, 'k) proxy_env \<Rightarrow> string \<Rightarrow> string \<Rightarrow> endpoint list \<Rightarrow> string
    \<Rightarrow> (('t, 'k) proxy, unit) prog" where
  "forward_http_to_candidates en header_bytes body endpoints metric_service =
     bind_p (perf_counter en) (\<lambda>started. forward_loop en header_bytes body endpoints metric_service started False)"

definition forward_to_upstream :: "('t, 'k) proxy_env \<Rightarrow> string \<Rightarrow> string \<Rightarrow> string \<Rightarrow> int \<Rightarrow> string \<Rightarrow> (('t, 'k) proxy, unit) prog" where
  "forward_to_upstream en header_bytes body upstream_host upstream_port metric_service =
     forward_http_to_candidates en header_bytes body
       [\<lparr>ep_replica_id = metric_service, ep_host = upstream_host, ep_port = upstream_port, ep_healthy = True\<rparr>] metric_service"

section \<open>Ingress\<close>

definition service_token_header :: string where
  "service_token_header = ''x-aws-light-service-token''"

definition lookup_service :: "string \<Rightarrow> (('t, 'k) proxy, service_state option option) prog" where
  "lookup_service name = get_s (\<lambda>w. map_option (\<lambda>d. dict_get d name) (px_services w))"

definition external_ingress_allowed :: "string \<Rightarrow> (('t, 'k) proxy, bool) prog" where
  "external_ingress_allowed service_name = bind_p (lookup_service service_name) (\<lambda>found. ret (case found of
     None \<Rightarrow> True
   | Some None \<Rightarrow> False
   | Some (Some s) \<Rightarrow> in_external (sp_ingress (ss_spec s))))"

definition internal_ingress_allowed :: "string \<Rightarrow> string \<Rightarrow> (('t, 'k) proxy, bool) prog" where
  "internal_ingress_allowed service_name source_service = bind_p (lookup_service service_name) (\<lambda>found. ret (case found of
     None \<Rightarrow> True
   | Some None \<Rightarrow> False
   | Some (Some s) \<Rightarrow> (let policy = in_internal (sp_ingress (ss_spec s)) in
       ip_enabled policy \<or> source_service \<in> set (ip_allow_from policy))))"

text \<open>The loop of \<open>_source_service_from_request\<close> over the names of the secrets.\<close>

fun source_loop :: "('t, 'k) proxy_env \<Rightarrow> string \<Rightarrow> string list \<Rightarrow> (('t, 'k) proxy, string option) prog" where
  "source_loop en token [] = ret None"
| "source_loop en token (secret_name # names) =
    (if \<not> starts_with service_token_prefix secret_name then source_loop en token names
     else bind_p (on_secrets (get_secret (pe_fernet en) (pe_key en) (pe_secrets en) secret_name)) (\<lambda>stored_token.
       if stored_token \<noteq> Some token then source_loop en token names
       else (let service_name = remove_prefix service_token_prefix secret_name in
         bind_p (lookup_service service_name) (\<lambda>found.
         if found = Some None then ret None else ret (Some service_name)))))"

definition source_service_from_request :: "('t, 'k) proxy_env \<Rightarrow> string \<Rightarrow> (('t, 'k) proxy, string option) prog" where
  "source_service_from_request en header_bytes = (case header_value header_bytes service_token_header of
     None \<Rightarrow> ret None
   | Some token_value \<Rightarrow>
       if \<not> pe_manages_secrets en then ret None
       else bind_p (on_secrets (list_secret_names (pe_secrets en))) (\<lambda>names.
         source_loop en (decode_replace token_value) names))"

section \<open>A connection\<close>

definition read_client_head :: "(('t, 'k) proxy, string \<times> string) prog" where
  "read_client_head w = (case read_http_head (px_client w) of (r, st) \<Rightarrow> (r, w\<lparr>px_client := st\<rparr>))"

definition read_client_exactly :: "nat \<Rightarrow> (('t, 'k) proxy, string) prog" where
  "read_client_exactly n w = (case read_exactly n (px_client w) of (r, st) \<Rightarrow> (r, w\<lparr>px_client := st\<rparr>))"

text \<open>The first candidate that accepts a connection.\<close>

fun connect_loop :: "endpoint list \<Rightarrow> (('t, 'k) proxy, (upstream \<times> endpoint) option) prog" where
  "connect_loop [] = ret None"
| "connect_loop (e # endpoints) = (\<lambda>w. case open_connection w of
     (Inr u, w') \<Rightarrow> (Inr (Some (u, e)), w')
   | (Inl err, w') \<Rightarrow> connect_loop endpoints w')"

text \<open>What \<open>_pipe_stream\<close> passes on: the bytes that arrive before the end or a reset. It waits without a
  timeout.\<close>

fun piped :: "arrival list \<Rightarrow> string" where
  "piped [] = []"
| "piped (Arrived bs # rest) = bs @ piped rest"
| "piped (Stalled # rest) = piped rest"
| "piped (Broken # rest) = []"

definition tunnel :: "('t, 'k) proxy_env \<Rightarrow> upstream \<Rightarrow> endpoint \<Rightarrow> (('t, 'k) proxy, unit) prog" where
  "tunnel en u e = mod_s (\<lambda>w. w\<lparr>
     px_sent := px_sent w @ [(ep_host e, ep_port e, take (fst (pe_tunnelled en)) (piped (px_client w)))],
     px_written := px_written w @ (if px_client_drains w then take (snd (pe_tunnelled en)) (piped (up_reader u)) else []),
     px_client := []\<rparr>)"

definition forward_websocket :: "('t, 'k) proxy_env \<Rightarrow> string \<Rightarrow> string \<Rightarrow> endpoint list \<Rightarrow> string \<Rightarrow> (('t, 'k) proxy, unit) prog" where
  "forward_websocket en header_bytes body endpoints service_name =
     bind_p (perf_counter en) (\<lambda>started.
     bind_p (connect_loop endpoints) (\<lambda>connected. case connected of
       None \<Rightarrow> bind_p (write_client response_502) (\<lambda>_. bind_p (perf_counter en) (\<lambda>now.
          record_proxy_result en (Some service_name) 502 (Some ''upstream_unreachable'') (fmul (fsub now started) 1000)))
     | Some (u, e) \<Rightarrow>
          bind_p (send_upstream u (ep_host e) (ep_port e) (rewrite_request_headers header_bytes (ep_host e) (ep_port e) @ body)) (\<lambda>_.
          tunnel en u e)))"

text \<open>From the ingress check to the forwarding, for a request with a service name.\<close>

definition route_request :: "('t, 'k) proxy_env \<Rightarrow> string \<Rightarrow> string \<Rightarrow> string \<Rightarrow> (('t, 'k) proxy, unit) prog" where
  "route_request en header_bytes body service_name = (\<lambda>w.
     case on_balancer (healthy_replicas_for_request (pe_routing en) service_name) w of
       (Inl (NoHealthyReplicaError _), w') \<Rightarrow> reply en response_503 (Some service_name) 503 ''no_healthy_replica'' w'
     | (Inl e, w') \<Rightarrow> (Inl e, w')
     | (Inr endpoints, w') \<Rightarrow>
         if is_websocket_upgrade header_bytes then forward_websocket en header_bytes body endpoints service_name w'
         else forward_http_to_candidates en header_bytes body endpoints service_name w')"

definition serve_request :: "('t, 'k) proxy_env \<Rightarrow> string \<Rightarrow> string \<Rightarrow> (('t, 'k) proxy, unit) prog" where
  "serve_request en header_bytes body =
    (if starts_with ''/_aws-light/storage'' (extract_request_path header_bytes)
     then forward_to_upstream en header_bytes body ''control-plane'' 8000 ''__platform_storage__''
     else case extract_service_name header_bytes of
       None \<Rightarrow> reply en response_503 None 503 ''missing_host''
     | Some service_name \<Rightarrow>
         bind_p (source_service_from_request en header_bytes) (\<lambda>source_service.
         if header_value header_bytes service_token_header \<noteq> None then
           bind_p (case source_service of None \<Rightarrow> ret False | Some source \<Rightarrow> internal_ingress_allowed service_name source) (\<lambda>allowed.
           if allowed then route_request en header_bytes body service_name
           else reply en response_403_internal (Some service_name) 403 ''internal_ingress_denied'')
         else
           bind_p (external_ingress_allowed service_name) (\<lambda>allowed.
           if allowed then route_request en header_bytes body service_name
           else reply en response_403 (Some service_name) 403 ''external_ingress_denied'')))"

definition proxy_request :: "('t, 'k) proxy_env \<Rightarrow> (('t, 'k) proxy, unit) prog" where
  "proxy_request en =
     bind_p read_client_head (\<lambda>(header_bytes, body_prefix).
     if header_bytes = [] then ret ()
     else if has_transfer_encoding header_bytes then reply en response_501 None 501 ''unsupported_transfer_encoding''
     else (case extract_request_content_length header_bytes of
         None \<Rightarrow> reply en response_400 None 400 ''bad_content_length''
       | Some content_length \<Rightarrow>
          (let body = take content_length body_prefix; remaining = content_length - length body in
           if remaining = 0 then serve_request en header_bytes body
           else (\<lambda>w. case read_client_exactly remaining w of
               (Inr rest, w') \<Rightarrow> serve_request en header_bytes (body @ rest) w'
             | (Inl e, w') \<Rightarrow> if e \<in> {TimeoutError, IncompleteReadError}
                 then reply en response_400 None 400 ''incomplete_request_body'' w' else (Inl e, w')))))"

text \<open>\<open>_handle_connection\<close> logs an exception and closes the connection.\<close>

definition handle_connection :: "('t, 'k) proxy_env \<Rightarrow> (('t, 'k) proxy, unit) prog" where
  "handle_connection en = try_p (proxy_request en) (\<lambda>_. ret ())"

end
