(* ===== verification/ProxyFacts.thy ===== *)
theory ProxyFacts
  imports Proxy
begin

text \<open>
  What the proxy does with a request: how the head of a message depends on the pieces it arrives in,
  that a response is passed on whole, which candidate answers, who is let in, and how a request is
  repeated.
\<close>

section \<open>Heads and pieces\<close>

abbreviation arrives :: "string list \<Rightarrow> arrival list" where
  "arrives pieces \<equiv> map Arrived pieces"

lemma find_sub_here: "take (length p) s = p \<Longrightarrow> find_sub p s = Some 0"
  by (cases s) (auto simp: starts_with_def)

lemma sublist_find: "sublist p s \<longleftrightarrow> find_sub p s \<noteq> None"
  using contains_sub_iff contains_sub_def by blast

lemma starts_with_append_left: "length p \<le> length s \<Longrightarrow> starts_with p (s @ t) \<longleftrightarrow> starts_with p s"
  by (simp add: starts_with_def)

text \<open>The first delimiter of a text does not move when more text follows.\<close>

lemma find_sub_mono: "find_sub p s = Some i \<Longrightarrow> find_sub p (s @ t) = Some i"
proof (induction s arbitrary: i)
  case Nil
  then show ?case by (auto simp: find_sub_here split: if_splits)
next
  case (Cons c s)
  have "length p \<le> length (c # s)" using find_sub_Some [OF Cons.prems] by simp
  from starts_with_append_left [OF this, of t] show ?case using Cons by (auto split: if_splits)
qed

lemma find_sub_shrink: "find_sub p (s @ t) = Some i \<Longrightarrow> i + length p \<le> length s \<Longrightarrow> find_sub p s = Some i"
proof (induction s arbitrary: i)
  case Nil
  then show ?case by (cases "p = []") (auto simp: find_sub_here)
next
  case (Cons c s)
  have "length p \<le> length (c # s)" using Cons.prems by simp
  from starts_with_append_left [OF this, of t] show ?case using Cons by (auto split: if_splits)
qed

lemma read_exactly_pieces:
  "n \<le> length (concat ps) \<Longrightarrow> 0 < n \<Longrightarrow> \<exists>ps'. read_exactly n (arrives ps) = (Inr (take n (concat ps)), arrives ps')"
proof (induction ps arbitrary: n)
  case (Cons p ps)
  show ?case
  proof (cases "length p < n")
    case True
    then obtain ps' where "read_exactly (n - length p) (arrives ps) = (Inr (take (n - length p) (concat ps)), arrives ps')"
      using Cons.IH [of "n - length p"] Cons.prems by fastforce
    then show ?thesis using True by auto
  qed (auto intro: exI [of _ "drop n p # ps"])
qed simp

lemma read_exactly_short:
  "length (concat ps) < n \<Longrightarrow> \<exists>ps'. read_exactly n (arrives ps) = (Inl IncompleteReadError, arrives ps')"
proof (induction ps arbitrary: n)
  case (Cons p ps)
  then obtain ps' where "read_exactly (n - length p) (arrives ps) = (Inl IncompleteReadError, arrives ps')"
    using Cons.IH [of "n - length p"] Cons.prems by fastforce
  then show ?case using Cons.prems by auto
qed (auto intro: exI [of _ "[]"])

lemma header_delimiter_length [simp]: "length header_delimiter = 4"
  by (simp add: header_delimiter_def crlf_def)

text \<open>A read gives a nonempty piece of at most \<open>n\<close> bytes while something is left.\<close>

lemma read_bytes_pieces:
  "0 < n \<Longrightarrow> concat ps \<noteq> [] \<Longrightarrow> \<exists>chunk ps'. read_bytes n (arrives ps) = (Inr chunk, arrives ps') \<and> chunk \<noteq> []
    \<and> length chunk \<le> n \<and> chunk @ concat ps' = concat ps"
proof (induction ps)
  case (Cons p ps)
  show ?case
  proof (cases "p = []")
    case False
    then show ?thesis using Cons.prems(1)
      by (cases "length p \<le> n") (auto intro: exI [of _ ps] exI [of _ "drop n p # ps"])
  qed (use Cons in simp)
qed simp

lemma read_head_pieces:
  assumes "find_sub header_delimiter (buffer @ concat ps) = Some i" "i + 4 + 4095 \<le> max_header_bytes"
  shows "\<exists>body_prefix ps'. read_head buffer (arrives ps) = (Inr (take (i + 4) (buffer @ concat ps), body_prefix), arrives ps')
    \<and> body_prefix @ concat ps' = drop (i + 4) (buffer @ concat ps)"
  using assms
proof (induction "length (concat ps)" arbitrary: buffer ps rule: less_induct)
  case less
  show ?case
  proof (cases "find_sub header_delimiter buffer")
    case (Some j)
    then have "j = i" using find_sub_mono [OF Some, of "concat ps"] less.prems(1) by simp
    moreover have "i + 4 \<le> length buffer" using find_sub_Some [OF Some] \<open>j = i\<close> by simp
    ultimately show ?thesis using Some
      by (auto simp: read_head.simps [of buffer] contains_sub_def split_head_def)
  next
    case None
    have "length buffer < i + 4" using find_sub_shrink [OF less.prems(1)] None by fastforce
    moreover have "i + 4 \<le> length (buffer @ concat ps)" using find_sub_Some [OF less.prems(1)] by simp
    ultimately have "0 < length (concat ps)" unfolding length_append by linarith
    then have "concat ps \<noteq> []" by blast
    from read_bytes_pieces [OF _ this, of 4096] obtain chunk ps' where c: "read_bytes 4096 (arrives ps) = (Inr chunk, arrives ps')"
        "chunk \<noteq> []" "length chunk \<le> 4096" "chunk @ concat ps' = concat ps" by auto
    have "length chunk + length (concat ps') = length (concat ps)" "0 < length chunk"
      using c(2) arg_cong [OF c(4), of length] unfolding length_append by auto
    then have len: "length (concat ps') < length (concat ps)" by linarith
    have "length (buffer @ chunk) \<le> max_header_bytes" using \<open>length buffer < i + 4\<close> c(3) less.prems(2) by simp
    moreover have "(buffer @ chunk) @ concat ps' = buffer @ concat ps" using c(4) by simp
    ultimately show ?thesis using less.hyps [OF len, of "buffer @ chunk"] less.prems None c(1,2)
      by (simp add: read_head.simps [of buffer] contains_sub_def)
  qed
qed

section \<open>Responses\<close>

lemma read_to_end_pieces: "read_to_end (arrives ps) = Inr (concat ps)"
  by (induction ps) auto

lemma read_remaining_pieces: "n \<le> length (concat ps) \<Longrightarrow> read_remaining n (arrives ps) = Inr (take n (concat ps))"
proof (induction ps arbitrary: n)
  case Nil
  then show ?case by simp
next
  case (Cons p ps)
  show ?case
  proof (cases n)
    case (Suc m)
    then show ?thesis using Cons.IH [of "n - length p"] Cons.prems by auto
  qed simp
qed

lemma read_remaining_short: "length (concat ps) < n \<Longrightarrow> read_remaining n (arrives ps) = Inl UpstreamResponseError"
proof (induction ps arbitrary: n)
  case Nil
  then show ?case by (cases n) auto
next
  case (Cons p ps)
  then obtain m where "n = Suc m" by (cases n) auto
  then show ?case using Cons.IH [of "n - length p"] Cons.prems by auto
qed

lemma read_full_response_errors:
  "read_full_response st = Inl e \<Longrightarrow> e \<in> {OSError, UpstreamResponseError, UpstreamResponseTimeout}"
proof -
  have a: "read_bytes n st = (Inl e, st') \<Longrightarrow> e \<in> {OSError, TimeoutError}" for n st e st'
    by (induction n st rule: read_bytes.induct) (auto split: if_splits)
  have b: "read_head buffer st = (Inl e, st') \<Longrightarrow> e \<in> {OSError, TimeoutError}" for buffer st e st'
  proof (induction buffer st rule: read_head.induct)
    case (1 buffer st)
    note step = "1.prems" [unfolded read_head.simps [of buffer st]]
    show ?case
    proof (cases "read_bytes 4096 st")
      case (Pair r st1)
      then show ?thesis using step "1.IH" [OF _ Pair [symmetric]] a
        by (cases r) (auto split: if_splits)
    qed
  qed
  have c: "read_to_end st = Inl e \<Longrightarrow> e \<in> {OSError, TimeoutError}" for st e
    by (induction st rule: read_to_end.induct) (auto simp: bind_r_def split: sum.splits)
  have d: "read_remaining n st = Inl e \<Longrightarrow> e \<in> {OSError, TimeoutError, UpstreamResponseError}" for n st e
    by (induction n st rule: read_remaining.induct) (auto simp: bind_r_def split: sum.splits if_splits)
  assume "read_full_response st = Inl e"
  then show ?thesis
    by (auto simp: read_full_response_def timeout_as_response_timeout_def read_http_head_def bind_r_def Let_def
      split: prod.splits sum.splits option.splits if_splits dest: b c d)
qed

section \<open>Failover\<close>

text \<open>What a candidate comes to: an answer, or a failure that is a timeout or is not.\<close>

definition answer :: "connection \<Rightarrow> string option" where
  "answer c = (case c of Connected u \<Rightarrow>
     if up_drains u then (case read_full_response (up_reader u) of Inr response \<Rightarrow> Some response | Inl _ \<Rightarrow> None) else None
   | _ \<Rightarrow> None)"

definition timed_out :: "connection \<Rightarrow> bool" where
  "timed_out c \<longleftrightarrow> (case c of Connected u \<Rightarrow> up_drains u \<and> read_full_response (up_reader u) = Inl UpstreamResponseTimeout
   | ConnectTimeout \<Rightarrow> True | Refused \<Rightarrow> False)"

definition status_of :: "string \<Rightarrow> int" where
  "status_of response = (case extract_response_status response of None \<Rightarrow> 502 | Some s \<Rightarrow> if s = 0 then 502 else s)"

text \<open>The requests that are sent, to the candidates in their order up to the first that answers; the
  answer of that one; and the status and the failure reason that are recorded.\<close>

fun requests_sent :: "string \<Rightarrow> string \<Rightarrow> endpoint list \<Rightarrow> connection list \<Rightarrow> (string \<times> int \<times> string) list" where
  "requests_sent h body (e # es) (c # cs) =
     (if (\<exists>u. c = Connected u) then [(ep_host e, ep_port e, rewrite_request_headers h (ep_host e) (ep_port e) @ body)] else [])
     @ (if answer c \<noteq> None then [] else requests_sent h body es cs)"
| "requests_sent h body es cs = []"

fun first_answer :: "connection list \<Rightarrow> string option" where
  "first_answer [] = None"
| "first_answer (c # cs) = (if answer c \<noteq> None then answer c else first_answer cs)"

definition final_response :: "bool \<Rightarrow> connection list \<Rightarrow> string" where
  "final_response timeout_seen cs = (case first_answer cs of Some response \<Rightarrow> response
     | None \<Rightarrow> if timeout_seen \<or> (\<exists>c \<in> set cs. timed_out c) then response_504 else response_502)"

definition final_status :: "bool \<Rightarrow> connection list \<Rightarrow> int" where
  "final_status timeout_seen cs = (case first_answer cs of Some response \<Rightarrow> status_of response
     | None \<Rightarrow> if timeout_seen \<or> (\<exists>c \<in> set cs. timed_out c) then 504 else 502)"

lemma record_run:
  "\<exists>w'. record_proxy_result en svc st fr d w = (Inr (), w') \<and> px_written w' = px_written w \<and> px_sent w' = px_sent w
    \<and> px_metrics w' = (if pe_redis en then metrics_record (px_now w) svc st fr d (px_metrics w) else px_metrics w)"
  by (auto simp: record_proxy_result_def when_p_def mod_s_def ret_def)

lemma forward_endpoint_run:
  assumes "px_network w = c # cs" "px_client_drains w"
  shows "\<exists>res w'. forward_http_to_endpoint h body e w = (res, w') \<and> px_network w' = cs \<and> px_client_drains w' \<and> px_now w' = px_now w
    \<and> px_metrics w' = px_metrics w
    \<and> px_sent w' = px_sent w @ (if (\<exists>u. c = Connected u) then [(ep_host e, ep_port e, rewrite_request_headers h (ep_host e) (ep_port e) @ body)] else [])
    \<and> (case answer c of
         Some response \<Rightarrow> res = Inr (status_of response) \<and> px_written w' = px_written w @ response
       | None \<Rightarrow> px_written w' = px_written w \<and> (\<exists>err. res = Inl err
           \<and> (if timed_out c then err \<in> {TimeoutError, UpstreamResponseTimeout} else err \<in> {OSError, UpstreamResponseError})))"
proof (cases c)
  case (Connected u)
  show ?thesis
  proof (cases "up_drains u")
    case True
    then show ?thesis using assms Connected read_full_response_errors [of "up_reader u"]
      by (cases "read_full_response (up_reader u)")
        (auto simp: forward_http_to_endpoint_def bind_p_def open_connection_def send_upstream_def answer_def timed_out_def
          write_client_def ret_def raise_def status_of_def Let_def)
  next
    case False
    then show ?thesis using assms Connected
      by (simp add: forward_http_to_endpoint_def bind_p_def open_connection_def send_upstream_def answer_def timed_out_def)
  qed
qed (use assms in \<open>simp_all add: forward_http_to_endpoint_def bind_p_def open_connection_def answer_def timed_out_def\<close>)

text \<open>What forwarding leaves behind.\<close>

definition forwarded :: "('t, 'k) proxy_env \<Rightarrow> string \<Rightarrow> (string \<times> int \<times> string) list \<Rightarrow> string \<Rightarrow> int \<Rightarrow> ('t, 'k) proxy \<Rightarrow> ('t, 'k) proxy \<Rightarrow> bool" where
  "forwarded en service sent response st w w' \<longleftrightarrow> px_written w' = px_written w @ response \<and> px_sent w' = px_sent w @ sent
     \<and> (\<exists>reason d. px_metrics w' = (if pe_redis en then metrics_record (px_now w) (Some service) st reason d (px_metrics w) else px_metrics w))"

lemma forward_loop_run:
  assumes "px_network w = cs @ rest" "length cs = length endpoints" "px_client_drains w"
  shows "\<exists>w'. forward_loop en h body endpoints service started timeout_seen w = (Inr (), w')
    \<and> forwarded en service (requests_sent h body endpoints cs) (final_response timeout_seen cs) (final_status timeout_seen cs) w w'"
  using assms
proof (induction endpoints arbitrary: w cs timeout_seen)
  case Nil
  then show ?case
    by (auto simp: bind_p_def write_client_def perf_counter_def record_proxy_result_def when_p_def mod_s_def ret_def forwarded_def
      final_response_def final_status_def)
next
  case (Cons e endpoints)
  obtain c cs' where c: "cs = c # cs'" using Cons.prems(2) by (cases cs) auto
  obtain res w1 where 1: "forward_http_to_endpoint h body e w = (res, w1)" "px_network w1 = cs' @ rest" "px_client_drains w1"
      "px_now w1 = px_now w" "px_metrics w1 = px_metrics w"
      "px_sent w1 = px_sent w @ (if (\<exists>u. c = Connected u) then [(ep_host e, ep_port e, rewrite_request_headers h (ep_host e) (ep_port e) @ body)] else [])"
      "case answer c of Some response \<Rightarrow> res = Inr (status_of response) \<and> px_written w1 = px_written w @ response
       | None \<Rightarrow> px_written w1 = px_written w \<and> (\<exists>err. res = Inl err
           \<and> (if timed_out c then err \<in> {TimeoutError, UpstreamResponseTimeout} else err \<in> {OSError, UpstreamResponseError}))"
    using forward_endpoint_run [of w c "cs' @ rest" h body e] Cons.prems(1,3) c by auto
  show ?case
  proof (cases "answer c")
    case (Some response)
    have t: "answer c \<noteq> None" using Some by simp
    have fin: "final_response timeout_seen cs = response" "final_status timeout_seen cs = status_of response"
      using Some c by (simp_all add: final_response_def final_status_def)
    have sent: "requests_sent h body (e # endpoints) cs
        = (if (\<exists>u. c = Connected u) then [(ep_host e, ep_port e, rewrite_request_headers h (ep_host e) (ep_port e) @ body)] else [])"
      using t c by simp
    have "res = Inr (status_of response)" "px_written w1 = px_written w @ response" using 1(7) Some by auto
    then show ?thesis unfolding fin sent
      using 1(1,4-6) by (auto simp: bind_p_def perf_counter_def record_proxy_result_def when_p_def mod_s_def ret_def forwarded_def)
  next
    case None
    then obtain err where err: "res = Inl err" "px_written w1 = px_written w"
        "if timed_out c then err \<in> {TimeoutError, UpstreamResponseTimeout} else err \<in> {OSError, UpstreamResponseError}"
      using 1(7) by auto
    let ?t = "timeout_seen \<or> timed_out c"
    have "forward_loop en h body (e # endpoints) service started timeout_seen w = forward_loop en h body endpoints service started ?t w1"
      using 1(1) err by (auto split: if_splits)
    moreover obtain w2 where "forward_loop en h body endpoints service started ?t w1 = (Inr (), w2)"
        "forwarded en service (requests_sent h body endpoints cs') (final_response ?t cs') (final_status ?t cs') w1 w2"
      using Cons.IH [OF 1(2) _ 1(3), of ?t] Cons.prems(2) c by auto
    moreover have "final_response timeout_seen cs = final_response ?t cs'" "final_status timeout_seen cs = final_status ?t cs'"
      using None c by (auto simp: final_response_def final_status_def)
    moreover have "requests_sent h body (e # endpoints) cs
        = (if (\<exists>u. c = Connected u) then [(ep_host e, ep_port e, rewrite_request_headers h (ep_host e) (ep_port e) @ body)] else [])
          @ requests_sent h body endpoints cs'" using None c by simp
    ultimately show ?thesis unfolding forwarded_def
      by (cases "pe_redis en") (simp_all add: 1(4-6) err(2))
  qed
qed

section \<open>Ingress\<close>

text \<open>Whether a service is open to clients without a service token, and to a service that is identified
  by its token. Without a service store the proxy asks nobody.\<close>

definition external_open :: "('t, 'k) proxy \<Rightarrow> string \<Rightarrow> bool" where
  "external_open w name \<longleftrightarrow> (case px_services w of None \<Rightarrow> True
     | Some services \<Rightarrow> \<exists>s. dict_get services name = Some s \<and> in_external (sp_ingress (ss_spec s)))"

definition internal_open :: "('t, 'k) proxy \<Rightarrow> string \<Rightarrow> string \<Rightarrow> bool" where
  "internal_open w name source \<longleftrightarrow> (case px_services w of None \<Rightarrow> True
     | Some services \<Rightarrow> \<exists>s. dict_get services name = Some s
         \<and> (ip_enabled (in_internal (sp_ingress (ss_spec s))) \<or> source \<in> set (ip_allow_from (in_internal (sp_ingress (ss_spec s))))))"

lemma external_run: "external_ingress_allowed name w = (Inr (external_open w name), w)"
  by (auto simp: external_ingress_allowed_def lookup_service_def external_open_def bind_p_def get_s_def ret_def split: option.splits)

lemma internal_run: "internal_ingress_allowed name source w = (Inr (internal_open w name source), w)"
  by (auto simp: internal_ingress_allowed_def lookup_service_def internal_open_def bind_p_def get_s_def ret_def Let_def
    split: option.splits)

text \<open>\<open>quiet w m\<close>: from states like \<open>w\<close> the step \<open>m\<close> sends nothing to an upstream and keeps the services.\<close>

abbreviation same_sent :: "('t, 'k) proxy \<Rightarrow> ('t, 'k) proxy \<Rightarrow> bool" where
  "same_sent w0 \<equiv> \<lambda>w. px_sent w = px_sent w0 \<and> px_services w = px_services w0"

lemma quiet_reply: "preserves (same_sent w0) (reply en response svc st reason)"
  by (auto simp: preserves_def reply_def bind_p_def write_client_def record_proxy_result_def when_p_def mod_s_def ret_def)

lemma quiet_balancer: "preserves (same_sent w0) (on_balancer m)"
  by (auto simp: preserves_def on_balancer_def split: prod.splits)

lemma quiet_secrets: "preserves (same_sent w0) (on_secrets m)"
  by (auto simp: preserves_def on_secrets_def split: prod.splits)

lemma quiet_lookup: "preserves (same_sent w0) (lookup_service name)"
  by (simp add: lookup_service_def preserves_rules)

lemma quiet_source: "preserves (same_sent w0) (source_service_from_request en h)"
proof -
  have "preserves (same_sent w0) (source_loop en token names)" for token names
    by (induction names) (auto simp: Let_def intro!: preserves_rules quiet_secrets quiet_lookup)
  then show ?thesis
    by (auto simp: source_service_from_request_def intro!: preserves_rules quiet_secrets split: option.splits)
qed

abbreviation same_client :: "('t, 'k) proxy \<Rightarrow> ('t, 'k) proxy \<Rightarrow> bool" where
  "same_client w0 \<equiv> \<lambda>w. px_written w = px_written w0 \<and> px_client_drains w = px_client_drains w0"

lemma client_source: "preserves (same_client w0) (source_service_from_request en h)"
proof -
  have on: "preserves (same_client w0) (on_secrets m)" for m
    by (auto simp: preserves_def on_secrets_def split: prod.splits)
  have "preserves (same_client w0) (source_loop en token names)" for token names
    by (induction names) (auto simp: Let_def lookup_service_def intro!: preserves_rules on)
  then show ?thesis
    by (auto simp: source_service_from_request_def intro!: preserves_rules on split: option.splits)
qed

text \<open>A request that is sent somewhere came through one of the three doors.\<close>

definition let_in :: "('t, 'k) proxy_env \<Rightarrow> string \<Rightarrow> ('t, 'k) proxy \<Rightarrow> bool" where
  "let_in en h w \<longleftrightarrow> starts_with ''/_aws-light/storage'' (extract_request_path h)
     \<or> (\<exists>name. extract_service_name h = Some name
         \<and> (if header_value h service_token_header = None then external_open w name
            else (\<exists>source. fst (source_service_from_request en h w) = Inr (Some source) \<and> internal_open w name source)))"

lemma serve_let_in:
  assumes "px_sent (snd (serve_request en h body w)) \<noteq> px_sent w"
  shows "let_in en h w"
proof (rule ccontr)
  assume out: "\<not> let_in en h w"
  obtain r w1 where 1: "source_service_from_request en h w = (r, w1)" by force
  have w1: "same_sent w w1" using preservesD [OF quiet_source, of w w en h] 1 by simp
  have reply: "px_sent (snd (reply en response svc st reason v)) = px_sent w" if "same_sent w v" for response svc st reason v
    using preservesD [OF quiet_reply that] by simp
  have open_same: "external_open w1 name = external_open w name" "internal_open w1 name source = internal_open w name source" for name source
    using w1 by (simp_all add: external_open_def internal_open_def)
  show False
  proof (cases "extract_service_name h")
    case None
    then show False using assms out reply [of w] by (auto simp: serve_request_def let_in_def)
  next
    case (Some name)
    show False
    proof (cases r)
      case (Inl e)
      then show False using assms out Some 1 w1 by (auto simp: serve_request_def let_in_def bind_p_def)
    next
      case (Inr found)
      then show False using assms out Some 1 reply [OF w1] internal_run [of name _ w1] external_run [of name w1] open_same
        by (cases found) (auto simp: serve_request_def let_in_def bind_p_def ret_def split: if_splits)
    qed
  qed
qed

text \<open>Identifying the caller does not look at what else arrives on the connection.\<close>

lemma on_secrets_client: "on_secrets m (w\<lparr>px_client := c\<rparr>) = apsnd (px_client_update (\<lambda>_. c)) (on_secrets m w)"
  by (simp add: on_secrets_def split: prod.split)

lemma source_loop_client:
  "source_loop en tok names (w\<lparr>px_client := c\<rparr>) = apsnd (px_client_update (\<lambda>_. c)) (source_loop en tok names w)"
proof (induction names arbitrary: w)
  case (Cons name names)
  obtain r w1 where 1: "on_secrets (get_secret (pe_fernet en) (pe_key en) (pe_secrets en) name) w = (r, w1)" by force
  then show ?case
    by (cases r) (auto simp: bind_p_def on_secrets_client Cons.IH lookup_service_def get_s_def ret_def Let_def)
qed (simp add: ret_def)

lemma source_client:
  "source_service_from_request en h (w\<lparr>px_client := c\<rparr>) = apsnd (px_client_update (\<lambda>_. c)) (source_service_from_request en h w)"
proof -
  obtain r w1 where "on_secrets (list_secret_names (pe_secrets en)) w = (r, w1)" by force
  then show ?thesis
    by (cases r) (auto simp: source_service_from_request_def bind_p_def on_secrets_client source_loop_client ret_def split: option.split)
qed

lemma let_in_client: "let_in en h (w\<lparr>px_client := c\<rparr>) = let_in en h w"
  by (simp add: let_in_def source_client external_open_def internal_open_def)

lemma handle_let_in:
  assumes "read_http_head (px_client w) = (Inr (h, body_prefix), st)" "\<not> let_in en h w"
  shows "px_sent (snd (handle_connection en w)) = px_sent w"
proof -
  have serve: "px_sent (snd (serve_request en h body (w\<lparr>px_client := c\<rparr>))) = px_sent w" for body c
    using serve_let_in [of en h body "w\<lparr>px_client := c\<rparr>"] assms(2) by (auto simp: let_in_client)
  have reply: "px_sent (snd (reply en response svc st reason (w\<lparr>px_client := c\<rparr>))) = px_sent w" for response svc st reason c
    using preservesD [OF quiet_reply [of w en response svc st reason], of "w\<lparr>px_client := c\<rparr>"] by simp
  have "px_sent (snd (proxy_request en w)) = px_sent w"
    using assms(1) serve reply
    by (auto simp: proxy_request_def bind_p_def read_client_head_def read_client_exactly_def ret_def Let_def
      split: option.splits prod.splits sum.splits)
  then show ?thesis by (auto simp: handle_connection_def try_p_def ret_def split: prod.splits sum.splits)
qed
lemma serve_denied:
  assumes "\<not> let_in en h w" "extract_service_name h = Some name" "fst (source_service_from_request en h w) = Inr found"
    and "px_client_drains w" 
  shows "px_written (snd (serve_request en h body w)) = px_written w @
    (if header_value h service_token_header = None then response_403 else response_403_internal)"
proof -
  obtain w1 where 1: "source_service_from_request en h w = (Inr found, w1)" using assms(3) by (cases "source_service_from_request en h w") auto
  have w1: "same_client w w1" using preservesD [OF client_source, of w w en h] 1 by simp
  have s: "same_sent w w1" using preservesD [OF quiet_source, of w w en h] 1 by simp
  have reply: "px_written (snd (reply en response svc st reason w1)) = px_written w @ response" for response svc st reason
    using w1 assms(4) record_run [of en svc st "Some reason" 0] 
    by (auto simp: reply_def bind_p_def write_client_def record_proxy_result_def when_p_def mod_s_def ret_def)
  have o: "external_open w1 name = external_open w name" "internal_open w1 name source = internal_open w name source" for source
    using s by (simp_all add: external_open_def internal_open_def)
  show ?thesis
    using assms(1,2) 1 reply internal_run [of name _ w1] external_run [of name w1] o
    by (cases found) (auto simp: serve_request_def let_in_def bind_p_def ret_def)
qed

text \<open>Whether the proxy knows a service.\<close>

definition knows_service :: "('t, 'k) proxy \<Rightarrow> string \<Rightarrow> bool" where
  "knows_service w name \<longleftrightarrow> (case px_services w of None \<Rightarrow> True | Some services \<Rightarrow> dict_has services name)"

lemma lookup_knows: "lookup_service name w = (Inr found, w') \<Longrightarrow> w' = w \<and> (found = Some None \<longleftrightarrow> \<not> knows_service w name)"
  by (auto simp: lookup_service_def get_s_def knows_service_def dict_has_def split: option.splits)

context secret_store
begin

lemma source_loop_run:
  assumes "pe_secrets en = st"
  shows "inv (px_secrets w) \<Longrightarrow> \<forall>n. readable (pe_fernet en) (pe_key en) (view (px_secrets w) n) \<Longrightarrow>
    \<exists>found w'. source_loop en tok names w = (Inr found, w') \<and> px_services w' = px_services w
      \<and> (\<forall>source. found = Some source \<longrightarrow> token_of (pe_fernet en) (pe_key en) (view (px_secrets w)) source = Some tok \<and> knows_service w source)
      \<and> (found = None \<longrightarrow> (\<forall>source. service_token_prefix @ source \<in> set names \<and>
           token_of (pe_fernet en) (pe_key en) (view (px_secrets w)) source = Some tok \<and> knows_service w source \<longrightarrow>
           (\<exists>other. token_of (pe_fernet en) (pe_key en) (view (px_secrets w)) other = Some tok \<and> \<not> knows_service w other)))"
proof (induction names arbitrary: w)
  case (Cons name names)
  let ?token = "token_of (pe_fernet en) (pe_key en) (view (px_secrets w))"
  obtain k where k: "get_secret (pe_fernet en) (pe_key en) st name (px_secrets w)
      = (Inr (plain_of (pe_fernet en) (pe_key en) (view (px_secrets w) name)), k)" "inv k" "view k = view (px_secrets w)"
    using get_secret_run [of "px_secrets w" "pe_fernet en" "pe_key en" name] Cons.prems by auto
  let ?w = "w\<lparr>px_secrets := k\<rparr>"
  note here = Cons.IH [OF Cons.prems] and later = Cons.IH [of ?w]
  have same: "knows_service ?w source = knows_service w source" for source by (simp add: knows_service_def)
  have get: "on_secrets (get_secret (pe_fernet en) (pe_key en) (pe_secrets en) name) w
      = (Inr (plain_of (pe_fernet en) (pe_key en) (view (px_secrets w) name)), ?w)"
    using k(1) assms by (simp add: on_secrets_def)
  show ?case
  proof (cases "starts_with service_token_prefix name")
    case False
    then show ?thesis using here by (auto simp: starts_with_iff)
  next
    case True
    let ?source = "remove_prefix service_token_prefix name"
    have name: "service_token_prefix @ ?source = name" by (rule starts_with_remove [OF True])
    then have token: "?token ?source = plain_of (pe_fernet en) (pe_key en) (view (px_secrets w) name)" by (simp add: token_of_def)
    show ?thesis
    proof (cases "?token ?source = Some tok")
      case False
      have "source_loop en tok (name # names) w = source_loop en tok names ?w"
        using True False get token by (simp add: bind_p_def)
      moreover have "\<not> (service_token_prefix @ source = name \<and> ?token source = Some tok)" for source using False by auto
      ultimately show ?thesis using later k Cons.prems same by fastforce
    next
      case match: True
      obtain found where l: "lookup_service ?source ?w = (Inr found, ?w)" by (simp add: lookup_service_def get_s_def)
      have "source_loop en tok (name # names) w = (Inr (if found = Some None then None else Some ?source), ?w)"
        using True match get token l by (simp add: bind_p_def ret_def Let_def)
      then show ?thesis using match lookup_knows [OF l] same by auto
    qed
  qed
qed (simp add: ret_def)

lemma source_run:
  assumes "pe_secrets en = st" "pe_manages_secrets en" "header_value h service_token_header = Some value"
    and "inv (px_secrets w)" "\<forall>n. readable (pe_fernet en) (pe_key en) (view (px_secrets w) n)"
    and "\<forall>n spec. view (px_secrets w) n = Some spec \<longrightarrow> sec_name spec = n"
  shows "\<exists>found w'. source_service_from_request en h w = (Inr found, w')
      \<and> (\<forall>source. found = Some source \<longrightarrow> token_of (pe_fernet en) (pe_key en) (view (px_secrets w)) source = Some (decode_replace value) \<and> knows_service w source)
      \<and> (found = None \<longrightarrow> (\<forall>source. token_of (pe_fernet en) (pe_key en) (view (px_secrets w)) source = Some (decode_replace value) \<and> knows_service w source \<longrightarrow>
           (\<exists>other. token_of (pe_fernet en) (pe_key en) (view (px_secrets w)) other = Some (decode_replace value) \<and> \<not> knows_service w other)))"
proof -
  obtain k all where k: "so_list st (px_secrets w) = (Inr all, k)" "set all = ran (view (px_secrets w))" "inv k" "view k = view (px_secrets w)"
    using list_law [OF assms(4)] by blast
  let ?w = "w\<lparr>px_secrets := k\<rparr>"
  have names: "on_secrets (list_secret_names (pe_secrets en)) w = (Inr (map sec_name all), ?w)"
    using k(1) assms(1) by (simp add: on_secrets_def list_secret_names_def bind_p_def ret_def)
  have "service_token_prefix @ source \<in> set (map sec_name all)"
    if "token_of (pe_fernet en) (pe_key en) (view (px_secrets w)) source = Some tok" for source tok
  proof (cases "view (px_secrets w) (service_token_prefix @ source)")
    case None
    then show ?thesis using that by (simp add: token_of_def plain_of_def)
  next
    case (Some spec)
    then have "spec \<in> set all" "sec_name spec = service_token_prefix @ source" using k(2) assms(6) by (auto simp: ran_def)
    then show ?thesis by (auto simp: image_iff intro: bexI [of _ spec])
  qed
  moreover have "knows_service ?w source = knows_service w source" for source by (simp add: knows_service_def)
  ultimately show ?thesis
    using source_loop_run [OF assms(1), of ?w "decode_replace value" "map sec_name all"] names k(3,4) assms(2,3,5)
    by (auto simp: source_service_from_request_def bind_p_def)
qed

end

text \<open>The body of a request: the bytes after its head, or too few of them.\<close>

lemma body_read:
  "\<exists>ps'. (let body = take n body_prefix; remaining = n - length body in
      if remaining = 0 then serve_request en h body
      else (\<lambda>w. case read_client_exactly remaining w of
          (Inr rest, w') \<Rightarrow> serve_request en h (body @ rest) w'
        | (Inl e, w') \<Rightarrow> if e \<in> {TimeoutError, IncompleteReadError}
            then reply en response_400 None 400 ''incomplete_request_body'' w' else (Inl e, w'))) (w\<lparr>px_client := arrives ps\<rparr>)
    = (if n \<le> length (body_prefix @ concat ps) then serve_request en h (take n (body_prefix @ concat ps))
       else reply en response_400 None 400 ''incomplete_request_body'') (w\<lparr>px_client := arrives ps'\<rparr>)"
proof (cases "n \<le> length body_prefix")
  case True
  then show ?thesis by (auto simp: Let_def intro: exI [of _ ps])
next
  case False
  then have n: "n - length (take n body_prefix) = n - length body_prefix" "take n body_prefix = body_prefix" "0 < n - length body_prefix" by auto
  show ?thesis
  proof (cases "n - length body_prefix \<le> length (concat ps)")
    case True
    then have l: "n \<le> length (body_prefix @ concat ps)" using True unfolding length_append by linarith
    obtain ps' where "read_exactly (n - length body_prefix) (arrives ps) = (Inr (take (n - length body_prefix) (concat ps)), arrives ps')"
      using read_exactly_pieces [OF True n(3)] by blast
    then show ?thesis using n l unfolding Let_def
      by (intro exI [of _ ps']) (simp add: read_client_exactly_def del: length_append length_concat)
  next
    case short: False
    then have l: "\<not> n \<le> length (body_prefix @ concat ps)" using short unfolding length_append by linarith
    obtain ps' where "read_exactly (n - length body_prefix) (arrives ps) = (Inl IncompleteReadError, arrives ps')"
      using read_exactly_short [of ps "n - length body_prefix"] short by auto
    then show ?thesis using n l unfolding Let_def
      by (intro exI [of _ ps']) (simp add: read_client_exactly_def del: length_append length_concat)
  qed
qed

section \<open>Properties\<close>

text \<open>A request and a response in pieces, the environment and the state of the witnesses.\<close>

definition demo_response :: string where
  "demo_response = ''HTTP/1.1 200 OK'' @ crlf @ ''Content-Length: 2'' @ crlf @ ''Keep-Alive: 5'' @ header_delimiter"

definition demo_proxy_env :: "(routing_table, (json table, secret_spec) ttl_cache) proxy_env" where
  "demo_proxy_env = \<lparr>pe_routing = memory_routing, pe_secrets = ttl_store secrets_table, pe_fernet = plain_fernet, pe_key = ''k'',
     pe_manages_secrets = True, pe_redis = True, pe_events = False, pe_perf = (\<lambda>i. 0), pe_tunnelled = (0, 0)\<rparr>"

definition demo_token_row :: "string \<times> json" where
  "demo_token_row = (service_token_prefix @ ''front'', secret_dump \<lparr>sec_name = service_token_prefix @ ''front'', sec_value = ''kot''\<rparr>)"

definition demo_proxy :: "string \<Rightarrow> bool \<Rightarrow> connection list \<Rightarrow> (routing_table, (json table, secret_spec) ttl_cache) proxy" where
  "demo_proxy request drains network = \<lparr>px_routing = [], px_counters = [],
     px_services = Some [(''front'', new_service_state 0 (default_service_spec ''front'' ''img'')),
       (''web'', new_service_state 0 (default_service_spec ''web'' ''img''))],
     px_secrets = \<lparr>tc_store = [demo_token_row], tc_ttl_seconds = 5, tc_max_entries = 1024, tc_clock = 0, tc_entries = []\<rparr>,
     px_client = arrives [take 10 request, drop 10 request], px_client_drains = drains, px_written = [], px_network = network,
     px_sent = [], px_metrics = no_metrics, px_traffic = no_traffic, px_published = [], px_readings = 0, px_now = 0\<rparr>"

definition demo_upstreams :: "endpoint list" where
  "demo_upstreams = [\<lparr>ep_replica_id = ''r1'', ep_host = ''10.0.0.2'', ep_port = 80, ep_healthy = True\<rparr>,
     \<lparr>ep_replica_id = ''r2'', ep_host = ''10.0.0.3'', ep_port = 80, ep_healthy = True\<rparr>]"

text \<open>C28. The response of an upstream does not depend on the pieces it arrives in, and is passed on whole: the
  rewritten head, then exactly as many bytes of body as \<open>Content-Length\<close> says, or everything up to the
  end of the stream without one. When the stream ends before \<open>Content-Length\<close> bytes the response is an
  error, also where the response rightly has no body, as the one to a \<open>HEAD\<close> request.\<close>

theorem response_passed_on:
  assumes "find_sub header_delimiter (concat ps) = Some i" "i + 4 + 4095 \<le> max_header_bytes"
  shows "read_full_response (arrives ps) =
    (let head = take (i + 4) (concat ps); content = drop (i + 4) (concat ps) in
     case extract_content_length head of
       None \<Rightarrow> Inr (rewrite_response_headers head @ content)
     | Some n \<Rightarrow> if n \<le> length content then Inr (rewrite_response_headers head @ take n content)
         else Inl UpstreamResponseError)"
proof -
  obtain body_prefix ps' where h: "read_http_head (arrives ps) = (Inr (take (i + 4) (concat ps), body_prefix), arrives ps')"
      "body_prefix @ concat ps' = drop (i + 4) (concat ps)"
    using read_head_pieces [of "[]" ps i] assms by (auto simp: read_http_head_def)
  have "length (take (i + 4) (concat ps)) = i + 4" using find_sub_Some [OF assms(1)] unfolding length_take by simp
  then have "take (i + 4) (concat ps) \<noteq> []" by (metis add_is_0 list.size(3) zero_neq_numeral)
  then show ?thesis
    using h(1) read_remaining_pieces [of "n - length body_prefix" ps' for n] read_remaining_short [of ps' "n - length body_prefix" for n]
    unfolding h(2) [symmetric]
    by (auto simp: read_full_response_def read_to_end_pieces timeout_as_response_timeout_def Let_def min_def not_le split: option.split)
qed

theorem response_passed_on_witness:
  "read_full_response (arrives [take 5 demo_response, drop 5 demo_response @ ''o'', ''kay'']) =
    Inr (join crlf [''HTTP/1.1 200 OK'', ''Content-Length: 2'', ''Connection: close''] @ header_delimiter @ ''ok'')"
proof -
  have f: "find_sub header_delimiter (concat [take 5 demo_response, drop 5 demo_response @ ''o'', ''kay'']) = Some 49" by code_simp
  have d: "take (49 + 4) (concat [take 5 demo_response, drop 5 demo_response @ ''o'', ''kay'']) = demo_response"
      "drop (49 + 4) (concat [take 5 demo_response, drop 5 demo_response @ ''o'', ''kay'']) = ''okay''" by code_simp+
  have c: "extract_content_length demo_response = Some 2"
      "rewrite_response_headers demo_response = join crlf [''HTTP/1.1 200 OK'', ''Content-Length: 2'', ''Connection: close''] @ header_delimiter"
    by code_simp+
  show ?thesis using response_passed_on [OF f] unfolding d by (simp add: c max_header_bytes_def)
qed

text \<open>C23. A request is served once, on its whole body, however its bytes are cut into pieces: with a
  \<open>Content-Length\<close> of \<open>n\<close> the proxy waits for the \<open>n\<close> bytes after the head and serves the head with exactly
  these. A message with a transfer encoding is answered with 501, one with a bad length with 400, and one
  that ends too early with 400; none of these goes on to an upstream.\<close>

theorem request_read_whole:
  assumes "px_client w = arrives ps" "find_sub header_delimiter (concat ps) = Some i" "i + 4 + 4095 \<le> max_header_bytes"
  shows "\<exists>ps'. proxy_request en w =
    (let head = take (i + 4) (concat ps); content = drop (i + 4) (concat ps) in
     if has_transfer_encoding head then reply en response_501 None 501 ''unsupported_transfer_encoding''
     else case extract_request_content_length head of
       None \<Rightarrow> reply en response_400 None 400 ''bad_content_length''
     | Some n \<Rightarrow> if n \<le> length content then serve_request en head (take n content)
         else reply en response_400 None 400 ''incomplete_request_body'') (w\<lparr>px_client := arrives ps'\<rparr>)"
proof -
  define head where "head = take (i + 4) (concat ps)"
  obtain body_prefix ps' where h: "read_http_head (px_client w) = (Inr (head, body_prefix), arrives ps')"
      "body_prefix @ concat ps' = drop (i + 4) (concat ps)"
    using read_head_pieces [of "[]" ps i] assms by (auto simp: read_http_head_def head_def)
  have "length head = i + 4" using find_sub_Some [OF assms(2)] unfolding length_take head_def by simp
  then have "head \<noteq> []" by auto
  then have step: "proxy_request en w =
     (if has_transfer_encoding head then reply en response_501 None 501 ''unsupported_transfer_encoding''
      else (case extract_request_content_length head of
         None \<Rightarrow> reply en response_400 None 400 ''bad_content_length''
       | Some content_length \<Rightarrow>
          (let body = take content_length body_prefix; remaining = content_length - length body in
           if remaining = 0 then serve_request en head body
           else (\<lambda>w. case read_client_exactly remaining w of
               (Inr rest, w') \<Rightarrow> serve_request en head (body @ rest) w'
             | (Inl e, w') \<Rightarrow> if e \<in> {TimeoutError, IncompleteReadError}
                 then reply en response_400 None 400 ''incomplete_request_body'' w' else (Inl e, w'))))) (w\<lparr>px_client := arrives ps'\<rparr>)"
    using h(1) by (simp add: proxy_request_def bind_p_def read_client_head_def)
  show ?thesis
  proof (cases "has_transfer_encoding head")
    case True
    then show ?thesis unfolding step Let_def head_def [symmetric] by (intro exI [of _ ps']) simp
  next
    case False
    then show ?thesis using body_read [where body_prefix = body_prefix and h = head and w = w and ps = ps' and en = en] unfolding step h(2) head_def [symmetric]
      by (cases "extract_request_content_length head") (auto simp only: Let_def if_False option.case)
  qed
qed
definition post_head :: string where
  "post_head = ''POST / HTTP/1.1'' @ crlf @ ''Host: web.localhost'' @ crlf @ ''Content-Length: 2'' @ header_delimiter"

theorem request_read_whole_witness:
  "\<exists>ps'. proxy_request demo_proxy_env (demo_proxy (post_head @ ''hi'') True []) =
    serve_request demo_proxy_env post_head ''hi'' ((demo_proxy (post_head @ ''hi'') True [])\<lparr>px_client := arrives ps'\<rparr>)"
proof -
  let ?ps = "[take 10 (post_head @ ''hi''), drop 10 (post_head @ ''hi'')]"
  have c: "px_client (demo_proxy (post_head @ ''hi'') True []) = arrives ?ps" by (simp add: demo_proxy_def)
  have f: "find_sub header_delimiter (concat ?ps) = Some 55" by code_simp
  have d: "take (55 + 4) (concat ?ps) = post_head" "drop (55 + 4) (concat ?ps) = ''hi''" by code_simp+
  have "\<not> has_transfer_encoding post_head" "extract_request_content_length post_head = Some 2" by code_simp+
  then show ?thesis using request_read_whole [OF c f, of demo_proxy_env] unfolding d by (simp add: max_header_bytes_def Let_def)
qed

text \<open>C11. Forwarding with failover: the request goes to the candidates in their order until one answers; the
  client gets that answer, or the 504 or 502 of the proxy when none did, 504 exactly when one of them timed
  out; and one result is recorded for the service. A candidate that took the connection but did not
  answer has received the whole request, whatever its method, and the next one receives it again.\<close>

theorem forwarding_outcome:
  assumes "px_network w = cs @ rest" "length cs = length endpoints" "px_client_drains w"
  shows "\<exists>w' reason d. forward_http_to_candidates en h body endpoints service w = (Inr (), w')
    \<and> px_written w' = px_written w @ (case first_answer cs of Some response \<Rightarrow> response
        | None \<Rightarrow> if \<exists>c \<in> set cs. timed_out c then response_504 else response_502)
    \<and> px_sent w' = px_sent w @ requests_sent h body endpoints cs
    \<and> (pe_redis en \<longrightarrow> px_metrics w' = metrics_record (px_now w) (Some service)
        (case first_answer cs of Some response \<Rightarrow> status_of response
         | None \<Rightarrow> if \<exists>c \<in> set cs. timed_out c then 504 else 502) reason d (px_metrics w))"
proof -
  let ?w = "w\<lparr>px_readings := Suc (px_readings w)\<rparr>"
  obtain w' where "forward_loop en h body endpoints service (pe_perf en (px_readings w)) False ?w = (Inr (), w')"
      "forwarded en service (requests_sent h body endpoints cs) (final_response False cs) (final_status False cs) ?w w'"
    using forward_loop_run [of ?w cs rest endpoints en h body service _ False] assms by auto
  moreover from this(2) obtain reason d where "px_metrics w' = (if pe_redis en then metrics_record (px_now ?w) (Some service)
      (final_status False cs) reason d (px_metrics ?w) else px_metrics ?w)" unfolding forwarded_def by blast
  moreover have "final_response False cs = (case first_answer cs of Some response \<Rightarrow> response
        | None \<Rightarrow> if \<exists>c \<in> set cs. timed_out c then response_504 else response_502)"
      "final_status False cs = (case first_answer cs of Some response \<Rightarrow> status_of response
         | None \<Rightarrow> if \<exists>c \<in> set cs. timed_out c then 504 else 502)"
    by (auto simp: final_response_def final_status_def split: option.split)
  ultimately have "forward_http_to_candidates en h body endpoints service w = (Inr (), w')"
      "px_written w' = px_written w @ (case first_answer cs of Some response \<Rightarrow> response
        | None \<Rightarrow> if \<exists>c \<in> set cs. timed_out c then response_504 else response_502)"
      "px_sent w' = px_sent w @ requests_sent h body endpoints cs"
      "pe_redis en \<longrightarrow> px_metrics w' = metrics_record (px_now w) (Some service)
        (case first_answer cs of Some response \<Rightarrow> status_of response
         | None \<Rightarrow> if \<exists>c \<in> set cs. timed_out c then 504 else 502) reason d (px_metrics w)"
    by (simp_all add: forward_http_to_candidates_def bind_p_def perf_counter_def forwarded_def)
  then show ?thesis by blast
qed

definition silent_upstream :: connection where
  "silent_upstream = Connected \<lparr>up_reader = [Stalled], up_drains = True\<rparr>"

definition good_upstream :: connection where
  "good_upstream = Connected \<lparr>up_reader = arrives [demo_response, ''ok''], up_drains = True\<rparr>"

definition demo_answer :: string where
  "demo_answer = join crlf [''HTTP/1.1 200 OK'', ''Content-Length: 2'', ''Connection: close''] @ header_delimiter @ ''ok''"

lemma demo_answers: "answer silent_upstream = None" "answer good_upstream = Some demo_answer"
proof -
  show "answer silent_upstream = None"
    by (simp add: silent_upstream_def answer_def read_full_response_def read_http_head_def read_head.simps [of "[]"] contains_sub_def
      find_sub_here header_delimiter_def crlf_def timeout_as_response_timeout_def)
  have d: "split_head demo_response = (demo_response, [])" "contains_sub header_delimiter demo_response"
      "extract_content_length demo_response = Some 2" "length demo_response = 53" "\<not> contains_sub header_delimiter []"
      "rewrite_response_headers demo_response = join crlf [''HTTP/1.1 200 OK'', ''Content-Length: 2'', ''Connection: close''] @ header_delimiter"
    by code_simp+
  then have "demo_response \<noteq> []" by auto
  then have "read_http_head (arrives [demo_response, ''ok'']) = (Inr (demo_response, []), arrives [''ok''])"
    using d by (simp add: read_http_head_def read_head.simps [of "[]"] read_head.simps [of demo_response] max_header_bytes_def)
  then have "read_full_response (arrives [demo_response, ''ok'']) = Inr demo_answer"
    using d \<open>demo_response \<noteq> []\<close> by (simp add: read_full_response_def timeout_as_response_timeout_def numeral_2_eq_2 demo_answer_def)
  then show "answer good_upstream = Some demo_answer" by (simp add: good_upstream_def answer_def)
qed

theorem forwarding_outcome_witness:
  "\<exists>w'. forward_http_to_candidates demo_proxy_env post_head ''hi'' demo_upstreams ''web''
      (demo_proxy [] True [silent_upstream, good_upstream]) = (Inr (), w')
    \<and> px_sent w' = [(''10.0.0.2'', 80, rewrite_request_headers post_head ''10.0.0.2'' 80 @ ''hi''),
        (''10.0.0.3'', 80, rewrite_request_headers post_head ''10.0.0.3'' 80 @ ''hi'')]
    \<and> px_written w' = demo_answer"
proof -
  let ?w = "demo_proxy [] True [silent_upstream, good_upstream]"
  have n: "px_network ?w = [silent_upstream, good_upstream] @ []" "px_client_drains ?w" "px_sent ?w = []" "px_written ?w = []"
      "length [silent_upstream, good_upstream] = length demo_upstreams"
    by (simp_all add: demo_proxy_def demo_upstreams_def)
  have "\<exists>u. silent_upstream = Connected u" "\<exists>u. good_upstream = Connected u" by (simp_all add: silent_upstream_def good_upstream_def)
  then show ?thesis using forwarding_outcome [OF n(1,5,2), of demo_proxy_env post_head "''hi''" "''web''"]
    unfolding n(3,4) by (auto simp: demo_answers demo_upstreams_def)
qed

text \<open>A client that goes away makes the proxy repeat its request: when the client's side does not take the
  response, every candidate receives the request although each one answers, since the failed write to the
  client counts as a failure of the candidate; and no result is recorded.\<close>

theorem gone_client_repeats:
  assumes "px_network w = cs @ rest" "length cs = length endpoints" "\<not> px_client_drains w" "\<forall>c \<in> set cs. answer c \<noteq> None"
  shows "\<exists>w'. forward_http_to_candidates en h body endpoints service w = (Inl OSError, w')
    \<and> px_sent w' = px_sent w @ map (\<lambda>e. (ep_host e, ep_port e, rewrite_request_headers h (ep_host e) (ep_port e) @ body)) endpoints
    \<and> px_written w' = px_written w \<and> px_metrics w' = px_metrics w"
proof -
  have "\<exists>w'. forward_loop en h body endpoints service started seen w = (Inl OSError, w')
    \<and> px_sent w' = px_sent w @ map (\<lambda>e. (ep_host e, ep_port e, rewrite_request_headers h (ep_host e) (ep_port e) @ body)) endpoints
    \<and> px_written w' = px_written w \<and> px_metrics w' = px_metrics w"
    if "px_network w = cs @ rest" "length cs = length endpoints" "\<not> px_client_drains w" "\<forall>c \<in> set cs. answer c \<noteq> None"
    for cs endpoints started seen and w :: "('a, 'b) proxy"
    using that
  proof (induction endpoints arbitrary: cs w)
    case Nil
    then show ?case by (simp add: bind_p_def write_client_def)
  next
    case (Cons e endpoints)
    obtain c cs' where c: "cs = c # cs'" using Cons.prems(2) by (cases cs) auto
    obtain u response where u: "c = Connected u" "up_drains u" "read_full_response (up_reader u) = Inr response"
      using Cons.prems(4) c by (auto simp: answer_def split: connection.splits sum.splits if_splits)
    let ?w = "w\<lparr>px_network := cs' @ rest, px_sent := px_sent w @ [(ep_host e, ep_port e, rewrite_request_headers h (ep_host e) (ep_port e) @ body)]\<rparr>"
    have "forward_http_to_endpoint h body e w = (Inl OSError, ?w)"
      using u c Cons.prems(1,3)
      by (simp add: forward_http_to_endpoint_def bind_p_def open_connection_def send_upstream_def write_client_def Let_def)
    then have "forward_loop en h body (e # endpoints) service started seen w = forward_loop en h body endpoints service started seen ?w"
      by simp
    then show ?case using Cons.IH [of ?w cs'] Cons.prems c by auto
  qed
  from this [of "w\<lparr>px_readings := Suc (px_readings w)\<rparr>"] show ?thesis using assms
    by (simp add: forward_http_to_candidates_def bind_p_def perf_counter_def)
qed

theorem gone_client_repeats_witness:
  "map fst (px_sent (snd (forward_http_to_candidates demo_proxy_env post_head ''hi'' demo_upstreams ''web''
      (demo_proxy [] False [good_upstream, good_upstream])))) = [''10.0.0.2'', ''10.0.0.3'']"
proof -
  let ?w = "demo_proxy [] False [good_upstream, good_upstream]"
  have n: "px_network ?w = [good_upstream, good_upstream] @ []" "\<not> px_client_drains ?w" "px_sent ?w = []"
      "length [good_upstream, good_upstream] = length demo_upstreams" "\<forall>c \<in> set [good_upstream, good_upstream]. answer c \<noteq> None"
    by (simp_all add: demo_proxy_def demo_upstreams_def demo_answers)
  show ?thesis using gone_client_repeats [OF n(1,4,2,5), of demo_proxy_env post_head "''hi''" "''web''"]
    unfolding n(3) by (auto simp: demo_upstreams_def)
qed

text \<open>C4. Ingress is enforced: a connection whose request is not let in reaches no upstream. A request is let
  in when it is for the platform's storage, or when it has no service token and its service is open to
  the outside, or when its token identifies a service to which its service is open. A request for a named
  service that is not let in is answered with 403.\<close>

theorem ingress_enforced:
  assumes "read_http_head (px_client w) = (Inr (h, body_prefix), st)" "\<not> let_in en h w"
  shows "px_sent (snd (handle_connection en w)) = px_sent w
    \<and> (\<forall>name found body. extract_service_name h = Some name \<longrightarrow> fst (source_service_from_request en h w) = Inr found \<longrightarrow> px_client_drains w
        \<longrightarrow> px_written (snd (serve_request en h body w)) = px_written w @
            (if header_value h service_token_header = None then response_403 else response_403_internal))"
  using handle_let_in [OF assms] serve_denied [OF assms(2)] by blast

text \<open>C21. A service token identifies its service: when every stored secret can be decrypted and no two services
  have the same token, the proxy takes a request for one of service \<open>source\<close> exactly when the header is
  the token of \<open>source\<close> and the proxy knows that service.\<close>

theorem token_identifies_source:
  assumes "pe_secrets en = ttl_store secrets_table" "pe_manages_secrets en" "header_value h service_token_header = Some value"
    and "secret_codec.pg.ttl_inv (px_secrets w)"
    and "secrets = raw_view secret_validate (tc_store (px_secrets w))"
    and "\<forall>n. readable (pe_fernet en) (pe_key en) (secrets n)"
    and "\<forall>n spec. secrets n = Some spec \<longrightarrow> sec_name spec = n"
    and "\<forall>a b. token_of (pe_fernet en) (pe_key en) secrets a = Some (decode_replace value)
      \<and> token_of (pe_fernet en) (pe_key en) secrets b = Some (decode_replace value) \<longrightarrow> a = b"
  shows "\<exists>found. fst (source_service_from_request en h w) = Inr found
    \<and> (\<forall>source. found = Some source \<longleftrightarrow>
         token_of (pe_fernet en) (pe_key en) secrets source = Some (decode_replace value) \<and> knows_service w source)"
proof -
  obtain found w' where "source_service_from_request en h w = (Inr found, w')"
      "\<forall>source. found = Some source \<longrightarrow> token_of (pe_fernet en) (pe_key en) secrets source = Some (decode_replace value) \<and> knows_service w source"
      "found = None \<longrightarrow> (\<forall>source. token_of (pe_fernet en) (pe_key en) secrets source = Some (decode_replace value) \<and> knows_service w source \<longrightarrow>
         (\<exists>other. token_of (pe_fernet en) (pe_key en) secrets other = Some (decode_replace value) \<and> \<not> knows_service w other))"
    using cached_secrets.source_run [OF assms(1-4)] assms(6,7) unfolding assms(5) by blast
  then have "found = Some source \<longleftrightarrow> token_of (pe_fernet en) (pe_key en) secrets source = Some (decode_replace value) \<and> knows_service w source" for source
    using assms(8) by (cases found) metis+
  then show ?thesis using \<open>source_service_from_request en h w = (Inr found, w')\<close> by auto
qed

definition get_head :: "string \<Rightarrow> string" where
  "get_head extra = ''GET / HTTP/1.1'' @ crlf @ ''Host: web.localhost'' @ extra @ header_delimiter"

theorem ingress_enforced_witness:
  "px_sent (snd (handle_connection demo_proxy_env (demo_proxy (get_head []) True [good_upstream]))) = []"
proof -
  let ?w = "demo_proxy (get_head []) True [good_upstream]"
  have "read_head [] (px_client ?w) = (Inr (get_head [], []), [])"
  proof -
    have d: "split_head (get_head []) = (get_head [], [])" "contains_sub header_delimiter (get_head [])"
        "length (get_head []) = 39" "\<not> contains_sub header_delimiter []" "\<not> contains_sub header_delimiter (take 10 (get_head []))"
      by code_simp+
    then have n: "take 10 (get_head []) \<noteq> []" "drop 10 (get_head []) \<noteq> []" by auto
    show ?thesis using d n
      by (simp add: demo_proxy_def read_head.simps [of "[]"] read_head.simps [of "take 10 (get_head [])"] read_head.simps [of "get_head []"]
        max_header_bytes_def)
  qed
  then have h: "read_http_head (px_client ?w) = (Inr (get_head [], []), [])" by (simp add: read_http_head_def)
  have "\<not> starts_with ''/_aws-light/storage'' (extract_request_path (get_head []))"
      "extract_service_name (get_head []) = Some ''web''" "header_value (get_head []) service_token_header = None"
    by code_simp+
  then have "\<not> let_in demo_proxy_env (get_head []) ?w"
    by (simp add: let_in_def external_open_def demo_proxy_def new_service_state_def default_service_spec_def default_ingress_def)
  from ingress_enforced [OF h this] show ?thesis by (simp add: demo_proxy_def)
qed

theorem token_identifies_source_witness:
  "fst (source_service_from_request demo_proxy_env (get_head (crlf @ ''X-Aws-Light-Service-Token: tok'')) (demo_proxy [] True [])) = Inr (Some ''front'')"
proof -
  let ?w = "demo_proxy [] True []" and ?h = "get_head (crlf @ ''X-Aws-Light-Service-Token: tok'')"
  let ?secrets = "raw_view secret_validate (tc_store (px_secrets ?w))"
  have v: "?secrets n = (if n = service_token_prefix @ ''front'' then Some \<lparr>sec_name = service_token_prefix @ ''front'', sec_value = ''kot''\<rparr> else None)" for n
    by (simp add: raw_view_def demo_proxy_def demo_token_row_def secret_codec.validate_dump)
  have f: "pe_fernet demo_proxy_env = plain_fernet" "pe_key demo_proxy_env = ''k''" by (simp_all add: demo_proxy_env_def)
  have t: "token_of plain_fernet ''k'' ?secrets source = (if source = ''front'' then Some ''tok'' else None)" for source
    unfolding token_of_def v by (simp add: plain_of_def plain_fernet_def)
  have h: "header_value ?h service_token_header = Some ''tok''" "decode_replace ''tok'' = ''tok''" by code_simp+
  have 1: "pe_secrets demo_proxy_env = ttl_store secrets_table" "pe_manages_secrets demo_proxy_env" by (simp_all add: demo_proxy_env_def)
  have 2: "secret_codec.pg.ttl_inv (px_secrets ?w)"
    by (simp add: secret_codec.pg.ttl_inv_def demo_proxy_def ttl_wf_def coherent_def raw_inv_def demo_token_row_def wf_dict_def
      secret_codec.validate_dump)
  have 3: "\<forall>n. readable (pe_fernet demo_proxy_env) (pe_key demo_proxy_env) (?secrets n)"
    by (simp add: f readable_def plain_fernet_def)
  have 4: "\<forall>n spec. ?secrets n = Some spec \<longrightarrow> sec_name spec = n" by (simp add: v)
  have 5: "\<forall>a b. token_of (pe_fernet demo_proxy_env) (pe_key demo_proxy_env) ?secrets a = Some (decode_replace ''tok'')
      \<and> token_of (pe_fernet demo_proxy_env) (pe_key demo_proxy_env) ?secrets b = Some (decode_replace ''tok'') \<longrightarrow> a = b"
    unfolding f t by simp
  have k: "knows_service ?w ''front''" by (simp add: knows_service_def demo_proxy_def dict_has_def)
  show ?thesis using token_identifies_source [OF 1 h(1) 2 refl 3 4 5] k unfolding f t h(2) by auto
qed

text \<open>An allow list in a manifest admits every service: when the dictionary of \<open>internal\<close> names an allow list
  and does not say \<open>enabled\<close>, the parsed policy is enabled, and the proxy lets any identified service in,
  also one that is not on the list.\<close>

theorem allow_list_admits_all:
  assumes "policy_validation validate" "dict_has d ''allowFrom''" "\<not> dict_has d ''enabled''"
    and "ingress_internal validate (RawDict d) = Inr policy"
    and "px_services w = Some services" "dict_get services name = Some s" "in_internal (sp_ingress (ss_spec s)) = policy"
  shows "internal_ingress_allowed name source w = (Inr True, w)"
proof -
  have "normalize_internal (RawDict d) = RawDict (dict_put ''enabled'' (JBool True) d)"
    using assms(2,3) by (simp add: normalize_internal_def)
  then have "validate (dict_put ''enabled'' (JBool True) d) = Inr policy" using assms(4) by (simp add: ingress_internal_def)
  then have "ip_enabled policy = True"
    using assms(1) unfolding policy_validation_def by (metis dict_get_put)
  then show ?thesis unfolding internal_run using assms(5-7) by (simp add: internal_open_def)
qed

definition demo_validate :: "(string, json) pydict \<Rightarrow> internal_ingress_policy result" where
  "demo_validate d = (case (dict_get d ''enabled'', dict_get d ''allowFrom'') of
     (Some (JBool b), Some (JList xs)) \<Rightarrow> bind_r (json_strings xs) (\<lambda>ys. Inr \<lparr>ip_enabled = b, ip_allow_from = ys\<rparr>)
   | _ \<Rightarrow> Inl (ValueError ''internal''))"

definition demo_listed :: service_state where
  "demo_listed = new_service_state 0 ((default_service_spec ''web'' ''img'')\<lparr>sp_ingress := \<lparr>in_external = False,
     in_internal = \<lparr>ip_enabled = True, ip_allow_from = [''front'']\<rparr>\<rparr>\<rparr>)"

theorem allow_list_admits_all_witness:
  "fst (internal_ingress_allowed ''web'' ''stranger'' ((demo_proxy [] True [])\<lparr>px_services := Some [(''web'', demo_listed)]\<rparr>)) = Inr True"
proof -
  let ?w = "(demo_proxy [] True [])\<lparr>px_services := Some [(''web'', demo_listed)]\<rparr>"
  have v: "policy_validation demo_validate"
    by (auto simp: policy_validation_def demo_validate_def bind_r_Inr split: option.splits json.splits)
  have i: "ingress_internal demo_validate (RawDict [(''allowFrom'', JList [JStr ''front''])]) = Inr \<lparr>ip_enabled = True, ip_allow_from = [''front'']\<rparr>"
    by (simp add: ingress_internal_def normalize_internal_def dict_has_def demo_validate_def json_strings_def)
  have l: "dict_get [(''web'', demo_listed)] ''web'' = Some demo_listed" "px_services ?w = Some [(''web'', demo_listed)]"
      "in_internal (sp_ingress (ss_spec demo_listed)) = \<lparr>ip_enabled = True, ip_allow_from = [''front'']\<rparr>"
    by (simp_all add: demo_listed_def new_service_state_def)
  with allow_list_admits_all [OF v _ _ i l(2,1,3)] show ?thesis by (simp add: dict_has_def)
qed

end
