(* ===== verification/Manifests.thy ===== *)
theory Manifests
  imports Models
begin

text \<open>
  Manifests: the data of \<open>aws_light/models/manifest.py\<close>, the parser of \<open>aws_light/iac/parser.py\<close> and the
  differ of \<open>aws_light/iac/differ.py\<close>. PyYAML's \<open>safe_load_all\<close> and pydantic's validation and dump of a
  manifest are parameters.
\<close>

section \<open>models/manifest.py\<close>

record manifest_metadata =
  mm_name :: string
  mm_labels :: "(string, string) pydict"

record service_manifest_spec =
  ms_image :: string
  ms_replicas :: int
  ms_min_replicas :: int
  ms_max_replicas :: int
  ms_cpu_request :: pyfloat
  ms_memory_request_mb :: int
  ms_port :: int
  ms_health_check_path :: string
  ms_env :: "(string, string) pydict"
  ms_secret_refs :: "string list"
  ms_labels :: "(string, string) pydict"
  ms_resources :: resource_bindings
  ms_ingress :: ingress_spec

record database_manifest_spec =
  dm_engine :: database_engine
  dm_version :: string
  dm_storage_mb :: int

text \<open>Every manifest also has an \<open>apiVersion\<close>, which no code reads.\<close>

datatype manifest =
    ServiceManifest manifest_metadata service_manifest_spec
  | SecretManifest manifest_metadata string
  | SecretsManifest "(string, string) pydict"
  | BucketManifest manifest_metadata bool
  | DatabaseManifest manifest_metadata database_manifest_spec

fun manifest_kind :: "manifest \<Rightarrow> string" where
  "manifest_kind (ServiceManifest _ _) = ''Service''"
| "manifest_kind (SecretManifest _ _) = ''Secret''"
| "manifest_kind (SecretsManifest _) = ''Secrets''"
| "manifest_kind (BucketManifest _ _) = ''Bucket''"
| "manifest_kind (DatabaseManifest _ _) = ''Database''"

text \<open>\<open>manifest.metadata\<close>, which a \<open>SecretsManifest\<close> does not have.\<close>

fun manifest_metadata_of :: "manifest \<Rightarrow> manifest_metadata option" where
  "manifest_metadata_of (ServiceManifest m _) = Some m"
| "manifest_metadata_of (SecretManifest m _) = Some m"
| "manifest_metadata_of (SecretsManifest _) = None"
| "manifest_metadata_of (BucketManifest m _) = Some m"
| "manifest_metadata_of (DatabaseManifest m _) = Some m"

text \<open>The name in a result: that of the metadata, or \<open>bundle\<close>.\<close>

definition result_name :: "manifest \<Rightarrow> string" where
  "result_name m = (case manifest_metadata_of m of None \<Rightarrow> ''bundle'' | Some md \<Rightarrow> mm_name md)"

section \<open>iac/parser.py\<close>

record manifest_lib =
  ml_load_all :: "string \<Rightarrow> json list result"
  ml_validate :: "json \<Rightarrow> manifest result"
  ml_dump :: "manifest \<Rightarrow> (string, json) pydict"

fun parse_documents :: "manifest_lib \<Rightarrow> nat \<Rightarrow> json list \<Rightarrow> manifest list result" where
  "parse_documents ml index [] = Inr []"
| "parse_documents ml index (document # documents) =
    (if document = JNull then parse_documents ml (Suc index) documents
     else case ml_validate ml document of
       Inl error \<Rightarrow> Inl (ManifestParseError (''Invalid manifest at document '' @ str_nat (index + 1)))
     | Inr m \<Rightarrow> bind_r (parse_documents ml (Suc index) documents) (\<lambda>ms. Inr (m # ms)))"

definition parse_manifests :: "manifest_lib \<Rightarrow> string \<Rightarrow> manifest list result" where
  "parse_manifests ml yaml_text = bind_r (ml_load_all ml yaml_text) (parse_documents ml 0)"

section \<open>iac/differ.py\<close>

text \<open>Python's \<open>==\<close> on values that came from JSON: a boolean equals its number, a dictionary does not
  depend on the order of its items.\<close>

definition json_number :: "json \<Rightarrow> rat option" where
  "json_number j = (case j of JBool b \<Rightarrow> Some (if b then 1 else 0) | JInt i \<Rightarrow> Some (of_int i) | JFloat x \<Rightarrow> Some x | _ \<Rightarrow> None)"

fun py_eq :: "json \<Rightarrow> json \<Rightarrow> bool" and py_eq_list :: "json list \<Rightarrow> json list \<Rightarrow> bool"
  and py_eq_items :: "(string \<times> json) list \<Rightarrow> (string \<times> json) list \<Rightarrow> bool" where
  "py_eq JNull j \<longleftrightarrow> j = JNull"
| "py_eq (JStr s) j \<longleftrightarrow> j = JStr s"
| "py_eq (JList xs) j \<longleftrightarrow> (case j of JList ys \<Rightarrow> py_eq_list xs ys | _ \<Rightarrow> False)"
| "py_eq (JDict d) j \<longleftrightarrow> (case j of JDict e \<Rightarrow> length d = length e \<and> py_eq_items d e | _ \<Rightarrow> False)"
| "py_eq (JBool b) j \<longleftrightarrow> json_number j = json_number (JBool b)"
| "py_eq (JInt i) j \<longleftrightarrow> json_number j = json_number (JInt i)"
| "py_eq (JFloat x) j \<longleftrightarrow> json_number j = json_number (JFloat x)"
| "py_eq_list [] ys \<longleftrightarrow> ys = []"
| "py_eq_list (x # xs) ys \<longleftrightarrow> (case ys of [] \<Rightarrow> False | y # ys' \<Rightarrow> py_eq x y \<and> py_eq_list xs ys')"
| "py_eq_items [] e \<longleftrightarrow> True"
| "py_eq_items ((k, v) # d) e \<longleftrightarrow> (case dict_get e k of None \<Rightarrow> False | Some w \<Rightarrow> py_eq v w) \<and> py_eq_items d e"

text \<open>\<open>_find_changed_fields\<close>: the keys of the desired dictionary, then those that only the current one has. (The
  order of the sources is that of a set.) \<open>d.get(key)\<close> of a missing key is \<open>None\<close>.\<close>

fun changed_items :: "(string, json) pydict \<Rightarrow> (string, json) pydict \<Rightarrow> string \<Rightarrow> string list" where
  "changed_items [] current name = []"
| "changed_items ((key, desired_value) # desired) current name =
    (case (desired_value, dict_get_or current key JNull) of
       (JDict d, JDict c) \<Rightarrow> changed_items d c (name @ key @ ''.'')
         @ map (\<lambda>k. name @ key @ ''.'' @ k) (filter (\<lambda>k. \<not> dict_has d k \<and> dict_get c k \<noteq> Some JNull) (dict_keys c))
     | (v, current_value) \<Rightarrow> if py_eq v current_value then [] else [name @ key])
    @ changed_items desired current name"

definition find_changed_fields :: "(string, json) pydict \<Rightarrow> (string, json) pydict \<Rightarrow> string list" where
  "find_changed_fields desired current = changed_items desired current []
     @ filter (\<lambda>k. \<not> dict_has desired k \<and> dict_get current k \<noteq> Some JNull) (dict_keys current)"

datatype diff_action = DiffCreate | DiffUpdate | DiffNone

record manifest_diff =
  df_kind :: string
  df_name :: string
  df_action :: diff_action
  df_changed_fields :: "string list"

definition compute_diff :: "manifest_lib \<Rightarrow> manifest \<Rightarrow> manifest option \<Rightarrow> manifest_diff result" where
  "compute_diff ml desired current = (case manifest_metadata_of desired of
     None \<Rightarrow> Inl (AttributeError ''metadata'')
   | Some metadata \<Rightarrow> (case current of
       None \<Rightarrow> Inr \<lparr>df_kind = manifest_kind desired, df_name = mm_name metadata, df_action = DiffCreate, df_changed_fields = []\<rparr>
     | Some cur \<Rightarrow> (let changed_fields = find_changed_fields (ml_dump ml desired) (ml_dump ml cur) in
         Inr \<lparr>df_kind = manifest_kind desired, df_name = mm_name metadata,
           df_action = (if changed_fields = [] then DiffNone else DiffUpdate), df_changed_fields = changed_fields\<rparr>)))"

end
