(* ===== verification/Files.thy ===== *)
theory Files
  imports PyText
begin

text \<open>
  The file system as \<open>pathlib\<close> and \<open>shutil\<close> show it: a tree of directories and files without
  symbolic links. A path is the list of its components from the root. A path of the sources may have
  \<open>..\<close> in it, which the system follows component by component (\<open>walk\<close>); the keys of the file system
  are paths without it. Every operation gives the fault it stops with and the state it leaves.
\<close>

section \<open>Paths\<close>

type_synonym path = "string list"

datatype fs_node = Dir | File string

type_synonym fs = "(path, fs_node) pydict"

datatype fs_fault = NoEntry | NotADirectory | IsADirectory | Exists | NotEmpty

text \<open>The components of a text: empty ones and \<open>.\<close> disappear. \<open>base / text\<close> starts again at the root
  when the text does.\<close>

definition path_parts :: "string \<Rightarrow> path" where
  "path_parts s = filter (\<lambda>c. c \<noteq> [] \<and> c \<noteq> ''.'') (split_char CHR ''/'' s)"

definition path_join :: "path \<Rightarrow> string \<Rightarrow> path" where
  "path_join base s = (if starts_with ''/'' s then path_parts s else base @ path_parts s)"

definition node_at :: "fs \<Rightarrow> path \<Rightarrow> fs_node option" where
  "node_at t p = (if p = [] then Some Dir else dict_get t p)"

fun walk :: "fs \<Rightarrow> path \<Rightarrow> path \<Rightarrow> fs_fault + path" where
  "walk t here [] = Inr here"
| "walk t here (c # cs) = (case node_at t here of
     None \<Rightarrow> Inl NoEntry
   | Some (File _) \<Rightarrow> Inl NotADirectory
   | Some Dir \<Rightarrow> walk t (if c = ''..'' then butlast here else here @ [c]) cs)"

definition find_node :: "fs \<Rightarrow> path \<Rightarrow> fs_node option" where
  "find_node t p = (case walk t [] p of Inl _ \<Rightarrow> None | Inr q \<Rightarrow> node_at t q)"

section \<open>Operations\<close>

definition path_exists :: "path \<Rightarrow> fs \<Rightarrow> bool" where
  "path_exists p t \<longleftrightarrow> find_node t p \<noteq> None"

definition is_dir :: "path \<Rightarrow> fs \<Rightarrow> bool" where
  "is_dir p t \<longleftrightarrow> find_node t p = Some Dir"

text \<open>\<open>os.mkdir\<close>; \<open>Path.mkdir(exist_ok=True)\<close>; and the same with \<open>parents=True\<close>, which makes the parent
  first when the parent is missing.\<close>

definition os_mkdir :: "path \<Rightarrow> fs \<Rightarrow> fs_fault option \<times> fs" where
  "os_mkdir p t = (case walk t [] p of
     Inl e \<Rightarrow> (Some e, t)
   | Inr q \<Rightarrow> if node_at t q = None then (None, dict_put q Dir t) else (Some Exists, t))"

definition mkdir_exist_ok :: "path \<Rightarrow> fs \<Rightarrow> fs_fault option \<times> fs" where
  "mkdir_exist_ok p t = (case os_mkdir p t of
     (None, t') \<Rightarrow> (None, t')
   | (Some e, t') \<Rightarrow> if e \<noteq> NoEntry \<and> is_dir p t then (None, t') else (Some e, t'))"

function mkdir_parents :: "path \<Rightarrow> fs \<Rightarrow> fs_fault option \<times> fs" where
  "mkdir_parents p t = (case os_mkdir p t of
     (Some NoEntry, t') \<Rightarrow> if p = [] then (Some NoEntry, t') else (case mkdir_parents (butlast p) t' of
         (None, t'') \<Rightarrow> mkdir_exist_ok p t''
       | (Some e, t'') \<Rightarrow> (Some e, t''))
   | _ \<Rightarrow> mkdir_exist_ok p t)"
  by pat_completeness auto
termination
  by (relation "measure (\<lambda>(p, t). length p)") (simp_all add: length_butlast)

declare mkdir_parents.simps [simp del]

definition write_file :: "path \<Rightarrow> string \<Rightarrow> fs \<Rightarrow> fs_fault option \<times> fs" where
  "write_file p data t = (case walk t [] p of
     Inl e \<Rightarrow> (Some e, t)
   | Inr q \<Rightarrow> if node_at t q = Some Dir then (Some IsADirectory, t) else (None, dict_put q (File data) t))"

definition read_file :: "path \<Rightarrow> fs \<Rightarrow> fs_fault + string" where
  "read_file p t = (case walk t [] p of
     Inl e \<Rightarrow> Inl e
   | Inr q \<Rightarrow> (case node_at t q of None \<Rightarrow> Inl NoEntry | Some Dir \<Rightarrow> Inl IsADirectory | Some (File data) \<Rightarrow> Inr data))"

definition unlink :: "path \<Rightarrow> fs \<Rightarrow> fs_fault option \<times> fs" where
  "unlink p t = (case walk t [] p of
     Inl e \<Rightarrow> (Some e, t)
   | Inr q \<Rightarrow> (case node_at t q of None \<Rightarrow> (Some NoEntry, t) | Some Dir \<Rightarrow> (Some IsADirectory, t)
       | Some (File _) \<Rightarrow> (None, dict_pop q t)))"

text \<open>\<open>shutil.rmtree\<close> removes everything below the directory and then the directory itself, which is
  refused for the root and for a path that ends with \<open>..\<close>.\<close>

definition rmtree :: "path \<Rightarrow> fs \<Rightarrow> fs_fault option \<times> fs" where
  "rmtree p t = (case walk t [] p of
     Inl e \<Rightarrow> (Some e, t)
   | Inr q \<Rightarrow> (case node_at t q of None \<Rightarrow> (Some NoEntry, t) | Some (File _) \<Rightarrow> (Some NotADirectory, t)
       | Some Dir \<Rightarrow> (let t' = filter (\<lambda>(r, n). \<not> strict_prefix q r) t in
           if q = [] \<or> last p = ''..'' then (Some NotEmpty, t') else (None, dict_pop q t'))))"

text \<open>\<open>iterdir\<close> gives the entries of a directory, \<open>rglob\<close> everything below it; both in the order of the
  directory.\<close>

definition list_dir :: "path \<Rightarrow> fs \<Rightarrow> path list" where
  "list_dir p t = (case walk t [] p of Inl _ \<Rightarrow> [] | Inr q \<Rightarrow> map (\<lambda>r. p @ [last r]) (filter (\<lambda>r. r \<noteq> [] \<and> butlast r = q) (dict_keys t)))"

definition rglob_suffix :: "string \<Rightarrow> path \<Rightarrow> fs \<Rightarrow> path list" where
  "rglob_suffix ext p t = (case walk t [] p of Inl _ \<Rightarrow> []
   | Inr q \<Rightarrow> map (\<lambda>r. p @ drop (length q) r) (filter (\<lambda>r. strict_prefix q r \<and> ends_with ext (last r)) (dict_keys t)))"

text \<open>As a method: a fault is an \<open>OSError\<close>.\<close>

definition fs_do :: "(fs \<Rightarrow> fs_fault option \<times> fs) \<Rightarrow> (fs, unit) prog" where
  "fs_do m t = (case m t of (None, t') \<Rightarrow> (Inr (), t') | (Some e, t') \<Rightarrow> (Inl OSError, t'))"

definition fs_read :: "path \<Rightarrow> (fs, string) prog" where
  "fs_read p t = (case read_file p t of Inl e \<Rightarrow> (Inl OSError, t) | Inr data \<Rightarrow> (Inr data, t))"

section \<open>Lemmas\<close>

text \<open>A path without \<open>..\<close> leads to itself when the directories on its way exist.\<close>

definition plain_path :: "path \<Rightarrow> bool" where
  "plain_path p \<longleftrightarrow> ''..'' \<notin> set p"

lemma walk_append: "walk t here (p @ q) = (case walk t here p of Inl e \<Rightarrow> Inl e | Inr here' \<Rightarrow> walk t here' q)"
  by (induction p arbitrary: here) (auto split: option.splits fs_node.splits)

lemma walk_plain: "plain_path p \<Longrightarrow> walk t here p = Inr q \<Longrightarrow> q = here @ p"
  by (induction p arbitrary: here) (fastforce simp: plain_path_def split: option.splits fs_node.splits if_splits)+

lemma walk_plain_iff:
  "plain_path p \<Longrightarrow> walk t here p = Inr q \<longleftrightarrow> q = here @ p \<and> (\<forall>r s. p = r @ s \<and> s \<noteq> [] \<longrightarrow> node_at t (here @ r) = Some Dir)"
proof (induction p arbitrary: here)
  case (Cons c p)
  have "(\<forall>r s. c # p = r @ s \<and> s \<noteq> [] \<longrightarrow> node_at t (here @ r) = Some Dir)
    \<longleftrightarrow> node_at t here = Some Dir \<and> (\<forall>r s. p = r @ s \<and> s \<noteq> [] \<longrightarrow> node_at t ((here @ [c]) @ r) = Some Dir)"
    by (auto simp: Cons_eq_append_conv)
  then show ?case using Cons.IH [of "here @ [c]"] Cons.prems
    by (auto simp: plain_path_def split: option.splits fs_node.splits)
qed auto

text \<open>\<open>grows t t'\<close>: every directory of \<open>t\<close> is one of \<open>t'\<close>; then paths lead where they led.\<close>

definition grows :: "fs \<Rightarrow> fs \<Rightarrow> bool" where
  "grows t t' \<longleftrightarrow> (\<forall>p. node_at t p = Some Dir \<longrightarrow> node_at t' p = Some Dir)"

lemma grows_refl [simp]: "grows t t"
  by (simp add: grows_def)

lemma grows_trans: "grows t t' \<Longrightarrow> grows t' t'' \<Longrightarrow> grows t t''"
  by (simp add: grows_def)

lemma walk_grows: "grows t t' \<Longrightarrow> walk t here p = Inr q \<Longrightarrow> walk t' here p = Inr q"
  by (induction p arbitrary: here) (auto simp: grows_def split: option.splits fs_node.splits)

lemma node_at_put: "q \<noteq> [] \<Longrightarrow> node_at (dict_put q n t) p = (if p = q then Some n else node_at t p)"
  by (simp add: node_at_def)

text \<open>\<open>only_at Q t t'\<close>: the files of \<open>t\<close> outside \<open>Q\<close> are as they were.\<close>

definition keeps_files :: "path set \<Rightarrow> fs \<Rightarrow> fs \<Rightarrow> bool" where
  "keeps_files Q t t' \<longleftrightarrow> (\<forall>p data. p \<notin> Q \<longrightarrow> node_at t p = Some (File data) \<longrightarrow> node_at t' p = Some (File data))"

lemma keeps_refl [simp]: "keeps_files Q t t"
  by (simp add: keeps_files_def)

lemma keeps_trans: "keeps_files Q t t' \<Longrightarrow> keeps_files Q t' t'' \<Longrightarrow> keeps_files Q t t''"
  by (simp add: keeps_files_def)

lemma keeps_mono: "keeps_files Q t t' \<Longrightarrow> Q \<subseteq> Q' \<Longrightarrow> keeps_files Q' t t'"
  by (auto simp: keeps_files_def)

lemma os_mkdir_effect: "os_mkdir p t = (r, t') \<Longrightarrow> grows t t' \<and> keeps_files Q t t'"
  by (auto simp: os_mkdir_def grows_def keeps_files_def node_at_def split: sum.splits if_splits)

lemma mkdir_exist_ok_effect: "mkdir_exist_ok p t = (r, t') \<Longrightarrow> grows t t' \<and> keeps_files Q t t'"
  by (auto simp: mkdir_exist_ok_def dest: os_mkdir_effect split: prod.splits option.splits if_splits)

lemma mkdir_exist_ok_dir: "mkdir_exist_ok p t = (None, t') \<Longrightarrow> is_dir p t'"
proof -
  assume m: "mkdir_exist_ok p t = (None, t')"
  obtain r t1 where 1: "os_mkdir p t = (r, t1)" by force
  show ?thesis
  proof (cases r)
    case None
    then obtain q where q: "walk t [] p = Inr q" "t' = dict_put q Dir t"
      using m 1 by (auto simp: mkdir_exist_ok_def os_mkdir_def split: sum.splits if_splits)
    then have "t' = t1" using m 1 None by (simp add: mkdir_exist_ok_def)
    then have "walk t' [] p = Inr q" using walk_grows [OF conjunct1 [OF os_mkdir_effect [OF 1]] q(1)] by simp
    then show ?thesis using q by (simp add: is_dir_def find_node_def node_at_def)
  qed (use m 1 in \<open>auto simp: mkdir_exist_ok_def os_mkdir_def split: if_splits sum.splits\<close>)
qed

lemma mkdir_parents_effect: "mkdir_parents p t = (r, t') \<Longrightarrow> grows t t' \<and> keeps_files Q t t'"
proof (induction p t arbitrary: r t' rule: mkdir_parents.induct)
  case (1 p t)
  obtain r1 t1 where 1: "os_mkdir p t = (r1, t1)" by force
  show ?case
  proof (cases "r1 = Some NoEntry \<and> p \<noteq> []")
    case True
    obtain r2 t2 where 2: "mkdir_parents (butlast p) t1 = (r2, t2)" by force
    have 12: "grows t t2 \<and> keeps_files Q t t2"
      using "1.IH" [OF 1 [symmetric] _ _ _ 2] True os_mkdir_effect [OF 1, of Q] grows_trans keeps_trans by blast
    show ?thesis
    proof (cases r2)
      case None
      then have "mkdir_exist_ok p t2 = (r, t')" using "1.prems" 1 2 True by (simp add: mkdir_parents.simps [of p t])
      from mkdir_exist_ok_effect [OF this, of Q] show ?thesis using 12 grows_trans keeps_trans by blast
    next
      case (Some e)
      then show ?thesis using "1.prems" 1 2 12 True by (simp add: mkdir_parents.simps [of p t])
    qed
  next
    case False
    then show ?thesis using "1.prems" 1 os_mkdir_effect [OF 1] mkdir_exist_ok_effect
      by (auto simp: mkdir_parents.simps [of p t] split: option.splits fs_fault.splits if_splits)
  qed
qed

text \<open>Writing and reading.\<close>

lemma write_file_effect:
  assumes "write_file p data t = (None, t')"
  shows "\<exists>q. walk t [] p = Inr q \<and> q \<noteq> [] \<and> node_at t q \<noteq> Some Dir \<and> t' = dict_put q (File data) t"
  using assms by (auto simp: write_file_def node_at_def split: sum.splits if_splits)

lemma put_file_effect:
  assumes "q \<noteq> []" "node_at t q \<noteq> Some Dir"
  shows "grows t (dict_put q (File data) t) \<and> keeps_files {q} t (dict_put q (File data) t)"
  using assms by (auto simp: grows_def keeps_files_def node_at_put)

lemma read_file_iff: "read_file p t = Inr data \<longleftrightarrow> (\<exists>q. walk t [] p = Inr q \<and> node_at t q = Some (File data))"
  by (auto simp: read_file_def split: sum.splits option.splits fs_node.splits)

lemma read_file_kept:
  "read_file p t = Inr data \<Longrightarrow> walk t [] p = Inr q \<Longrightarrow> q \<notin> Q \<Longrightarrow> grows t t' \<Longrightarrow> keeps_files Q t t' \<Longrightarrow> read_file p t' = Inr data"
  using walk_grows unfolding read_file_iff by (fastforce simp: keeps_files_def)

lemma path_exists_file: "read_file p t = Inr data \<Longrightarrow> path_exists p t"
  by (auto simp: read_file_iff path_exists_def find_node_def)

text \<open>The components of a text made of plain ones.\<close>

definition plain_name :: "string \<Rightarrow> bool" where
  "plain_name s \<longleftrightarrow> s \<noteq> [] \<and> CHR ''/'' \<notin> set s \<and> s \<noteq> ''.'' \<and> s \<noteq> ''..''"

lemma split_char_single: "x \<notin> set s \<Longrightarrow> split_char x s = [s]"
  by (induction s) auto

lemma split_char_append: "x \<notin> set s \<Longrightarrow> split_char x (s @ x # t) = s # split_char x t"
  by (induction s) auto

lemma split_join_char: "segs \<noteq> [] \<Longrightarrow> \<forall>s \<in> set segs. x \<notin> set s \<Longrightarrow> split_char x (join [x] segs) = segs"
proof (induction segs)
  case (Cons s segs)
  then show ?case
    by (cases "segs = []") (auto simp: join_Cons split_char_single split_char_append)
qed simp

lemma path_parts_join: "segs \<noteq> [] \<Longrightarrow> \<forall>s \<in> set segs. plain_name s \<Longrightarrow> path_parts (join ''/'' segs) = segs"
  by (simp add: path_parts_def split_join_char plain_name_def)

lemma starts_join: "segs \<noteq> [] \<Longrightarrow> \<forall>s \<in> set segs. plain_name s \<Longrightarrow> \<not> starts_with ''/'' (join ''/'' segs)"
proof (cases segs)
  case (Cons s rest)
  moreover assume "\<forall>s \<in> set segs. plain_name s"
  ultimately obtain c cs where "s = c # cs" "c \<noteq> CHR ''/''" by (auto simp: plain_name_def neq_Nil_conv)
  then show ?thesis using Cons by (cases rest) (auto simp: starts_with_def)
qed simp

lemma path_join_plain: "segs \<noteq> [] \<Longrightarrow> \<forall>s \<in> set segs. plain_name s \<Longrightarrow> path_join base (join ''/'' segs) = base @ segs"
  by (simp add: path_join_def starts_join path_parts_join)

lemma path_join_name: "plain_name s \<Longrightarrow> path_join base s = base @ [s]"
  using path_join_plain [of "[s]" base] by simp

end
