(* ===== verification/Storage.thy ===== *)
theory Storage
  imports Files Secrets
begin

text \<open>
  Object storage: \<open>StorageService\<close> of \<open>aws_light/storage/storage_service.py\<close> on the file system,
  \<open>PresignedUrlService\<close> of \<open>aws_light/storage/presigned.py\<close>, and the endpoints of \<open>aws_light/api/storage.py\<close>
  for users and for services. A bucket is a directory with the directories \<open>objects\<close> and \<open>meta\<close> and the
  file \<open>bucket.json\<close>. How pydantic writes and reads the two models as JSON text is a parameter; that
  validating a dumped model gives the model back is a hypothesis of the properties that need it.
\<close>

section \<open>storage_service.py\<close>

record storage_env =
  se_root :: path
  se_dump_bucket :: "bucket \<Rightarrow> string"
  se_load_bucket :: "string \<Rightarrow> bucket result"
  se_dump_meta :: "object_meta \<Rightarrow> string"
  se_load_meta :: "string \<Rightarrow> object_meta result"

definition bucket_path :: "storage_env \<Rightarrow> string \<Rightarrow> path" where
  "bucket_path en bucket_name = path_join (se_root en) bucket_name"

definition object_path :: "storage_env \<Rightarrow> string \<Rightarrow> string \<Rightarrow> path" where
  "object_path en bucket_name object_key = path_join (bucket_path en bucket_name @ [''objects'']) object_key"

definition meta_path :: "storage_env \<Rightarrow> string \<Rightarrow> string \<Rightarrow> path" where
  "meta_path en bucket_name object_key = path_join (bucket_path en bucket_name @ [''meta'']) (object_key @ ''.json'')"

definition create_bucket :: "storage_env \<Rightarrow> timestamp \<Rightarrow> string \<Rightarrow> (fs, bucket) prog" where
  "create_bucket en now name = (let p = bucket_path en name; b = \<lparr>bk_name = name, bk_versioning = False, bk_created_at = now\<rparr> in
     bind_p (fs_do (mkdir_parents p)) (\<lambda>_.
     bind_p (fs_do (mkdir_exist_ok (p @ [''objects'']))) (\<lambda>_.
     bind_p (fs_do (mkdir_exist_ok (p @ [''meta'']))) (\<lambda>_.
     bind_p (fs_do (write_file (p @ [''bucket.json'']) (se_dump_bucket en b))) (\<lambda>_. ret b)))))"

definition delete_bucket :: "storage_env \<Rightarrow> string \<Rightarrow> (fs, unit) prog" where
  "delete_bucket en name = bind_p (get_s (path_exists (bucket_path en name))) (\<lambda>found.
     if \<not> found then raise (BucketNotFoundError name) else fs_do (rmtree (bucket_path en name)))"

definition load_bucket :: "storage_env \<Rightarrow> path \<Rightarrow> (fs, bucket list) prog" where
  "load_bucket en e = bind_p (get_s (\<lambda>t. is_dir e t \<and> path_exists (e @ [''bucket.json'']) t)) (\<lambda>found.
     if \<not> found then ret []
     else bind_p (fs_read (e @ [''bucket.json''])) (\<lambda>text. case se_load_bucket en text of Inl err \<Rightarrow> raise err | Inr b \<Rightarrow> ret [b]))"

definition list_buckets :: "storage_env \<Rightarrow> (fs, bucket list) prog" where
  "list_buckets en = bind_p (get_s (\<lambda>t. find_node t (se_root en))) (\<lambda>root. case root of
     None \<Rightarrow> ret []
   | Some (File _) \<Rightarrow> raise OSError
   | Some Dir \<Rightarrow> bind_p (get_s (list_dir (se_root en))) (\<lambda>entries.
       bind_p (map_p (load_bucket en) entries) (\<lambda>bs. ret (concat bs))))"

definition bucket_exists :: "storage_env \<Rightarrow> string \<Rightarrow> fs \<Rightarrow> bool" where
  "bucket_exists en name t = path_exists (bucket_path en name @ [''bucket.json'']) t"

text \<open>The check every operation on objects starts with.\<close>

definition need_bucket :: "storage_env \<Rightarrow> string \<Rightarrow> (fs, unit) prog" where
  "need_bucket en name = bind_p (get_s (bucket_exists en name)) (\<lambda>found.
     if found then ret () else raise (BucketNotFoundError name))"

definition put_object :: "storage_env \<Rightarrow> timestamp \<Rightarrow> string \<Rightarrow> string \<Rightarrow> string \<Rightarrow> string \<Rightarrow> (fs, object_meta) prog" where
  "put_object en now bucket_name object_key data content_type =
     bind_p (need_bucket en bucket_name) (\<lambda>_.
     let op = object_path en bucket_name object_key; mp = meta_path en bucket_name object_key;
         meta = \<lparr>om_bucket = bucket_name, om_key = object_key, om_size_bytes = length data, om_content_type = content_type,
           om_created_at = now\<rparr> in
     bind_p (fs_do (mkdir_parents (butlast op))) (\<lambda>_.
     bind_p (fs_do (write_file op data)) (\<lambda>_.
     bind_p (fs_do (mkdir_parents (butlast mp))) (\<lambda>_.
     bind_p (fs_do (write_file mp (se_dump_meta en meta))) (\<lambda>_. ret meta)))))"

definition get_object :: "storage_env \<Rightarrow> string \<Rightarrow> string \<Rightarrow> (fs, string) prog" where
  "get_object en bucket_name object_key =
     bind_p (need_bucket en bucket_name) (\<lambda>_.
     bind_p (get_s (path_exists (object_path en bucket_name object_key))) (\<lambda>found.
     if \<not> found then raise (ObjectNotFoundError object_key) else fs_read (object_path en bucket_name object_key)))"

definition delete_object :: "storage_env \<Rightarrow> string \<Rightarrow> string \<Rightarrow> (fs, unit) prog" where
  "delete_object en bucket_name object_key =
     bind_p (need_bucket en bucket_name) (\<lambda>_.
     bind_p (get_s (path_exists (object_path en bucket_name object_key))) (\<lambda>found.
     if \<not> found then raise (ObjectNotFoundError object_key)
     else bind_p (fs_do (unlink (object_path en bucket_name object_key))) (\<lambda>_.
       bind_p (get_s (path_exists (meta_path en bucket_name object_key))) (\<lambda>has_meta.
       when_p has_meta (fs_do (unlink (meta_path en bucket_name object_key)))))))"

definition load_meta :: "storage_env \<Rightarrow> string \<Rightarrow> path \<Rightarrow> (fs, object_meta list) prog" where
  "load_meta en key_prefix p = bind_p (fs_read p) (\<lambda>text. case se_load_meta en text of
     Inl err \<Rightarrow> raise err
   | Inr meta \<Rightarrow> ret (if key_prefix = [] \<or> starts_with key_prefix (om_key meta) then [meta] else []))"

definition list_objects :: "storage_env \<Rightarrow> string \<Rightarrow> string \<Rightarrow> (fs, object_meta list) prog" where
  "list_objects en bucket_name key_prefix =
     bind_p (need_bucket en bucket_name) (\<lambda>_.
     let meta_dir = bucket_path en bucket_name @ [''meta''] in
     bind_p (get_s (path_exists meta_dir)) (\<lambda>found.
     if \<not> found then ret []
     else bind_p (get_s (rglob_suffix ''.json'' meta_dir)) (\<lambda>files.
       bind_p (map_p (load_meta en key_prefix) files) (\<lambda>ms. ret (concat ms)))))"

definition object_exists :: "storage_env \<Rightarrow> string \<Rightarrow> string \<Rightarrow> fs \<Rightarrow> bool" where
  "object_exists en bucket_name object_key t = path_exists (object_path en bucket_name object_key) t"

section \<open>presigned.py\<close>

text \<open>The service's key and base URL, and HMAC-SHA256 as the hexadecimal text of the digest.\<close>

record presign_env =
  ps_secret_key :: string
  ps_base_url :: string
  ps_hmac :: "string \<Rightarrow> string \<Rightarrow> string"

definition rstrip_slash :: "string \<Rightarrow> string" where
  "rstrip_slash s = rev (dropWhile (\<lambda>c. c = CHR ''/'') (rev s))"

text \<open>\<open>urlencode\<close>: \<open>quote_plus\<close> on keys and values.\<close>

definition hex_digit :: "nat \<Rightarrow> char" where
  "hex_digit n = (if n < 10 then char_of (48 + n) else char_of (55 + n))"

definition url_safe :: "char \<Rightarrow> bool" where
  "url_safe c = (let n = byte_of c in is_digit c \<or> (65 \<le> n \<and> n \<le> 90) \<or> (97 \<le> n \<and> n \<le> 122) \<or> c \<in> set ''_.-~'')"

definition quote_plus :: "string \<Rightarrow> string" where
  "quote_plus s = concat (map (\<lambda>c. if url_safe c then [c] else if c = CHR '' '' then ''+''
     else [CHR ''%'', hex_digit (byte_of c div 16), hex_digit (byte_of c mod 16)]) s)"

definition urlencode :: "(string \<times> string) list \<Rightarrow> string" where
  "urlencode params = join ''&'' (map (\<lambda>(k, v). quote_plus k @ ''='' @ quote_plus v) params)"

definition sign_params :: "presign_env \<Rightarrow> (string \<times> string) list \<Rightarrow> string" where
  "sign_params ps params = ps_hmac ps (ps_secret_key ps) (join ''&'' (map (\<lambda>(k, v). k @ ''='' @ v) (sort params)))"

definition generate_presigned_get :: "presign_env \<Rightarrow> int \<Rightarrow> string \<Rightarrow> string \<Rightarrow> int \<Rightarrow> string" where
  "generate_presigned_get ps now bucket_name object_key ttl_seconds =
    (let params = [(''bucket'', bucket_name), (''key'', object_key), (''expires'', str_int (now + ttl_seconds))];
         signature = sign_params ps params
     in rstrip_slash (ps_base_url ps) @ ''/api/v1/storage/presigned?'' @ urlencode (params @ [(''signature'', signature)]))"

text \<open>\<open>hmac.compare_digest\<close> refuses a text that is not ASCII.\<close>

definition compare_digest :: "string \<Rightarrow> string \<Rightarrow> bool result" where
  "compare_digest a b = (if \<forall>c \<in> set (a @ b). byte_of c < (128::nat) then Inr (a = b) else Inl (TypeError ''compare_digest''))"

definition validate_presigned_url :: "presign_env \<Rightarrow> int \<Rightarrow> string \<Rightarrow> string \<Rightarrow> string \<Rightarrow> string \<Rightarrow> bool result" where
  "validate_presigned_url ps now bucket_name object_key expires signature = (case py_int expires of
     None \<Rightarrow> Inl (ValueError ''int'')
   | Some e \<Rightarrow> if e < now then Inr False
       else compare_digest (sign_params ps [(''bucket'', bucket_name), (''key'', object_key), (''expires'', expires)]) signature)"

section \<open>api/storage.py\<close>

text \<open>The stores the endpoints read, and the libraries and settings they are given.\<close>

record ('k, 's) storage_state =
  sa_files :: fs
  sa_secrets :: 'k
  sa_services :: 's

record ('k, 's) storage_api =
  ax_storage :: storage_env
  ax_presign :: presign_env
  ax_jwt :: jwt_lib
  ax_cfg :: settings
  ax_fernet :: fernet_lib
  ax_key :: string
  ax_secrets :: "('k, secret_spec) store_ops"
  ax_services :: "('s, service_state) store_ops"

definition on_files :: "(fs, 'a) prog \<Rightarrow> (('k, 's) storage_state, 'a) prog" where
  "on_files m w = (case m (sa_files w) of (r, t) \<Rightarrow> (r, w\<lparr>sa_files := t\<rparr>))"

definition on_stored_secrets :: "('k, 'a) prog \<Rightarrow> (('k, 's) storage_state, 'a) prog" where
  "on_stored_secrets m w = (case m (sa_secrets w) of (r, k) \<Rightarrow> (r, w\<lparr>sa_secrets := k\<rparr>))"

definition on_services :: "('s, 'a) prog \<Rightarrow> (('k, 's) storage_state, 'a) prog" where
  "on_services m w = (case m (sa_services w) of (r, k) \<Rightarrow> (r, w\<lparr>sa_services := k\<rparr>))"

text \<open>\<open>try: ... except BucketNotFoundError: raise 404 ... except ObjectNotFoundError: raise 404\<close>; a route
  that does not catch the second lets it through.\<close>

definition or_404 :: "string \<Rightarrow> string option \<Rightarrow> (fs, 'a) prog \<Rightarrow> (('k, 's) storage_state, 'a) prog" where
  "or_404 bucket_detail object_detail m = on_files (try_p m (\<lambda>e. case e of
     BucketNotFoundError _ \<Rightarrow> raise (HTTPException 404 bucket_detail)
   | ObjectNotFoundError _ \<Rightarrow> (case object_detail of None \<Rightarrow> raise e | Some d \<Rightarrow> raise (HTTPException 404 d))
   | _ \<Rightarrow> raise e))"

definition current_user :: "('k, 's) storage_api \<Rightarrow> int \<Rightarrow> string \<Rightarrow> user_spec result" where
  "current_user ax now token = get_current_user (ax_jwt ax) (ax_cfg ax) now token"

definition developer :: "('k, 's) storage_api \<Rightarrow> int \<Rightarrow> string \<Rightarrow> user_spec result" where
  "developer ax now token = require_role (ax_jwt ax) (ax_cfg ax) now DEVELOPER token"

definition api_list_buckets :: "('k, 's) storage_api \<Rightarrow> int \<Rightarrow> string \<Rightarrow> (('k, 's) storage_state, bucket list) prog" where
  "api_list_buckets ax now token = endpoint (current_user ax now token) (\<lambda>_. on_files (list_buckets (ax_storage ax)))"

definition api_create_bucket :: "('k, 's) storage_api \<Rightarrow> int \<Rightarrow> string \<Rightarrow> string \<Rightarrow> (('k, 's) storage_state, bucket) prog" where
  "api_create_bucket ax now token name = endpoint (developer ax now token) (\<lambda>_.
     on_files (bind_p (get_s (bucket_exists (ax_storage ax) name)) (\<lambda>found.
       if found then raise (HTTPException 409 (''Bucket '' @ quoted name @ '' already exists''))
       else create_bucket (ax_storage ax) (now * 1000000) name)))"

definition api_delete_bucket :: "('k, 's) storage_api \<Rightarrow> int \<Rightarrow> string \<Rightarrow> string \<Rightarrow> (('k, 's) storage_state, unit) prog" where
  "api_delete_bucket ax now token bucket_name = endpoint (developer ax now token) (\<lambda>_.
     or_404 ''Bucket not found'' None (delete_bucket (ax_storage ax) bucket_name))"

definition api_list_objects :: "('k, 's) storage_api \<Rightarrow> int \<Rightarrow> string \<Rightarrow> string \<Rightarrow> string
    \<Rightarrow> (('k, 's) storage_state, object_meta list) prog" where
  "api_list_objects ax now token bucket_name key_prefix = endpoint (current_user ax now token) (\<lambda>_.
     or_404 ''Bucket not found'' None (list_objects (ax_storage ax) bucket_name key_prefix))"

definition api_put_object :: "('k, 's) storage_api \<Rightarrow> int \<Rightarrow> string \<Rightarrow> string \<Rightarrow> string \<Rightarrow> string \<Rightarrow> string option
    \<Rightarrow> (('k, 's) storage_state, object_meta) prog" where
  "api_put_object ax now token bucket_name object_key body content_type = endpoint (developer ax now token) (\<lambda>_.
     or_404 ''Bucket not found'' None (put_object (ax_storage ax) (now * 1000000) bucket_name object_key body
       (case content_type of None \<Rightarrow> ''application/octet-stream'' | Some c \<Rightarrow> c)))"

definition api_get_object :: "('k, 's) storage_api \<Rightarrow> int \<Rightarrow> string \<Rightarrow> string \<Rightarrow> string \<Rightarrow> (('k, 's) storage_state, string) prog" where
  "api_get_object ax now token bucket_name object_key = endpoint (current_user ax now token) (\<lambda>_.
     or_404 ''Bucket not found'' (Some ''Object not found'') (get_object (ax_storage ax) bucket_name object_key))"

definition api_delete_object :: "('k, 's) storage_api \<Rightarrow> int \<Rightarrow> string \<Rightarrow> string \<Rightarrow> string \<Rightarrow> (('k, 's) storage_state, unit) prog" where
  "api_delete_object ax now token bucket_name object_key = endpoint (developer ax now token) (\<lambda>_.
     or_404 ''Object not found'' (Some ''Object not found'') (delete_object (ax_storage ax) bucket_name object_key))"

definition api_presign_object :: "('k, 's) storage_api \<Rightarrow> int \<Rightarrow> string \<Rightarrow> string \<Rightarrow> string \<Rightarrow> int
    \<Rightarrow> (('k, 's) storage_state, string \<times> int) prog" where
  "api_presign_object ax now token bucket_name object_key ttl_seconds = endpoint (developer ax now token) (\<lambda>_.
     bind_p (get_s (\<lambda>w. bucket_exists (ax_storage ax) bucket_name (sa_files w))) (\<lambda>found.
     if \<not> found then raise (HTTPException 404 ''Bucket not found'')
     else bind_p (get_s (\<lambda>w. object_exists (ax_storage ax) bucket_name object_key (sa_files w))) (\<lambda>found.
     if \<not> found then raise (HTTPException 404 ''Object not found'')
     else ret (generate_presigned_get (ax_presign ax) now bucket_name object_key ttl_seconds, now + ttl_seconds))))"

definition api_get_presigned_object :: "('k, 's) storage_api \<Rightarrow> int \<Rightarrow> string \<Rightarrow> string \<Rightarrow> string \<Rightarrow> string
    \<Rightarrow> (('k, 's) storage_state, string) prog" where
  "api_get_presigned_object ax now bucket_name object_key expires signature =
    (case validate_presigned_url (ax_presign ax) now bucket_name object_key expires signature of
       Inl e \<Rightarrow> raise e
     | Inr valid \<Rightarrow> if \<not> valid then raise (HTTPException 403 ''Invalid or expired URL'')
         else or_404 ''Object not found'' (Some ''Object not found'') (get_object (ax_storage ax) bucket_name object_key))"

subsection \<open>Services\<close>

text \<open>The loop of \<open>_service_state_for_token\<close> over the names of the secrets.\<close>

fun token_loop :: "('k, 's) storage_api \<Rightarrow> string \<Rightarrow> string list \<Rightarrow> (('k, 's) storage_state, service_state) prog" where
  "token_loop ax token [] = raise (HTTPException 403 ''Invalid service token'')"
| "token_loop ax token (secret_name # names) =
    (if \<not> starts_with service_token_prefix secret_name then token_loop ax token names
     else bind_p (on_stored_secrets (get_secret (ax_fernet ax) (ax_key ax) (ax_secrets ax) secret_name)) (\<lambda>stored_token.
       if stored_token \<noteq> Some token then token_loop ax token names
       else bind_p (on_services (so_get (ax_services ax) (remove_prefix service_token_prefix secret_name))) (\<lambda>found. case found of
           Some s \<Rightarrow> ret s
         | None \<Rightarrow> token_loop ax token names)))"

definition service_state_for_token :: "('k, 's) storage_api \<Rightarrow> string \<Rightarrow> (('k, 's) storage_state, service_state) prog" where
  "service_state_for_token ax token =
     bind_p (on_stored_secrets (list_secret_names (ax_secrets ax))) (token_loop ax token)"

definition binds :: "service_state \<Rightarrow> string \<Rightarrow> string \<Rightarrow> bool" where
  "binds s bucket_name access \<longleftrightarrow> (\<exists>binding \<in> set (rb_buckets (sp_resources (ss_spec s))).
     bb_name binding = bucket_name \<and> access \<in> access_value ` set (bb_access binding))"

definition require_bucket_access :: "('k, 's) storage_api \<Rightarrow> string \<Rightarrow> string \<Rightarrow> string \<Rightarrow> (('k, 's) storage_state, service_state) prog" where
  "require_bucket_access ax bucket_name access token = bind_p (service_state_for_token ax token) (\<lambda>s.
     if binds s bucket_name access then ret s else raise (HTTPException 403 (''Bucket '' @ access @ '' access denied'')))"

text \<open>The header is required; a request without it is refused by the framework with 422.\<close>

definition require_bucket_read :: "('k, 's) storage_api \<Rightarrow> string \<Rightarrow> string option \<Rightarrow> (('k, 's) storage_state, service_state) prog" where
  "require_bucket_read ax bucket_name header = (case header of
     None \<Rightarrow> raise (HTTPException 422 ''Field required'') | Some token \<Rightarrow> require_bucket_access ax bucket_name ''read'' token)"

definition require_bucket_write :: "('k, 's) storage_api \<Rightarrow> string \<Rightarrow> string option \<Rightarrow> (('k, 's) storage_state, service_state) prog" where
  "require_bucket_write ax bucket_name header = (case header of
     None \<Rightarrow> raise (HTTPException 422 ''Field required'') | Some token \<Rightarrow> require_bucket_access ax bucket_name ''write'' token)"

definition workload_list_objects :: "('k, 's) storage_api \<Rightarrow> string option \<Rightarrow> string \<Rightarrow> string
    \<Rightarrow> (('k, 's) storage_state, object_meta list) prog" where
  "workload_list_objects ax header bucket_name key_prefix = bind_p (require_bucket_read ax bucket_name header) (\<lambda>_.
     or_404 ''Bucket not found'' None (list_objects (ax_storage ax) bucket_name key_prefix))"

definition workload_put_object :: "('k, 's) storage_api \<Rightarrow> int \<Rightarrow> string option \<Rightarrow> string \<Rightarrow> string \<Rightarrow> string \<Rightarrow> string option
    \<Rightarrow> (('k, 's) storage_state, object_meta) prog" where
  "workload_put_object ax now header bucket_name object_key body content_type =
     bind_p (require_bucket_write ax bucket_name header) (\<lambda>_.
     or_404 ''Bucket not found'' None (put_object (ax_storage ax) (now * 1000000) bucket_name object_key body
       (case content_type of None \<Rightarrow> ''application/octet-stream'' | Some c \<Rightarrow> c)))"

definition workload_get_object :: "('k, 's) storage_api \<Rightarrow> string option \<Rightarrow> string \<Rightarrow> string \<Rightarrow> (('k, 's) storage_state, string) prog" where
  "workload_get_object ax header bucket_name object_key = bind_p (require_bucket_read ax bucket_name header) (\<lambda>_.
     or_404 ''Bucket not found'' (Some ''Object not found'') (get_object (ax_storage ax) bucket_name object_key))"

definition workload_delete_object :: "('k, 's) storage_api \<Rightarrow> string option \<Rightarrow> string \<Rightarrow> string \<Rightarrow> (('k, 's) storage_state, unit) prog" where
  "workload_delete_object ax header bucket_name object_key = bind_p (require_bucket_write ax bucket_name header) (\<lambda>_.
     or_404 ''Object not found'' (Some ''Object not found'') (delete_object (ax_storage ax) bucket_name object_key))"

end
