(* ===== verification/Applier.thy ===== *)
theory Applier
  imports Manifests Storage
begin

text \<open>
  Applying manifests: \<open>Applier\<close> of \<open>aws_light/iac/applier.py\<close> and the endpoints of \<open>aws_light/api/iac.py\<close>.
  The state has the stores the applier writes: services and databases (dictionaries as the Postgres tables
  show them), the secrets behind their manager, the files of the object storage, and the published events.
\<close>

section \<open>State and results\<close>

record 'k iac =
  ia_services :: "(string, service_state) pydict"
  ia_databases :: "(string, database_state) pydict"
  ia_secrets :: 'k
  ia_files :: fs
  ia_published :: "web_socket_event list"

text \<open>\<open>ie_nonce\<close> is the randomness of Fernet, \<open>ie_events\<close> says whether the applier has an event bus.\<close>

record 'k iac_env =
  ie_manifests :: manifest_lib
  ie_storage :: storage_env
  ie_fernet :: fernet_lib
  ie_key :: string
  ie_nonce :: nat
  ie_secrets :: "('k, secret_spec) store_ops"
  ie_events :: bool
  ie_now :: timestamp

datatype apply_action = Created | Updated | Unchanged | ApplyError

record apply_result =
  ar_kind :: string
  ar_name :: string
  ar_action :: apply_action
  ar_detail :: string

definition result_of :: "string \<Rightarrow> string \<Rightarrow> apply_action \<Rightarrow> string \<Rightarrow> apply_result" where
  "result_of kind name action detail = \<lparr>ar_kind = kind, ar_name = name, ar_action = action, ar_detail = detail\<rparr>"

text \<open>\<open>str(error)\<close>, for the exceptions the code gives a message; the text of a system error is left out.\<close>

fun exn_text :: "py_exn \<Rightarrow> string" where
  "exn_text (ValueError m) = m"
| "exn_text (BucketNotFoundError m) = m"
| "exn_text e = []"

definition on_secrets_of :: "('k, 'a) prog \<Rightarrow> ('k iac, 'a) prog" where
  "on_secrets_of m w = (case m (ia_secrets w) of (r, k) \<Rightarrow> (r, w\<lparr>ia_secrets := k\<rparr>))"

definition on_files_of :: "(fs, 'a) prog \<Rightarrow> ('k iac, 'a) prog" where
  "on_files_of m w = (case m (ia_files w) of (r, t) \<Rightarrow> (r, w\<lparr>ia_files := t\<rparr>))"

definition emit_iac :: "'k iac_env \<Rightarrow> event_kind \<Rightarrow> (string, json) pydict \<Rightarrow> ('k iac, unit) prog" where
  "emit_iac en kind payload = when_p (ie_events en) (mod_s (\<lambda>w. w\<lparr>ia_published := ia_published w @
     [\<lparr>ev_kind = kind, ev_timestamp = ie_now en, ev_payload = payload\<rparr>]\<rparr>))"

section \<open>Applying\<close>

text \<open>The checks of the bindings; each loop raises at its first failure.\<close>

definition check_buckets :: "'k iac_env \<Rightarrow> service_manifest_spec \<Rightarrow> string list \<Rightarrow> ('k iac, unit) prog" where
  "check_buckets en spec desired = for_p (rb_buckets (ms_resources spec)) (\<lambda>binding.
     bind_p (get_s (\<lambda>w. bucket_exists (ie_storage en) (bb_name binding) (ia_files w))) (\<lambda>found.
     if bb_name binding \<notin> set desired \<and> \<not> found
     then raise (ValueError (''Missing bucket resource: '' @ bb_name binding)) else ret ()))"

definition check_databases :: "service_manifest_spec \<Rightarrow> string list \<Rightarrow> ('k iac, unit) prog" where
  "check_databases spec desired = for_p (rb_databases (ms_resources spec)) (\<lambda>binding.
     bind_p (get_s (\<lambda>w. dict_has (ia_databases w) (dbb_name binding))) (\<lambda>found.
     if dbb_name binding \<notin> set desired \<and> \<not> found
     then raise (ValueError (''Missing database resource: '' @ dbb_name binding)) else ret ()))"

definition check_callers :: "service_manifest_spec \<Rightarrow> string list \<Rightarrow> ('k iac, unit) prog" where
  "check_callers spec desired = for_p (ip_allow_from (in_internal (ms_ingress spec))) (\<lambda>caller.
     bind_p (get_s (\<lambda>w. dict_has (ia_services w) caller)) (\<lambda>found.
     if caller \<notin> set desired \<and> \<not> found
     then raise (ValueError (''Unknown internal ingress caller: '' @ caller)) else ret ()))"

definition validate_service_bindings :: "'k iac_env \<Rightarrow> service_manifest_spec \<Rightarrow> string list \<Rightarrow> string list \<Rightarrow> string list
    \<Rightarrow> ('k iac, unit) prog" where
  "validate_service_bindings en spec buckets databases services =
     bind_p (check_buckets en spec buckets) (\<lambda>_. bind_p (check_databases spec databases) (\<lambda>_. check_callers spec services))"

definition service_of_manifest :: "manifest_metadata \<Rightarrow> service_manifest_spec \<Rightarrow> service_spec" where
  "service_of_manifest metadata spec = \<lparr>sp_name = mm_name metadata, sp_image = ms_image spec, sp_replicas = ms_replicas spec,
     sp_min_replicas = ms_min_replicas spec, sp_max_replicas = ms_max_replicas spec, sp_cpu_request = ms_cpu_request spec,
     sp_memory_request_mb = ms_memory_request_mb spec, sp_port = ms_port spec, sp_health_check_path = ms_health_check_path spec,
     sp_env = ms_env spec, sp_secret_refs = ms_secret_refs spec, sp_labels = dict_merge (mm_labels metadata) (ms_labels spec),
     sp_resources = ms_resources spec, sp_ingress = ms_ingress spec\<rparr>"

definition apply_service :: "'k iac_env \<Rightarrow> manifest_metadata \<Rightarrow> service_manifest_spec \<Rightarrow> ('k iac, apply_result) prog" where
  "apply_service en metadata spec = (let name = mm_name metadata; service_spec = service_of_manifest metadata spec in
     bind_p (get_s (\<lambda>w. dict_get (ia_services w) name)) (\<lambda>existing. case existing of
       None \<Rightarrow> bind_p (mod_s (\<lambda>w. w\<lparr>ia_services := dict_put name (new_service_state (ie_now en) service_spec) (ia_services w)\<rparr>)) (\<lambda>_.
         ret (result_of ''Service'' name Created []))
     | Some s \<Rightarrow> bind_p (mod_s (\<lambda>w. w\<lparr>ia_services :=
           dict_put name (s\<lparr>ss_spec := service_spec, ss_updated_at := ie_now en\<rparr>) (ia_services w)\<rparr>)) (\<lambda>_.
         ret (result_of ''Service'' name Updated []))))"

definition apply_secret :: "'k iac_env \<Rightarrow> string \<Rightarrow> string \<Rightarrow> ('k iac, apply_result) prog" where
  "apply_secret en name value =
     bind_p (on_secrets_of (secret_exists (ie_secrets en) name)) (\<lambda>found.
     if found then
       bind_p (on_secrets_of (delete_secret (ie_secrets en) name)) (\<lambda>_.
       bind_p (on_secrets_of (create_secret (ie_fernet en) (ie_key en) (ie_nonce en) (ie_secrets en) name value)) (\<lambda>_.
       ret (result_of ''Secret'' name Updated [])))
     else
       bind_p (on_secrets_of (create_secret (ie_fernet en) (ie_key en) (ie_nonce en) (ie_secrets en) name value)) (\<lambda>_.
       bind_p (emit_iac en SECRET_CREATED [(''secret_name'', JStr name)]) (\<lambda>_.
       ret (result_of ''Secret'' name Created []))))"

definition apply_bucket :: "'k iac_env \<Rightarrow> manifest_metadata \<Rightarrow> ('k iac, apply_result) prog" where
  "apply_bucket en metadata = (let name = mm_name metadata in
     bind_p (get_s (\<lambda>w. bucket_exists (ie_storage en) name (ia_files w))) (\<lambda>found.
     if found then ret (result_of ''Bucket'' name Unchanged [])
     else bind_p (on_files_of (create_bucket (ie_storage en) (ie_now en) name)) (\<lambda>_.
       bind_p (emit_iac en BUCKET_CREATED [(''bucket_name'', JStr name)]) (\<lambda>_.
       ret (result_of ''Bucket'' name Created [])))))"

definition database_of_manifest :: "manifest_metadata \<Rightarrow> database_manifest_spec \<Rightarrow> database_spec" where
  "database_of_manifest metadata spec = \<lparr>dsp_name = mm_name metadata, dsp_engine = dm_engine spec, dsp_version = dm_version spec,
     dsp_storage_mb = dm_storage_mb spec\<rparr>"

definition apply_database :: "'k iac_env \<Rightarrow> manifest_metadata \<Rightarrow> database_manifest_spec \<Rightarrow> ('k iac, apply_result) prog" where
  "apply_database en metadata spec = (let name = mm_name metadata; database_spec = database_of_manifest metadata spec in
     bind_p (get_s (\<lambda>w. dict_get (ia_databases w) name)) (\<lambda>existing. case existing of
       None \<Rightarrow> bind_p (mod_s (\<lambda>w. w\<lparr>ia_databases := dict_put name (new_database_state (ie_now en) database_spec) (ia_databases w)\<rparr>)) (\<lambda>_.
         ret (result_of ''Database'' name Created []))
     | Some d \<Rightarrow> bind_p (mod_s (\<lambda>w. w\<lparr>ia_databases :=
           dict_put name (d\<lparr>ds_spec := database_spec, ds_updated_at := ie_now en\<rparr>) (ia_databases w)\<rparr>)) (\<lambda>_.
         ret (result_of ''Database'' name Updated []))))"

text \<open>\<open>except Exception as error\<close>: the error becomes the only result.\<close>

definition or_error_result :: "manifest \<Rightarrow> ('k iac, apply_result list) prog \<Rightarrow> ('k iac, apply_result list) prog" where
  "or_error_result m p = try_p p (\<lambda>e. ret [result_of (manifest_kind m) (result_name m) ApplyError (exn_text e)])"

definition apply_one :: "'k iac_env \<Rightarrow> string list \<Rightarrow> string list \<Rightarrow> string list \<Rightarrow> manifest \<Rightarrow> ('k iac, apply_result list) prog" where
  "apply_one en buckets databases services m = or_error_result m (case m of
     ServiceManifest metadata spec \<Rightarrow>
       bind_p (validate_service_bindings en spec buckets databases services) (\<lambda>_.
       bind_p (apply_service en metadata spec) (\<lambda>r. ret [r]))
   | SecretManifest metadata value \<Rightarrow> bind_p (apply_secret en (mm_name metadata) value) (\<lambda>r. ret [r])
   | SecretsManifest secrets \<Rightarrow> map_p (\<lambda>(name, value). apply_secret en name value) secrets
   | BucketManifest metadata versioning \<Rightarrow> bind_p (apply_bucket en metadata) (\<lambda>r. ret [r])
   | DatabaseManifest metadata spec \<Rightarrow> bind_p (apply_database en metadata spec) (\<lambda>r. ret [r]))"

definition names_of_kind :: "string \<Rightarrow> manifest list \<Rightarrow> string list" where
  "names_of_kind kind ms = map result_name (filter (\<lambda>m. manifest_kind m = kind) ms)"

definition apply_manifests :: "'k iac_env \<Rightarrow> manifest list \<Rightarrow> ('k iac, apply_result list) prog" where
  "apply_manifests en ms =
     bind_p (map_p (apply_one en (names_of_kind ''Bucket'' ms) (names_of_kind ''Database'' ms) (names_of_kind ''Service'' ms)) ms)
       (\<lambda>rs. ret (concat rs))"

section \<open>Destroying and comparing\<close>

definition gone :: "manifest \<Rightarrow> apply_result list" where
  "gone m = [result_of (manifest_kind m) (result_name m) Updated ''deleted'']"

definition absent :: "manifest \<Rightarrow> apply_result list" where
  "absent m = [result_of (manifest_kind m) (result_name m) Unchanged ''not found'']"

definition destroy_secret :: "'k iac_env \<Rightarrow> string \<Rightarrow> ('k iac, apply_result) prog" where
  "destroy_secret en name = bind_p (on_secrets_of (secret_exists (ie_secrets en) name)) (\<lambda>found.
     if found then bind_p (on_secrets_of (delete_secret (ie_secrets en) name)) (\<lambda>_. ret (result_of ''Secret'' name Updated ''deleted''))
     else ret (result_of ''Secret'' name Unchanged ''not found''))"

definition destroy_one :: "'k iac_env \<Rightarrow> manifest \<Rightarrow> ('k iac, apply_result list) prog" where
  "destroy_one en m = or_error_result m (case m of
     ServiceManifest metadata spec \<Rightarrow> bind_p (get_s (\<lambda>w. dict_has (ia_services w) (mm_name metadata))) (\<lambda>found.
       if found then bind_p (mod_s (\<lambda>w. w\<lparr>ia_services := dict_pop (mm_name metadata) (ia_services w)\<rparr>)) (\<lambda>_. ret (gone m))
       else ret (absent m))
   | SecretManifest metadata value \<Rightarrow> bind_p (on_secrets_of (secret_exists (ie_secrets en) (mm_name metadata))) (\<lambda>found.
       if found then bind_p (on_secrets_of (delete_secret (ie_secrets en) (mm_name metadata))) (\<lambda>_. ret (gone m))
       else ret (absent m))
   | SecretsManifest secrets \<Rightarrow> map_p (destroy_secret en) (dict_keys secrets)
   | BucketManifest metadata versioning \<Rightarrow> bind_p (get_s (\<lambda>w. bucket_exists (ie_storage en) (mm_name metadata) (ia_files w))) (\<lambda>found.
       if found then bind_p (on_files_of (delete_bucket (ie_storage en) (mm_name metadata))) (\<lambda>_. ret (gone m))
       else ret (absent m))
   | DatabaseManifest metadata spec \<Rightarrow> bind_p (get_s (\<lambda>w. dict_has (ia_databases w) (mm_name metadata))) (\<lambda>found.
       if found then bind_p (mod_s (\<lambda>w. w\<lparr>ia_databases := dict_pop (mm_name metadata) (ia_databases w)\<rparr>)) (\<lambda>_. ret (gone m))
       else ret (absent m)))"

definition destroy_manifests :: "'k iac_env \<Rightarrow> manifest list \<Rightarrow> ('k iac, apply_result list) prog" where
  "destroy_manifests en ms = bind_p (map_p (destroy_one en) ms) (\<lambda>rs. ret (concat rs))"

text \<open>\<open>_fetch_current\<close> always gives \<open>None\<close>.\<close>

definition fetch_current :: "manifest \<Rightarrow> ('k iac, manifest option) prog" where
  "fetch_current m = ret None"

definition diff_manifests :: "'k iac_env \<Rightarrow> manifest list \<Rightarrow> ('k iac, manifest_diff list) prog" where
  "diff_manifests en ms = map_p (\<lambda>m. bind_p (fetch_current m) (\<lambda>current.
     case compute_diff (ie_manifests en) m current of Inl e \<Rightarrow> raise e | Inr d \<Rightarrow> ret d)) ms"

section \<open>api/iac.py\<close>

definition parsed_or_422 :: "'k iac_env \<Rightarrow> string \<Rightarrow> (manifest list \<Rightarrow> ('k iac, 'a) prog) \<Rightarrow> ('k iac, 'a) prog" where
  "parsed_or_422 en yaml_text f = (case parse_manifests (ie_manifests en) yaml_text of
     Inl (ManifestParseError m) \<Rightarrow> raise (HTTPException 422 m)
   | Inl e \<Rightarrow> raise e
   | Inr ms \<Rightarrow> f ms)"

definition api_apply :: "jwt_lib \<Rightarrow> settings \<Rightarrow> int \<Rightarrow> 'k iac_env \<Rightarrow> string \<Rightarrow> string \<Rightarrow> ('k iac, apply_result list) prog" where
  "api_apply jwt cfg now en token yaml_text = endpoint (require_role jwt cfg now DEVELOPER token) (\<lambda>_.
     parsed_or_422 en yaml_text (apply_manifests en))"

definition api_diff :: "jwt_lib \<Rightarrow> settings \<Rightarrow> int \<Rightarrow> 'k iac_env \<Rightarrow> string \<Rightarrow> string \<Rightarrow> ('k iac, manifest_diff list) prog" where
  "api_diff jwt cfg now en token yaml_text = endpoint (get_current_user jwt cfg now token) (\<lambda>_.
     parsed_or_422 en yaml_text (diff_manifests en))"

definition api_destroy :: "jwt_lib \<Rightarrow> settings \<Rightarrow> int \<Rightarrow> 'k iac_env \<Rightarrow> string \<Rightarrow> string \<Rightarrow> ('k iac, apply_result list) prog" where
  "api_destroy jwt cfg now en token yaml_text = endpoint (require_role jwt cfg now DEVELOPER token) (\<lambda>_.
     parsed_or_422 en yaml_text (destroy_manifests en))"

end
