(* ===== verification/StorageFacts.thy ===== *)
theory StorageFacts
  imports Storage
begin

text \<open>
  What the object storage keeps: an object that was stored reads back and is listed, and leaves the
  others alone; who may reach which bucket; what a presigned URL is good for; and where keys and
  bucket names that are no plain names lead.
\<close>

section \<open>Plain buckets and keys\<close>

definition key_of :: "string list \<Rightarrow> string" where
  "key_of segs = join ''/'' segs"

definition plain_key :: "string list \<Rightarrow> bool" where
  "plain_key segs \<longleftrightarrow> segs \<noteq> [] \<and> (\<forall>s \<in> set segs. plain_name s)"

lemma fs_do_Inr: "fs_do m t = (Inr u, t') \<longleftrightarrow> m t = (None, t')"
  by (auto simp: fs_do_def split: prod.splits option.splits)

lemma bind_p_Inr_iff: "bind_p m f s = (Inr b, s') \<longleftrightarrow> (\<exists>a t. m s = (Inr a, t) \<and> f a t = (Inr b, s'))"
  by (auto simp: bind_p_def split: prod.splits sum.splits)

lemma ret_Inr: "ret a s = (Inr b, s') \<longleftrightarrow> b = a \<and> s' = s"
  by (auto simp: ret_def)

lemma bucket_path_plain: "plain_name b \<Longrightarrow> bucket_path en b = se_root en @ [b]"
  by (simp add: bucket_path_def path_join_name)

lemma object_path_plain:
  "plain_name b \<Longrightarrow> plain_key segs \<Longrightarrow> object_path en b (key_of segs) = se_root en @ [b, ''objects''] @ segs"
  by (simp add: object_path_def key_of_def plain_key_def path_join_plain bucket_path_plain)

lemma join_last: "segs \<noteq> [] \<Longrightarrow> join sep segs @ x = join sep (butlast segs @ [last segs @ x])"
proof (induction segs)
  case (Cons s segs)
  then show ?case by (cases "segs = []") (auto simp: join_Cons)
qed simp

lemma plain_json: "plain_name s \<Longrightarrow> plain_name (s @ ''.json'')"
proof -
  have "s @ ''.json'' \<noteq> ''.''" "s @ ''.json'' \<noteq> ''..''" by (auto dest: arg_cong [where f = length])
  then show "plain_name s \<Longrightarrow> plain_name (s @ ''.json'')" by (simp add: plain_name_def)
qed

lemma meta_path_plain:
  assumes "plain_name b" "plain_key segs"
  shows "meta_path en b (key_of segs) = se_root en @ [b, ''meta''] @ butlast segs @ [last segs @ ''.json'']"
proof -
  have "\<forall>s \<in> set (butlast segs @ [last segs @ ''.json'']). plain_name s"
    using assms(2) plain_json by (auto simp: plain_key_def dest: in_set_butlastD)
  then show ?thesis using assms join_last [of segs "''/''" "''.json''"] path_join_plain [of "butlast segs @ [last segs @ ''.json'']"]
    by (simp add: meta_path_def key_of_def plain_key_def bucket_path_plain)
qed

lemma plain_paths:
  assumes "plain_path (se_root en)" "plain_name b" "plain_key segs"
  shows "plain_path (object_path en b (key_of segs))" "plain_path (meta_path en b (key_of segs))"
  using assms plain_json [of "last segs"]
  by (auto simp: plain_path_def object_path_plain meta_path_plain plain_key_def plain_name_def dest: in_set_butlastD)

section \<open>What a put leaves\<close>

lemma need_bucket_run: "bucket_exists en b t \<Longrightarrow> need_bucket en b t = (Inr (), t)"
  by (simp add: need_bucket_def bind_p_def get_s_def ret_def)

lemma need_bucket_returns: "need_bucket en b t = (Inr u, t') \<Longrightarrow> bucket_exists en b t \<and> t' = t"
  by (auto simp: need_bucket_def bind_p_def get_s_def ret_def raise_def split: if_splits)

lemma path_exists_grows:
  assumes "path_exists p t" "grows t t'" "\<forall>q data. node_at t q = Some (File data) \<longrightarrow> node_at t' q \<noteq> None"
  shows "path_exists p t'"
proof -
  obtain q where q: "walk t [] p = Inr q" "node_at t q \<noteq> None"
    using assms(1) by (auto simp: path_exists_def find_node_def split: sum.splits)
  then have "node_at t' q \<noteq> None" using assms(2,3) by (cases "node_at t q"; cases "the (node_at t q)") (auto simp: grows_def)
  then show ?thesis using q(1) walk_grows [OF assms(2)] by (auto simp: path_exists_def find_node_def)
qed

text \<open>The two files of an object are the only ones a put changes.\<close>

lemma put_object_effect:
  assumes "put_object en now b k data ct t = (Inr meta, t')"
  shows "\<exists>q q'. walk t' [] (object_path en b k) = Inr q \<and> walk t' [] (meta_path en b k) = Inr q' \<and> q' \<noteq> []
    \<and> bucket_exists en b t \<and> (\<forall>p. path_exists p t \<longrightarrow> path_exists p t')
    \<and> grows t t' \<and> keeps_files {q, q'} t t' \<and> (q \<noteq> q' \<longrightarrow> node_at t' q = Some (File data))
    \<and> node_at t' q' = Some (File (se_dump_meta en meta))
    \<and> meta = \<lparr>om_bucket = b, om_key = k, om_size_bytes = length data, om_content_type = ct, om_created_at = now\<rparr>"
proof -
  obtain t1 t2 t3 where s: "bucket_exists en b t" "mkdir_parents (butlast (object_path en b k)) t = (None, t1)"
      "write_file (object_path en b k) data t1 = (None, t2)" "mkdir_parents (butlast (meta_path en b k)) t2 = (None, t3)"
      "write_file (meta_path en b k) (se_dump_meta en meta) t3 = (None, t')"
      "meta = \<lparr>om_bucket = b, om_key = k, om_size_bytes = length data, om_content_type = ct, om_created_at = now\<rparr>"
    using assms unfolding put_object_def Let_def bind_p_Inr_iff fs_do_Inr ret_Inr
    by (elim exE conjE) (drule need_bucket_returns, simp)
  obtain q where q: "walk t1 [] (object_path en b k) = Inr q" "q \<noteq> []" "node_at t1 q \<noteq> Some Dir" "t2 = dict_put q (File data) t1"
    using write_file_effect [OF s(3)] by blast
  obtain q' where q': "walk t3 [] (meta_path en b k) = Inr q'" "q' \<noteq> []" "node_at t3 q' \<noteq> Some Dir"
      "t' = dict_put q' (File (se_dump_meta en meta)) t3"
    using write_file_effect [OF s(5)] by blast
  note e1 = mkdir_parents_effect [OF s(2)] and e2 = put_file_effect [OF q(2,3), of data, folded q(4)]
    and e3 = mkdir_parents_effect [OF s(4)] and e4 = put_file_effect [OF q'(2,3), of "se_dump_meta en meta", folded q'(4)]
  have g2: "grows t2 t'" by (rule grows_trans [OF conjunct1 [OF e3] conjunct1 [OF e4]])
  have g1: "grows t1 t'" by (rule grows_trans [OF conjunct1 [OF e2] g2])
  have g: "grows t t'" by (rule grows_trans [OF conjunct1 [OF e1] g1])
  have w: "walk t' [] (object_path en b k) = Inr q" "walk t' [] (meta_path en b k) = Inr q'"
    using walk_grows [OF g1 q(1)] walk_grows [OF conjunct1 [OF e4] q'(1)] by auto
  have k: "keeps_files {q, q'} t t'"
    by (rule keeps_trans [OF keeps_trans [OF keeps_trans [OF conjunct2 [OF e1] keeps_mono [OF conjunct2 [OF e2]]]
      conjunct2 [OF e3]] keeps_mono [OF conjunct2 [OF e4]]]) auto
  have n': "node_at t' q' = Some (File (se_dump_meta en meta))" using q'(2,4) by (simp add: node_at_put)
  have n2: "node_at t2 q = Some (File data)" using q(2,4) by (simp add: node_at_put)
  have n: "q \<noteq> q' \<longrightarrow> node_at t' q = Some (File data)"
    using n2 e3 [of "{}"] e4 by (auto simp: keeps_files_def)
  have "node_at t' r \<noteq> None" if "node_at t r = Some (File d)" for r d
  proof (cases "r = q \<or> r = q'")
    case True
    then show ?thesis using n n' by auto
  next
    case False
    then show ?thesis using k that by (simp add: keeps_files_def)
  qed
  then have "\<forall>p. path_exists p t \<longrightarrow> path_exists p t'" using path_exists_grows [OF _ g] by blast
  then show ?thesis using w g k n n' q'(2) s(1,6) by blast
qed

lemma get_object_Inr: "get_object en b k t = (Inr data, t') \<longleftrightarrow> t' = t \<and> bucket_exists en b t \<and> read_file (object_path en b k) t = Inr data"
  by (auto simp: get_object_def need_bucket_def bind_p_def get_s_def ret_def raise_def fs_read_def path_exists_file split: sum.splits)

text \<open>A comprehension whose steps only read.\<close>

lemma map_p_state: "(\<And>x. x \<in> set xs \<Longrightarrow> snd (f x t) = t) \<Longrightarrow> map_p f xs t = (Inr ys, t') \<Longrightarrow> t' = t"
  by (induction xs arbitrary: ys) (fastforce simp: bind_p_Inr_iff ret_Inr)+

lemma map_p_reads:
  "(\<And>x. x \<in> set xs \<Longrightarrow> snd (f x t) = t) \<Longrightarrow> map_p f xs t = (Inr ys, t') \<Longrightarrow> x \<in> set xs \<Longrightarrow> t' = t \<and> (\<exists>y \<in> set ys. f x t = (Inr y, t))"
proof (induction xs arbitrary: ys)
  case (Cons a xs)
  obtain y ys' where y: "f a t = (Inr y, t)" "map_p f xs t = (Inr ys', t')" "ys = y # ys'"
    using Cons.prems(1) [of a] Cons.prems(2) by (auto simp: bind_p_Inr_iff ret_Inr)
  have xs: "t' = t" by (rule map_p_state [OF _ y(2)]) (use Cons.prems(1) in simp)
  show ?case
  proof (cases "x = a")
    case False
    then show ?thesis using Cons.IH [OF _ y(2)] Cons.prems(1,3) y(3) by auto
  qed (use y xs in auto)
qed simp

lemma walk_prefix: "walk t here (p @ r) = Inr q \<Longrightarrow> r \<noteq> [] \<Longrightarrow> \<exists>q0. walk t here p = Inr q0 \<and> node_at t q0 = Some Dir"
  by (cases r) (auto simp: walk_append split: sum.splits option.splits fs_node.splits)

lemma node_at_key: "node_at t q = Some n \<Longrightarrow> q \<noteq> [] \<Longrightarrow> q \<in> set (dict_keys t)"
  by (auto simp: node_at_def dest!: dict_get_Some_mem intro: rev_image_eqI)

lemma load_meta_state: "snd (load_meta en key_prefix p t) = t"
  by (auto simp: load_meta_def bind_p_def fs_read_def ret_def raise_def split: sum.splits)

lemma listed:
  assumes "list_objects en b key_prefix t = (Inr xs, t')" "walk t [] (bucket_path en b @ [''meta'']) = Inr q0"
    and dir: "path_exists (bucket_path en b @ [''meta'']) t" and "q \<in> set (dict_keys t)" "strict_prefix q0 q" "ends_with ''.json'' (last q)"
  shows "\<exists>ms. load_meta en key_prefix (bucket_path en b @ [''meta''] @ drop (length q0) q) t = (Inr ms, t) \<and> set ms \<subseteq> set xs"
proof -
  let ?files = "rglob_suffix ''.json'' (bucket_path en b @ [''meta'']) t"
  obtain ms where ms: "map_p (load_meta en key_prefix) ?files t = (Inr ms, t')" "xs = concat ms"
    using assms(1) dir unfolding list_objects_def Let_def bind_p_Inr_iff get_s_def
    by (auto simp: bind_p_Inr_iff ret_Inr dest!: need_bucket_returns)
  have "bucket_path en b @ [''meta''] @ drop (length q0) q \<in> set ?files"
    using assms(2,4-6) by (force simp: rglob_suffix_def)
  from map_p_reads [OF load_meta_state ms(1) this] show ?thesis using ms(2) by fastforce
qed

lemma put_get_object:
  assumes "plain_path (se_root en)" "plain_name b" "plain_key segs"
    and "put_object en now b (key_of segs) data ct t = (Inr meta, t')"
  shows "fst (get_object en b (key_of segs) t') = Inr data"
proof -
  let ?op = "object_path en b (key_of segs)" and ?mp = "meta_path en b (key_of segs)"
  obtain q q' where e: "walk t' [] ?op = Inr q" "walk t' [] ?mp = Inr q'" "\<forall>p. path_exists p t \<longrightarrow> path_exists p t'"
      "q \<noteq> q' \<longrightarrow> node_at t' q = Some (File data)" "bucket_exists en b t"
    using put_object_effect [OF assms(4)] by blast
  have "q = ?op" "q' = ?mp"
    using walk_plain [OF plain_paths(1) [OF assms(1-3)] e(1)] walk_plain [OF plain_paths(2) [OF assms(1-3)] e(2)] by auto
  moreover have "?op \<noteq> ?mp" unfolding object_path_plain [OF assms(2,3), of en] meta_path_plain [OF assms(2,3), of en] by simp
  ultimately have "read_file ?op t' = Inr data" using e(1,4) by (simp add: read_file_iff)
  then show ?thesis using e(3,5) by (metis bucket_exists_def fst_conv get_object_Inr)
qed

text \<open>A put writes the data and the record at their plain paths, and keeps every other file.\<close>

lemma put_written:
  assumes "plain_path (se_root en)" "plain_name b" "plain_key segs" "put_object en now b (key_of segs) data ct t = (Inr meta, t')"
  shows "walk t' [] (meta_path en b (key_of segs)) = Inr (meta_path en b (key_of segs)) \<and> grows t t'
    \<and> (\<forall>p. path_exists p t \<longrightarrow> path_exists p t') \<and> keeps_files {object_path en b (key_of segs), meta_path en b (key_of segs)} t t'
    \<and> node_at t' (meta_path en b (key_of segs)) = Some (File (se_dump_meta en meta))"
proof -
  let ?op = "object_path en b (key_of segs)" and ?mp = "meta_path en b (key_of segs)"
  obtain q q' where e: "walk t' [] ?op = Inr q" "walk t' [] ?mp = Inr q'" "\<forall>p. path_exists p t \<longrightarrow> path_exists p t'"
      "grows t t'" "keeps_files {q, q'} t t'" "node_at t' q' = Some (File (se_dump_meta en meta))"
      "meta = \<lparr>om_bucket = b, om_key = key_of segs, om_size_bytes = length data, om_content_type = ct, om_created_at = now\<rparr>"
    using put_object_effect [OF assms(4)] by blast
  have "q = ?op" "q' = ?mp"
    using walk_plain [OF plain_paths(1) [OF assms(1-3)] e(1)] walk_plain [OF plain_paths(2) [OF assms(1-3)] e(2)] by auto
  then show ?thesis using e by simp
qed

lemma put_keeps_others:
  assumes "plain_path (se_root en)" "plain_name b" "plain_key segs" "put_object en now b (key_of segs) data ct t = (Inr meta, t')"
    and "plain_name b'" "plain_key segs'" "(b', segs') \<noteq> (b, segs)" "fst (get_object en b' (key_of segs') t) = Inr data'"
  shows "fst (get_object en b' (key_of segs') t') = Inr data'"
proof -
  let ?p = "object_path en b' (key_of segs')"
  note w = put_written [OF assms(1-4)]
  have r: "bucket_exists en b' t" "read_file ?p t = Inr data'"
    using assms(8) get_object_Inr by (metis prod.collapse)+
  have n: "?p \<notin> {object_path en b (key_of segs), meta_path en b (key_of segs)}"
    unfolding object_path_plain [OF assms(2,3)] meta_path_plain [OF assms(2,3)] object_path_plain [OF assms(5,6)] using assms(7) by auto
  obtain p where p: "walk t [] ?p = Inr p" using r(2) by (auto simp: read_file_iff)
  then have "p = ?p" using walk_plain [OF plain_paths(1) [OF assms(1,5,6)] p] by simp
  then have "read_file ?p t' = Inr data'" using read_file_kept [OF r(2) p, of "{object_path en b (key_of segs), meta_path en b (key_of segs)}" t'] w n by blast
  moreover have "bucket_exists en b' t'" using r(1) w by (simp add: bucket_exists_def)
  ultimately show ?thesis by (metis fst_conv get_object_Inr)
qed

lemma put_listed:
  assumes "se_load_meta en (se_dump_meta en meta) = Inr meta" "plain_path (se_root en)" "plain_name b" "plain_key segs"
    and "put_object en now b (key_of segs) data ct t = (Inr meta, t')" "fst (list_objects en b [] t') = Inr xs"
  shows "meta \<in> set xs"
proof -
  let ?mp = "meta_path en b (key_of segs)" and ?dir = "bucket_path en b @ [''meta'']"
  note w = put_written [OF assms(2-5)] and m = meta_path_plain [OF assms(3,4), of en]
  obtain t'' where l: "list_objects en b [] t' = (Inr xs, t'')" using assms(6) by (cases "list_objects en b [] t'") auto
  have mp: "?mp = ?dir @ butlast segs @ [last segs @ ''.json'']" unfolding m using assms(3) by (simp add: bucket_path_plain)
  obtain q0 where q0: "walk t' [] ?dir = Inr q0" "node_at t' q0 = Some Dir"
    using walk_prefix [of t' "[]" ?dir "butlast segs @ [last segs @ ''.json'']" ?mp] w unfolding mp by auto
  have "plain_path ?dir" using plain_paths(2) [OF assms(2-4)] unfolding mp by (simp add: plain_path_def)
  then have q0_eq: "q0 = ?dir" using walk_plain [OF _ q0(1)] by simp
  have "path_exists ?dir t'" using q0 by (simp add: path_exists_def find_node_def)
  moreover have "?mp \<in> set (dict_keys t')" using node_at_key [of t' ?mp] w mp by simp
  moreover have "strict_prefix q0 ?mp" "ends_with ''.json'' (last ?mp)" unfolding mp q0_eq by (auto simp: ends_with_iff strict_prefix_def)
  ultimately obtain ms where ms: "load_meta en [] (?dir @ drop (length q0) ?mp) t' = (Inr ms, t')" "set ms \<subseteq> set xs"
    using listed [OF l q0(1)] by (metis append_assoc)
  have "?dir @ drop (length q0) ?mp = ?mp" unfolding mp q0_eq by simp
  moreover have "load_meta en [] ?mp t' = (Inr [meta], t')"
    using w assms(1) put_object_effect [OF assms(5)]
    by (auto simp: load_meta_def bind_p_def fs_read_def read_file_iff [THEN iffD2] ret_def)
  ultimately show ?thesis using ms by auto
qed

section \<open>Properties\<close>


text \<open>The root, the models as JSON text, and the files of the witnesses: two buckets with their directories.\<close>

definition demo_storage :: storage_env where
  "demo_storage = \<lparr>se_root = [''data''],
     se_dump_bucket = (\<lambda>b. bk_name b), se_load_bucket = (\<lambda>s. Inr \<lparr>bk_name = s, bk_versioning = False, bk_created_at = 0\<rparr>),
     se_dump_meta = (\<lambda>m. om_key m), se_load_meta = (\<lambda>s. Inr \<lparr>om_bucket = ''a'', om_key = s, om_size_bytes = 1, om_content_type = ''t'', om_created_at = 0\<rparr>)\<rparr>"

definition demo_files :: fs where
  "demo_files = [([''data''], Dir),
     ([''data'', ''a''], Dir), ([''data'', ''a'', ''objects''], Dir), ([''data'', ''a'', ''meta''], Dir), ([''data'', ''a'', ''bucket.json''], File ''a''),
     ([''data'', ''b''], Dir), ([''data'', ''b'', ''objects''], Dir), ([''data'', ''b'', ''meta''], Dir), ([''data'', ''b'', ''bucket.json''], File ''b''),
     ([''data'', ''b'', ''objects'', ''x''], File ''top'')]"

text \<open>A key may lead out of its bucket: nothing keeps \<open>..\<close> out of a key, and \<open>../../b/objects/k\<close> in
  bucket \<open>a\<close> is object \<open>k\<close> of bucket \<open>b\<close>. Whoever may read bucket \<open>a\<close> reads every object of every other
  bucket: the endpoint for services answers with it.\<close>

theorem key_leaves_bucket:
  assumes "require_bucket_access ax a ''read'' token w = (Inr s, w')" "en = ax_storage ax"
    and "bucket_exists en a (sa_files w')" "is_dir (bucket_path en a @ [''objects'']) (sa_files w')"
    and "plain_path (se_root en)" "plain_name a" "plain_name b" "plain_key segs"
    and "fst (get_object en b (key_of segs) (sa_files w')) = Inr data"
  shows "fst (workload_get_object ax (Some token) a (''../../'' @ b @ ''/objects/'' @ key_of segs) w) = Inr data"
proof -
  let ?t = "sa_files w'" and ?k = "''../../'' @ b @ ''/objects/'' @ key_of segs"
  have "path_join base ?k = base @ [''..'', ''..'', b, ''objects''] @ segs" for base
  proof -
    have "?k = join ''/'' ([''..'', ''..'', b, ''objects''] @ segs)"
      using assms(8) by (cases segs) (auto simp: key_of_def plain_key_def)
    moreover have "split_char CHR ''/'' (join ''/'' ([''..'', ''..'', b, ''objects''] @ segs)) = [''..'', ''..'', b, ''objects''] @ segs"
      by (rule split_join_char) (use assms(7,8) in \<open>auto simp: plain_name_def plain_key_def\<close>)
    moreover have "filter (\<lambda>c. c \<noteq> [] \<and> c \<noteq> ''.'') ([''..'', ''..'', b, ''objects''] @ segs) = [''..'', ''..'', b, ''objects''] @ segs"
      by (rule filter_True) (use assms(7,8) in \<open>auto simp: plain_name_def plain_key_def\<close>)
    ultimately have "path_parts ?k = [''..'', ''..'', b, ''objects''] @ segs" by (simp add: path_parts_def)
    then show ?thesis by (simp add: path_join_def starts_with_def)
  qed
  then have o: "object_path en a ?k = se_root en @ [a, ''objects'', ''..'', ''..'', b, ''objects''] @ segs"
    using assms(6) by (simp add: object_path_def bucket_path_plain)
  have r: "read_file (object_path en b (key_of segs)) ?t = Inr data"
    using assms(9) get_object_Inr by (metis prod.collapse)
  obtain q where q: "walk ?t [] (se_root en @ [b, ''objects''] @ segs) = Inr q" "node_at ?t q = Some (File data)"
    using r unfolding object_path_plain [OF assms(7,8)] read_file_iff by blast
  have pl: "plain_path (se_root en @ [a, ''objects''])" using assms(5,6) by (auto simp: plain_path_def plain_name_def)
  obtain d where d: "walk ?t [] (se_root en @ [a, ''objects'']) = Inr d" "node_at ?t d = Some Dir"
    using assms(4,6) by (auto simp: is_dir_def find_node_def bucket_path_plain split: sum.splits)
  have d_eq: "d = se_root en @ [a, ''objects'']" using walk_plain [OF pl d(1)] by simp
  have dirs: "node_at ?t r = Some Dir" if "se_root en @ [a, ''objects''] = r @ s" "s \<noteq> []" for r s
    using d(1) that walk_plain_iff [OF pl, of ?t "[]" d] by auto
  have up: "node_at ?t (se_root en @ [a]) = Some Dir" "node_at ?t (se_root en) = Some Dir"
    using dirs [of "se_root en @ [a]" "[''objects'']"] dirs [of "se_root en" "[a, ''objects'']"] by auto
  have root: "walk ?t [] (se_root en) = Inr (se_root en)"
    using walk_plain_iff [OF assms(5), of ?t "[]" "se_root en"] dirs by simp
  have "walk ?t [] (se_root en @ [a, ''objects'', ''..'', ''..''] ) = Inr (se_root en)"
    using d(2) d_eq up root assms(6) by (simp add: walk_append butlast_append plain_name_def)
  moreover have "walk ?t (se_root en) ([b, ''objects''] @ segs) = Inr q"
    using q(1) root walk_append [of ?t "[]" "se_root en" "[b, ''objects''] @ segs"] by simp
  ultimately have "walk ?t [] (object_path en a ?k) = Inr q"
    using walk_append [of ?t "[]" "se_root en @ [a, ''objects'', ''..'', ''..'']" "[b, ''objects''] @ segs"] unfolding o by simp
  then have "read_file (object_path en a ?k) ?t = Inr data" using q(2) by (simp add: read_file_iff)
  then have "get_object en a ?k ?t = (Inr data, ?t)" using assms(3) by (simp add: get_object_Inr)
  then show ?thesis using assms(1,2)
    by (simp add: workload_get_object_def require_bucket_read_def bind_p_def or_404_def on_files_def try_p_def)
qed

definition demo_bound :: service_state where
  "demo_bound = new_service_state 0 ((default_service_spec ''app'' ''img'')\<lparr>sp_resources := \<lparr>rb_buckets = [\<lparr>bb_name = ''a'', bb_access = [AccessRead]\<rparr>],
     rb_databases = []\<rparr>\<rparr>)"

definition demo_storage_api :: "(json table, (string, service_state) pydict) storage_api" where
  "demo_storage_api = \<lparr>ax_storage = demo_storage, ax_presign = \<lparr>ps_secret_key = ''k'', ps_base_url = ''http://h/'', ps_hmac = (\<lambda>k m. str_nat (length m))\<rparr>,
     ax_jwt = \<lparr>jl_encode = (\<lambda>c k. []), jl_decode = (\<lambda>now t k. Inl JwtInvalid)\<rparr>, ax_cfg = default_settings, ax_fernet = plain_fernet, ax_key = ''k'',
     ax_secrets = secrets_table, ax_services = dict_store (\<lambda>d. d) (\<lambda>f d. f d)\<rparr>"

definition demo_storage_state :: "(json table, (string, service_state) pydict) storage_state" where
  "demo_storage_state = \<lparr>sa_files = demo_files, sa_secrets = [(service_token_prefix @ ''app'',
     secret_dump \<lparr>sec_name = service_token_prefix @ ''app'', sec_value = ''kot''\<rparr>)], sa_services = [(''app'', demo_bound)]\<rparr>"

lemma demo_access: "require_bucket_access demo_storage_api ''a'' ''read'' ''tok'' demo_storage_state = (Inr demo_bound, demo_storage_state)"
proof -
  have "get_secret plain_fernet ''k'' secrets_table (service_token_prefix @ ''app'') (sa_secrets demo_storage_state) = (Inr (Some ''tok''), sa_secrets demo_storage_state)"
    by (simp add: get_secret_def pg_store_def pg_get_def demo_storage_state_def bind_p_def secret_codec.validate_dump plain_fernet_def ret_def)
  moreover have "list_secret_names secrets_table (sa_secrets demo_storage_state) = (Inr [service_token_prefix @ ''app''], sa_secrets demo_storage_state)"
    by (simp add: list_secret_names_def pg_store_def pg_list_def demo_storage_state_def bind_p_def secret_codec.validate_dump ret_def)
  moreover have "binds demo_bound ''a'' ''read''"
    by (simp add: binds_def demo_bound_def new_service_state_def)
  ultimately show ?thesis
    by (simp add: require_bucket_access_def service_state_for_token_def bind_p_def on_stored_secrets_def on_services_def demo_storage_api_def
      dict_store_def get_s_def ret_def) (simp add: demo_storage_state_def ret_def)
qed

theorem key_leaves_bucket_witness:
  "fst (workload_get_object demo_storage_api (Some ''tok'') ''a'' ''../../b/objects/x'' demo_storage_state) = Inr ''top''"
proof -
  have e: "ax_storage demo_storage_api = demo_storage" "sa_files demo_storage_state = demo_files"
    by (simp_all add: demo_storage_api_def demo_storage_state_def)
  have p: "plain_name ''a''" "plain_name ''b''" "plain_key [''x'']" "plain_path (se_root demo_storage)"
    by (simp_all add: plain_name_def plain_key_def plain_path_def demo_storage_def)
  have b: "bucket_exists demo_storage ''a'' demo_files" "bucket_exists demo_storage ''b'' demo_files"
      "is_dir (bucket_path demo_storage ''a'' @ [''objects'']) demo_files"
      "read_file (object_path demo_storage ''b'' (key_of [''x''])) demo_files = Inr ''top''"
    by (simp_all add: bucket_exists_def bucket_path_plain p object_path_plain path_exists_def is_dir_def read_file_def find_node_def
      demo_storage_def demo_files_def node_at_def)
  then have g: "fst (get_object demo_storage ''b'' (key_of [''x'']) demo_files) = Inr ''top''" by (metis fst_conv get_object_Inr)
  have k: "''../../'' @ ''b'' @ ''/objects/'' @ key_of [''x''] = ''../../b/objects/x''" by (simp add: key_of_def)
  show ?thesis
    using key_leaves_bucket [OF demo_access e(1) [symmetric], of "''b''" "[''x'']" "''top''"] p b g unfolding e k by simp
qed

section \<open>Who may reach a bucket\<close>

lemma bind_p_starts: "fst (bind_p m f w) = Inr x \<Longrightarrow> \<exists>a w'. m w = (Inr a, w')"
  by (auto simp: bind_p_def split: prod.splits sum.splits)

text \<open>The stores the endpoints for services read: one of secrets and one of services.\<close>

locale workload_stores = secret_store st view inv + svc: any_store sst sview sinv
  for st :: "('k, secret_spec) store_ops" and view and inv
    and sst :: "('s, service_state) store_ops" and sview and sinv
begin

lemma token_loop_returns:
  assumes "ax_secrets ax = st" "ax_services ax = sst"
  shows "token_loop ax token names w = (r, w') \<Longrightarrow> inv (sa_secrets w) \<Longrightarrow> sinv (sa_services w) \<Longrightarrow>
    sa_files w' = sa_files w \<and> (\<forall>s. r = Inr s \<longrightarrow> (\<exists>source. token_of (ax_fernet ax) (ax_key ax) (view (sa_secrets w)) source = Some token
      \<and> sview (sa_services w) source = Some s))"
proof (induction names arbitrary: w)
  case (Cons name names)
  obtain r1 k where g: "get_secret (ax_fernet ax) (ax_key ax) st name (sa_secrets w) = (r1, k)" by force
  note k = get_secret_any [OF Cons.prems(2) g]
  let ?w = "w\<lparr>sa_secrets := k\<rparr>"
  have on: "on_stored_secrets (get_secret (ax_fernet ax) (ax_key ax) (ax_secrets ax) name) w = (r1, ?w)"
    using g assms(1) by (simp add: on_stored_secrets_def)
  show ?case
  proof (cases "starts_with service_token_prefix name")
    case False
    then show ?thesis using Cons by simp
  next
    case True
    show ?thesis
    proof (cases "r1 = Inr (Some token)")
      case False
      then show ?thesis using Cons.prems on True k Cons.IH [of ?w] by (cases r1) (auto simp: bind_p_def split: if_splits)
    next
      case match: True
      let ?source = "remove_prefix service_token_prefix name"
      obtain l where l: "so_get sst ?source (sa_services w) = (Inr (sview (sa_services w) ?source), l)" "sinv l" "sview l = sview (sa_services w)"
        using svc.get_law [OF Cons.prems(3)] by blast
      have found: "on_services (so_get (ax_services ax) ?source) ?w = (Inr (sview (sa_services w) ?source), ?w\<lparr>sa_services := l\<rparr>)"
        using l(1) assms(2) by (simp add: on_services_def)
      have t: "token_of (ax_fernet ax) (ax_key ax) (view (sa_secrets w)) ?source = Some token"
        using k match starts_with_remove [OF True] by (simp add: token_of_def)
      show ?thesis
      proof (cases "sview (sa_services w) ?source")
        case None
        then show ?thesis using Cons.prems on found True match k l Cons.IH [of "?w\<lparr>sa_services := l\<rparr>"] by (simp add: bind_p_def)
      next
        case (Some s)
        then show ?thesis using Cons.prems(1) on found True match t by (auto simp: bind_p_def ret_def)
      qed
    qed
  qed
qed (auto simp: raise_def)

lemma bucket_access_returns:
  assumes "ax_secrets ax = st" "ax_services ax = sst" "inv (sa_secrets w)" "sinv (sa_services w)"
    and "require_bucket_access ax b access token w = (r, w')"
  shows "sa_files w' = sa_files w \<and> (\<forall>s. r = Inr s \<longrightarrow> binds s b access \<and>
    (\<exists>source. token_of (ax_fernet ax) (ax_key ax) (view (sa_secrets w)) source = Some token \<and> sview (sa_services w) source = Some s))"
proof -
  obtain k all where k: "so_list st (sa_secrets w) = (Inr all, k)" "inv k" "view k = view (sa_secrets w)"
    using list_law [OF assms(3)] by blast
  let ?w = "w\<lparr>sa_secrets := k\<rparr>"
  have names: "on_stored_secrets (list_secret_names (ax_secrets ax)) w = (Inr (map sec_name all), ?w)"
    using k(1) assms(1) by (simp add: on_stored_secrets_def list_secret_names_def bind_p_def ret_def)
  obtain r1 w1 where 1: "token_loop ax token (map sec_name all) ?w = (r1, w1)" by force
  note l = token_loop_returns [OF assms(1,2) 1]
  show ?thesis using assms(4,5) names 1 l k
    by (cases r1) (auto simp: require_bucket_access_def service_state_for_token_def bind_p_def ret_def raise_def split: if_splits)
qed

end

interpretation api_services: field_store "\<lambda>d. d" "\<lambda>f d. f d"
  by unfold_locales simp

interpretation api_stores: workload_stores secrets_table "raw_view secret_validate" "raw_inv secret_validate"
    "dict_store (\<lambda>d. d) (\<lambda>f d. f d)" "\<lambda>d. dict_get d" "\<lambda>d. wf_dict d"
  using secrets_db.secret_store_axioms api_services.field_any_store by (simp add: workload_stores_def)



text \<open>A presigned URL is good until it expires: the parameters of a generated URL give the object up to the
  second of its expiry and are refused with 403 after it; and whatever parameters are accepted, their
  signature is the code of that bucket, key and expiry under the secret key.\<close>

theorem presigned_until_expiry:
  assumes "\<forall>m. \<forall>c \<in> set (ps_hmac ps (ps_secret_key ps) m). byte_of c < (128::nat)"
    and "0 \<le> now + ttl" "length (nat_digits (nat (now + ttl))) \<le> int_max_str_digits" "ax_presign ax = ps"
    and "signature = sign_params ps [(''bucket'', b), (''key'', k), (''expires'', str_int (now + ttl))]"
  shows "generate_presigned_get ps now b k ttl = rstrip_slash (ps_base_url ps) @ ''/api/v1/storage/presigned?''
        @ urlencode [(''bucket'', b), (''key'', k), (''expires'', str_int (now + ttl)), (''signature'', signature)]
    \<and> api_get_presigned_object ax now' b k (str_int (now + ttl)) signature w =
      (if now' \<le> now + ttl then or_404 ''Object not found'' (Some ''Object not found'') (get_object (ax_storage ax) b k) w
       else (Inl (HTTPException 403 ''Invalid or expired URL''), w))
    \<and> (\<forall>b' k' expires sig. validate_presigned_url ps now' b' k' expires sig = Inr True \<longrightarrow>
         sig = sign_params ps [(''bucket'', b'), (''key'', k'), (''expires'', expires)])"
proof -
  have i: "py_int (str_int (now + ttl)) = Some (now + ttl)"
    using assms(2,3) py_int_str_nat [of "nat (now + ttl)"] by (simp add: str_int_def)
  have "compare_digest (sign_params ps params) (sign_params ps params) = Inr True" for params
    using assms(1) by (auto simp: compare_digest_def sign_params_def)
  then have v: "validate_presigned_url ps now' b k (str_int (now + ttl)) signature = Inr (now' \<le> now + ttl)"
    unfolding assms(5) by (simp add: validate_presigned_url_def i)
  have "generate_presigned_get ps now b k ttl = rstrip_slash (ps_base_url ps) @ ''/api/v1/storage/presigned?''
        @ urlencode [(''bucket'', b), (''key'', k), (''expires'', str_int (now + ttl)), (''signature'', signature)]"
    unfolding assms(5) by (simp add: generate_presigned_get_def Let_def)
  moreover have "api_get_presigned_object ax now' b k (str_int (now + ttl)) signature w =
      (if now' \<le> now + ttl then or_404 ''Object not found'' (Some ''Object not found'') (get_object (ax_storage ax) b k) w
       else (Inl (HTTPException 403 ''Invalid or expired URL''), w))"
    by (simp add: api_get_presigned_object_def assms(4) v raise_def)
  moreover have "sig = sign_params ps [(''bucket'', b'), (''key'', k'), (''expires'', expires)]"
    if "validate_presigned_url ps now' b' k' expires sig = Inr True" for b' k' expires sig
    using that by (auto simp: validate_presigned_url_def compare_digest_def split: option.splits if_splits)
  ultimately show ?thesis by blast
qed

theorem presigned_until_expiry_witness:
  "fst (api_get_presigned_object demo_storage_api 10 ''b'' ''x'' (str_int 15)
      (sign_params (ax_presign demo_storage_api) [(''bucket'', ''b''), (''key'', ''x''), (''expires'', str_int 15)]) demo_storage_state) =
    fst (or_404 ''Object not found'' (Some ''Object not found'') (get_object demo_storage ''b'' ''x'') demo_storage_state)"
proof -
  have "byte_of c < (128::nat)" if "c \<in> set (str_nat n)" for c n
    using str_nat_digits [OF that] by (simp add: is_digit_def Let_def)
  then have "\<forall>m. \<forall>c \<in> set (ps_hmac (ax_presign demo_storage_api) (ps_secret_key (ax_presign demo_storage_api)) m). byte_of c < (128::nat)"
    by (simp add: demo_storage_api_def)
  moreover have "ax_storage demo_storage_api = demo_storage" by (simp add: demo_storage_api_def)
  moreover have "length (nat_digits (nat (10 + 5))) \<le> int_max_str_digits" by code_simp
  ultimately show ?thesis
    using presigned_until_expiry [of "ax_presign demo_storage_api" 10 5 demo_storage_api _ "''b''" "''x''" 10 demo_storage_state] by simp
qed

text \<open>The text that is signed does not separate its parts: two different sets of parameters have one signature.\<close>

lemma signature_ambiguous:
  "sign_params ps [(''bucket'', b), (''key'', k @ ''&expires='' @ e' @ ''&key='' @ k'), (''expires'', e)] =
   sign_params ps [(''bucket'', b @ ''&expires='' @ e @ ''&key='' @ k), (''key'', k'), (''expires'', e')]"
  by (simp add: sign_params_def)

text \<open>A bucket name may lead out of the storage: deleting the bucket \<open>..\<close> removes every file and directory
  of the directory that holds the storage, whatever they belong to, and then fails.\<close>

theorem dotdot_deletes_everything:
  assumes "developer ax now token = Inr user" "se_root (ax_storage ax) = parent @ [d]"
    and "plain_path (parent @ [d])" "is_dir (parent @ [d]) (sa_files w)"
  shows "\<exists>w'. api_delete_bucket ax now token ''..'' w = (Inl OSError, w')
    \<and> (\<forall>p. strict_prefix parent p \<longrightarrow> node_at (sa_files w') p = None)"
proof -
  let ?t = "sa_files w"
  obtain q where q: "walk ?t [] (parent @ [d]) = Inr q" "node_at ?t q = Some Dir"
    using assms(4) by (auto simp: is_dir_def find_node_def split: sum.splits)
  have dirs: "q = parent @ [d]" "node_at ?t r = Some Dir" if "parent @ [d] = r @ s" "s \<noteq> []" for r s
    using q(1) that walk_plain_iff [OF assms(3), of ?t "[]" q] by auto
  have pd: "q = parent @ [d]" using dirs(1) [of parent "[d]"] by simp
  have b: "bucket_path (ax_storage ax) ''..'' = (parent @ [d]) @ [''..'']"
    using assms(2) by (simp add: bucket_path_def path_join_def starts_with_def path_parts_def)
  have w: "walk ?t [] ((parent @ [d]) @ [''..'']) = Inr parent"
    using q pd walk_append [of ?t "[]" "parent @ [d]" "[''..'']"] by simp
  have p: "node_at ?t parent = Some Dir" using dirs(2) [of parent "[d]"] by simp
  let ?t' = "filter (\<lambda>(r, n). \<not> strict_prefix parent r) ?t"
  have "rmtree ((parent @ [d]) @ [''..'']) ?t = (Some NotEmpty, ?t')" using w p by (simp add: rmtree_def)
  moreover have "path_exists ((parent @ [d]) @ [''..'']) ?t" using w p by (simp add: path_exists_def find_node_def)
  ultimately have "delete_bucket (ax_storage ax) ''..'' ?t = (Inl OSError, ?t')"
    unfolding delete_bucket_def b by (simp add: bind_p_def get_s_def fs_do_def)
  then have "api_delete_bucket ax now token ''..'' w = (Inl OSError, w\<lparr>sa_files := ?t'\<rparr>)"
    using assms(1) by (simp add: api_delete_bucket_def or_404_def on_files_def try_p_def raise_def)
  moreover have "node_at ?t' p = None" if "strict_prefix parent p" for p
    using that by (auto simp: node_at_def map_of_eq_None_iff)
  ultimately show ?thesis by auto
qed

lemma demo_storage_codec: "plain_path [''data'']"
  by (simp add: plain_path_def)

theorem dotdot_deletes_everything_witness:
  "\<exists>w'. api_delete_bucket (demo_storage_api\<lparr>ax_jwt := \<lparr>jl_encode = (\<lambda>c k. []), jl_decode = (\<lambda>now t k. Inr (token_claims ''dev'' DEVELOPER 0))\<rparr>\<rparr>) 0 [] ''..'' demo_storage_state
     = (Inl OSError, w') \<and> node_at (sa_files w') [''data''] = None"
proof -
  let ?ax = "demo_storage_api\<lparr>ax_jwt := \<lparr>jl_encode = (\<lambda>c k. []), jl_decode = (\<lambda>now t k. Inr (token_claims ''dev'' DEVELOPER 0))\<rparr>\<rparr>"
  have "\<exists>user. developer ?ax 0 [] = Inr user"
    by (simp add: developer_def demo_storage_api_def require_role_def get_current_user_def decode_token_def token_claims_def
      has_minimum_role_def role_of_value_def)
  moreover have "se_root (ax_storage ?ax) = [] @ [''data'']" by (simp add: demo_storage_api_def demo_storage_def)
  moreover have "is_dir ([] @ [''data'']) (sa_files demo_storage_state)"
    by (simp add: is_dir_def find_node_def demo_storage_state_def demo_files_def node_at_def)
  ultimately show ?thesis using dotdot_deletes_everything [of ?ax 0 "[]" _ "[]" "''data''" demo_storage_state] demo_storage_codec
    by (auto simp: strict_prefix_def)
qed

text \<open>A key with a segment that ends with \<open>.json\<close> makes its bucket unlistable: the records of the objects are
  found as everything named \<open>*.json\<close> below \<open>meta\<close>, also the directory that such a segment becomes, and
  reading that fails.\<close>

theorem json_segment_breaks_listing:
  assumes "plain_path (se_root en)" "plain_name b" "plain_key (pre @ [s @ ''.json''] @ post)" "post \<noteq> []"
    and "put_object en now b (key_of (pre @ [s @ ''.json''] @ post)) data ct t = (Inr meta, t')"
  shows "fst (list_objects en b key_prefix t') \<noteq> Inr xs"
proof
  assume "fst (list_objects en b key_prefix t') = Inr xs"
  then obtain t'' where l: "list_objects en b key_prefix t' = (Inr xs, t'')" by (cases "list_objects en b key_prefix t'") auto
  let ?segs = "pre @ [s @ ''.json''] @ post"
  let ?meta = "bucket_path en b @ [''meta'']" and ?dir = "bucket_path en b @ [''meta''] @ pre @ [s @ ''.json'']"
  obtain q where q: "walk t' [] (meta_path en b (key_of ?segs)) = Inr q"
    using put_object_effect [OF assms(5)] by blast
  have m: "meta_path en b (key_of ?segs) = ?dir @ butlast post @ [last post @ ''.json'']"
    using meta_path_plain [OF assms(2,3), of en] assms(2,4) by (simp add: bucket_path_plain butlast_append)
  have pl: "plain_path ?dir" "plain_path ?meta"
    using plain_paths(2) [OF assms(1-3)] unfolding m by (auto simp: plain_path_def)
  obtain q1 where q1: "walk t' [] ?dir = Inr q1" "node_at t' q1 = Some Dir"
    using walk_prefix [of t' "[]" ?dir "butlast post @ [last post @ ''.json'']" q] q unfolding m by auto
  obtain q0 where q0: "walk t' [] ?meta = Inr q0" "node_at t' q0 = Some Dir"
    using walk_prefix [of t' "[]" ?meta "pre @ [s @ ''.json'']" q1] q1(1) by auto
  have e: "q1 = ?dir" "q0 = ?meta" using walk_plain [OF pl(1) q1(1)] walk_plain [OF pl(2) q0(1)] by auto
  have "path_exists ?meta t'" using q0 by (simp add: path_exists_def find_node_def)
  moreover have "q1 \<in> set (dict_keys t')" using node_at_key [OF q1(2)] e by simp
  moreover have "strict_prefix q0 q1" "ends_with ''.json'' (last q1)" unfolding e by (auto simp: strict_prefix_def ends_with_iff)
  ultimately obtain ms where "load_meta en key_prefix (bucket_path en b @ [''meta''] @ drop (length q0) q1) t' = (Inr ms, t')"
    using listed [OF l q0(1)] by blast
  moreover have "bucket_path en b @ [''meta''] @ drop (length q0) q1 = ?dir" unfolding e by simp
  moreover have "load_meta en key_prefix ?dir t' = (Inl OSError, t')"
    using q1 by (simp add: load_meta_def bind_p_def fs_read_def read_file_def)
  ultimately show False by simp
qed

lemma demo_put:
  "put_object demo_storage 0 ''a'' ''r.json/x'' ''1'' ''t'' demo_files =
    (Inr \<lparr>om_bucket = ''a'', om_key = ''r.json/x'', om_size_bytes = 1, om_content_type = ''t'', om_created_at = 0\<rparr>,
     snd (put_object demo_storage 0 ''a'' ''r.json/x'' ''1'' ''t'' demo_files))"
proof -
  have "fst (put_object demo_storage 0 ''a'' ''r.json/x'' ''1'' ''t'' demo_files) =
    Inr \<lparr>om_bucket = ''a'', om_key = ''r.json/x'', om_size_bytes = 1, om_content_type = ''t'', om_created_at = 0\<rparr>" by code_simp
  then show ?thesis by (metis prod.collapse)
qed

theorem json_segment_breaks_listing_witness:
  "fst (list_objects demo_storage ''a'' [] (snd (put_object demo_storage 0 ''a'' ''r.json/x'' ''1'' ''t'' demo_files))) \<noteq> Inr []"
proof -
  have p: "plain_path (se_root demo_storage)" "plain_name ''a''" "plain_key ([] @ [''r'' @ ''.json''] @ [''x''])"
    by (simp_all add: demo_storage_def plain_path_def plain_name_def plain_key_def)
  have k: "key_of ([] @ [''r'' @ ''.json''] @ [''x'']) = ''r.json/x''" by (simp add: key_of_def)
  show ?thesis using json_segment_breaks_listing [OF p, unfolded k, OF _ demo_put] by simp
qed


end
