(* ===== verification/ApplierFacts.thy ===== *)
theory ApplierFacts
  imports Applier StorageFacts Converge
begin

text \<open>
  What applying manifests establishes, which services it refuses, and what destroying and comparing
  manifests does.
\<close>

section \<open>What a step keeps\<close>

text \<open>Resources that exist stay: no step of an apply removes a service, a database or a path.\<close>

definition resources_stay :: "'k iac \<Rightarrow> 'k iac \<Rightarrow> bool" where
  "resources_stay w w' \<longleftrightarrow> (\<forall>n. dict_has (ia_services w) n \<longrightarrow> dict_has (ia_services w') n)
     \<and> (\<forall>n. dict_has (ia_databases w) n \<longrightarrow> dict_has (ia_databases w') n)
     \<and> (\<forall>p. path_exists p (ia_files w) \<longrightarrow> path_exists p (ia_files w'))"

lemma stay_refl [simp]: "resources_stay w w"
  by (simp add: resources_stay_def)

lemma stay_trans: "resources_stay w w' \<Longrightarrow> resources_stay w' w'' \<Longrightarrow> resources_stay w w''"
  by (simp add: resources_stay_def)

definition paths_stay :: "fs \<Rightarrow> fs \<Rightarrow> bool" where
  "paths_stay t t' \<longleftrightarrow> grows t t' \<and> (\<forall>q. node_at t q \<noteq> None \<longrightarrow> node_at t' q \<noteq> None)"

lemma paths_stay_refl [simp]: "paths_stay t t"
  by (simp add: paths_stay_def)

lemma paths_stay_trans: "paths_stay t t' \<Longrightarrow> paths_stay t' t'' \<Longrightarrow> paths_stay t t''"
  unfolding paths_stay_def using grows_trans by blast

lemma paths_stay_exists: "paths_stay t t' \<Longrightarrow> path_exists p t \<Longrightarrow> path_exists p t'"
  unfolding paths_stay_def by (rule path_exists_grows) auto

lemma stay_of_effect: "(\<And>Q. grows t t' \<and> keeps_files Q t t') \<Longrightarrow> paths_stay t t'"
  unfolding paths_stay_def grows_def keeps_files_def
proof (intro conjI allI impI, goal_cases)
  case (2 q)
  then obtain n where n: "node_at t q = Some n" by auto
  then show ?case using 2(1) [of "{}"] by (cases n) auto
qed auto

lemma create_bucket_stays: "paths_stay t (snd (create_bucket en now b t))"
proof -
  have mk: "paths_stay t (snd (fs_do (mkdir_parents p) t))" "paths_stay t (snd (fs_do (mkdir_exist_ok p) t))" for p t
    using stay_of_effect [of t "snd (mkdir_parents p t)"] stay_of_effect [of t "snd (mkdir_exist_ok p t)"]
      mkdir_parents_effect [of p t "fst (mkdir_parents p t)" "snd (mkdir_parents p t)"]
      mkdir_exist_ok_effect [of p t "fst (mkdir_exist_ok p t)" "snd (mkdir_exist_ok p t)"]
    by (auto simp: fs_do_def split: prod.splits option.splits)
  have wr: "paths_stay t (snd (fs_do (write_file p d) t))" for p d t
    by (auto simp: fs_do_def write_file_def paths_stay_def grows_def node_at_def split: sum.splits option.splits prod.splits if_splits)
  have bind: "paths_stay t (snd (bind_p m f t))"
    if "\<And>t. paths_stay t (snd (m t))" "\<And>a t. paths_stay t (snd (f a t))" for m :: "(fs, 'x) prog" and f :: "'x \<Rightarrow> (fs, 'y) prog" and t
    using that(1) [of t] that(2) by (auto simp: bind_p_def split: prod.splits sum.splits) (metis paths_stay_trans snd_conv)
  show ?thesis unfolding create_bucket_def Let_def
    by (intro bind mk wr) (simp add: ret_def)
qed

lemma stay_on_secrets: "preserves (resources_stay w0) (on_secrets_of m)"
  by (auto simp: preserves_def on_secrets_of_def resources_stay_def split: prod.splits)

lemma stay_emit: "preserves (resources_stay w0) (emit_iac en kind payload)"
  by (auto simp: preserves_def emit_iac_def when_p_def mod_s_def ret_def resources_stay_def)

lemma stay_create_bucket: "preserves (resources_stay w0) (on_files_of (create_bucket en now b))"
proof
  fix w assume w: "resources_stay w0 w"
  have "path_exists p (ia_files w) \<Longrightarrow> path_exists p (snd (create_bucket en now b (ia_files w)))" for p
    by (rule paths_stay_exists [OF create_bucket_stays])
  then have "resources_stay w (snd (on_files_of (create_bucket en now b) w))"
    by (cases "create_bucket en now b (ia_files w)") (simp add: on_files_of_def resources_stay_def)
  then show "resources_stay w0 (snd (on_files_of (create_bucket en now b) w))" using w stay_trans by blast
qed

lemma stay_or_error: "preserves (resources_stay w0) p \<Longrightarrow> preserves (resources_stay w0) (or_error_result m p)"
  unfolding or_error_result_def by (intro preserves_rules)

lemma stay_mod: "(\<And>w. resources_stay w (f w)) \<Longrightarrow> preserves (resources_stay w0) (mod_s f)"
  using stay_trans by (blast intro: preserves_mod_s)

lemmas stay_rules = stay_on_secrets stay_emit stay_create_bucket preserves_rules

lemma apply_one_stays: "preserves (resources_stay w0) (apply_one en bs ds ss m)"
proof -
  have secret: "preserves (resources_stay w0) (apply_secret en name v)" for name v
    unfolding apply_secret_def by (intro stay_rules)
  have service: "preserves (resources_stay w0) (apply_service en metadata spec)" for metadata spec
    unfolding apply_service_def Let_def by (intro stay_rules stay_mod) (auto simp: resources_stay_def)
  have database: "preserves (resources_stay w0) (apply_database en metadata spec)" for metadata spec
    unfolding apply_database_def Let_def by (intro stay_rules stay_mod) (auto simp: resources_stay_def)
  have bucket: "preserves (resources_stay w0) (apply_bucket en metadata)" for metadata
    unfolding apply_bucket_def Let_def by (intro stay_rules)
  have checks: "preserves (resources_stay w0) (validate_service_bindings en spec bs ds ss)" for spec
    unfolding validate_service_bindings_def check_buckets_def check_databases_def check_callers_def by (intro stay_rules)
  show ?thesis unfolding apply_one_def
    by (cases m) (auto intro!: stay_or_error stay_rules secret service database bucket checks)
qed

text \<open>Only a service manifest touches the services.\<close>

lemma other_manifests_keep_services:
  assumes "manifest_kind m \<noteq> ''Service''"
  shows "preserves (\<lambda>w. ia_services w = S) (apply_one en bs ds ss m)"
proof -
  let ?I = "\<lambda>w. ia_services w = S"
  have sec: "preserves ?I (on_secrets_of p)" for p by (auto simp: preserves_def on_secrets_of_def split: prod.splits)
  have fil: "preserves ?I (on_files_of p)" for p by (auto simp: preserves_def on_files_of_def split: prod.splits)
  have emit: "preserves ?I (emit_iac en kind payload)" for kind payload
    by (auto simp: preserves_def emit_iac_def when_p_def mod_s_def ret_def)
  have secret: "preserves ?I (apply_secret en name v)" for name v
    unfolding apply_secret_def by (intro preserves_rules sec emit)
  have database: "preserves ?I (apply_database en metadata spec)" for metadata spec
    unfolding apply_database_def Let_def by (intro preserves_rules preserves_mod_s) auto
  have bucket: "preserves ?I (apply_bucket en metadata)" for metadata
    unfolding apply_bucket_def Let_def by (intro preserves_rules fil emit)
  show ?thesis using assms unfolding apply_one_def or_error_result_def
    by (cases m) (auto intro!: preserves_rules secret database bucket)
qed

section \<open>One manifest\<close>

lemma apply_one_returns: "\<exists>rs w'. apply_one en bs ds ss m w = (Inr rs, w')"
  by (auto simp: apply_one_def or_error_result_def try_p_def ret_def split: prod.split sum.split)

lemma check_loop:
  "\<exists>r. for_p xs (\<lambda>x. bind_p (get_s (P x)) (\<lambda>found. if c x \<and> \<not> found then raise (ValueError (e x)) else ret ())) w = (r, w)
    \<and> (r = Inr () \<longleftrightarrow> (\<forall>x \<in> set xs. \<not> c x \<or> P x w)) \<and> (\<forall>err. r = Inl err \<longrightarrow> (\<exists>m. err = ValueError m))"
  by (induction xs) (auto simp: bind_p_def get_s_def raise_def ret_def)

text \<open>Everything a service manifest binds is declared with it or exists.\<close>

definition bindings_met :: "'k iac_env \<Rightarrow> service_manifest_spec \<Rightarrow> string list \<Rightarrow> string list \<Rightarrow> string list \<Rightarrow> 'k iac \<Rightarrow> bool" where
  "bindings_met en spec bs ds ss w \<longleftrightarrow>
     (\<forall>b \<in> set (rb_buckets (ms_resources spec)). bb_name b \<in> set bs \<or> bucket_exists (ie_storage en) (bb_name b) (ia_files w))
   \<and> (\<forall>d \<in> set (rb_databases (ms_resources spec)). dbb_name d \<in> set ds \<or> dict_has (ia_databases w) (dbb_name d))
   \<and> (\<forall>c \<in> set (ip_allow_from (in_internal (ms_ingress spec))). c \<in> set ss \<or> dict_has (ia_services w) c)"

lemma bindings_met_stay: "bindings_met en spec bs ds ss w \<Longrightarrow> resources_stay w w' \<Longrightarrow> bindings_met en spec bs ds ss w'"
  unfolding bindings_met_def resources_stay_def bucket_exists_def by blast

lemma validate_run:
  "\<exists>r. validate_service_bindings en spec bs ds ss w = (r, w) \<and> (r = Inr () \<longleftrightarrow> bindings_met en spec bs ds ss w)
    \<and> (\<forall>e. r = Inl e \<longrightarrow> (\<exists>m. e = ValueError m))"
proof -
  obtain r1 where 1: "check_buckets en spec bs w = (r1, w)"
      "r1 = Inr () \<longleftrightarrow> (\<forall>b \<in> set (rb_buckets (ms_resources spec)). bb_name b \<in> set bs \<or> bucket_exists (ie_storage en) (bb_name b) (ia_files w))"
      "\<forall>e. r1 = Inl e \<longrightarrow> (\<exists>m. e = ValueError m)"
    using check_loop [of "rb_buckets (ms_resources spec)" "\<lambda>b w. bucket_exists (ie_storage en) (bb_name b) (ia_files w)" "\<lambda>b. bb_name b \<notin> set bs"
      "\<lambda>b. ''Missing bucket resource: '' @ bb_name b" w] unfolding check_buckets_def not_not by blast
  obtain r2 where 2: "check_databases spec ds w = (r2, w)"
      "r2 = Inr () \<longleftrightarrow> (\<forall>d \<in> set (rb_databases (ms_resources spec)). dbb_name d \<in> set ds \<or> dict_has (ia_databases w) (dbb_name d))"
      "\<forall>e. r2 = Inl e \<longrightarrow> (\<exists>m. e = ValueError m)"
    using check_loop [of "rb_databases (ms_resources spec)" "\<lambda>d w. dict_has (ia_databases w) (dbb_name d)" "\<lambda>d. dbb_name d \<notin> set ds"
      "\<lambda>d. ''Missing database resource: '' @ dbb_name d" w] unfolding check_databases_def not_not by blast
  obtain r3 where 3: "check_callers spec ss w = (r3, w)"
      "r3 = Inr () \<longleftrightarrow> (\<forall>c \<in> set (ip_allow_from (in_internal (ms_ingress spec))). c \<in> set ss \<or> dict_has (ia_services w) c)"
      "\<forall>e. r3 = Inl e \<longrightarrow> (\<exists>m. e = ValueError m)"
    using check_loop [of "ip_allow_from (in_internal (ms_ingress spec))" "\<lambda>c w. dict_has (ia_services w) c" "\<lambda>c. c \<notin> set ss"
      "\<lambda>c. ''Unknown internal ingress caller: '' @ c" w] unfolding check_callers_def not_not by blast
  show ?thesis using 1 2 3 unfolding validate_service_bindings_def bindings_met_def
    by (cases r1; cases r2; cases r3) (simp_all add: bind_p_def)
qed

text \<open>The state of a service after its manifest was applied.\<close>

definition applied_state :: "'k iac_env \<Rightarrow> manifest_metadata \<Rightarrow> service_manifest_spec \<Rightarrow> service_state option \<Rightarrow> service_state" where
  "applied_state en md spec old = (case old of
     None \<Rightarrow> new_service_state (ie_now en) (service_of_manifest md spec)
   | Some s \<Rightarrow> s\<lparr>ss_spec := service_of_manifest md spec, ss_updated_at := ie_now en\<rparr>)"

lemma apply_service_run:
  "apply_one en bs ds ss (ServiceManifest md spec) w =
    (if bindings_met en spec bs ds ss w
     then (Inr [result_of ''Service'' (mm_name md) (if dict_has (ia_services w) (mm_name md) then Updated else Created) []],
           w\<lparr>ia_services := dict_put (mm_name md) (applied_state en md spec (dict_get (ia_services w) (mm_name md))) (ia_services w)\<rparr>)
     else (Inr [result_of ''Service'' (mm_name md) ApplyError (exn_text (projl (fst (validate_service_bindings en spec bs ds ss w))))], w))"
proof -
  obtain r where r: "validate_service_bindings en spec bs ds ss w = (r, w)" "r = Inr () \<longleftrightarrow> bindings_met en spec bs ds ss w"
    using validate_run by blast
  show ?thesis
  proof (cases r)
    case (Inl e)
    then show ?thesis using r by (simp add: apply_one_def or_error_result_def try_p_def bind_p_def ret_def result_name_def)
  next
    case (Inr u)
    then show ?thesis using r
      by (cases "dict_get (ia_services w) (mm_name md)")
        (simp_all add: apply_one_def or_error_result_def try_p_def bind_p_def ret_def apply_service_def Let_def get_s_def mod_s_def
          applied_state_def dict_has_def)
  qed
qed

section \<open>A list of manifests\<close>

definition service_names :: "manifest list \<Rightarrow> string list" where
  "service_names ms = names_of_kind ''Service'' ms"

lemma service_names_simps [simp]:
  "service_names [] = []" "service_names (m # ms) = (if manifest_kind m = ''Service'' then [result_name m] else []) @ service_names ms"
  by (simp_all add: service_names_def names_of_kind_def)

lemma manifest_is_service: "manifest_kind m = ''Service'' \<Longrightarrow> \<exists>md spec. m = ServiceManifest md spec"
  by (cases m) auto

lemma service_name_mem: "ServiceManifest md spec \<in> set ms \<Longrightarrow> mm_name md \<in> set (service_names ms)"
  by (induction ms) (auto simp: result_name_def)

lemma apply_all:
  "\<exists>rs w'. map_p (apply_one en bs ds ss) ms w = (Inr rs, w') \<and> resources_stay w w'
    \<and> (\<forall>n. n \<notin> set (service_names ms) \<longrightarrow> dict_get (ia_services w') n = dict_get (ia_services w) n)
    \<and> (distinct (service_names ms) \<longrightarrow> (\<forall>md spec. ServiceManifest md spec \<in> set ms \<longrightarrow> bindings_met en spec bs ds ss w \<longrightarrow>
        dict_get (ia_services w') (mm_name md) = Some (applied_state en md spec (dict_get (ia_services w) (mm_name md)))
      \<and> result_of ''Service'' (mm_name md) (if dict_has (ia_services w) (mm_name md) then Updated else Created) [] \<in> set (concat rs)))"
proof (induction ms arbitrary: w)
  case Nil
  then show ?case by (simp add: ret_def)
next
  case (Cons m ms)
  obtain r1 w1 where 1: "apply_one en bs ds ss m w = (Inr r1, w1)" using apply_one_returns by blast
  have st: "resources_stay w w1" using preservesD [OF apply_one_stays, of w w en bs ds ss m] 1 by simp
  obtain rs w' where 2: "map_p (apply_one en bs ds ss) ms w1 = (Inr rs, w')" "resources_stay w1 w'"
      "\<forall>n. n \<notin> set (service_names ms) \<longrightarrow> dict_get (ia_services w') n = dict_get (ia_services w1) n"
      "distinct (service_names ms) \<longrightarrow> (\<forall>md spec. ServiceManifest md spec \<in> set ms \<longrightarrow> bindings_met en spec bs ds ss w1 \<longrightarrow>
        dict_get (ia_services w') (mm_name md) = Some (applied_state en md spec (dict_get (ia_services w1) (mm_name md)))
      \<and> result_of ''Service'' (mm_name md) (if dict_has (ia_services w1) (mm_name md) then Updated else Created) [] \<in> set (concat rs))"
    using Cons.IH [of w1] by blast
  have run: "map_p (apply_one en bs ds ss) (m # ms) w = (Inr (r1 # rs), w')" using 1 2(1) by (simp add: bind_p_Inr ret_def)
  have frame: "dict_get (ia_services w1) n = dict_get (ia_services w) n" if "manifest_kind m = ''Service'' \<longrightarrow> n \<noteq> result_name m" for n
  proof (cases "manifest_kind m = ''Service''")
    case True
    then obtain md spec where m: "m = ServiceManifest md spec" using manifest_is_service by blast
    then show ?thesis using 1 that by (auto simp: apply_service_run result_name_def split: if_splits)
  next
    case False
    have "ia_services (snd (apply_one en bs ds ss m w)) = ia_services w"
      by (rule preservesD [OF other_manifests_keep_services [OF False]]) simp
    then show ?thesis using 1 by simp
  qed
  have there: "dict_get (ia_services w') (mm_name md) = Some (applied_state en md spec (dict_get (ia_services w) (mm_name md)))
      \<and> result_of ''Service'' (mm_name md) (if dict_has (ia_services w) (mm_name md) then Updated else Created) [] \<in> set (concat (r1 # rs))"
    if d: "distinct (service_names (m # ms))" and mem: "ServiceManifest md spec \<in> set (m # ms)" and met: "bindings_met en spec bs ds ss w" for md spec
  proof (cases "m = ServiceManifest md spec")
    case True
    then have "mm_name md \<notin> set (service_names ms)" using d by (simp add: result_name_def)
    then show ?thesis using 1 2(3) met True by (auto simp: apply_service_run)
  next
    case False
    then have mem': "ServiceManifest md spec \<in> set ms" using mem by auto
    then have "manifest_kind m = ''Service'' \<longrightarrow> mm_name md \<noteq> result_name m" using d service_name_mem by auto
    then have same: "dict_get (ia_services w1) (mm_name md) = dict_get (ia_services w) (mm_name md)" by (rule frame)
    then have "dict_has (ia_services w1) (mm_name md) = dict_has (ia_services w) (mm_name md)" by (simp add: dict_has_def)
    moreover have "distinct (service_names ms)" using d by simp
    ultimately have "dict_get (ia_services w') (mm_name md) = Some (applied_state en md spec (dict_get (ia_services w) (mm_name md)))
      \<and> result_of ''Service'' (mm_name md) (if dict_has (ia_services w) (mm_name md) then Updated else Created) [] \<in> set (concat rs)"
      using 2(4) [rule_format, OF _ mem' bindings_met_stay [OF met st]] unfolding same by simp
    then show ?thesis by simp
  qed
  have "dict_get (ia_services w') n = dict_get (ia_services w) n" if "n \<notin> set (service_names (m # ms))" for n
    using that 2(3) frame [of n] by auto
  then show ?case using run there stay_trans [OF st 2(2)] by blast
qed

section \<open>Properties\<close>


text \<open>A service that binds what is missing is refused: when a bucket, a database or a caller it names is
  neither declared with it nor there, its manifest gives one error result and changes nothing.\<close>

theorem missing_binding_refused:
  assumes "\<not> bindings_met en spec bs ds ss w"
  shows "\<exists>detail. apply_one en bs ds ss (ServiceManifest md spec) w = (Inr [result_of ''Service'' (mm_name md) ApplyError detail], w)"
  using assms by (auto simp: apply_service_run)

text \<open>A difference is never found: the comparison is made with nothing, so every manifest is reported as one
  to create, whatever is stored, and one \<open>Secrets\<close> document makes the whole comparison fail.\<close>

theorem diff_compares_with_nothing:
  "diff_manifests en ms w = (if \<exists>secrets. SecretsManifest secrets \<in> set ms then (Inl (AttributeError ''metadata''), w)
     else (Inr (map (\<lambda>m. \<lparr>df_kind = manifest_kind m, df_name = result_name m, df_action = DiffCreate, df_changed_fields = []\<rparr>) ms), w))"
proof (induction ms)
  case Nil
  then show ?case by (simp add: diff_manifests_def ret_def)
next
  case (Cons m ms)
  then show ?case
    by (cases m) (auto simp: diff_manifests_def fetch_current_def compute_diff_def bind_p_def ret_def raise_def result_name_def)
qed

text \<open>Destroying a service leaves its containers: its record is removed at once and is never marked as
  deleting, so the next pass of the orchestrator, which tears down only what is marked, finds nothing to
  do: every container is as it was, with its routes and its reservation on the node.\<close>

theorem destroy_leaves_containers:
  assumes "ia_services st = [(mm_name md, s)]"
    and "orchestrating en cs nets rview rinv sview sinv" "sound_world en rinv sview sinv w"
    and "w_databases w = None" "w_services w = []"
  shows "\<exists>st' w'. destroy_one ie (ServiceManifest md spec) st = (Inr [result_of ''Service'' (mm_name md) Updated ''deleted''], st')
    \<and> ia_services st' = w_services w
    \<and> reconcile_turn en w = (Inr (), w') \<and> same_containers cs (w_docker w) (w_docker w')
    \<and> w_routing w' = w_routing w \<and> w_nodes w' = w_nodes w"
proof -
  let ?st = "st\<lparr>ia_services := []\<rparr>"
  have d: "destroy_one ie (ServiceManifest md spec) st = (Inr [result_of ''Service'' (mm_name md) Updated ''deleted''], ?st)"
    using assms(1) by (simp add: destroy_one_def or_error_result_def try_p_def bind_p_def get_s_def mod_s_def ret_def gone_def result_name_def dict_has_def)
  obtain xs w1 where 1: "platform_compose_containers en w = (Inr xs, w1)" "orchestrating.calm cs nets w w1"
    using orchestrating.platform_containers_calm [OF assms(2,3)] by (auto simp: runs_def)
  note c = 1(2) [unfolded orchestrating.calm_def [OF assms(2)] frame_def]
  let ?w = "w1\<lparr>w_node_store := map_option (\<lambda>d. foldl (\<lambda>d n. dict_put (nsp_node_id (nd_spec n)) n d) d (get_all_nodes (w_nodes w1))) (w_node_store w1)\<rparr>"
  have "reconcile_turn en w = (Inr (), ?w)"
    using 1(1) assms(4,5) by (simp add: reconcile_turn_def reconcile_all_def try_p_def bind_p_def get_s_def ret_def sync_nodes_to_store_def mod_s_def)
  then show ?thesis using d c assms(5) by auto
qed

definition demo_iac_env :: "json table iac_env" where
  "demo_iac_env = \<lparr>ie_manifests = \<lparr>ml_load_all = (\<lambda>s. Inr []), ml_validate = (\<lambda>j. Inl (ValueError [])), ml_dump = (\<lambda>m. [])\<rparr>,
     ie_storage = demo_storage, ie_fernet = plain_fernet, ie_key = ''k'', ie_nonce = 0, ie_secrets = secrets_table, ie_events = False, ie_now = 7\<rparr>"

definition demo_iac :: "(string, service_state) pydict \<Rightarrow> json table iac" where
  "demo_iac services = \<lparr>ia_services = services, ia_databases = [], ia_secrets = [], ia_files = demo_files, ia_published = []\<rparr>"

definition demo_manifest_spec :: "string \<Rightarrow> service_manifest_spec" where
  "demo_manifest_spec bucket_name = \<lparr>ms_image = ''img'', ms_replicas = 1, ms_min_replicas = 1, ms_max_replicas = 2, ms_cpu_request = 1 / 4,
     ms_memory_request_mb = 64, ms_port = 80, ms_health_check_path = ''/'', ms_env = [], ms_secret_refs = [], ms_labels = [],
     ms_resources = \<lparr>rb_buckets = [\<lparr>bb_name = bucket_name, bb_access = [AccessRead]\<rparr>], rb_databases = []\<rparr>, ms_ingress = default_ingress\<rparr>"

definition demo_metadata :: manifest_metadata where
  "demo_metadata = \<lparr>mm_name = ''web'', mm_labels = []\<rparr>"


theorem missing_binding_refused_witness:
  "\<exists>detail. apply_one demo_iac_env [] [] [] (ServiceManifest demo_metadata (demo_manifest_spec ''nope'')) (demo_iac [])
     = (Inr [result_of ''Service'' ''web'' ApplyError detail], demo_iac [])"
proof -
  have "plain_name ''nope''" by (simp add: plain_name_def)
  then have "\<not> bucket_exists demo_storage ''nope'' demo_files"
    by (simp add: bucket_exists_def bucket_path_plain path_exists_def find_node_def demo_storage_def demo_files_def node_at_def)
  then have "\<not> bindings_met demo_iac_env (demo_manifest_spec ''nope'') [] [] [] (demo_iac [])"
    by (simp add: bindings_met_def demo_manifest_spec_def demo_iac_env_def demo_iac_def)
  from missing_binding_refused [OF this, of demo_metadata] show ?thesis by (simp add: demo_metadata_def)
qed

theorem destroy_leaves_containers_witness:
  "\<exists>st' w'. destroy_one demo_iac_env (ServiceManifest demo_metadata (demo_manifest_spec ''a'')) (demo_iac [(''web'', demo_service)])
      = (Inr [result_of ''Service'' ''web'' Updated ''deleted''], st')
    \<and> reconcile_turn plain_env (demo_world\<lparr>w_services := []\<rparr>) = (Inr (), w') \<and> md_find (w_docker w') ''b'' \<noteq> None"
proof -
  let ?w = "demo_world\<lparr>w_services := []\<rparr>"
  have 1: "ia_services (demo_iac [(''web'', demo_service)]) = [(mm_name demo_metadata, demo_service)]" "mm_name demo_metadata = ''web''"
    by (simp_all add: demo_iac_def demo_metadata_def)
  have 2: "sound_world plain_env redis_inv (raw_view secret_validate) (raw_inv secret_validate) ?w"
    using demo_ok by (simp add: sound_world_def)
  have 3: "w_databases ?w = None" "w_services ?w = []" by (simp_all add: demo_world_def)
  have 4: "md_find (w_docker ?w) ''b'' \<noteq> None" by (simp add: demo_world_def md_find_def)
  obtain st' w' where r: "destroy_one demo_iac_env (ServiceManifest demo_metadata (demo_manifest_spec ''a'')) (demo_iac [(''web'', demo_service)])
      = (Inr [result_of ''Service'' (mm_name demo_metadata) Updated ''deleted''], st')"
      "reconcile_turn plain_env ?w = (Inr (), w')" "same_containers md_find (w_docker ?w) (w_docker w')"
    using destroy_leaves_containers [OF 1(1) deployed.orchestrating_axioms 2 3, of demo_iac_env "demo_manifest_spec ''a''"] by blast
  have "md_find (w_docker w') ''b'' \<noteq> None" using same_containers_exists [OF r(3), of "''b''"] 4 by simp
  then show ?thesis using r(1,2) 1(2) by simp
qed

end
