(* ===== verification/Events.thy ===== *)
theory Events
  imports Models
begin

text \<open>
  The two event buses: \<open>dashboard/event_bus.py\<close>, in the memory of one process, and
  \<open>events/redis_event_bus.py\<close>, over a stream in Redis. Both keep recent events for a new dashboard and
  fill a bounded queue per subscriber. A queue has an identity, a number; the lock makes each method of
  the first bus one step, and of the second each command to Redis is one.
\<close>

section \<open>Bounded buffers\<close>

text \<open>\<open>deque(maxlen=n)\<close> keeps the last \<open>n\<close> items; \<open>Queue.put_nowait\<close> raises \<open>QueueFull\<close> (\<open>None\<close>).\<close>

definition last_n :: "nat \<Rightarrow> 'a list \<Rightarrow> 'a list" where
  "last_n n xs = drop (length xs - n) xs"

definition deque_append :: "nat \<Rightarrow> 'a \<Rightarrow> 'a list \<Rightarrow> 'a list" where
  "deque_append maxlen x xs = last_n maxlen (xs @ [x])"

definition put_nowait :: "nat \<Rightarrow> 'a \<Rightarrow> 'a list \<Rightarrow> 'a list option" where
  "put_nowait maxsize x queue = (if length queue < maxsize then Some (queue @ [x]) else None)"

definition recent_event_buffer_size :: nat where "recent_event_buffer_size = 100"

definition queue_maxsize :: nat where "queue_maxsize = 200"

section \<open>event_bus.py\<close>

text \<open>The queues outlive their subscription: a consumer that holds one still reads what it has.\<close>

record event_bus =
  eb_subscribers :: "nat list"
  eb_recent_events :: "web_socket_event list"
  eb_queues :: "(nat, web_socket_event list) pydict"
  eb_next_queue :: nat

definition new_bus :: event_bus where
  "new_bus = \<lparr>eb_subscribers = [], eb_recent_events = [], eb_queues = [], eb_next_queue = 0\<rparr>"

definition queue_of :: "event_bus \<Rightarrow> nat \<Rightarrow> web_socket_event list" where
  "queue_of b q = dict_get_or (eb_queues b) q []"

text \<open>The loop of \<open>publish\<close> over the subscribers collects the queues that are full.\<close>

fun offer_to :: "web_socket_event \<Rightarrow> nat list \<Rightarrow> event_bus \<times> nat list \<Rightarrow> event_bus \<times> nat list" where
  "offer_to event [] (b, dead) = (b, dead)"
| "offer_to event (q # qs) (b, dead) = (case put_nowait queue_maxsize event (queue_of b q) of
     Some items \<Rightarrow> offer_to event qs (b\<lparr>eb_queues := dict_put q items (eb_queues b)\<rparr>, dead)
   | None \<Rightarrow> offer_to event qs (b, dead @ [q]))"

definition publish :: "web_socket_event \<Rightarrow> event_bus \<Rightarrow> event_bus" where
  "publish event b =
    (case offer_to event (eb_subscribers b)
        (b\<lparr>eb_recent_events := deque_append recent_event_buffer_size event (eb_recent_events b)\<rparr>, []) of
       (b', dead) \<Rightarrow> b'\<lparr>eb_subscribers := foldl (\<lambda>qs q. remove1 q qs) (eb_subscribers b') dead\<rparr>)"

definition subscribe :: "event_bus \<Rightarrow> nat \<times> event_bus" where
  "subscribe b = (let q = eb_next_queue b in
     (q, b\<lparr>eb_next_queue := q + 1, eb_queues := dict_put q [] (eb_queues b), eb_subscribers := eb_subscribers b @ [q]\<rparr>))"

definition unsubscribe :: "nat \<Rightarrow> event_bus \<Rightarrow> event_bus" where
  "unsubscribe q b = (if q \<in> set (eb_subscribers b) then b\<lparr>eb_subscribers := remove1 q (eb_subscribers b)\<rparr> else b)"

definition get_recent_events :: "event_bus \<Rightarrow> web_socket_event list" where
  "get_recent_events b = eb_recent_events b"

text \<open>The consumer's \<open>queue.get()\<close>; it waits (\<open>None\<close>) while the queue is empty.\<close>

definition queue_get :: "nat \<Rightarrow> event_bus \<Rightarrow> web_socket_event option \<times> event_bus" where
  "queue_get q b = (case queue_of b q of
     [] \<Rightarrow> (None, b)
   | e # items \<Rightarrow> (Some e, b\<lparr>eb_queues := dict_put q items (eb_queues b)\<rparr>))"

text \<open>What happens on a bus, and what its consumers receive, as pairs of a queue and an event.\<close>

datatype bus_op = Publish web_socket_event | Subscribe | Unsubscribe nat | Receive nat

fun bus_step :: "bus_op \<Rightarrow> event_bus \<Rightarrow> (nat \<times> web_socket_event) list \<times> event_bus" where
  "bus_step (Publish e) b = ([], publish e b)"
| "bus_step Subscribe b = ([], snd (subscribe b))"
| "bus_step (Unsubscribe q) b = ([], unsubscribe q b)"
| "bus_step (Receive q) b = (case queue_get q b of (None, b') \<Rightarrow> ([], b') | (Some e, b') \<Rightarrow> ([(q, e)], b'))"

fun bus_run :: "bus_op list \<Rightarrow> event_bus \<Rightarrow> (nat \<times> web_socket_event) list \<times> event_bus" where
  "bus_run [] b = ([], b)"
| "bus_run (x # xs) b = (case bus_step x b of (ds, b') \<Rightarrow> case bus_run xs b' of (ds', b'') \<Rightarrow> (ds @ ds', b''))"

definition published :: "bus_op list \<Rightarrow> web_socket_event list" where
  "published ops = concat (map (\<lambda>x. case x of Publish e \<Rightarrow> [e] | _ \<Rightarrow> []) ops)"

definition received :: "nat \<Rightarrow> (nat \<times> web_socket_event) list \<Rightarrow> web_socket_event list" where
  "received q ds = map snd (filter (\<lambda>d. fst d = q) ds)"

section \<open>redis_event_bus.py\<close>

definition stream_maxlen :: nat where "stream_maxlen = 1000"

definition recent_event_count :: nat where "recent_event_count = 500"

definition read_count :: nat where "read_count = 100"

text \<open>
  The stream of Redis: its entries in the order of their identifiers, which grow and are numbers here
  (\<open>0-0\<close> is 0), and the last one given. The client decodes its answers, so the field of an entry is
  \<open>event\<close> and \<open>fields.get(b"event")\<close> finds nothing.
\<close>

record event_stream =
  es_entries :: "(nat \<times> (string, string) pydict) list"
  es_last :: nat
  es_exists :: bool
  es_reachable :: bool

definition no_stream :: event_stream where
  "no_stream = \<lparr>es_entries = [], es_last = 0, es_exists = False, es_reachable = True\<rparr>"

text \<open>\<open>XADD ... MAXLEN ~ n\<close> removes old entries, at most so many that \<open>n\<close> stay; how many of those it
  removes is up to Redis (\<open>trim\<close>).\<close>

definition xadd :: "nat \<Rightarrow> (string, string) pydict \<Rightarrow> (event_stream, unit) prog" where
  "xadd trim data s = (if \<not> es_reachable s then (Inl OSError, s)
     else (let entries = es_entries s @ [(es_last s + 1, data)] in
       (Inr (), s\<lparr>es_entries := drop (min trim (length entries - stream_maxlen)) entries, es_last := es_last s + 1, es_exists := True\<rparr>)))"

definition xrevrange :: "nat \<Rightarrow> (event_stream, (nat \<times> (string, string) pydict) list) prog" where
  "xrevrange count s = (if es_reachable s then Inr (take count (rev (es_entries s))) else Inl OSError, s)"

definition xinfo_last :: "(event_stream, nat) prog" where
  "xinfo_last s = (if es_reachable s \<and> es_exists s then Inr (es_last s) else Inl OSError, s)"

definition xread :: "nat \<Rightarrow> nat \<Rightarrow> (event_stream, (nat \<times> (string, string) pydict) list) prog" where
  "xread after count s =
    (if es_reachable s then Inr (take count (filter (\<lambda>p. after < fst p) (es_entries s))) else Inl OSError, s)"

text \<open>
  Dumping and validating an event is pydantic's work. A subscriber is a queue with the reading task's
  \<open>current_id\<close>; a subscriber is known by its queue's number.
\<close>

record event_codec =
  ec_dump :: "web_socket_event \<Rightarrow> string"
  ec_validate :: "string \<Rightarrow> web_socket_event result"

text \<open>Pydantic reads the dumps of these events back.\<close>

definition event_codec_ok :: "event_codec \<Rightarrow> web_socket_event list \<Rightarrow> bool" where
  "event_codec_ok ec events \<longleftrightarrow> (\<forall>e \<in> set events. ec_validate ec (ec_dump ec e) = Inr e)"

record reader =
  rd_queue :: "web_socket_event list"
  rd_current_id :: nat

record redis_bus =
  bus_stream :: event_stream
  bus_readers :: "(nat, reader) pydict"
  bus_next_queue :: nat

definition on_stream :: "(event_stream, 'a) prog \<Rightarrow> (redis_bus, 'a) prog" where
  "on_stream m b = (case m (bus_stream b) of (r, s) \<Rightarrow> (r, b\<lparr>bus_stream := s\<rparr>))"

definition redis_publish :: "event_codec \<Rightarrow> nat \<Rightarrow> web_socket_event \<Rightarrow> (redis_bus, unit) prog" where
  "redis_publish ec trim event = on_stream (xadd trim [(''event'', ec_dump ec event)])"

definition current_stream_id :: "(redis_bus, nat) prog" where
  "current_stream_id = try_p (on_stream xinfo_last) (\<lambda>_. ret 0)"

definition redis_subscribe :: "(redis_bus, nat) prog" where
  "redis_subscribe = bind_p current_stream_id (\<lambda>last_id.
     bind_p (get_s bus_next_queue) (\<lambda>q.
     bind_p (mod_s (\<lambda>b. b\<lparr>bus_next_queue := q + 1,
        bus_readers := dict_put q \<lparr>rd_queue = [], rd_current_id = last_id\<rparr> (bus_readers b)\<rparr>)) (\<lambda>_. ret q)))"

text \<open>Cancelling the task ends it at its next \<open>await\<close>; nothing is put into the queue after that.\<close>

definition redis_unsubscribe :: "nat \<Rightarrow> (redis_bus, unit) prog" where
  "redis_unsubscribe q = mod_s (\<lambda>b. b\<lparr>bus_readers := dict_pop q (bus_readers b)\<rparr>)"

fun validate_entries :: "event_codec \<Rightarrow> (nat \<times> (string, string) pydict) list \<Rightarrow> web_socket_event list result" where
  "validate_entries ec [] = Inr []"
| "validate_entries ec ((_, data) # entries) = (case dict_get data ''event'' of
     None \<Rightarrow> validate_entries ec entries
   | Some raw \<Rightarrow> bind_r (ec_validate ec raw) (\<lambda>e. bind_r (validate_entries ec entries) (\<lambda>es. Inr (e # es))))"

definition redis_recent_events :: "event_codec \<Rightarrow> (redis_bus, web_socket_event list) prog" where
  "redis_recent_events ec b = (case on_stream (xrevrange recent_event_count) b of
     (Inl _, b') \<Rightarrow> (Inr [], b')
   | (Inr entries, b') \<Rightarrow> (bind_r (validate_entries ec entries) (\<lambda>events. Inr (rev events)), b'))"

text \<open>The loop over the entries of an answer. An event that does not validate raises (the flag): the
  entries before it have been taken over, it and those after it have not. A full queue drops the event.\<close>

fun read_entries :: "event_codec \<Rightarrow> (nat \<times> (string, string) pydict) list \<Rightarrow> reader \<Rightarrow> bool \<times> reader" where
  "read_entries ec [] r = (False, r)"
| "read_entries ec ((entry_id, data) # entries) r = (case dict_get data ''event'' of
     None \<Rightarrow> read_entries ec entries (r\<lparr>rd_current_id := entry_id\<rparr>)
   | Some raw \<Rightarrow> (case ec_validate ec raw of
       Inl _ \<Rightarrow> (True, r)
     | Inr event \<Rightarrow> read_entries ec entries (r\<lparr>
         rd_queue := (case put_nowait queue_maxsize event (rd_queue r) of Some items \<Rightarrow> items | None \<Rightarrow> rd_queue r),
         rd_current_id := entry_id\<rparr>)))"

text \<open>One turn of \<open>_read_loop\<close> of a subscriber. Whatever is raised is caught; the loop goes on a second
  later. (An answer that comes back empty after the time-out starts the next turn too.)\<close>

definition read_turn :: "event_codec \<Rightarrow> nat \<Rightarrow> redis_bus \<Rightarrow> redis_bus" where
  "read_turn ec q b = (case dict_get (bus_readers b) q of
     None \<Rightarrow> b
   | Some r \<Rightarrow> (case on_stream (xread (rd_current_id r) read_count) b of
       (Inl _, b') \<Rightarrow> b'
     | (Inr entries, b') \<Rightarrow> b'\<lparr>bus_readers := dict_put q (snd (read_entries ec entries r)) (bus_readers b')\<rparr>))"

text \<open>The consumer takes an event from its queue.\<close>

definition reader_get :: "nat \<Rightarrow> redis_bus \<Rightarrow> web_socket_event option \<times> redis_bus" where
  "reader_get q b = (case dict_get (bus_readers b) q of
     None \<Rightarrow> (None, b)
   | Some r \<Rightarrow> (case rd_queue r of
       [] \<Rightarrow> (None, b)
     | e # items \<Rightarrow> (Some e, b\<lparr>bus_readers := dict_put q (r\<lparr>rd_queue := items\<rparr>) (bus_readers b)\<rparr>)))"

text \<open>What happens on the bus over Redis; \<open>SetReachable\<close> is Redis going down or coming back. A step gives what
  consumers receive and what has been published.\<close>

datatype redis_op = RPublish nat web_socket_event | RSubscribe | RUnsubscribe nat | RTurn nat | RReceive nat | SetReachable bool

fun redis_step :: "event_codec \<Rightarrow> redis_op \<Rightarrow> redis_bus \<Rightarrow> (nat \<times> web_socket_event) list \<times> web_socket_event list \<times> redis_bus" where
  "redis_step ec (RPublish trim e) b = (case redis_publish ec trim e b of
     (Inr _, b') \<Rightarrow> ([], [e], b') | (Inl _, b') \<Rightarrow> ([], [], b'))"
| "redis_step ec RSubscribe b = ([], [], snd (redis_subscribe b))"
| "redis_step ec (RUnsubscribe q) b = ([], [], snd (redis_unsubscribe q b))"
| "redis_step ec (RTurn q) b = ([], [], read_turn ec q b)"
| "redis_step ec (RReceive q) b = (case reader_get q b of
     (None, b') \<Rightarrow> ([], [], b') | (Some e, b') \<Rightarrow> ([(q, e)], [], b'))"
| "redis_step ec (SetReachable r) b = ([], [], b\<lparr>bus_stream := bus_stream b\<lparr>es_reachable := r\<rparr>\<rparr>)"

fun redis_run :: "event_codec \<Rightarrow> redis_op list \<Rightarrow> redis_bus \<Rightarrow> (nat \<times> web_socket_event) list \<times> web_socket_event list \<times> redis_bus" where
  "redis_run ec [] b = ([], [], b)"
| "redis_run ec (x # xs) b = (case redis_step ec x b of (ds, ps, b') \<Rightarrow>
     case redis_run ec xs b' of (ds', ps', b'') \<Rightarrow> (ds @ ds', ps @ ps', b''))"

definition new_redis_bus :: redis_bus where
  "new_redis_bus = \<lparr>bus_stream = no_stream, bus_readers = [], bus_next_queue = 0\<rparr>"

end
