(* ===== verification/EventFacts.thy ===== *)
theory EventFacts
  imports Events "HOL-Library.Sublist"
begin

text \<open>
  What the event buses promise: subscribers receive the events in the order of their publication, and the
  recent events are the last ones published. A history is the list of all events published so far; the
  locale \<open>event_feed\<close> relates a bus to it, for both buses.
\<close>

section \<open>The bus in memory\<close>


lemma length_last_n [simp]: "length (last_n n xs) = min n (length xs)"
  by (simp add: last_n_def)

lemma last_n_all: "length xs \<le> n \<Longrightarrow> last_n n xs = xs"
  by (simp add: last_n_def)

lemma last_n_append_last_n: "last_n n (last_n n xs @ ys) = last_n n (xs @ ys)"
  by (cases "length xs \<le> n") (simp_all add: last_n_def add.commute)

lemma last_n_drop: "n + k \<le> length xs \<or> k = 0 \<Longrightarrow> last_n n (drop k xs) = last_n n xs"
  by (auto simp: last_n_def)

lemma foldl_remove1:
  "distinct qs \<Longrightarrow> foldl (\<lambda>qs q. remove1 q qs) qs dead = filter (\<lambda>q. q \<notin> set dead) qs"
proof (induction dead arbitrary: qs)
  case (Cons d dead)
  then show ?case by (auto simp: distinct_remove1_removeAll removeAll_filter_not_eq intro: filter_cong)
qed simp

lemma queue_of_put: "queue_of (b\<lparr>eb_queues := dict_put q items (eb_queues b)\<rparr>) q' = (if q' = q then items else queue_of b q')"
  by (simp add: queue_of_def dict_get_or_def)

abbreviation room :: "event_bus \<Rightarrow> nat \<Rightarrow> bool" where
  "room b q \<equiv> length (queue_of b q) < queue_maxsize"

lemma offer_to_effect:
  assumes "distinct qs" "offer_to e qs (b, dead) = (b', dead')"
  shows "queue_of b' q = (if q \<in> set qs \<and> room b q then queue_of b q @ [e] else queue_of b q)
    \<and> eb_subscribers b' = eb_subscribers b \<and> eb_recent_events b' = eb_recent_events b \<and> eb_next_queue b' = eb_next_queue b
    \<and> dead' = dead @ filter (\<lambda>q. \<not> room b q) qs"
  using assms
proof (induction qs arbitrary: b dead)
  case (Cons p qs)
  show ?case
  proof (cases "room b p")
    case True
    let ?b = "b\<lparr>eb_queues := dict_put p (queue_of b p @ [e]) (eb_queues b)\<rparr>"
    have o: "offer_to e qs (?b, dead) = (b', dead')" using Cons.prems(2) True by (simp add: put_nowait_def)
    have f: "filter (\<lambda>q. \<not> room ?b q) qs = filter (\<lambda>q. \<not> room b q) qs"
      using Cons.prems(1) by (intro filter_cong) (auto simp: queue_of_put)
    show ?thesis using Cons.IH [OF _ o] Cons.prems(1) True f by (auto simp: queue_of_put)
  next
    case False
    then show ?thesis using Cons.IH [of b "dead @ [p]"] Cons.prems by (auto simp: put_nowait_def)
  qed
qed simp

lemma publish_effect:
  assumes "distinct (eb_subscribers b)"
  shows "queue_of (publish e b) q = (if q \<in> set (eb_subscribers b) \<and> room b q then queue_of b q @ [e] else queue_of b q)"
    "eb_subscribers (publish e b) = filter (room b) (eb_subscribers b)"
    "eb_recent_events (publish e b) = deque_append recent_event_buffer_size e (eb_recent_events b)"
    "eb_next_queue (publish e b) = eb_next_queue b"
proof -
  let ?b = "b\<lparr>eb_recent_events := deque_append recent_event_buffer_size e (eb_recent_events b)\<rparr>"
  obtain b' dead where 1: "offer_to e (eb_subscribers b) (?b, []) = (b', dead)" by fastforce
  have r: "queue_of ?b p = queue_of b p" for p by (simp add: queue_of_def)
  note eff = offer_to_effect [OF assms 1]
  have p: "publish e b = b'\<lparr>eb_subscribers := filter (\<lambda>q. q \<notin> set dead) (eb_subscribers b)\<rparr>"
    using eff assms by (simp add: publish_def 1 foldl_remove1)
  have "filter (\<lambda>q. q \<notin> set dead) (eb_subscribers b) = filter (room b) (eb_subscribers b)"
    using eff by (intro filter_cong) (auto simp: r)
  moreover have "queue_of (publish e b) q = queue_of b' q" by (simp add: p queue_of_def)
  ultimately show "queue_of (publish e b) q = (if q \<in> set (eb_subscribers b) \<and> room b q then queue_of b q @ [e] else queue_of b q)"
    "eb_subscribers (publish e b) = filter (room b) (eb_subscribers b)"
    "eb_recent_events (publish e b) = deque_append recent_event_buffer_size e (eb_recent_events b)"
    "eb_next_queue (publish e b) = eb_next_queue b"
    using eff [of q] by (auto simp: p r)
qed

definition bus_inv :: "event_bus \<Rightarrow> bool" where
  "bus_inv b \<longleftrightarrow> distinct (eb_subscribers b) \<and> (\<forall>q \<in> set (eb_subscribers b). q < eb_next_queue b)
     \<and> (\<forall>q. length (queue_of b q) \<le> queue_maxsize)"

lemma bus_inv_new [simp]: "bus_inv new_bus"
  by (simp add: bus_inv_def new_bus_def queue_of_def dict_get_or_def)

lemma bus_inv_step: "bus_inv b \<Longrightarrow> bus_inv (snd (bus_step x b))"
proof (cases x)
  case (Publish e)
  assume "bus_inv b"
  then show ?thesis using Publish by (auto simp: bus_inv_def publish_effect)
next
  case Subscribe
  assume "bus_inv b"
  then show ?thesis using Subscribe
    by (auto simp: bus_inv_def subscribe_def Let_def queue_of_def dict_get_or_def less_Suc_eq)
next
  case (Unsubscribe q)
  assume "bus_inv b"
  then show ?thesis using Unsubscribe
    by (auto simp: bus_inv_def unsubscribe_def queue_of_def dest: in_set_remove1 [THEN iffD1, rotated] notin_set_remove1)
next
  case (Receive q)
  assume "bus_inv b"
  then show ?thesis using Receive
    by (auto simp: bus_inv_def queue_get_def queue_of_put split: list.split)
      (metis Suc_leD length_Cons)
qed

text \<open>A subscription: what its consumer has received and what is queued for it is a first part of what
  has been published since; all of it while it is subscribed.\<close>

definition follows :: "nat \<Rightarrow> web_socket_event list \<Rightarrow> web_socket_event list \<Rightarrow> event_bus \<Rightarrow> bool" where
  "follows q pubs got b \<longleftrightarrow> q < eb_next_queue b \<and> prefix (got @ queue_of b q) pubs
     \<and> (q \<in> set (eb_subscribers b) \<longrightarrow> got @ queue_of b q = pubs)"

lemma follows_step:
  assumes "bus_inv b" "follows q pubs got b" "bus_step x b = (ds, b')"
  shows "follows q (pubs @ published [x]) (got @ received q ds) b'"
proof (cases x)
  case (Publish e)
  have b': "b' = publish e b" "ds = []" using assms(3) Publish by auto
  have "distinct (eb_subscribers b)" using assms(1) by (simp add: bus_inv_def)
  note eff = publish_effect [OF this]
  show ?thesis using assms(2) Publish by (auto simp: follows_def eff b' published_def received_def)
next
  case Subscribe
  then show ?thesis using assms
    by (auto simp: follows_def subscribe_def Let_def published_def received_def queue_of_def dict_get_or_def)
next
  case (Unsubscribe p)
  then show ?thesis using assms
    by (auto simp: follows_def unsubscribe_def published_def received_def queue_of_def dest: notin_set_remove1 split: if_splits)
next
  case (Receive p)
  then show ?thesis using assms
    by (auto simp: follows_def queue_get_def published_def received_def queue_of_put split: list.splits)
qed

lemma published_append [simp]: "published (xs @ ys) = published xs @ published ys"
  by (simp add: published_def)

lemma received_append [simp]: "received q (xs @ ys) = received q xs @ received q ys"
  by (simp add: received_def)

lemma published_Cons: "published (x # xs) = published [x] @ published xs"
  by (simp add: published_def)

lemma follows_run:
  assumes "bus_inv b" "follows q pubs got b" "bus_run ops b = (ds, b')"
  shows "bus_inv b' \<and> follows q (pubs @ published ops) (got @ received q ds) b'"
  using assms
proof (induction ops arbitrary: b pubs got ds)
  case Nil
  then show ?case by (simp add: published_def received_def)
next
  case (Cons x xs)
  obtain ds1 b1 where 1: "bus_step x b = (ds1, b1)" by fastforce
  obtain ds2 where 2: "bus_run xs b1 = (ds2, b')" "ds = ds1 @ ds2" using Cons.prems 1 by (auto split: prod.splits)
  have "bus_inv b1" using bus_inv_step [OF Cons.prems(1), of x] 1 by simp
  from Cons.IH [OF this follows_step [OF Cons.prems(1,2) 1] 2(1)] show ?case
    using published_Cons [of x xs] 2(2) by simp
qed

lemma bus_run_inv: "bus_inv b \<Longrightarrow> bus_run ops b = (ds, b') \<Longrightarrow> bus_inv b'"
proof (induction ops arbitrary: b ds)
  case (Cons x xs)
  then show ?case using bus_inv_step [of b x] by (auto split: prod.splits)
qed simp

lemma recent_step:
  assumes "bus_inv b" "eb_recent_events b = last_n recent_event_buffer_size hist" "bus_step x b = (ds, b')"
  shows "eb_recent_events b' = last_n recent_event_buffer_size (hist @ published [x])"
  using assms
  by (cases x) (auto simp: published_def bus_inv_def publish_effect deque_append_def last_n_append_last_n subscribe_def Let_def
    unsubscribe_def queue_get_def split: list.splits)

lemma recent_run:
  assumes "bus_inv b" "eb_recent_events b = last_n recent_event_buffer_size hist" "bus_run ops b = (ds, b')"
  shows "eb_recent_events b' = last_n recent_event_buffer_size (hist @ published ops)"
  using assms
proof (induction ops arbitrary: b hist ds)
  case Nil
  then show ?case by (simp add: published_def)
next
  case (Cons x xs)
  obtain ds1 b1 where 1: "bus_step x b = (ds1, b1)" by fastforce
  obtain ds2 where 2: "bus_run xs b1 = (ds2, b')" "ds = ds1 @ ds2" using Cons.prems 1 by (auto split: prod.splits)
  have "bus_inv b1" using bus_inv_step [OF Cons.prems(1), of x] 1 by simp
  from Cons.IH [OF this recent_step [OF Cons.prems(1,2) 1] 2(1)] show ?case
    using published_Cons [of x xs] by simp
qed

text \<open>A subscriber is dropped only when its queue was full.\<close>

lemma dropped_when_full:
  assumes "bus_inv b" "q \<in> set (eb_subscribers b)" "Unsubscribe q \<notin> set ops" "bus_run ops b = (ds, b')" "q \<notin> set (eb_subscribers b')"
  shows "\<exists>before e after. ops = before @ Publish e # after \<and> length (queue_of (snd (bus_run before b)) q) = queue_maxsize"
  using assms
proof (induction ops arbitrary: b ds)
  case (Cons x xs)
  obtain ds1 b1 where 1: "bus_step x b = (ds1, b1)" by fastforce
  obtain ds2 where 2: "bus_run xs b1 = (ds2, b')" "ds = ds1 @ ds2" using Cons.prems 1 by (auto split: prod.splits)
  have inv1: "bus_inv b1" using bus_inv_step [OF Cons.prems(1), of x] 1 by simp
  show ?case
  proof (cases "q \<in> set (eb_subscribers b1)")
    case True
    then obtain before e after where w: "xs = before @ Publish e # after" "length (queue_of (snd (bus_run before b1)) q) = queue_maxsize"
      using Cons.IH [OF inv1 True _ 2(1)] Cons.prems 1 2 by auto
    then show ?thesis using 1 by (intro exI [of _ "x # before"] exI [of _ e] exI [of _ after]) (auto split: prod.splits)
  next
    case False
    have "distinct (eb_subscribers b)" using Cons.prems(1) by (simp add: bus_inv_def)
    then obtain e where "x = Publish e" "\<not> room b q"
      using False Cons.prems(2,3) 1
      by (cases x) (auto simp: publish_effect subscribe_def Let_def unsubscribe_def queue_get_def in_set_remove1 split: list.splits if_splits)
    then show ?thesis using Cons.prems(1) by (intro exI [of _ "[]"]) (auto simp: bus_inv_def le_antisym)
  qed
qed simp

section \<open>The bus over Redis\<close>

text \<open>The stream holds the last events of the history of what has been published, at least as many as
  \<open>stream_maxlen\<close>; the identifier of an event is its position.\<close>

definition stream_entry :: "event_codec \<Rightarrow> web_socket_event list \<Rightarrow> nat \<Rightarrow> nat \<times> (string, string) pydict" where
  "stream_entry ec hist i = (Suc i, [(''event'', ec_dump ec (hist ! i))])"

definition holds_from :: "event_codec \<Rightarrow> web_socket_event list \<Rightarrow> nat \<Rightarrow> event_stream \<Rightarrow> bool" where
  "holds_from ec hist k s \<longleftrightarrow> es_entries s = map (stream_entry ec hist) [k..<length hist] \<and> es_last s = length hist
     \<and> (es_exists s \<longleftrightarrow> hist \<noteq> []) \<and> (k = 0 \<or> k + stream_maxlen \<le> length hist)"

lemma holds_from_new [simp]: "holds_from ec [] 0 no_stream"
  by (simp add: holds_from_def no_stream_def)

lemma holds_from_reachable [simp]: "holds_from ec hist k (s\<lparr>es_reachable := r\<rparr>) = holds_from ec hist k s"
  by (simp add: holds_from_def)

lemma xadd_holds:
  assumes "holds_from ec hist k s" "xadd trim [(''event'', ec_dump ec e)] s = (r, s')"
  shows "(case r of Inl _ \<Rightarrow> s' = s | Inr _ \<Rightarrow> es_reachable s' \<and> (\<exists>k'. holds_from ec (hist @ [e]) k' s'))"
proof (cases "es_reachable s")
  case True
  let ?entries = "es_entries s @ [(es_last s + 1, [(''event'', ec_dump ec e)])]"
  define d where "d = min trim (length ?entries - stream_maxlen)"
  have e: "?entries = map (stream_entry ec (hist @ [e])) [k..<Suc (length hist)]"
    using assms(1) by (auto simp: holds_from_def stream_entry_def nth_append)
  have s': "r = Inr ()" "s' = s\<lparr>es_entries := drop d ?entries, es_last := es_last s + 1, es_exists := True\<rparr>"
    using assms(2) True by (auto simp: xadd_def Let_def d_def)
  have len: "length ?entries = Suc (length hist) - k" using e by (metis length_map length_upt)
  have k: "k \<le> length hist" "k = 0 \<or> k + stream_maxlen \<le> length hist" using assms(1) by (auto simp: holds_from_def)
  have "es_entries s' = map (stream_entry ec (hist @ [e])) [k + d..<Suc (length hist)]"
    using arg_cong [OF e, of "drop d"] unfolding s'(2) drop_map drop_upt by (simp del: upt_Suc drop_append)
  moreover have "k + d = 0 \<or> k + d + stream_maxlen \<le> Suc (length hist)" using k len by (auto simp: d_def)
  ultimately have "holds_from ec (hist @ [e]) (k + d) s'"
    using assms(1) unfolding holds_from_def s'(2) by simp
  then show ?thesis using s' True by auto
qed (use assms(2) in \<open>auto simp: xadd_def\<close>)

lemma filter_upt_ge: "filter (\<lambda>i. c \<le> i) [k..<n] = [max c k..<n]"
  by (induction n) (auto simp: max_def)

lemma unread_entries:
  assumes "holds_from ec hist k s" "cur \<le> length hist"
  shows "filter (\<lambda>p. cur < fst p) (es_entries s) = map (stream_entry ec hist) [max cur k..<length hist]"
proof -
  have "filter (\<lambda>i. cur < Suc i) [k..<length hist] = [max cur k..<length hist]"
    using filter_upt_ge [of cur k "length hist"] by (simp add: less_Suc_eq_le)
  then show ?thesis using assms(1) by (simp add: holds_from_def filter_map comp_def stream_entry_def)
qed

lemma read_entries_run:
  assumes "event_codec_ok ec hist" "b \<le> length hist" "length (rd_queue r) \<le> queue_maxsize" "a \<le> b"
  shows "read_entries ec (map (stream_entry ec hist) [a..<b]) r
    = (False, \<lparr>rd_queue = take queue_maxsize (rd_queue r @ map ((!) hist) [a..<b]), rd_current_id = (if a < b then b else rd_current_id r)\<rparr>)"
  using assms(3,4)
proof (induction "b - a" arbitrary: a r)
  case 0
  then show ?case by (cases r) simp
next
  case (Suc n)
  then have ab: "a < b" "n = b - Suc a" by auto
  then have u: "[a..<b] = a # [Suc a..<b]" by (simp add: upt_conv_Cons)
  have v: "ec_validate ec (ec_dump ec (hist ! a)) = Inr (hist ! a)" using assms(1,2) ab(1) by (simp add: event_codec_ok_def)
  let ?r = "r\<lparr>rd_queue := (case put_nowait queue_maxsize (hist ! a) (rd_queue r) of Some items \<Rightarrow> items | None \<Rightarrow> rd_queue r),
         rd_current_id := Suc a\<rparr>"
  have q: "rd_queue ?r = take queue_maxsize (rd_queue r @ [hist ! a])" using Suc.prems(1) by (auto simp: put_nowait_def)
  have "take queue_maxsize (rd_queue ?r @ xs) = take queue_maxsize (rd_queue r @ hist ! a # xs)" for xs
    using Suc.prems(1) by (cases "length (rd_queue r) < queue_maxsize") (auto simp: put_nowait_def)
  then show ?case using Suc.hyps(1) [OF ab(2), of ?r] q ab u by (auto simp: stream_entry_def v)
qed

lemma take_drop_upt: "b \<le> length xs \<Longrightarrow> map ((!) xs) [a..<b] = drop a (take b xs)"
  by (rule nth_equalityI) auto

lemma subseq_take_append: "subseq (take n (xs @ ys)) (xs @ ys)"
  by (metis append_take_drop_id list_emb_append2 subseq_order.order_refl subseq_append_iff subseq_rev_drop_many subseq_drop_many sublist_imp_subseq sublist_take)

lemma take_100_upt: "take n [a..<b] = [a..<min (a + n) b]"
  by (simp add: min_def)

text \<open>One turn of a reader while Redis answers: it takes over the next events, as far as its queue has room.\<close>

lemma read_turn_effect:
  assumes "event_codec_ok ec hist" "holds_from ec hist k (bus_stream b)" "k \<le> length hist" "es_reachable (bus_stream b)"
    "dict_get (bus_readers b) q = Some r" "rd_current_id r \<le> length hist" "length (rd_queue r) \<le> queue_maxsize"
  defines "a \<equiv> max (rd_current_id r) k" and "e \<equiv> min (max (rd_current_id r) k + read_count) (length hist)"
  shows "read_turn ec q b = b\<lparr>bus_readers := dict_put q \<lparr>rd_queue = take queue_maxsize (rd_queue r @ drop a (take e hist)),
     rd_current_id = (if a < e then e else rd_current_id r)\<rparr> (bus_readers b)\<rparr>"
proof -
  have x: "on_stream (xread (rd_current_id r) read_count) b = (Inr (map (stream_entry ec hist) [a..<e]), b)"
    using assms(4) unread_entries [OF assms(2,6)]
    by (simp add: on_stream_def xread_def take_map take_100_upt a_def e_def del: take_upt)
  have "a \<le> e" "e \<le> length hist" using assms(3,6) by (auto simp: a_def e_def)
  then show ?thesis using assms(5) x read_entries_run [OF assms(1) \<open>e \<le> length hist\<close> assms(7) \<open>a \<le> e\<close>]
    by (simp add: read_turn_def take_drop_upt)
qed

lemma read_turn_unreachable: "\<not> es_reachable (bus_stream b) \<Longrightarrow> read_turn ec q b = b"
  by (simp add: read_turn_def on_stream_def xread_def split: option.split)

lemma read_turn_absent: "dict_get (bus_readers b) q = None \<Longrightarrow> read_turn ec q b = b"
  by (simp add: read_turn_def)

text \<open>What holds of the bus, and of a subscriber that has received \<open>got\<close> since it subscribed after
  \<open>since\<close> events.\<close>

definition redis_bus_inv :: "event_codec \<Rightarrow> web_socket_event list \<Rightarrow> redis_bus \<Rightarrow> bool" where
  "redis_bus_inv ec hist b \<longleftrightarrow> (\<exists>k \<le> length hist. holds_from ec hist k (bus_stream b))
     \<and> (\<forall>q r. dict_get (bus_readers b) q = Some r \<longrightarrow>
          q < bus_next_queue b \<and> length (rd_queue r) \<le> queue_maxsize \<and> rd_current_id r \<le> length hist)"

definition reads_along :: "nat \<Rightarrow> nat \<Rightarrow> web_socket_event list \<Rightarrow> web_socket_event list \<Rightarrow> redis_bus \<Rightarrow> bool" where
  "reads_along q since hist got b \<longleftrightarrow> q < bus_next_queue b \<and> (case dict_get (bus_readers b) q of
     None \<Rightarrow> subseq got (drop since hist)
   | Some r \<Rightarrow> since \<le> rd_current_id r \<and> subseq (got @ rd_queue r) (drop since (take (rd_current_id r) hist)))"

lemma redis_bus_inv_new [simp]: "redis_bus_inv ec [] new_redis_bus"
  by (simp add: redis_bus_inv_def new_redis_bus_def)

lemma subseq_prefix: "subseq xs ys \<Longrightarrow> prefix ys zs \<Longrightarrow> subseq xs zs"
  by (meson prefix_imp_subseq subseq_order.order_trans)

lemma prefix_drop_take: "prefix (drop n (take c xs)) (drop n (xs @ ys))" "prefix (drop n (take c xs)) (drop n (take c (xs @ ys)))"
  "c \<le> e \<Longrightarrow> prefix (drop n (take c xs)) (drop n (take e xs))"
proof -
  have 1: "prefix (drop n (take c xs)) (drop n (take e xs))" if "c \<le> e" for c e :: nat and xs :: "'a list"
    using that by (metis drop_take le_add_diff_inverse min.absorb1 diff_le_mono take_is_prefix take_take)
  show "c \<le> e \<Longrightarrow> prefix (drop n (take c xs)) (drop n (take e xs))" by (rule 1)
  show "prefix (drop n (take c xs)) (drop n (take c (xs @ ys)))" by (simp add: drop_take)
  then show "prefix (drop n (take c xs)) (drop n (xs @ ys))" by (metis append_take_drop_id drop_append prefixI prefix_order.trans)
qed

lemma bus_inv_publish:
  assumes "redis_bus_inv ec hist b" "redis_publish ec trim e b = (r, b')"
  shows "(case r of Inl _ \<Rightarrow> b' = b | Inr _ \<Rightarrow> redis_bus_inv ec (hist @ [e]) b' \<and> bus_readers b' = bus_readers b \<and> bus_next_queue b' = bus_next_queue b)"
proof -
  obtain k where k: "holds_from ec hist k (bus_stream b)" using assms(1) by (auto simp: redis_bus_inv_def)
  obtain r' s' where x: "xadd trim [(''event'', ec_dump ec e)] (bus_stream b) = (r', s')" by fastforce
  have b': "r' = r" "b' = b\<lparr>bus_stream := s'\<rparr>" using assms(2) x by (simp_all add: redis_publish_def on_stream_def)
  show ?thesis
  proof (cases r)
    case (Inr u)
    then obtain k' where k': "holds_from ec (hist @ [e]) k' s'" using xadd_holds [OF k x] b' by auto
    then have "k' \<le> length (hist @ [e])" by (auto simp: holds_from_def)
    then show ?thesis using Inr assms(1) k' b' by (fastforce simp: redis_bus_inv_def)
  qed (use xadd_holds [OF k x] b' in auto)
qed

lemma bus_inv_readers:
  assumes "redis_bus_inv ec hist b" "length (rd_queue r) \<le> queue_maxsize" "rd_current_id r \<le> length hist" "q < n" "bus_next_queue b \<le> n"
  shows "redis_bus_inv ec hist (b\<lparr>bus_next_queue := n, bus_readers := dict_put q r (bus_readers b)\<rparr>)"
  using assms by (fastforce simp: redis_bus_inv_def)

lemma current_id_le:
  "redis_bus_inv ec hist b \<Longrightarrow> fst (current_stream_id b) = Inr (if es_reachable (bus_stream b) then length hist else 0)
    \<and> snd (current_stream_id b) = b"
  by (auto simp: redis_bus_inv_def holds_from_def current_stream_id_def on_stream_def xinfo_last_def prog_defs split: option.splits)

lemma redis_subscribe_run:
  assumes "redis_bus_inv ec hist b"
  shows "redis_subscribe b = (Inr (bus_next_queue b), b\<lparr>bus_next_queue := bus_next_queue b + 1,
     bus_readers := dict_put (bus_next_queue b) \<lparr>rd_queue = [], rd_current_id = (if es_reachable (bus_stream b) then length hist else 0)\<rparr> (bus_readers b)\<rparr>)"
  using current_id_le [OF assms] by (cases "current_stream_id b") (simp add: redis_subscribe_def prog_defs)

lemma reads_step:
  assumes "event_codec_ok ec (hist @ ps)" "redis_bus_inv ec hist b" "redis_step ec x b = (ds, ps, b')"
  shows "redis_bus_inv ec (hist @ ps) b' \<and> (reads_along q since hist got b \<longrightarrow> reads_along q since (hist @ ps) (got @ received q ds) b')"
proof (cases x)
  case (RPublish trim e)
  obtain r b1 where p: "redis_publish ec trim e b = (r, b1)" by fastforce
  show ?thesis using bus_inv_publish [OF assms(2) p] assms RPublish p
    by (cases r) (auto simp: reads_along_def received_def split: option.splits intro: subseq_prefix [OF _ prefix_drop_take(2)] subseq_prefix)
next
  case RSubscribe
  have n: "dict_get (bus_readers b) (bus_next_queue b) = None"
    using assms(2) by (cases "dict_get (bus_readers b) (bus_next_queue b)") (auto simp: redis_bus_inv_def)
  show ?thesis using RSubscribe assms bus_inv_readers [OF assms(2), of "\<lparr>rd_queue = [], rd_current_id = (if es_reachable (bus_stream b) then length hist else 0)\<rparr>"]
    by (auto simp: redis_subscribe_run [OF assms(2)] reads_along_def received_def)
next
  case (RUnsubscribe p)
  have "subseq got (drop since hist)" if "subseq (got @ qs) (drop since (take c hist))" for c qs
  proof -
    have "subseq got (got @ qs)" by (simp add: prefix_imp_subseq)
    then have "subseq got (drop since (take c hist))" using that by (rule subseq_order.order_trans)
    then show ?thesis using subseq_prefix prefix_drop_take(1) [of since c hist "[]"] by (metis append_Nil2)
  qed
  then show ?thesis using RUnsubscribe assms
    by (auto simp: redis_unsubscribe_def mod_s_def redis_bus_inv_def reads_along_def received_def split: option.splits if_splits)
next
  case (RTurn p)
  then have b': "b' = read_turn ec p b" "ds = []" "ps = []" using assms(3) by auto
  have ok: "event_codec_ok ec hist" using assms(1) by (simp add: event_codec_ok_def)
  obtain k where k: "k \<le> length hist" "holds_from ec hist k (bus_stream b)" using assms(2) by (auto simp: redis_bus_inv_def)
  show ?thesis
  proof (cases "es_reachable (bus_stream b) \<and> dict_get (bus_readers b) p \<noteq> None")
    case True
    then obtain r where r: "dict_get (bus_readers b) p = Some r" by auto
    then have c: "rd_current_id r \<le> length hist" "length (rd_queue r) \<le> queue_maxsize" "p < bus_next_queue b"
      using assms(2) by (auto simp: redis_bus_inv_def)
    define a where "a = max (rd_current_id r) k"
    define e where "e = min (a + read_count) (length hist)"
    define c' where "c' = (if a < e then e else rd_current_id r)"
    let ?r = "\<lparr>rd_queue = take queue_maxsize (rd_queue r @ drop a (take e hist)), rd_current_id = c'\<rparr>"
    have t: "b' = b\<lparr>bus_readers := dict_put p ?r (bus_readers b)\<rparr>"
      using read_turn_effect [OF ok k(2,1) _ r c(1,2)] True b' by (simp add: a_def e_def c'_def)
    have inv: "redis_bus_inv ec hist b'" using bus_inv_readers [OF assms(2), of ?r p "bus_next_queue b"] c t by (auto simp: c'_def e_def)
    have s: "subseq (g @ rd_queue ?r) (drop since (take c' hist))"
      if "since \<le> rd_current_id r" "subseq (g @ rd_queue r) (drop since (take (rd_current_id r) hist))" for g
    proof (cases "a < e")
      case True
      have "take e hist = take (rd_current_id r) hist @ drop (rd_current_id r) (take e hist)"
        using True by (metis a_def append_take_drop_id less_imp_le max.cobounded1 min.absorb1 order.trans take_take)
      then have "drop since (take e hist) = drop since (take (rd_current_id r) hist) @ drop (rd_current_id r) (take e hist)"
        using that(1) c(1) by (metis diff_is_0_eq drop_0 drop_append length_take min.absorb2)
      moreover have "subseq (drop a (take e hist)) (drop (rd_current_id r) (take e hist))"
        by (metis a_def drop_drop le_add_diff_inverse2 max.cobounded1 suffix_drop suffix_imp_subseq)
      ultimately have "subseq ((g @ rd_queue r) @ drop a (take e hist)) (drop since (take e hist))"
        using that(2) by (metis list_emb_append_mono)
      moreover have "subseq (g @ rd_queue ?r) (g @ (rd_queue r @ drop a (take e hist)))"
        using list_emb_append_mono [OF subseq_order.order_refl subseq_take_append] by simp
      ultimately show ?thesis using True by (simp add: c'_def)
    next
      case False
      then show ?thesis using that c(2) by (simp add: c'_def)
    qed
    have c': "rd_current_id r \<le> c'" by (auto simp: c'_def a_def)
    have "reads_along q since hist got b'" if along: "reads_along q since hist got b"
    proof (cases "q = p")
      case True
      then show ?thesis using along s [of got] r c' unfolding t by (auto simp: reads_along_def simp del: take_append)
    next
      case False
      then show ?thesis using along unfolding t by (simp add: reads_along_def)
    qed
    then show ?thesis using inv b'(2,3) by (simp add: received_def)
  next
    case False
    then have "b' = b" using b' read_turn_unreachable read_turn_absent by metis
    then show ?thesis using b' assms(2) by (simp add: received_def)
  qed
next
  case (RReceive p)
  show ?thesis
  proof (cases "\<exists>r e items. dict_get (bus_readers b) p = Some r \<and> rd_queue r = e # items")
    case True
    then obtain r e items where r: "dict_get (bus_readers b) p = Some r" "rd_queue r = e # items" by auto
    let ?r = "r\<lparr>rd_queue := items\<rparr>"
    have b': "b' = b\<lparr>bus_readers := dict_put p ?r (bus_readers b)\<rparr>" "ds = [(p, e)]" "ps = []"
      using assms(3) RReceive r by (auto simp: reader_get_def)
    have c: "length (rd_queue ?r) \<le> queue_maxsize" "rd_current_id ?r \<le> length hist" "p < bus_next_queue b"
      using assms(2) r by (fastforce simp: redis_bus_inv_def)+
    show ?thesis using bus_inv_readers [OF assms(2) c order.refl] r b'
      by (auto simp: reads_along_def received_def split: option.splits)
  next
    case False
    then have "b' = b" "ds = []" "ps = []" using assms(3) RReceive
      by (auto simp: reader_get_def split: option.splits list.splits)
    then show ?thesis using assms(2) by (simp add: received_def)
  qed
next
  case (SetReachable r)
  then show ?thesis using assms by (auto simp: redis_bus_inv_def reads_along_def received_def)
qed


lemma reads_run:
  assumes "event_codec_ok ec (hist @ ps)" "redis_bus_inv ec hist b" "redis_run ec ops b = (ds, ps, b')"
  shows "redis_bus_inv ec (hist @ ps) b' \<and> (reads_along q since hist got b \<longrightarrow> reads_along q since (hist @ ps) (got @ received q ds) b')"
  using assms
proof (induction ops arbitrary: b hist got ds ps)
  case Nil
  then show ?case by (simp add: received_def)
next
  case (Cons x xs)
  obtain ds1 ps1 b1 where 1: "redis_step ec x b = (ds1, ps1, b1)" by (metis surj_pair)
  obtain ds2 ps2 where 2: "redis_run ec xs b1 = (ds2, ps2, b')" "ds = ds1 @ ds2" "ps = ps1 @ ps2"
    using Cons.prems(3) 1 by (auto split: prod.splits)
  have ok: "event_codec_ok ec (hist @ ps1)" "event_codec_ok ec ((hist @ ps1) @ ps2)" using Cons.prems(1) 2(3) by (auto simp: event_codec_ok_def)
  note st = reads_step [OF ok(1) Cons.prems(2) 1, where q = q and since = since and got = got]
  then have "redis_bus_inv ec (hist @ ps1) b1" ..
  from Cons.IH [OF ok(2) this 2(1), of "got @ received q ds1"] st 2 show ?case by simp
qed

lemma subscribed_reads:
  assumes "event_codec_ok ec (hist @ ps)" "redis_bus_inv ec hist b0" "es_reachable (bus_stream b0)"
    "redis_subscribe b0 = (Inr q, b1)" "redis_run ec ops b1 = (ds, ps, b2)"
  shows "subseq (received q ds @ (case dict_get (bus_readers b2) q of None \<Rightarrow> [] | Some r \<Rightarrow> rd_queue r)) ps
    \<and> (\<forall>r. dict_get (bus_readers b2) q = Some r \<longrightarrow> length (rd_queue r) \<le> queue_maxsize)"
proof -
  have b1: "q = bus_next_queue b0" "b1 = b0\<lparr>bus_next_queue := bus_next_queue b0 + 1,
     bus_readers := dict_put (bus_next_queue b0) \<lparr>rd_queue = [], rd_current_id = length hist\<rparr> (bus_readers b0)\<rparr>"
    using redis_subscribe_run [OF assms(2)] assms(3,4) by auto
  have 1: "redis_bus_inv ec hist b1" using bus_inv_readers [OF assms(2), of "\<lparr>rd_queue = [], rd_current_id = length hist\<rparr>"] b1 by simp
  have "reads_along q (length hist) hist [] b1" using b1 by (simp add: reads_along_def)
  with reads_run [OF assms(1) 1 assms(5)] have "redis_bus_inv ec (hist @ ps) b2" "reads_along q (length hist) (hist @ ps) (received q ds) b2"
    by (metis append_Nil)+
  moreover have "subseq xs ps" if "subseq xs (drop (length hist) (take c (hist @ ps)))" for xs c
    using subseq_prefix [OF that prefix_drop_take(1) [of _ _ _ "[]"]] by simp
  ultimately show ?thesis
    by (auto simp: redis_bus_inv_def reads_along_def simp del: drop_append take_append split: option.splits) auto
qed

lemma reached_bus_inv:
  assumes "event_codec_ok ec (ps0 @ ps)" "redis_run ec ops0 new_redis_bus = (ds0, ps0, b0)"
  shows "redis_bus_inv ec ps0 b0"
proof -
  have "event_codec_ok ec ([] @ ps0)" using assms(1) by (simp add: event_codec_ok_def)
  from reads_run [OF this redis_bus_inv_new assms(2)] show ?thesis by simp
qed

text \<open>C24. Whatever happens on the bus over Redis (other subscribers, lost connections, trimming of the stream), a
  subscriber receives events in the order of their publication, each at most once, and only such that were
  published after it subscribed, when Redis answered then; its queue never holds more than 200.\<close>

theorem redis_subscriber_in_order:
  assumes "event_codec_ok ec (ps0 @ ps)" "redis_run ec ops0 new_redis_bus = (ds0, ps0, b0)" "es_reachable (bus_stream b0)"
    "redis_subscribe b0 = (Inr q, b1)" "redis_run ec ops b1 = (ds, ps, b2)"
  shows "subseq (received q ds @ (case dict_get (bus_readers b2) q of None \<Rightarrow> [] | Some r \<Rightarrow> rd_queue r)) ps
    \<and> (\<forall>r. dict_get (bus_readers b2) q = Some r \<longrightarrow> length (rd_queue r) \<le> queue_maxsize)"
  by (rule subscribed_reads [OF assms(1) reached_bus_inv [OF assms(1,2)] assms(3-5)])

text \<open>Recent events of the bus over Redis: the last 500 published, whatever the stream has been trimmed of.\<close>

lemma validate_entries_run:
  "event_codec_ok ec hist \<Longrightarrow> \<forall>i \<in> set is. i < length hist \<Longrightarrow> validate_entries ec (map (stream_entry ec hist) is) = Inr (map ((!) hist) is)"
  by (induction "is") (auto simp: stream_entry_def event_codec_ok_def)

lemma redis_recent_run:
  assumes "event_codec_ok ec hist" "redis_bus_inv ec hist b" "es_reachable (bus_stream b)"
  shows "redis_recent_events ec b = (Inr (last_n recent_event_count hist), b)"
proof -
  obtain k where k: "k \<le> length hist" "es_entries (bus_stream b) = map (stream_entry ec hist) [k..<length hist]"
      "k = 0 \<or> k + stream_maxlen \<le> length hist" using assms(2) by (auto simp: redis_bus_inv_def holds_from_def)
  let ?m = "last_n recent_event_count [k..<length hist]"
  have "take recent_event_count (rev (es_entries (bus_stream b))) = map (stream_entry ec hist) (rev ?m)"
    by (simp add: k(2) last_n_def take_rev drop_map rev_map take_map)
  moreover have "\<forall>i \<in> set (rev ?m). i < length hist" by (auto simp: last_n_def)
  ultimately have r: "redis_recent_events ec b = (Inr (rev (map ((!) hist) (rev ?m))), b)"
    using assms(3) validate_entries_run [OF assms(1), of "rev ?m"] by (simp add: redis_recent_events_def on_stream_def xrevrange_def)
  have "?m = [length hist - recent_event_count..<length hist]"
    using k by (auto simp: last_n_def stream_maxlen_def recent_event_count_def)
  then show ?thesis using r by (simp add: rev_map take_drop_upt last_n_def)
qed

section \<open>One interface for both\<close>

text \<open>The rest of the platform uses a bus through \<open>publish\<close> and \<open>get_recent_events\<close>; \<open>history\<close> relates a
  bus to what has been published on it.\<close>

locale event_feed =
  fixes pub :: "web_socket_event \<Rightarrow> 's \<Rightarrow> 's" and recent :: "'s \<Rightarrow> web_socket_event list result"
    and history :: "web_socket_event list \<Rightarrow> 's \<Rightarrow> bool" and accepts :: "web_socket_event \<Rightarrow> bool" and capacity :: nat
  assumes publish_law: "history hist s \<Longrightarrow> accepts e \<Longrightarrow> history (hist @ [e]) (pub e s)"
    and recent_law: "history hist s \<Longrightarrow> recent s = Inr (last_n capacity hist)"
begin

lemma history_fold: "history hist s \<Longrightarrow> \<forall>e \<in> set es. accepts e \<Longrightarrow> history (hist @ es) (fold pub es s)"
proof (induction es arbitrary: hist s)
  case (Cons e es)
  then show ?case using Cons.IH [OF publish_law] by simp
qed simp

lemma recent_after: "history hist s \<Longrightarrow> \<forall>e \<in> set es. accepts e \<Longrightarrow> recent (fold pub es s) = Inr (last_n capacity (hist @ es))"
  by (rule recent_law [OF history_fold])

lemma recent_latest:
  assumes "history hist s" "\<forall>e \<in> set es. accepts e" "length es \<le> capacity"
  shows "\<exists>older. recent (fold pub es s) = Inr (older @ es) \<and> suffix older hist"
proof -
  have "last_n capacity (hist @ es) = drop (length hist + length es - capacity) hist @ es"
    using assms(3) by (simp add: last_n_def)
  then show ?thesis using recent_after [OF assms(1,2)] by (auto simp: suffix_drop)
qed

end

definition memory_history :: "web_socket_event list \<Rightarrow> event_bus \<Rightarrow> bool" where
  "memory_history hist b \<longleftrightarrow> bus_inv b \<and> eb_recent_events b = last_n recent_event_buffer_size hist"

interpretation memory_feed: event_feed publish "\<lambda>b. Inr (get_recent_events b)" memory_history "\<lambda>_. True"
    recent_event_buffer_size
proof (unfold_locales, goal_cases)
  case (1 hist b e)
  then show ?case using bus_inv_step [of b "Publish e"] recent_step [of b hist "Publish e"]
    by (simp add: memory_history_def published_def)
qed (simp add: memory_history_def get_recent_events_def)

definition redis_history :: "event_codec \<Rightarrow> web_socket_event list \<Rightarrow> redis_bus \<Rightarrow> bool" where
  "redis_history ec hist b \<longleftrightarrow> event_codec_ok ec hist \<and> redis_bus_inv ec hist b \<and> es_reachable (bus_stream b)"

interpretation redis_feed: event_feed "\<lambda>e b. snd (redis_publish ec (trim e b) e b)" "\<lambda>b. fst (redis_recent_events ec b)"
  "redis_history ec" "\<lambda>e. ec_validate ec (ec_dump ec e) = Inr e" recent_event_count
proof (unfold_locales, goal_cases)
  case (1 hist b e)
  obtain r b' where p: "redis_publish ec (trim e b) e b = (r, b')" by fastforce
  then have "r = Inr ()" "es_reachable (bus_stream b')"
    using 1 by (auto simp: redis_publish_def on_stream_def xadd_def redis_history_def Let_def)
  then show ?case using bus_inv_publish [OF _ p] 1 p by (auto simp: redis_history_def event_codec_ok_def)
next
  case (2 hist b)
  then show ?case using redis_recent_run [of ec hist b] by (simp add: redis_history_def)
qed


section \<open>Properties\<close>

text \<open>C22. A subscriber of the bus in memory misses nothing: what it has received and what is queued for it is
  a first part of what was published since it subscribed, and all of it while it is subscribed. Its queue
  never holds more than 200 events, and the bus ends a subscription that was not cancelled only when an
  event is published while its queue holds 200.\<close>

theorem subscriber_misses_nothing:
  assumes "bus_run ops0 new_bus = (ds0, b0)" "subscribe b0 = (q, b1)" "bus_run ops b1 = (ds, b2)"
  shows "prefix (received q ds @ queue_of b2 q) (published ops)
    \<and> (q \<in> set (eb_subscribers b2) \<longrightarrow> received q ds @ queue_of b2 q = published ops)
    \<and> length (queue_of b2 q) \<le> queue_maxsize
    \<and> (q \<notin> set (eb_subscribers b2) \<and> Unsubscribe q \<notin> set ops \<longrightarrow>
        (\<exists>before e after. ops = before @ Publish e # after \<and> length (queue_of (snd (bus_run before b1)) q) = queue_maxsize))"
proof -
  have 0: "bus_inv b0" using bus_run_inv [OF bus_inv_new assms(1)] .
  have 1: "bus_inv b1" using bus_inv_step [OF 0, of Subscribe] assms(2) by simp
  have q: "q \<in> set (eb_subscribers b1)" "follows q [] [] b1"
    using assms(2) by (auto simp: subscribe_def Let_def follows_def queue_of_def dict_get_or_def)
  have "bus_inv b2" "follows q (published ops) (received q ds) b2"
    using follows_run [OF 1 q(2) assms(3)] by simp_all
  then show ?thesis using dropped_when_full [OF 1 q(1) _ assms(3)] by (auto simp: follows_def bus_inv_def)
qed

abbreviation sample_event :: "timestamp \<Rightarrow> web_socket_event" where
  "sample_event t \<equiv> \<lparr>ev_kind = SERVICE_UPDATED, ev_timestamp = t, ev_payload = []\<rparr>"

theorem subscriber_misses_nothing_witness:
  "received 1 (fst (bus_run [Publish (sample_event 2), Subscribe, Receive 1, Publish (sample_event 3)]
     (snd (subscribe (snd (bus_run [Subscribe, Publish (sample_event 1)] new_bus)))))) = [sample_event 2]"
proof -
  let ?b0 = "snd (bus_run [Subscribe, Publish (sample_event 1)] new_bus)"
  let ?ops = "[Publish (sample_event 2), Subscribe, Receive 1, Publish (sample_event 3)]"
  obtain ds0 where 0: "bus_run [Subscribe, Publish (sample_event 1)] new_bus = (ds0, ?b0)" by (metis prod.collapse)
  have 1: "subscribe ?b0 = (1, snd (subscribe ?b0))"
    by (simp add: subscribe_def Let_def publish_def new_bus_def queue_of_def dict_get_or_def put_nowait_def queue_maxsize_def)
  obtain ds b2 where 2: "bus_run ?ops (snd (subscribe ?b0)) = (ds, b2)" by fastforce
  have "queue_of b2 1 = [sample_event 3]" "1 \<in> set (eb_subscribers b2)"
    using 2 by (auto simp: subscribe_def Let_def publish_def new_bus_def queue_of_def dict_get_or_def put_nowait_def queue_maxsize_def queue_get_def)
  then show ?thesis using subscriber_misses_nothing [OF 0 1 2] 2 by (auto simp: published_def)
qed

text \<open>A codec of events that have only a time.\<close>

definition plain_codec :: event_codec where
  "plain_codec = \<lparr>ec_dump = (\<lambda>e. replicate (nat (ev_timestamp e)) CHR ''1''), ec_validate = (\<lambda>s. Inr (sample_event (int (length s))))\<rparr>"

lemma plain_codec_ok: "event_codec_ok plain_codec [sample_event 1, sample_event 2, sample_event 3]"
  by (simp add: event_codec_ok_def plain_codec_def)

lemmas redis_run_eval = redis_publish_def on_stream_def xadd_def Let_def no_stream_def new_redis_bus_def stream_maxlen_def
  redis_subscribe_def current_stream_id_def xinfo_last_def prog_defs

text \<open>C26. Both buses show the latest events in the order of their publication: the one in memory the last 100,
  the one over Redis, while it answers, the last 500, whatever has been trimmed from the stream.\<close>

theorem recent_events_latest:
  "(bus_run mem_ops new_bus = (mem_ds, m) \<longrightarrow> get_recent_events m = last_n 100 (published mem_ops))
    \<and> (redis_run ec ops new_redis_bus = (ds, ps, b) \<and> event_codec_ok ec ps \<and> es_reachable (bus_stream b)
        \<longrightarrow> redis_recent_events ec b = (Inr (last_n 500 ps), b))"
proof (intro conjI impI)
  assume "bus_run mem_ops new_bus = (mem_ds, m)"
  from recent_run [OF bus_inv_new _ this, of "[]"] show "get_recent_events m = last_n 100 (published mem_ops)"
    by (simp add: get_recent_events_def new_bus_def last_n_def recent_event_buffer_size_def)
next
  assume a: "redis_run ec ops new_redis_bus = (ds, ps, b) \<and> event_codec_ok ec ps \<and> es_reachable (bus_stream b)"
  then have "redis_bus_inv ec ps b" using reads_run [of ec "[]" ps new_redis_bus ops ds b] by simp
  then show "redis_recent_events ec b = (Inr (last_n 500 ps), b)"
    using redis_recent_run a by (simp add: recent_event_count_def)
qed

theorem recent_events_latest_witness:
  "redis_recent_events plain_codec (snd (snd (redis_run plain_codec [RPublish 0 (sample_event 1), RPublish 7 (sample_event 2)] new_redis_bus)))
    = (Inr [sample_event 1, sample_event 2],
       snd (snd (redis_run plain_codec [RPublish 0 (sample_event 1), RPublish 7 (sample_event 2)] new_redis_bus)))"
proof -
  let ?run = "redis_run plain_codec [RPublish 0 (sample_event 1), RPublish 7 (sample_event 2)] new_redis_bus"
  obtain b where b: "?run = ([], [sample_event 1, sample_event 2], b)" "es_reachable (bus_stream b)"
    by (simp add: redis_run_eval)
  have "event_codec_ok plain_codec [sample_event 1, sample_event 2]" using plain_codec_ok by (simp add: event_codec_ok_def)
  then have "redis_recent_events plain_codec b = (Inr (last_n 500 [sample_event 1, sample_event 2]), b)"
    using recent_events_latest [THEN conjunct2, rule_format] b by blast
  then show ?thesis unfolding b(1) by (simp add: last_n_def)
qed

theorem redis_subscriber_in_order_witness:
  "subseq (received 0 (fst (redis_run plain_codec [RPublish 0 (sample_event 2), RTurn 0, RReceive 0, RPublish 0 (sample_event 3)]
     (snd (redis_subscribe (snd (snd (redis_run plain_codec [RPublish 0 (sample_event 1)] new_redis_bus))))))))
     [sample_event 2, sample_event 3]"
proof -
  let ?r0 = "redis_run plain_codec [RPublish 0 (sample_event 1)] new_redis_bus"
  let ?ops = "[RPublish 0 (sample_event 2), RTurn 0, RReceive 0, RPublish 0 (sample_event 3)]"
  obtain b0 where 0: "?r0 = ([], [sample_event 1], b0)" "es_reachable (bus_stream b0)" "bus_next_queue b0 = 0"
      "bus_readers b0 = []" "es_entries (bus_stream b0) = [(1, [(''event'', ec_dump plain_codec (sample_event 1))])]"
      "es_last (bus_stream b0) = 1" "es_exists (bus_stream b0)"
    using that [of "snd (snd ?r0)"] by (simp add: redis_run_eval)
  have 1: "redis_subscribe b0 = (Inr 0, snd (redis_subscribe b0))"
    using 0 by (simp add: redis_subscribe_def current_stream_id_def on_stream_def xinfo_last_def prog_defs)
  obtain ds ps b2 where 2: "redis_run plain_codec ?ops (snd (redis_subscribe b0)) = (ds, ps, b2)" by (metis surj_pair)
  have v: "ec_validate plain_codec (ec_dump plain_codec (sample_event 2)) = Inr (sample_event 2)"
    using plain_codec_ok by (simp add: event_codec_ok_def)
  have r: "ps = [sample_event 2, sample_event 3]" "length (received 0 ds) = 1"
      "\<exists>r. dict_get (bus_readers b2) 0 = Some r"
    using 2 0 v by (auto simp: redis_subscribe_def current_stream_id_def on_stream_def xinfo_last_def prog_defs redis_publish_def
      xadd_def Let_def stream_maxlen_def read_turn_def xread_def read_count_def reader_get_def put_nowait_def queue_maxsize_def
      received_def)
  have ok: "event_codec_ok plain_codec ([sample_event 1] @ ps)" using plain_codec_ok r by simp
  have "subseq (received 0 ds) ps" using redis_subscriber_in_order [OF ok 0(1,2) 1 2]
    by (metis (no_types, lifting) prefixI prefix_imp_subseq subseq_order.order_trans)
  then show ?thesis unfolding 0(1) snd_conv 2 fst_conv r(1) .
qed

text \<open>An event that does not validate stops its readers for good: a turn that meets it as the next event
  changes nothing, so every later turn meets it again and no later event is delivered.\<close>

theorem poison_event_stops_reader:
  assumes "dict_get (bus_readers b) q = Some r" "es_reachable (bus_stream b)"
    "filter (\<lambda>p. rd_current_id r < fst p) (es_entries (bus_stream b)) = (i, data) # later"
    "dict_get data ''event'' = Some raw" "ec_validate ec raw = Inl err"
  shows "(read_turn ec q ^^ n) b = b"
proof -
  have "read_entries ec (take read_count ((i, data) # later)) r = (True, r)"
    using assms(4,5) by (simp add: read_count_def take_Cons')
  then have "read_turn ec q b = b"
    using assms(1-3) by (simp add: read_turn_def on_stream_def xread_def update_triv)
  then show ?thesis by (induction n) auto
qed

theorem poison_event_stops_reader_witness:
  "(read_turn (plain_codec\<lparr>ec_validate := (\<lambda>s. Inl (ValueError s))\<rparr>) 0 ^^ 3)
     \<lparr>bus_stream = no_stream\<lparr>es_entries := [(1, [(''event'', ''?'')])], es_last := 1, es_exists := True\<rparr>,
      bus_readers = [(0, \<lparr>rd_queue = [], rd_current_id = 0\<rparr>)], bus_next_queue = 1\<rparr>
   = \<lparr>bus_stream = no_stream\<lparr>es_entries := [(1, [(''event'', ''?'')])], es_last := 1, es_exists := True\<rparr>,
      bus_readers = [(0, \<lparr>rd_queue = [], rd_current_id = 0\<rparr>)], bus_next_queue = 1\<rparr>"
  by (rule poison_event_stops_reader [where r = "\<lparr>rd_queue = [], rd_current_id = 0\<rparr>" and raw = "''?''" and i = 1
      and data = "[(''event'', ''?'')]" and later = "[]" and err = "ValueError ''?''"]) (simp_all add: no_stream_def)

end
