(* ===== verification/ControlPlane.thy ===== *)
theory ControlPlane
  imports Orchestrator Iam Storage Events ProxyMetrics
begin

text \<open>
  The control plane over the state it shares with the other processes: the registry of
  \<open>dependencies.py\<close>, the endpoints of \<open>api/services.py\<close>, \<open>api/deployments.py\<close> and \<open>api/nodes.py\<close>, and the
  dashboard's websocket of \<open>api/websocket.py\<close>. The stores, Docker, the routing table and the secrets are
  those of the orchestrator's \<open>world\<close>; the files, the event bus and the proxy's metrics in Redis come with
  them. A response that the code builds as a \<open>dict\<close> is a record with a field per key.
\<close>

section \<open>dependencies.py\<close>

text \<open>What the process registers at its start. A store that is not registered is \<open>None\<close> in the world.\<close>

record ('d, 'r, 'k) plane =
  pn_world :: "('d, 'r, 'k) world"
  pn_files :: fs
  pn_bus :: redis_bus
  pn_metrics :: metric_redis

record ('d, 'r, 'k) plane_env =
  pe_env :: "('d, 'r, 'k) env"
  pe_storage :: storage_env
  pe_jwt :: jwt_lib
  pe_codec :: event_codec

definition on_world :: "(('d, 'r, 'k) world, 'a) prog \<Rightarrow> (('d, 'r, 'k) plane, 'a) prog" where
  "on_world m p = (case m (pn_world p) of (r, w) \<Rightarrow> (r, p\<lparr>pn_world := w\<rparr>))"

definition on_bus :: "(redis_bus, 'a) prog \<Rightarrow> (('d, 'r, 'k) plane, 'a) prog" where
  "on_bus m p = (case m (pn_bus p) of (r, b) \<Rightarrow> (r, p\<lparr>pn_bus := b\<rparr>))"

definition on_storage :: "(fs, 'a) prog \<Rightarrow> (('d, 'r, 'k) plane, 'a) prog" where
  "on_storage m p = (case m (pn_files p) of (r, t) \<Rightarrow> (r, p\<lparr>pn_files := t\<rparr>))"

text \<open>The stores the getters answer; \<open>assert\<close> raises for one that was not registered.\<close>

definition get_service_store :: "(('d, 'r, 'k) world, service_state) store_ops" where
  "get_service_store = dict_store w_services (\<lambda>f w. w\<lparr>w_services := f (w_services w)\<rparr>)"

definition get_deployment_store :: "(('d, 'r, 'k) world, rollout_state) store_ops" where
  "get_deployment_store = dict_store w_deployments (\<lambda>f w. w\<lparr>w_deployments := f (w_deployments w)\<rparr>)"

definition get_node_store :: "(('d, 'r, 'k) world, (string, node_state) pydict) prog" where
  "get_node_store = bind_p (get_s w_node_store) (\<lambda>st. case st of None \<Rightarrow> raise AssertionError | Some d \<Rightarrow> ret d)"

definition get_database_store :: "(('d, 'r, 'k) world, (string, database_state) pydict) prog" where
  "get_database_store = bind_p (get_s w_databases) (\<lambda>st. case st of None \<Rightarrow> raise AssertionError | Some d \<Rightarrow> ret d)"

definition recent_events :: "('d, 'r, 'k) plane_env \<Rightarrow> (('d, 'r, 'k) plane, web_socket_event list) prog" where
  "recent_events pe = on_bus (redis_recent_events (pe_codec pe))"

text \<open>\<open>get_routing_table()\<close>: the table over Redis; its methods are those of the orchestrator's.\<close>

definition routing_endpoints_of :: "('d, 'r, 'k) plane_env \<Rightarrow> string \<Rightarrow> (('d, 'r, 'k) plane, endpoint list) prog" where
  "routing_endpoints_of pe name = on_world (call_routing (rt_get (en_routing (pe_env pe)) name))"

definition routing_service_names :: "('d, 'r, 'k) plane_env \<Rightarrow> (('d, 'r, 'k) plane, string list) prog" where
  "routing_service_names pe = on_world (call_routing (rt_names (en_routing (pe_env pe))))"

text \<open>An endpoint for any user, and one for users of at least a role; the clock counts microseconds.\<close>

definition for_user :: "('d, 'r, 'k) plane_env \<Rightarrow> string \<Rightarrow> (user_spec \<Rightarrow> (('d, 'r, 'k) plane, 'a) prog) \<Rightarrow> (('d, 'r, 'k) plane, 'a) prog" where
  "for_user pe token body = bind_p (get_s (\<lambda>p. w_clock (pn_world p) div 1000000)) (\<lambda>now.
     endpoint (get_current_user (pe_jwt pe) (en_cfg (pe_env pe)) now token) body)"

definition for_role :: "('d, 'r, 'k) plane_env \<Rightarrow> role \<Rightarrow> string \<Rightarrow> (user_spec \<Rightarrow> (('d, 'r, 'k) plane, 'a) prog) \<Rightarrow> (('d, 'r, 'k) plane, 'a) prog" where
  "for_role pe minimum token body = bind_p (get_s (\<lambda>p. w_clock (pn_world p) div 1000000)) (\<lambda>now.
     endpoint (require_role (pe_jwt pe) (en_cfg (pe_env pe)) now minimum token) body)"

section \<open>api/services.py\<close>

definition api_list_services :: "('d, 'r, 'k) plane_env \<Rightarrow> string \<Rightarrow> (('d, 'r, 'k) plane, service_state list) prog" where
  "api_list_services pe token = for_user pe token (\<lambda>_. on_world (so_list get_service_store))"

definition api_create_service :: "('d, 'r, 'k) plane_env \<Rightarrow> string \<Rightarrow> service_spec \<Rightarrow> (('d, 'r, 'k) plane, service_state) prog" where
  "api_create_service pe token spec = for_role pe DEVELOPER token (\<lambda>_. on_world (
     bind_p (so_exists get_service_store (sp_name spec)) (\<lambda>found.
     if found then raise (HTTPException 409 (''Service '' @ quoted (sp_name spec) @ '' already exists''))
     else bind_p (get_s w_clock) (\<lambda>now. let s = new_service_state now spec in
       bind_p (so_put get_service_store (sp_name spec) s) (\<lambda>_. ret s)))))"

text \<open>\<open>get\<close> from the store, and 404 when there is none.\<close>

definition service_or_404 :: "string \<Rightarrow> (('d, 'r, 'k) plane, service_state) prog" where
  "service_or_404 name = on_world (bind_p (so_get get_service_store name) (\<lambda>found. case found of
     None \<Rightarrow> raise (HTTPException 404 ''Service not found'') | Some s \<Rightarrow> ret s))"

definition api_get_service :: "('d, 'r, 'k) plane_env \<Rightarrow> string \<Rightarrow> string \<Rightarrow> (('d, 'r, 'k) plane, service_state) prog" where
  "api_get_service pe token name = for_user pe token (\<lambda>_. service_or_404 name)"

record replica_logs =
  rl_replica_id :: string
  rl_container_id :: string
  rl_node_id :: string
  rl_logs :: string

definition bounded :: "int \<Rightarrow> int \<Rightarrow> int" where
  "bounded most n = max 1 (min n most)"

definition api_get_service_logs :: "('d, 'r, 'k) plane_env \<Rightarrow> string \<Rightarrow> string \<Rightarrow> int \<Rightarrow> (('d, 'r, 'k) plane, string \<times> replica_logs list) prog" where
  "api_get_service_logs pe token name tail = for_role pe DEVELOPER token (\<lambda>_. bind_p (service_or_404 name) (\<lambda>s.
     bind_p (map_p (\<lambda>r. bind_p (on_world (call_docker (get_container_logs (en_docker (pe_env pe)) (rs_container_id r) (bounded 1000 tail))))
         (\<lambda>logs. ret \<lparr>rl_replica_id = rs_replica_id r, rl_container_id = rs_container_id r, rl_node_id = rs_node_id r, rl_logs = logs\<rparr>))
       (ss_replicas s)) (\<lambda>replicas. ret (name, replicas))))"

text \<open>\<open>_service_warnings\<close>; \<open>nodes\<close> are the identifiers of the known nodes.\<close>

definition replica_warnings :: "string list \<Rightarrow> endpoint list \<Rightarrow> replica_state \<Rightarrow> string list" where
  "replica_warnings nodes endpoints r = (let who = ''Replica '' @ take 8 (rs_replica_id r) in
     (if rs_node_id r \<notin> set nodes then [who @ '' references unknown node '' @ rs_node_id r] else [])
   @ (if rs_container_ip r = [] then [who @ '' has no container IP''] else [])
   @ (if rs_status r \<noteq> RUNNING then [who @ '' is '' @ status_value (rs_status r)] else [])
   @ (if rs_status r = RUNNING \<and> rs_replica_id r \<notin> set (ids endpoints) then [who @ '' is not in the routing table''] else []))"

definition service_warnings :: "service_state \<Rightarrow> string list \<Rightarrow> endpoint list \<Rightarrow> string list" where
  "service_warnings s nodes endpoints =
    (let desired = sp_replicas (ss_spec s); count = int (length (running s)) in
     (if count < desired then [''Only '' @ str_int count @ ''/'' @ str_int desired @ '' desired replicas are running''] else [])
   @ concat (map (replica_warnings nodes endpoints) (ss_replicas s))
   @ concat (map (\<lambda>e. if ep_replica_id e \<notin> set (map rs_replica_id (ss_replicas s))
        then [''Routing table references unknown replica '' @ take 8 (ep_replica_id e)] else []) endpoints)
   @ (if 0 < count \<and> filter ep_healthy endpoints = [] then [''No healthy routing endpoints are available''] else []))"

record placement_view =
  pv_node_id :: string
  pv_replica_id :: string
  pv_status :: string
  pv_container_ip :: string
  pv_node_known :: bool
  pv_routed :: bool
  pv_route_healthy :: bool

record diagnostics =
  dg_service :: service_state
  dg_desired_replicas :: int
  dg_actual_replicas :: int
  dg_healthy_replicas :: int
  dg_unhealthy_replicas :: int
  dg_routeable_replicas :: int
  dg_node_placement :: "placement_view list"
  dg_routing_endpoints :: "(endpoint \<times> bool) list"
  dg_recent_events :: "web_socket_event list"
  dg_warnings :: "string list"

text \<open>\<open>event.payload.get(key) == value\<close> for a string.\<close>

definition payload_is :: "string \<Rightarrow> string \<Rightarrow> web_socket_event \<Rightarrow> bool" where
  "payload_is key v e \<longleftrightarrow> dict_get (ev_payload e) key = Some (JStr v)"

definition diagnose :: "string \<Rightarrow> service_state \<Rightarrow> string list \<Rightarrow> web_socket_event list \<Rightarrow> endpoint list \<Rightarrow> diagnostics" where
  "diagnose name s nodes events endpoints =
    (let routing_by_replica = dict_of_list (map (\<lambda>e. (ep_replica_id e, e)) endpoints);
         observed_replica_ids = map rs_replica_id (ss_replicas s);
         count = int (length (running s))
     in \<lparr>dg_service = s,
       dg_desired_replicas = sp_replicas (ss_spec s),
       dg_actual_replicas = count,
       dg_healthy_replicas = count,
       dg_unhealthy_replicas = int (length (ss_replicas s)) - count,
       dg_routeable_replicas = int (length (filter (\<lambda>e. ep_healthy e \<and> ep_replica_id e \<in> set observed_replica_ids) endpoints)),
       dg_node_placement = map (\<lambda>r. \<lparr>pv_node_id = rs_node_id r, pv_replica_id = rs_replica_id r,
          pv_status = status_value (rs_status r), pv_container_ip = rs_container_ip r, pv_node_known = rs_node_id r \<in> set nodes,
          pv_routed = dict_has routing_by_replica (rs_replica_id r),
          pv_route_healthy = (case dict_get routing_by_replica (rs_replica_id r) of None \<Rightarrow> False | Some e \<Rightarrow> ep_healthy e)\<rparr>)
          (ss_replicas s),
       dg_routing_endpoints = map (\<lambda>e. (e, ep_replica_id e \<in> set observed_replica_ids)) endpoints,
       dg_recent_events = take 50 (filter (payload_is ''service_name'' name) (rev events)),
       dg_warnings = service_warnings s nodes endpoints\<rparr>)"

definition api_get_service_diagnostics :: "('d, 'r, 'k) plane_env \<Rightarrow> string \<Rightarrow> string \<Rightarrow> (('d, 'r, 'k) plane, diagnostics) prog" where
  "api_get_service_diagnostics pe token name = for_user pe token (\<lambda>_. bind_p (service_or_404 name) (\<lambda>s.
     bind_p (on_world get_node_store) (\<lambda>nodes.
     bind_p (recent_events pe) (\<lambda>events.
     bind_p (routing_endpoints_of pe name) (\<lambda>endpoints.
     ret (diagnose name s (map (\<lambda>n. nsp_node_id (nd_spec n)) (dict_values nodes)) events endpoints))))))"

definition api_update_service :: "('d, 'r, 'k) plane_env \<Rightarrow> string \<Rightarrow> string \<Rightarrow> service_spec \<Rightarrow> (('d, 'r, 'k) plane, service_state) prog" where
  "api_update_service pe token name spec = for_role pe DEVELOPER token (\<lambda>_. bind_p (service_or_404 name) (\<lambda>existing.
     on_world (bind_p (get_s w_clock) (\<lambda>now.
       let s = existing\<lparr>ss_spec := spec, ss_status := UPDATING, ss_updated_at := now\<rparr> in
       bind_p (so_put get_service_store name s) (\<lambda>_. ret s)))))"

definition api_delete_service :: "('d, 'r, 'k) plane_env \<Rightarrow> string \<Rightarrow> string \<Rightarrow> (('d, 'r, 'k) plane, unit) prog" where
  "api_delete_service pe token name = for_role pe DEVELOPER token (\<lambda>_. bind_p (service_or_404 name) (\<lambda>existing.
     on_world (bind_p (get_s w_clock) (\<lambda>now.
       so_put get_service_store name (existing\<lparr>ss_status := DELETING, ss_updated_at := now\<rparr>)))))"

section \<open>api/deployments.py and api/nodes.py\<close>

definition api_create_deployment :: "('d, 'r, 'k) plane_env \<Rightarrow> string \<Rightarrow> deployment_spec \<Rightarrow> (('d, 'r, 'k) plane, rollout_state) prog" where
  "api_create_deployment pe token spec = for_role pe DEVELOPER token (\<lambda>_. on_world (
     bind_p (so_get get_service_store (dp_service_name spec)) (\<lambda>found. case found of
       None \<Rightarrow> raise (HTTPException 404 (''Service '' @ quoted (dp_service_name spec) @ '' not found''))
     | Some s \<Rightarrow> bind_p draw (\<lambda>i. bind_p (get_s w_clock) (\<lambda>now.
         let rollout = \<lparr>ro_deployment_id = en_uuid (pe_env pe) i, ro_spec = spec, ro_status = PENDING,
               ro_old_replica_ids = map rs_replica_id (ss_replicas s), ro_new_replica_ids = [], ro_started_at = now, ro_completed_at = None\<rparr>
         in bind_p (so_put get_deployment_store (ro_deployment_id rollout) rollout) (\<lambda>_. ret rollout))))))"

definition api_list_deployments :: "('d, 'r, 'k) plane_env \<Rightarrow> string \<Rightarrow> (('d, 'r, 'k) plane, rollout_state list) prog" where
  "api_list_deployments pe token = for_user pe token (\<lambda>_. on_world (so_list get_deployment_store))"

definition api_get_deployment :: "('d, 'r, 'k) plane_env \<Rightarrow> string \<Rightarrow> string \<Rightarrow> (('d, 'r, 'k) plane, rollout_state) prog" where
  "api_get_deployment pe token deployment_id = for_user pe token (\<lambda>_. on_world (
     bind_p (so_get get_deployment_store deployment_id) (\<lambda>found. case found of
       None \<Rightarrow> raise (HTTPException 404 ''Deployment not found'') | Some r \<Rightarrow> ret r)))"

definition api_list_nodes :: "('d, 'r, 'k) plane_env \<Rightarrow> string \<Rightarrow> (('d, 'r, 'k) plane, node_state list) prog" where
  "api_list_nodes pe token = for_user pe token (\<lambda>_. on_world (bind_p get_node_store (\<lambda>d. ret (dict_values d))))"

definition api_get_node :: "('d, 'r, 'k) plane_env \<Rightarrow> string \<Rightarrow> string \<Rightarrow> (('d, 'r, 'k) plane, node_state) prog" where
  "api_get_node pe token node_id = for_user pe token (\<lambda>_. on_world (bind_p get_node_store (\<lambda>d. case dict_get d node_id of
     None \<Rightarrow> raise (HTTPException 404 ''Node not found'') | Some n \<Rightarrow> ret n)))"

section \<open>api/websocket.py\<close>

text \<open>The messages of the dashboard's websocket. The handler needs no token.\<close>

record snapshot =
  sh_nodes :: "node_state list"
  sh_services :: "service_state list"
  sh_secrets :: "string list"
  sh_buckets :: "bucket list"
  sh_events :: "web_socket_event list"

datatype ws_message = Snapshot snapshot | WsEvent web_socket_event | Ping

definition take_snapshot :: "('d, 'r, 'k) plane_env \<Rightarrow> (('d, 'r, 'k) plane, ws_message) prog" where
  "take_snapshot pe = bind_p (on_world (so_list get_service_store)) (\<lambda>services.
     bind_p (on_world get_node_store) (\<lambda>nodes.
     bind_p (on_world (call_secrets (list_secret_names (en_secrets (pe_env pe))))) (\<lambda>secret_names.
     bind_p (on_storage (list_buckets (pe_storage pe))) (\<lambda>buckets.
     bind_p (recent_events pe) (\<lambda>events.
     ret (Snapshot \<lparr>sh_nodes = dict_values nodes, sh_services = services, sh_secrets = secret_names, sh_buckets = buckets,
       sh_events = events\<rparr>))))))"

text \<open>After the snapshot is sent the handler subscribes; each turn of its loop sends the next event of the
  queue, or a ping when there is none for thirty seconds.\<close>

definition ws_subscribe :: "(('d, 'r, 'k) plane, nat) prog" where
  "ws_subscribe = on_bus redis_subscribe"

definition ws_turn :: "nat \<Rightarrow> ('d, 'r, 'k) plane \<Rightarrow> ws_message \<times> ('d, 'r, 'k) plane" where
  "ws_turn q p = (case reader_get q (pn_bus p) of
     (Some e, b) \<Rightarrow> (WsEvent e, p\<lparr>pn_bus := b\<rparr>) | (None, b) \<Rightarrow> (Ping, p\<lparr>pn_bus := b\<rparr>))"

definition ws_close :: "nat \<Rightarrow> (('d, 'r, 'k) plane, unit) prog" where
  "ws_close q = on_bus (redis_unsubscribe q)"

end
