(* ===== verification/Views.thy ===== *)
theory Views
  imports ControlPlane
begin

text \<open>
  The read-only views of the control plane for the dashboard: \<open>api/overview.py\<close>, \<open>api/platform.py\<close> and
  \<open>api/topology.py\<close>. What the proxy counts is read back from the keys of Redis that \<open>ProxyMetrics\<close> writes;
  the client decodes its answers, so keys and values are text.
\<close>

section \<open>Reading Redis\<close>

definition on_metrics :: "(metric_redis, 'a) prog \<Rightarrow> (('d, 'r, 'k) plane, 'a) prog" where
  "on_metrics m p = (case m (pn_metrics p) of (r, b) \<Rightarrow> (r, p\<lparr>pn_metrics := b\<rparr>))"

definition when_reachable :: "(metric_redis \<Rightarrow> 'a) \<Rightarrow> (metric_redis, 'a) prog" where
  "when_reachable f r = (if mr_reachable r then Inr (f r) else Inl OSError, r)"

definition redis_get :: "string \<Rightarrow> (metric_redis, string option) prog" where
  "redis_get key = when_reachable (\<lambda>r. case dict_get (mr_counters r) key of
     Some n \<Rightarrow> Some (str_int n) | None \<Rightarrow> dict_get (mr_texts r) key)"

definition hash_fields :: "string \<Rightarrow> metric_redis \<Rightarrow> (string, int) pydict" where
  "hash_fields key r = map (\<lambda>((_, field), n). (field, n)) (filter (\<lambda>p. fst (fst p) = key) (mr_hashes r))"

definition hgetall :: "string \<Rightarrow> (metric_redis, (string, string) pydict) prog" where
  "hgetall key = when_reachable (\<lambda>r. map (\<lambda>(field, n). (field, str_int n)) (hash_fields key r))"

definition redis_keys :: "string \<Rightarrow> (metric_redis, string list) prog" where
  "redis_keys stem = when_reachable (\<lambda>r. filter (starts_with stem)
     (dict_keys (mr_counters r) @ remdups (map fst (dict_keys (mr_hashes r))) @ dict_keys (mr_texts r)))"

section \<open>api/overview.py\<close>

text \<open>\<open>sum\<close> of floats adds from the left.\<close>

definition fsum :: "pyfloat list \<Rightarrow> pyfloat" where
  "fsum xs = foldl fadd 0 xs"

record overview =
  ov_services_total :: int
  ov_by_status :: "(string, int) pydict"
  ov_desired_replicas :: int
  ov_actual_replicas :: int
  ov_unhealthy_replicas :: int
  ov_nodes_total :: int
  ov_cpu_reserved :: pyfloat
  ov_cpu_actual :: pyfloat
  ov_cpu_capacity :: pyfloat
  ov_memory_reserved_mb :: pyfloat
  ov_memory_actual_mb :: pyfloat
  ov_memory_capacity_mb :: int
  ov_scheduler_policy :: string
  ov_recent_event_count :: int
  ov_warnings :: "string list"

definition build_warnings :: "service_state list \<Rightarrow> nat \<Rightarrow> pyfloat \<Rightarrow> pyfloat \<Rightarrow> string list" where
  "build_warnings services node_count total_cpu used_cpu =
     (if node_count = 0 then [''No nodes are registered''] else [])
   @ (if total_cpu \<noteq> 0 \<and> fl (4 / 5) < fdiv used_cpu total_cpu then [''Cluster CPU allocation is above 80%''] else [])
   @ concat (map (\<lambda>s. let desired = sp_replicas (ss_spec s); actual = int (length (running s)) in
       if actual < desired then [sp_name (ss_spec s) @ '' has '' @ str_int actual @ ''/'' @ str_int desired @ '' running replicas''] else []) services)"

definition overview_of :: "settings \<Rightarrow> service_state list \<Rightarrow> node_state list \<Rightarrow> web_socket_event list \<Rightarrow> overview" where
  "overview_of cfg services nodes events =
    (let reserved_cpu = fsum (map (\<lambda>n. ru_cpu_used (nd_usage n)) nodes);
         total_cpu = fsum (map (\<lambda>n. nsp_cpu_capacity (nd_spec n)) nodes)
     in \<lparr>ov_services_total = int (length services),
       ov_by_status = foldl (\<lambda>d s. count_add (status_value (ss_status s)) 1 d) [] services,
       ov_desired_replicas = sum_list (map (\<lambda>s. sp_replicas (ss_spec s)) services),
       ov_actual_replicas = int (length (concat (map running services))),
       ov_unhealthy_replicas = int (length (concat (map (\<lambda>s. filter (\<lambda>r. rs_status r \<noteq> RUNNING) (ss_replicas s)) services))),
       ov_nodes_total = int (length nodes),
       ov_cpu_reserved = reserved_cpu,
       ov_cpu_actual = fsum (map (\<lambda>n. ru_cpu_used (nd_actual_usage n)) nodes),
       ov_cpu_capacity = total_cpu,
       ov_memory_reserved_mb = fsum (map (\<lambda>n. ru_memory_used_mb (nd_usage n)) nodes),
       ov_memory_actual_mb = fsum (map (\<lambda>n. ru_memory_used_mb (nd_actual_usage n)) nodes),
       ov_memory_capacity_mb = sum_list (map (\<lambda>n. nsp_memory_capacity_mb (nd_spec n)) nodes),
       ov_scheduler_policy = cfg_scheduler_policy cfg,
       ov_recent_event_count = int (length events),
       ov_warnings = build_warnings services (length nodes) total_cpu reserved_cpu\<rparr>)"

definition get_overview :: "('d, 'r, 'k) plane_env \<Rightarrow> string \<Rightarrow> (('d, 'r, 'k) plane, overview) prog" where
  "get_overview pe token = for_user pe token (\<lambda>_.
     bind_p (on_world (so_list get_service_store)) (\<lambda>services.
     bind_p (on_world get_node_store) (\<lambda>nodes.
     bind_p (recent_events pe) (\<lambda>events.
     ret (overview_of (en_cfg (pe_env pe)) services (dict_values nodes) events)))))"

section \<open>api/platform.py: containers and settings\<close>

definition platform_service_order :: "string list" where
  "platform_service_order = [''control-plane'', ''orchestrator'', ''proxy'', ''health-checker'', ''autoscaler'', ''postgres'', ''redis'']"

definition describe_platform_service :: "string \<Rightarrow> string" where
  "describe_platform_service service_name = dict_get_or
     [(''control-plane'', ''REST API, dashboard, IaC, desired state writes''),
      (''orchestrator'', ''reconcile loop, Docker actuation, node placement''),
      (''proxy'', ''HTTP ingress and request routing''),
      (''health-checker'', ''replica probing and health state''),
      (''autoscaler'', ''replica decisions from CPU/RPS metrics''),
      (''postgres'', ''persistent desired and observed state''),
      (''redis'', ''routing, metrics, and event stream'')] service_name []"

definition ordered_platform_services :: "compose_container_info list \<Rightarrow> (compose_container_info \<times> string) list" where
  "ordered_platform_services containers =
    (let by_service = dict_of_list (map (\<lambda>c. (cc_service c, c)) containers);
         ordered_names = filter (dict_has by_service) platform_service_order
           @ sort (filter (\<lambda>name. name \<notin> set platform_service_order) (dict_keys by_service))
     in map (\<lambda>name. (the (dict_get by_service name), describe_platform_service name)) ordered_names)"

definition list_platform_services :: "('d, 'r, 'k) plane_env \<Rightarrow> string \<Rightarrow> (('d, 'r, 'k) plane, (compose_container_info \<times> string) list) prog" where
  "list_platform_services pe token = for_role pe ADMIN token (\<lambda>_.
     bind_p (on_world (call_docker (list_compose_containers (en_docker (pe_env pe)) ''aws-light''))) (\<lambda>containers.
     ret (ordered_platform_services containers)))"

definition get_platform_config :: "('d, 'r, 'k) plane_env \<Rightarrow> string \<Rightarrow> (('d, 'r, 'k) plane, string \<times> nat \<times> pyfloat \<times> int) prog" where
  "get_platform_config pe token = for_user pe token (\<lambda>_. let cfg = en_cfg (pe_env pe) in
     ret (cfg_scheduler_policy cfg, cfg_node_count cfg, cfg_node_cpu_capacity cfg, cfg_node_memory_capacity_mb cfg))"

definition get_platform_service_logs :: "('d, 'r, 'k) plane_env \<Rightarrow> string \<Rightarrow> string \<Rightarrow> int
    \<Rightarrow> (('d, 'r, 'k) plane, string \<times> string \<times> string \<times> string) prog" where
  "get_platform_service_logs pe token service_name tail = for_role pe ADMIN token (\<lambda>_.
     bind_p (on_world (call_docker (list_compose_containers (en_docker (pe_env pe)) ''aws-light''))) (\<lambda>containers.
     case find (\<lambda>c. cc_service c = service_name) containers of
       None \<Rightarrow> raise (HTTPException 404 (''Platform service '' @ quoted service_name @ '' not found''))
     | Some c \<Rightarrow> bind_p (on_world (call_docker (get_container_logs (en_docker (pe_env pe)) (cc_container_id c) (bounded 1000 tail)))) (\<lambda>logs.
         ret (service_name, cc_container_id c, cc_name c, logs))))"

section \<open>api/platform.py: activity\<close>

text \<open>\<open>str(x)\<close> of a payload's value; that of a float, a list or a dict is the parameter \<open>rp\<close>.\<close>

fun py_str :: "(json \<Rightarrow> string) \<Rightarrow> json \<Rightarrow> string" where
  "py_str rp (JStr s) = s"
| "py_str rp JNull = ''None''"
| "py_str rp (JBool b) = (if b then ''True'' else ''False'')"
| "py_str rp (JInt i) = str_int i"
| "py_str rp j = rp j"

fun json_true :: "json \<Rightarrow> bool" where
  "json_true JNull = False"
| "json_true (JBool b) = b"
| "json_true (JInt i) = (i \<noteq> 0)"
| "json_true (JFloat x) = (x \<noteq> 0)"
| "json_true (JStr s) = (s \<noteq> [])"
| "json_true (JList js) = (js \<noteq> [])"
| "json_true (JDict d) = (d \<noteq> [])"

definition payload_get :: "(string, json) pydict \<Rightarrow> string \<Rightarrow> json" where
  "payload_get payload key = dict_get_or payload key JNull"

definition platform_service_for_event :: "string \<Rightarrow> string option" where
  "platform_service_for_event kind =
    (if kind = ''platform.started'' then None
     else if kind \<in> {''proxy.request_failed'', ''proxy.traffic_observed''} then Some ''proxy''
     else if kind \<in> {''replica.started'', ''replica.stopped'', ''service.updated'', ''scheduler.selected'', ''scheduler.no_capacity'',
        ''rollout.progress''} then Some ''orchestrator''
     else if kind \<in> {''autoscale.evaluated'', ''autoscale.triggered''} then Some ''autoscaler''
     else if kind \<in> {''health_check.failed'', ''health_check.passed'', ''health_check.recovered''} then Some ''health-checker''
     else if kind \<in> {''secret.created'', ''bucket.created'', ''object.uploaded''} then Some ''control-plane''
     else None)"

definition component_for_event :: "(json \<Rightarrow> string) \<Rightarrow> string \<Rightarrow> (string, json) pydict \<Rightarrow> string option" where
  "component_for_event rp kind payload =
    (if kind = ''platform.started'' then
       (let component = payload_get payload ''component'' in if component \<noteq> JNull then Some (py_str rp component) else None)
     else platform_service_for_event kind)"

definition short :: "(json \<Rightarrow> string) \<Rightarrow> json \<Rightarrow> string" where
  "short rp v = take 8 (py_str rp (if json_true v then v else JStr []))"

definition summarize_activity :: "(json \<Rightarrow> string) \<Rightarrow> string \<Rightarrow> (string, json) pydict \<Rightarrow> string" where
  "summarize_activity rp kind payload =
    (let get = (\<lambda>key. py_str rp (payload_get payload key)); replica = short rp (payload_get payload ''replica_id'') in
     if kind = ''platform.started'' then ''Started '' @ get ''component''
     else if kind = ''replica.started'' then ''Started replica '' @ replica @ '' for '' @ get ''service_name'' @ '' on '' @ get ''node_id''
     else if kind = ''replica.stopped'' then ''Stopped replica '' @ replica @ '' for '' @ get ''service_name''
     else if kind = ''service.updated'' then
       ''Service '' @ get ''service_name'' @ '' is '' @ get ''status'' @ '' with '' @ get ''replica_count'' @ '' replicas''
     else if kind = ''scheduler.selected'' then
       ''Scheduled '' @ get ''service_name'' @ '' on '' @ get ''node_id'' @ '' using '' @ get ''scheduler_policy''
     else if kind = ''scheduler.no_capacity'' then
       ''Could not schedule '' @ get ''service_name'' @ '': no node fits cpu='' @ get ''cpu_request'' @ '' memory='' @ get ''memory_request_mb'' @ ''mb''
     else if kind = ''health_check.failed'' then
       ''Marked '' @ get ''service_name'' @ '' replica '' @ replica @ '' unhealthy after '' @ get ''consecutive_failures'' @ '' failures''
     else if kind = ''health_check.passed'' then ''Marked '' @ get ''service_name'' @ '' replica '' @ replica @ '' routeable''
     else if kind = ''proxy.request_failed'' then
       ''Returned '' @ get ''status_code'' @ '' for ''
         @ py_str rp (let v = payload_get payload ''service_name'' in if json_true v then v else JStr ''unknown'')
         @ '' ('' @ get ''failure_reason'' @ '')''
     else if kind = ''proxy.traffic_observed'' then
       ''Handled '' @ get ''requests_total'' @ '' requests in '' @ get ''window_seconds'' @ ''s with '' @ get ''errors_total'' @ '' errors''
     else if kind = ''autoscale.triggered'' then
       ''Scaled '' @ get ''service_name'' @ '' from '' @ get ''from_replicas'' @ '' to '' @ get ''to_replicas'' @ '' replicas''
     else if kind = ''autoscale.evaluated'' then
       ''Evaluated '' @ get ''service_name'' @ '': decision='' @ get ''decision'' @ '' cpu='' @ get ''average_cpu_percent'' @ '' rps=''
         @ get ''requests_per_second''
     else if kind = ''health_check.recovered'' then ''Recovered '' @ get ''service_name'' @ '' replica '' @ replica
     else if kind = ''rollout.progress'' then
       ''Rollout for '' @ get ''service_name'' @ '' step '' @ get ''step'' @ ''/'' @ get ''total_steps''
     else if kind = ''secret.created'' then ''Created secret '' @ get ''secret_name''
     else if kind = ''bucket.created'' then ''Created bucket '' @ get ''bucket_name''
     else if kind = ''object.uploaded'' then
       ''Uploaded '' @ get ''bucket_name'' @ ''/'' @ get ''object_key'' @ '' ('' @ get ''size_bytes'' @ '' bytes)''
     else kind)"

record activity =
  ac_service :: string
  ac_timestamp :: timestamp
  ac_kind :: string
  ac_summary :: string
  ac_payload :: "(string, json) pydict"

definition event_to_activity :: "(json \<Rightarrow> string) \<Rightarrow> web_socket_event \<Rightarrow> activity option" where
  "event_to_activity rp e = (let kind = kind_value (ev_kind e) in
     map_option (\<lambda>service. \<lparr>ac_service = service, ac_timestamp = ev_timestamp e, ac_kind = kind,
       ac_summary = summarize_activity rp kind (ev_payload e), ac_payload = ev_payload e\<rparr>)
       (component_for_event rp kind (ev_payload e)))"

definition activities_of :: "(json \<Rightarrow> string) \<Rightarrow> string \<Rightarrow> web_socket_event list \<Rightarrow> activity list" where
  "activities_of rp service_name events =
     take 50 (filter (\<lambda>a. ac_service a = service_name) (List.map_filter (event_to_activity rp) (rev events)))"

definition get_platform_service_activity :: "('d, 'r, 'k) plane_env \<Rightarrow> (json \<Rightarrow> string) \<Rightarrow> string \<Rightarrow> string
    \<Rightarrow> (('d, 'r, 'k) plane, string \<times> activity list) prog" where
  "get_platform_service_activity pe rp token service_name = for_role pe ADMIN token (\<lambda>_.
     if service_name \<notin> set platform_service_order
     then raise (HTTPException 404 (''Platform service '' @ quoted service_name @ '' not found''))
     else bind_p (recent_events pe) (\<lambda>events. ret (service_name, activities_of rp service_name events)))"

definition is_platform_activity :: "(json \<Rightarrow> string) \<Rightarrow> web_socket_event \<Rightarrow> bool" where
  "is_platform_activity rp e \<longleftrightarrow> component_for_event rp (kind_value (ev_kind e)) (ev_payload e) \<noteq> None"

definition matches_event_filter :: "(json \<Rightarrow> string) \<Rightarrow> string option \<Rightarrow> string option \<Rightarrow> web_socket_event \<Rightarrow> bool" where
  "matches_event_filter rp component service e =
    (if component \<noteq> None \<and> component_for_event rp (kind_value (ev_kind e)) (ev_payload e) \<noteq> component then False
     else \<not> (service \<noteq> None \<and> payload_get (ev_payload e) ''service_name'' \<noteq> JStr (the service)))"

definition platform_events_of :: "(json \<Rightarrow> string) \<Rightarrow> int \<Rightarrow> string option \<Rightarrow> string option \<Rightarrow> web_socket_event list \<Rightarrow> web_socket_event list" where
  "platform_events_of rp limit component service events =
     take (nat (bounded 500 limit)) (filter (\<lambda>e. is_platform_activity rp e \<and> matches_event_filter rp component service e) (rev events))"

definition get_platform_events :: "('d, 'r, 'k) plane_env \<Rightarrow> (json \<Rightarrow> string) \<Rightarrow> string \<Rightarrow> int \<Rightarrow> string option \<Rightarrow> string option
    \<Rightarrow> (('d, 'r, 'k) plane, web_socket_event list \<times> int) prog" where
  "get_platform_events pe rp token limit component service = for_user pe token (\<lambda>_.
     bind_p (recent_events pe) (\<lambda>events. ret (platform_events_of rp limit component service events, bounded 500 limit)))"

section \<open>api/platform.py: metrics and routing\<close>

text \<open>\<open>int(value)\<close> with 0 for \<open>None\<close> and for text that is no number.\<close>

definition to_int :: "string option \<Rightarrow> int" where
  "to_int v = (case v of None \<Rightarrow> 0 | Some s \<Rightarrow> (case py_int s of None \<Rightarrow> 0 | Some i \<Rightarrow> i))"

definition int_map :: "(string, string) pydict \<Rightarrow> (string, int) pydict" where
  "int_map d = dict_of_list (map (\<lambda>(k, v). (k, to_int (Some v))) d)"

record proxy_metrics_view =
  mv_requests_total :: int
  mv_requests_by_service :: "(string, int) pydict"
  mv_responses_by_status :: "(string, int) pydict"
  mv_failures :: "(string, int) pydict"

definition read_platform_metrics :: "(metric_redis, proxy_metrics_view) prog" where
  "read_platform_metrics =
     bind_p (redis_get ''proxy:requests:total'') (\<lambda>counted.
     bind_p (hgetall ''proxy:requests:service'') (\<lambda>by_service.
     bind_p (hgetall ''proxy:responses:status'') (\<lambda>by_status.
     bind_p (hgetall ''proxy:failures'') (\<lambda>failures.
     ret \<lparr>mv_requests_total = to_int counted, mv_requests_by_service = int_map by_service,
       mv_responses_by_status = int_map by_status, mv_failures = int_map failures\<rparr>))))"

definition get_platform_metrics :: "('d, 'r, 'k) plane_env \<Rightarrow> string \<Rightarrow> (('d, 'r, 'k) plane, proxy_metrics_view) prog" where
  "get_platform_metrics pe token = for_role pe ADMIN token (\<lambda>_. on_metrics read_platform_metrics)"

text \<open>\<open>key.rsplit(":", 1)[1]\<close> as a number; \<open>IndexError\<close> and \<open>ValueError\<close> give \<open>None\<close>.\<close>

definition bucket_id_from_key :: "string \<Rightarrow> int option" where
  "bucket_id_from_key key = (case rsplit1 CHR '':'' key of [_, n] \<Rightarrow> py_int n | _ \<Rightarrow> None)"

definition recent_timeseries_buckets :: "int \<Rightarrow> (metric_redis, int list) prog" where
  "recent_timeseries_buckets limit = bind_p (redis_keys ''proxy:ts:requests:'') (\<lambda>keys.
     let bucket_ids = rev (sort (List.map_filter bucket_id_from_key keys))
     in ret (sort (take (nat limit) bucket_ids)))"

definition latency_average_ms :: "int \<Rightarrow> int \<Rightarrow> pyfloat" where
  "latency_average_ms latency_sum_centims latency_count =
    (if latency_count \<le> 0 then 0 else round2 (fdiv (int_div latency_sum_centims 100) (float_of_int latency_count)))"

record bucket_view =
  bv_bucket :: int
  bv_requests_total :: int
  bv_errors_total :: int
  bv_requests_by_service :: "(string, int) pydict"
  bv_errors_by_service :: "(string, int) pydict"
  bv_responses_by_status :: "(string, int) pydict"
  bv_avg_latency_ms_by_service :: "(string, pyfloat) pydict"

definition read_bucket :: "int \<Rightarrow> (metric_redis, bucket_view) prog" where
  "read_bucket bucket_id =
     bind_p (hgetall (''proxy:ts:requests:'' @ str_int bucket_id)) (\<lambda>requests.
     bind_p (hgetall (''proxy:ts:errors:'' @ str_int bucket_id)) (\<lambda>errors.
     bind_p (hgetall (''proxy:ts:status:'' @ str_int bucket_id)) (\<lambda>statuses.
     bind_p (hgetall (''proxy:ts:latency_sum:'' @ str_int bucket_id)) (\<lambda>latency_sum.
     bind_p (hgetall (''proxy:ts:latency_count:'' @ str_int bucket_id)) (\<lambda>latency_count.
     let requests = int_map requests; errors = int_map errors; latency_sum = int_map latency_sum; latency_count = int_map latency_count;
         services = sort (remdups (dict_keys requests @ dict_keys errors @ dict_keys latency_sum @ dict_keys latency_count))
     in ret \<lparr>bv_bucket = bucket_id,
       bv_requests_total = sum_list (dict_values requests),
       bv_errors_total = sum_list (dict_values errors),
       bv_requests_by_service = requests,
       bv_errors_by_service = errors,
       bv_responses_by_status = int_map statuses,
       bv_avg_latency_ms_by_service = map (\<lambda>service. (service, latency_average_ms (dict_get_or latency_sum service 0)
          (dict_get_or latency_count service 0))) services\<rparr>)))))"

definition read_timeseries :: "int \<Rightarrow> (metric_redis, bucket_view list) prog" where
  "read_timeseries buckets = bind_p (recent_timeseries_buckets (bounded 180 buckets)) (map_p read_bucket)"

definition get_platform_timeseries :: "('d, 'r, 'k) plane_env \<Rightarrow> string \<Rightarrow> int \<Rightarrow> (('d, 'r, 'k) plane, int \<times> bucket_view list) prog" where
  "get_platform_timeseries pe token buckets = for_role pe ADMIN token (\<lambda>_.
     bind_p (on_metrics (read_timeseries buckets)) (\<lambda>series. ret (10, series)))"

definition get_platform_routing :: "('d, 'r, 'k) plane_env \<Rightarrow> string \<Rightarrow> (('d, 'r, 'k) plane, (string \<times> endpoint list) list) prog" where
  "get_platform_routing pe token = for_role pe ADMIN token (\<lambda>_.
     bind_p (routing_service_names pe) (\<lambda>names.
     map_p (\<lambda>name. bind_p (routing_endpoints_of pe name) (\<lambda>endpoints. ret (name, endpoints))) (sort names)))"

end
