(* ===== verification/Topology.thy ===== *)
theory Topology
  imports Views
begin

text \<open>
  The topology graph of \<open>api/topology.py\<close>: a node for every part of the platform, every node, bucket,
  database, service and replica, and an edge for every relation between them, with the traffic the proxy
  has counted.
\<close>

section \<open>Nodes and edges\<close>

record graph_node =
  gn_id :: string
  gn_label :: string
  gn_kind :: string
  gn_metadata :: "(string, json) pydict"

record graph_edge =
  ge_source :: string
  ge_target :: string
  ge_label :: string
  ge_metadata :: "(string, json) pydict"

definition gnode :: "string \<Rightarrow> string \<Rightarrow> string \<Rightarrow> (string, json) pydict \<Rightarrow> graph_node" where
  "gnode node_id label kind metadata = \<lparr>gn_id = node_id, gn_label = label, gn_kind = kind, gn_metadata = metadata\<rparr>"

definition gedge :: "string \<Rightarrow> string \<Rightarrow> string \<Rightarrow> (string, json) pydict \<Rightarrow> graph_edge" where
  "gedge source target label metadata = \<lparr>ge_source = source, ge_target = target, ge_label = label, ge_metadata = metadata\<rparr>"

section \<open>The traffic of the proxy\<close>

text \<open>\<open>_int_map\<close> keeps the values that are digits after any number of minus signs; \<open>int\<close> still raises for
  more than one sign.\<close>

definition looks_like_int :: "string \<Rightarrow> bool" where
  "looks_like_int v = (let digits = dropWhile (\<lambda>c. c = CHR ''-'') v in digits \<noteq> [] \<and> list_all is_digit digits)"

fun strict_int_map :: "(string, string) pydict \<Rightarrow> (string, int) pydict result" where
  "strict_int_map [] = Inr []"
| "strict_int_map ((k, v) # d) = (if looks_like_int v then (case py_int v of
       None \<Rightarrow> Inl (ValueError ''int'') | Some i \<Rightarrow> bind_r (strict_int_map d) (\<lambda>r. Inr ((k, i) # r)))
     else strict_int_map d)"

definition read_ints :: "string \<Rightarrow> (metric_redis, (string, int) pydict) prog" where
  "read_ints key = bind_p (hgetall key) (\<lambda>d. case strict_int_map d of Inl e \<Rightarrow> raise e | Inr r \<Rightarrow> ret r)"

definition proxy_bucket_ids :: "(metric_redis, int list) prog" where
  "proxy_bucket_ids = bind_p (redis_keys ''proxy:ts:requests:'') (\<lambda>keys. ret (sort (List.map_filter bucket_id_from_key keys)))"

definition add_counts :: "(string, int) pydict \<Rightarrow> (string, int) pydict \<Rightarrow> (string, int) pydict" where
  "add_counts acc d = foldl (\<lambda>acc (service, n). count_add service n acc) acc d"

type_synonym traffic_sums = "(string, int) pydict \<times> (string, int) pydict \<times> (string, int) pydict"

fun sum_buckets :: "int list \<Rightarrow> traffic_sums \<Rightarrow> (metric_redis, traffic_sums) prog" where
  "sum_buckets [] acc = ret acc"
| "sum_buckets (bucket_id # rest) (errors, latency_sum, latency_count) =
     bind_p (read_ints (''proxy:ts:errors:'' @ str_int bucket_id)) (\<lambda>e.
     bind_p (read_ints (''proxy:ts:latency_sum:'' @ str_int bucket_id)) (\<lambda>s.
     bind_p (read_ints (''proxy:ts:latency_count:'' @ str_int bucket_id)) (\<lambda>c.
     sum_buckets rest (add_counts errors e, add_counts latency_sum s, add_counts latency_count c))))"

definition proxy_traffic_by_service :: "(metric_redis, (string, (string, json) pydict) pydict) prog" where
  "proxy_traffic_by_service = bind_p (read_ints ''proxy:requests:service'') (\<lambda>requests.
     if requests = [] then ret []
     else bind_p proxy_bucket_ids (\<lambda>bucket_ids.
       bind_p (sum_buckets bucket_ids ([], [], [])) (\<lambda>(errors, latency_sum, latency_count).
       ret (map (\<lambda>(service, n). (service, [(''requests_total'', JInt n), (''errors_total'', JInt (dict_get_or errors service 0)),
         (''avg_latency_ms'', JFloat (latency_average_ms (dict_get_or latency_sum service 0) (dict_get_or latency_count service 0)))]))
         requests))))"

section \<open>The graph\<close>

definition platform_nodes :: "graph_node list" where
  "platform_nodes = [
     gnode ''client'' ''Client'' ''external'' [],
     gnode ''proxy'' ''Proxy'' ''platform'' [],
     gnode ''redis-routing'' ''Redis routing table'' ''datastore'' [],
     gnode ''redis-metrics'' ''Redis metrics/events'' ''datastore'' [],
     gnode ''control-plane'' ''Control plane'' ''platform'' [],
     gnode ''postgres'' ''Postgres state store'' ''datastore'' [],
     gnode ''orchestrator'' ''Orchestrator'' ''platform'' [],
     gnode ''health-checker'' ''Health checker'' ''platform'' [],
     gnode ''autoscaler'' ''Autoscaler'' ''platform'' [],
     gnode ''storage'' ''Storage volume'' ''datastore'' []]"

definition platform_edges :: "graph_edge list" where
  "platform_edges = [
     gedge ''client'' ''proxy'' ''HTTP requests'' [],
     gedge ''proxy'' ''redis-routing'' ''reads routing table'' [],
     gedge ''control-plane'' ''postgres'' ''desired/observed state'' [],
     gedge ''control-plane'' ''storage'' ''bucket/object IO'' [],
     gedge ''orchestrator'' ''postgres'' ''reads desired state, writes observed state'' [],
     gedge ''orchestrator'' ''redis-routing'' ''publishes replica endpoints'' [],
     gedge ''orchestrator'' ''redis-metrics'' ''publishes events and CPU metrics'' [],
     gedge ''health-checker'' ''postgres'' ''reads services'' [],
     gedge ''health-checker'' ''redis-routing'' ''updates endpoint health'' [],
     gedge ''autoscaler'' ''redis-metrics'' ''reads CPU/RPS metrics'' [],
     gedge ''autoscaler'' ''postgres'' ''updates service replica target'' []]"

definition node_graph_node :: "node_state \<Rightarrow> graph_node" where
  "node_graph_node n = gnode (''node:'' @ nsp_node_id (nd_spec n)) (nsp_node_id (nd_spec n)) ''node''
     [(''cpu_used'', JFloat (ru_cpu_used (nd_usage n))),
      (''cpu_reserved'', JFloat (ru_cpu_used (nd_usage n))),
      (''cpu_actual'', JFloat (ru_cpu_used (nd_actual_usage n))),
      (''cpu_capacity'', JFloat (nsp_cpu_capacity (nd_spec n))),
      (''memory_used_mb'', JFloat (ru_memory_used_mb (nd_usage n))),
      (''memory_reserved_mb'', JFloat (ru_memory_used_mb (nd_usage n))),
      (''memory_actual_mb'', JFloat (ru_memory_used_mb (nd_actual_usage n))),
      (''memory_capacity_mb'', JInt (nsp_memory_capacity_mb (nd_spec n)))]"

definition bucket_graph_node :: "bucket \<Rightarrow> graph_node" where
  "bucket_graph_node b = gnode (''bucket:'' @ bk_name b) (bk_name b) ''bucket'' []"

definition database_graph_node :: "database_state \<Rightarrow> graph_node" where
  "database_graph_node d = gnode (''database:'' @ dsp_name (ds_spec d)) (dsp_name (ds_spec d)) ''database''
     [(''engine'', JStr (case dsp_engine (ds_spec d) of Postgres \<Rightarrow> ''postgres'')), (''version'', JStr (dsp_version (ds_spec d))),
      (''status'', JStr (status_value (ds_status d)))]"

definition service_id :: "string \<Rightarrow> string" where "service_id name = ''service:'' @ name"

definition service_graph_node :: "service_state \<Rightarrow> graph_node" where
  "service_graph_node s = gnode (service_id (sp_name (ss_spec s))) (sp_name (ss_spec s)) ''service''
     [(''desired_replicas'', JInt (sp_replicas (ss_spec s))),
      (''actual_replicas'', JInt (int (length (ss_replicas s)))),
      (''status'', JStr (status_value (ss_status s))),
      (''ingress_external'', JBool (in_external (sp_ingress (ss_spec s)))),
      (''ingress_internal'', JBool (ip_enabled (in_internal (sp_ingress (ss_spec s))))),
      (''ingress_internal_allow_from'', JList (map JStr (ip_allow_from (in_internal (sp_ingress (ss_spec s))))))]"

definition service_edges :: "(string, (string, json) pydict) pydict \<Rightarrow> service_state \<Rightarrow> graph_edge list" where
  "service_edges proxy_traffic s = (let sid = service_id (sp_name (ss_spec s)) in
     [gedge ''proxy'' sid ''routes requests'' []]
   @ (case dict_get proxy_traffic (sp_name (ss_spec s)) of None \<Rightarrow> [] | Some metadata \<Rightarrow> [gedge ''proxy'' sid ''observed traffic'' metadata])
   @ [gedge ''health-checker'' sid ''checks health'' [], gedge ''autoscaler'' sid ''adjusts desired replicas'' []]
   @ map (\<lambda>b. gedge sid (''bucket:'' @ bb_name b) ''binds bucket'' [(''access'', JList (map (JStr \<circ> access_value) (bb_access b)))])
       (rb_buckets (sp_resources (ss_spec s)))
   @ map (\<lambda>b. gedge sid (''database:'' @ dbb_name b) ''binds database'' [(''access'', JList (map (\<lambda>_. JStr ''connect'') (dbb_access b)))])
       (rb_databases (sp_resources (ss_spec s)))
   @ map (\<lambda>source. gedge (service_id source) sid ''allowed internal ingress'' []) (ip_allow_from (in_internal (sp_ingress (ss_spec s)))))"

definition replica_id_of :: "replica_state \<Rightarrow> string" where
  "replica_id_of r = ''replica:'' @ rs_replica_id r"

definition replica_graph_node :: "service_state \<Rightarrow> endpoint option \<Rightarrow> replica_state \<Rightarrow> graph_node" where
  "replica_graph_node s routing_endpoint r = gnode (replica_id_of r) (take 8 (rs_replica_id r)) ''replica''
     [(''service'', JStr (sp_name (ss_spec s))), (''status'', JStr (status_value (rs_status r))), (''container_ip'', JStr (rs_container_ip r)),
      (''routed'', JBool (routing_endpoint \<noteq> None)),
      (''route_healthy'', JBool (case routing_endpoint of None \<Rightarrow> False | Some e \<Rightarrow> ep_healthy e))]"

definition replica_edges :: "service_state \<Rightarrow> endpoint option \<Rightarrow> replica_state \<Rightarrow> graph_edge list" where
  "replica_edges s routing_endpoint r =
     [gedge (service_id (sp_name (ss_spec s))) (replica_id_of r) ''owns replica'' []]
   @ (case routing_endpoint of None \<Rightarrow> []
      | Some e \<Rightarrow> gedge ''redis-routing'' (replica_id_of r) ''registered endpoint''
            [(''host'', JStr (ep_host e)), (''port'', JInt (ep_port e)), (''healthy'', JBool (ep_healthy e))]
          # (if ep_healthy e then [gedge ''proxy'' (replica_id_of r) ''forwards traffic'' []] else []))
   @ [gedge (replica_id_of r) (''node:'' @ rs_node_id r) ''scheduled on'' []]"

text \<open>\<open>routes\<close> holds the endpoints of every service of the routing table.\<close>

definition routed_by_replica :: "(string, endpoint list) pydict \<Rightarrow> service_state \<Rightarrow> (string, endpoint) pydict" where
  "routed_by_replica routes s = dict_of_list (map (\<lambda>e. (ep_replica_id e, e)) (dict_get_or routes (sp_name (ss_spec s)) []))"

definition service_graph :: "(string, (string, json) pydict) pydict \<Rightarrow> (string, endpoint list) pydict \<Rightarrow> service_state
    \<Rightarrow> graph_node list \<times> graph_edge list" where
  "service_graph proxy_traffic routes s = (let by_replica = routed_by_replica routes s in
     (service_graph_node s # map (\<lambda>r. replica_graph_node s (dict_get by_replica (rs_replica_id r)) r) (ss_replicas s),
      service_edges proxy_traffic s @ concat (map (\<lambda>r. replica_edges s (dict_get by_replica (rs_replica_id r)) r) (ss_replicas s))))"

record graph =
  gr_nodes :: "graph_node list"
  gr_edges :: "graph_edge list"

definition topology_graph :: "service_state list \<Rightarrow> database_state list \<Rightarrow> bucket list \<Rightarrow> node_state list
    \<Rightarrow> (string, (string, json) pydict) pydict \<Rightarrow> (string, endpoint list) pydict \<Rightarrow> graph" where
  "topology_graph services databases buckets nodes proxy_traffic routes = \<lparr>
     gr_nodes = platform_nodes @ map node_graph_node nodes @ map bucket_graph_node buckets @ map database_graph_node databases
       @ concat (map (\<lambda>s. fst (service_graph proxy_traffic routes s)) services),
     gr_edges = platform_edges @ concat (map (\<lambda>s. snd (service_graph proxy_traffic routes s)) services)\<rparr>"

definition get_topology :: "('d, 'r, 'k) plane_env \<Rightarrow> string \<Rightarrow> (('d, 'r, 'k) plane, graph) prog" where
  "get_topology pe token = for_user pe token (\<lambda>_.
     bind_p (on_world (so_list get_service_store)) (\<lambda>services.
     bind_p (on_world get_database_store) (\<lambda>databases.
     bind_p (on_storage (list_buckets (pe_storage pe))) (\<lambda>buckets.
     bind_p (on_world get_node_store) (\<lambda>nodes.
     bind_p (on_metrics proxy_traffic_by_service) (\<lambda>proxy_traffic.
     bind_p (routing_service_names pe) (\<lambda>names.
     bind_p (map_p (\<lambda>name. bind_p (routing_endpoints_of pe name) (\<lambda>endpoints. ret (name, endpoints))) names) (\<lambda>routes.
     ret (topology_graph services (dict_values databases) buckets (dict_values nodes) proxy_traffic routes)))))))))"

end
