(* ===== verification/TopologyFacts.thy ===== *)
theory TopologyFacts
  imports Topology
begin

text \<open>
  The topology graph is a graph: its nodes have different identifiers, and an edge that does not connect two
  of its nodes stands for a reference of a service to something that does not exist.
\<close>

section \<open>The identifiers of the graph\<close>

definition graph_ids :: "graph \<Rightarrow> string list" where
  "graph_ids g = map gn_id (gr_nodes g)"

abbreviation service_name_of :: "service_state \<Rightarrow> string" where
  "service_name_of s \<equiv> sp_name (ss_spec s)"

definition platform_ids :: "string list" where
  "platform_ids = map gn_id platform_nodes"

lemma platform_ids_eq: "platform_ids = [''client'', ''proxy'', ''redis-routing'', ''redis-metrics'', ''control-plane'', ''postgres'',
    ''orchestrator'', ''health-checker'', ''autoscaler'', ''storage'']"
  by (simp add: platform_ids_def platform_nodes_def gnode_def)

lemma service_graph_ids: "map gn_id (fst (service_graph t routes s)) = service_id (service_name_of s) # map replica_id_of (ss_replicas s)"
  by (simp add: service_graph_def Let_def service_graph_node_def replica_graph_node_def gnode_def comp_def)

lemma graph_ids_eq:
  "graph_ids (topology_graph services databases buckets nodes t routes) = platform_ids
     @ map (\<lambda>n. ''node:'' @ nsp_node_id (nd_spec n)) nodes @ map (\<lambda>b. ''bucket:'' @ bk_name b) buckets
     @ map (\<lambda>d. ''database:'' @ dsp_name (ds_spec d)) databases
     @ concat (map (\<lambda>s. service_id (service_name_of s) # map replica_id_of (ss_replicas s)) services)"
  by (simp add: graph_ids_def topology_graph_def platform_ids_def node_graph_node_def bucket_graph_node_def database_graph_node_def
    gnode_def comp_def map_concat service_graph_ids)

lemma service_ids_distinct:
  "distinct (map service_name_of services) \<Longrightarrow> distinct (concat (map (\<lambda>s. map rs_replica_id (ss_replicas s)) services)) \<Longrightarrow>
    distinct (concat (map (\<lambda>s. service_id (service_name_of s) # map replica_id_of (ss_replicas s)) services))"
proof (induction services)
  case (Cons s services)
  have "distinct (map replica_id_of (ss_replicas s))" using Cons.prems(2) by (simp add: distinct_map inj_on_def replica_id_of_def)
  moreover have "service_id (service_name_of s) \<notin> set (concat (map (\<lambda>s. service_id (service_name_of s) # map replica_id_of (ss_replicas s)) services))"
    using Cons.prems(1) by (auto simp: service_id_def replica_id_of_def)
  moreover have "set (map replica_id_of (ss_replicas s)) \<inter>
      set (concat (map (\<lambda>s. service_id (service_name_of s) # map replica_id_of (ss_replicas s)) services)) = {}"
    using Cons.prems(2) by (auto simp: service_id_def replica_id_of_def)
  moreover have "service_id (service_name_of s) \<notin> set (map replica_id_of (ss_replicas s))"
    by (auto simp: service_id_def replica_id_of_def)
  ultimately show ?case using Cons by (auto simp del: set_concat)
qed simp

section \<open>The ends of the edges\<close>

text \<open>References of the services that lead nowhere.\<close>

definition dangling_source :: "service_state list \<Rightarrow> string \<Rightarrow> bool" where
  "dangling_source services x \<longleftrightarrow> (\<exists>s \<in> set services. \<exists>caller \<in> set (ip_allow_from (in_internal (sp_ingress (ss_spec s)))).
     x = service_id caller \<and> caller \<notin> set (map service_name_of services))"

definition dangling_target :: "service_state list \<Rightarrow> database_state list \<Rightarrow> bucket list \<Rightarrow> node_state list \<Rightarrow> string \<Rightarrow> bool" where
  "dangling_target services databases buckets nodes x \<longleftrightarrow> (\<exists>s \<in> set services.
     (\<exists>b \<in> set (rb_buckets (sp_resources (ss_spec s))). x = ''bucket:'' @ bb_name b \<and> bb_name b \<notin> set (map bk_name buckets))
   \<or> (\<exists>b \<in> set (rb_databases (sp_resources (ss_spec s))). x = ''database:'' @ dbb_name b
        \<and> dbb_name b \<notin> set (map (\<lambda>d. dsp_name (ds_spec d)) databases))
   \<or> (\<exists>r \<in> set (ss_replicas s). x = ''node:'' @ rs_node_id r \<and> rs_node_id r \<notin> set (map (\<lambda>n. nsp_node_id (nd_spec n)) nodes)))"

lemma replica_edge_ends:
  assumes "e \<in> set (replica_edges s ep r)"
  shows "ge_source e \<in> {service_id (service_name_of s), ''redis-routing'', ''proxy'', replica_id_of r}
    \<and> ge_target e \<in> {replica_id_of r, ''node:'' @ rs_node_id r}"
  using assms by (auto simp: replica_edges_def gedge_def split: option.splits if_splits)

lemma service_edge_ends:
  assumes "e \<in> set (service_edges t s)"
  shows "ge_source e \<in> {''proxy'', ''health-checker'', ''autoscaler'', service_id (service_name_of s)}
      \<union> service_id ` set (ip_allow_from (in_internal (sp_ingress (ss_spec s))))
    \<and> ge_target e \<in> {service_id (service_name_of s)} \<union> (\<lambda>b. ''bucket:'' @ bb_name b) ` set (rb_buckets (sp_resources (ss_spec s)))
      \<union> (\<lambda>b. ''database:'' @ dbb_name b) ` set (rb_databases (sp_resources (ss_spec s)))"
  using assms by (auto simp: service_edges_def gedge_def Let_def split: option.splits)

lemma platform_edge_ends: "e \<in> set platform_edges \<Longrightarrow> ge_source e \<in> set platform_ids \<and> ge_target e \<in> set platform_ids"
  by (auto simp: platform_edges_def gedge_def platform_ids_eq)

section \<open>Properties\<close>

text \<open>The ends of an edge: its source and its target are identifiers of the graph, or what they name is gone.\<close>

abbreviation ends_ok :: "service_state list \<Rightarrow> database_state list \<Rightarrow> bucket list \<Rightarrow> node_state list \<Rightarrow> graph \<Rightarrow> graph_edge \<Rightarrow> bool" where
  "ends_ok services databases buckets nodes g e \<equiv>
    (ge_source e \<in> set (graph_ids g) \<or> dangling_source services (ge_source e))
    \<and> (ge_target e \<in> set (graph_ids g) \<or> dangling_target services databases buckets nodes (ge_target e))"

lemma topology_ids:
  assumes "g = topology_graph services databases buckets nodes traffic routes"
  shows "x \<in> set platform_ids \<or> (\<exists>s \<in> set services. x = service_id (service_name_of s))
      \<or> (\<exists>s \<in> set services. \<exists>r \<in> set (ss_replicas s). x = replica_id_of r) \<Longrightarrow> x \<in> set (graph_ids g)"
    and "(\<exists>n \<in> set nodes. x = ''node:'' @ nsp_node_id (nd_spec n)) \<or> (\<exists>b \<in> set buckets. x = ''bucket:'' @ bk_name b)
      \<or> (\<exists>d \<in> set databases. x = ''database:'' @ dsp_name (ds_spec d)) \<Longrightarrow> x \<in> set (graph_ids g)"
  unfolding assms graph_ids_eq by auto

lemma service_edge_ok:
  assumes "g = topology_graph services databases buckets nodes traffic routes" "s \<in> set services" "e \<in> set (service_edges traffic s)"
  shows "ends_ok services databases buckets nodes g e"
proof
  note ids = topology_ids [OF assms(1)]
  show "ge_source e \<in> set (graph_ids g) \<or> dangling_source services (ge_source e)"
  proof (cases "ge_source e \<in> set platform_ids \<union> {service_id (service_name_of s)}")
    case True
    then show ?thesis using assms(2) ids(1) [of "ge_source e"] by auto
  next
    case False
    then obtain caller where c: "caller \<in> set (ip_allow_from (in_internal (sp_ingress (ss_spec s))))" "ge_source e = service_id caller"
      using service_edge_ends [OF assms(3)] by (auto simp: platform_ids_eq)
    show ?thesis
    proof (cases "caller \<in> set (map service_name_of services)")
      case True
      then show ?thesis using ids(1) [of "ge_source e"] c(2) by auto
    next
      case False
      then show ?thesis using c assms(2) unfolding dangling_source_def by blast
    qed
  qed
  show "ge_target e \<in> set (graph_ids g) \<or> dangling_target services databases buckets nodes (ge_target e)"
    using service_edge_ends [OF assms(3)] assms(2) ids(1) [of "ge_target e"] ids(2) [of "ge_target e"]
    unfolding dangling_target_def by (elim conjE UnE insertE imageE emptyE) fastforce+
qed

lemma replica_edge_ok:
  assumes "g = topology_graph services databases buckets nodes traffic routes" "s \<in> set services" "r \<in> set (ss_replicas s)"
    and "e \<in> set (replica_edges s ep r)"
  shows "ends_ok services databases buckets nodes g e"
proof
  note ids = topology_ids [OF assms(1)]
  have "ge_source e \<in> set (graph_ids g)"
    using replica_edge_ends [OF assms(4)] assms(2,3) ids(1) [of "ge_source e"] by (auto simp: platform_ids_eq)
  then show "ge_source e \<in> set (graph_ids g) \<or> dangling_source services (ge_source e)" ..
  show "ge_target e \<in> set (graph_ids g) \<or> dangling_target services databases buckets nodes (ge_target e)"
  proof (cases "ge_target e = replica_id_of r")
    case True
    then show ?thesis using assms(2,3) ids(1) [of "ge_target e"] by blast
  next
    case False
    then have t: "ge_target e = ''node:'' @ rs_node_id r" using replica_edge_ends [OF assms(4)] by blast
    show ?thesis
    proof (cases "rs_node_id r \<in> set (map (\<lambda>n. nsp_node_id (nd_spec n)) nodes)")
      case True
      then show ?thesis using ids(2) [of "ge_target e"] t by auto
    next
      case False
      then show ?thesis using t assms(2,3) unfolding dangling_target_def by blast
    qed
  qed
qed

text \<open>C27. The topology is a well-formed graph. Its nodes have different identifiers when nodes, buckets,
  databases, services and replicas have. Both ends of every edge are nodes of the graph, except those
  that stand for a reference to nothing: the caller an allow list names that is no service, the bucket or
  database of a binding that does not exist, the unknown node of a replica.\<close>

theorem topology_well_formed:
  assumes "distinct (map (\<lambda>n. nsp_node_id (nd_spec n)) nodes)" "distinct (map bk_name buckets)"
    and "distinct (map (\<lambda>d. dsp_name (ds_spec d)) databases)" "distinct (map service_name_of services)"
    and "distinct (concat (map (\<lambda>s. map rs_replica_id (ss_replicas s)) services))"
    and "g = topology_graph services databases buckets nodes traffic routes"
  shows "distinct (graph_ids g) \<and> (\<forall>e \<in> set (gr_edges g).
    (ge_source e \<in> set (graph_ids g) \<or> dangling_source services (ge_source e))
    \<and> (ge_target e \<in> set (graph_ids g) \<or> dangling_target services databases buckets nodes (ge_target e)))"
proof (intro conjI ballI)
  show "distinct (graph_ids g)"
    using assms(1-3) service_ids_distinct [OF assms(4,5)] unfolding assms(6) graph_ids_eq platform_ids_eq
    by (auto simp: distinct_map inj_on_def service_id_def replica_id_of_def)
next
  fix e assume e: "e \<in> set (gr_edges g)"
  consider "e \<in> set platform_edges" | s where "s \<in> set services" "e \<in> set (service_edges traffic s)"
    | s ep r where "s \<in> set services" "r \<in> set (ss_replicas s)" "e \<in> set (replica_edges s ep r)"
    using e unfolding assms(6) topology_graph_def by (auto simp: service_graph_def Let_def)
  then have "ends_ok services databases buckets nodes g e"
    using platform_edge_ends topology_ids(1) [OF assms(6)] service_edge_ok [OF assms(6)] replica_edge_ok [OF assms(6)] by cases blast+
  then show "ge_source e \<in> set (graph_ids g) \<or> dangling_source services (ge_source e)"
    "ge_target e \<in> set (graph_ids g) \<or> dangling_target services databases buckets nodes (ge_target e)" by auto
qed

text \<open>A service that admits a caller that does not exist, with a replica on a node that is gone.\<close>

definition lone_service :: service_state where
  "lone_service = (new_service_state 0 ((default_service_spec ''web'' ''img'')\<lparr>sp_ingress := \<lparr>in_external = True,
      in_internal = \<lparr>ip_enabled = True, ip_allow_from = [''ghost'']\<rparr>\<rparr>\<rparr>))\<lparr>ss_replicas := [\<lparr>rs_replica_id = ''r1'', rs_container_id = ''c1'',
      rs_node_id = ''node-9'', rs_status = RUNNING, rs_container_ip = ''10.0.0.2'', rs_image = ''img'', rs_cpu_percent = 0,
      rs_memory_mb = 0, rs_started_at = 0\<rparr>]\<rparr>"

theorem topology_well_formed_witness:
  "(let g = topology_graph [lone_service] [] [] [] [] [] in distinct (graph_ids g)
     \<and> (\<forall>e \<in> set (gr_edges g). ge_source e \<in> set (graph_ids g) \<or> dangling_source [lone_service] (ge_source e)))"
  using topology_well_formed [of "[]" "[]" "[]" "[lone_service]" _ "[]" "[]"]
  by (simp add: lone_service_def new_service_state_def)

end
