(* ===== verification/ControlFacts.thy ===== *)
theory ControlFacts
  imports ControlPlane Lifecycle EventFacts StorageFacts
begin

text \<open>
  What the endpoints of the control plane do, and what becomes of a service that is posted or deleted there
  once the orchestrator's pass reaches it.
\<close>

section \<open>Access\<close>

definition authorised :: "('d, 'r, 'k) plane_env \<Rightarrow> role \<Rightarrow> string \<Rightarrow> ('d, 'r, 'k) plane \<Rightarrow> bool" where
  "authorised pe m token p \<longleftrightarrow> (\<exists>u. require_role (pe_jwt pe) (en_cfg (pe_env pe)) (w_clock (pn_world p) div 1000000) m token = Inr u)"

lemma for_role_run:
  "authorised pe m token p \<Longrightarrow> (\<And>u. body u p = r) \<Longrightarrow> for_role pe m token body p = r"
  by (auto simp: for_role_def authorised_def bind_p_def get_s_def endpoint_def)

lemma for_role_refused:
  assumes "\<not> authorised pe m token p"
  shows "\<exists>e. for_role pe m token body p = (Inl e, p)"
  using assms
  by (cases "require_role (pe_jwt pe) (en_cfg (pe_env pe)) (w_clock (pn_world p) div 1000000) m token")
    (auto simp: for_role_def authorised_def bind_p_def get_s_def endpoint_def raise_def)

lemma user_of_role:
  "authorised pe m token p \<Longrightarrow>
    \<exists>u. get_current_user (pe_jwt pe) (en_cfg (pe_env pe)) (w_clock (pn_world p) div 1000000) token = Inr u"
  by (auto simp: authorised_def require_role_def bind_r_Inr)

lemma for_user_run:
  assumes "authorised pe m token p" "\<And>u. body u p = r"
  shows "for_user pe token body p = r"
  using user_of_role [OF assms(1)] assms(2) by (auto simp: for_user_def bind_p_def get_s_def)

section \<open>The services of the store\<close>

abbreviation services :: "('d, 'r, 'k) plane \<Rightarrow> (string, service_state) pydict" where
  "services p \<equiv> w_services (pn_world p)"

definition put_service :: "string \<Rightarrow> service_state \<Rightarrow> ('d, 'r, 'k) plane \<Rightarrow> ('d, 'r, 'k) plane" where
  "put_service name s p = p\<lparr>pn_world := (pn_world p)\<lparr>w_services := dict_put name s (services p)\<rparr>\<rparr>"

lemma put_service_simps [simp]:
  "services (put_service name s p) = dict_put name s (services p)"
  "w_clock (pn_world (put_service name s p)) = w_clock (pn_world p)"
  "authorised pe m token (put_service name s p) = authorised pe m token p"
  by (simp_all add: put_service_def authorised_def)

lemmas plane_eval = on_world_def get_service_store_def dict_store_def prog_defs

lemma service_or_404_run:
  "service_or_404 name p = (case dict_get (services p) name of
     None \<Rightarrow> Inl (HTTPException 404 ''Service not found'') | Some s \<Rightarrow> Inr s, p)"
  by (auto simp: service_or_404_def plane_eval split: option.split)

lemma get_service_run:
  "authorised pe m token p \<Longrightarrow> api_get_service pe token name p = (case dict_get (services p) name of
     None \<Rightarrow> Inl (HTTPException 404 ''Service not found'') | Some s \<Rightarrow> Inr s, p)"
  unfolding api_get_service_def by (rule for_user_run) (auto simp: service_or_404_run)

lemma create_service_run:
  assumes "authorised pe DEVELOPER token p"
  shows "api_create_service pe token spec p = (if dict_has (services p) (sp_name spec)
      then (Inl (HTTPException 409 (''Service '' @ quoted (sp_name spec) @ '' already exists'')), p)
      else (Inr (new_service_state (w_clock (pn_world p)) spec),
            put_service (sp_name spec) (new_service_state (w_clock (pn_world p)) spec) p))"
  unfolding api_create_service_def
  by (rule for_role_run [OF assms]) (auto simp: plane_eval put_service_def Let_def)

lemma update_service_run:
  assumes "authorised pe DEVELOPER token p"
  shows "api_update_service pe token name spec p = (case dict_get (services p) name of
      None \<Rightarrow> (Inl (HTTPException 404 ''Service not found''), p)
    | Some s \<Rightarrow> let s' = s\<lparr>ss_spec := spec, ss_status := UPDATING, ss_updated_at := w_clock (pn_world p)\<rparr>
        in (Inr s', put_service name s' p))"
  unfolding api_update_service_def
  by (rule for_role_run [OF assms]) (auto simp: bind_p_def service_or_404_run plane_eval put_service_def Let_def split: option.split)

lemma delete_service_run:
  assumes "authorised pe DEVELOPER token p"
  shows "api_delete_service pe token name p = (case dict_get (services p) name of
      None \<Rightarrow> (Inl (HTTPException 404 ''Service not found''), p)
    | Some s \<Rightarrow> (Inr (), put_service name (s\<lparr>ss_status := DELETING, ss_updated_at := w_clock (pn_world p)\<rparr>) p))"
  unfolding api_delete_service_def
  by (rule for_role_run [OF assms]) (auto simp: bind_p_def service_or_404_run plane_eval put_service_def split: option.split)

section \<open>Diagnostics\<close>

lemma replica_warnings_none:
  "replica_warnings nodes endpoints r = [] \<longleftrightarrow> rs_node_id r \<in> set nodes \<and> rs_container_ip r \<noteq> [] \<and> rs_status r = RUNNING
     \<and> rs_replica_id r \<in> set (ids endpoints)"
  by (auto simp: replica_warnings_def Let_def)

section \<open>A control plane to try things on\<close>

definition demo_plane_env :: "(memory_daemon, redis_db, (string, json) pydict) plane_env" where
  "demo_plane_env = \<lparr>pe_env = plain_env, pe_storage = demo_storage, pe_jwt = plain_jwt, pe_codec = plain_codec\<rparr>"

definition demo_plane :: "(memory_daemon, redis_db, (string, json) pydict) plane" where
  "demo_plane = \<lparr>pn_world = demo_world\<lparr>w_node_store := Some [], w_databases := Some []\<rparr>, pn_files = [([''data''], Dir)], pn_bus = new_redis_bus, pn_metrics = empty_redis\<rparr>"

definition demo_token :: string where
  "demo_token = create_token plain_jwt default_settings 0 \<lparr>us_username = ''dev'', us_role = ADMIN, us_password_hash = []\<rparr>"

lemma demo_authorised: "authorised demo_plane_env m demo_token demo_plane"
  using require_role_of_token [OF plain_jwt_ok, of 0 0 default_settings m "\<lparr>us_username = ''dev'', us_role = ADMIN, us_password_hash = []\<rparr>"]
  by (cases m) (simp_all add: authorised_def demo_plane_env_def demo_plane_def plain_env_def demo_world_def demo_token_def default_settings_def less_eq_role_def)

lemma demo_plane_ok: "sound_world (pe_env demo_plane_env) redis_inv (raw_view secret_validate) (raw_inv secret_validate) (pn_world demo_plane)"
  using demo_ok by (simp add: demo_plane_env_def demo_plane_def sound_world_def)

lemma demo_orchestrating: "orchestrating (pe_env demo_plane_env) md_find (\<lambda>d. set (md_networks d)) redis_view redis_inv
    (raw_view secret_validate) (raw_inv secret_validate)"
  using deployed.orchestrating_axioms by (simp add: demo_plane_env_def)

lemma demo_services: "services demo_plane = [(''web'', demo_service)]" "sp_name (ss_spec demo_service) = ''web''"
  by (simp_all add: demo_plane_def demo_world_def demo_service_def new_service_state_def default_service_spec_def)

section \<open>Properties\<close>

text \<open>C16. The life of a service at the API, for a caller with the role of a developer. A new name is stored
  as a pending service without replicas, which is read back; a name in use is refused with 409. A change
  and a deletion of an existing service keep its replicas and mark it UPDATING and DELETING; of a name that
  is not there both are refused with 404. A refused call changes nothing, and no call touches another
  service.\<close>

theorem service_api_contract:
  assumes "authorised pe DEVELOPER token p"
  shows "(case api_create_service pe token spec p of
      (Inr s, p') \<Rightarrow> dict_get (services p) (sp_name spec) = None \<and> s = new_service_state (w_clock (pn_world p)) spec
        \<and> fst (api_get_service pe token (sp_name spec) p') = Inr s
        \<and> (\<forall>n. n \<noteq> sp_name spec \<longrightarrow> dict_get (services p') n = dict_get (services p) n)
    | (Inl e, p') \<Rightarrow> (\<exists>d. e = HTTPException 409 d) \<and> dict_get (services p) (sp_name spec) \<noteq> None \<and> p' = p)
  \<and> (case api_update_service pe token name spec p of
      (Inr s, p') \<Rightarrow> (\<exists>old. dict_get (services p) name = Some old \<and> ss_replicas s = ss_replicas old) \<and> ss_spec s = spec
        \<and> ss_status s = UPDATING \<and> fst (api_get_service pe token name p') = Inr s
        \<and> (\<forall>n. n \<noteq> name \<longrightarrow> dict_get (services p') n = dict_get (services p) n)
    | (Inl e, p') \<Rightarrow> e = HTTPException 404 ''Service not found'' \<and> dict_get (services p) name = None \<and> p' = p)
  \<and> (case api_delete_service pe token name p of
      (Inr _, p') \<Rightarrow> (\<exists>old s. dict_get (services p) name = Some old \<and> dict_get (services p') name = Some s
          \<and> ss_spec s = ss_spec old \<and> ss_replicas s = ss_replicas old \<and> ss_status s = DELETING)
        \<and> (\<forall>n. n \<noteq> name \<longrightarrow> dict_get (services p') n = dict_get (services p) n)
    | (Inl e, p') \<Rightarrow> e = HTTPException 404 ''Service not found'' \<and> dict_get (services p) name = None \<and> p' = p)"
proof -
  have g: "fst (api_get_service pe token n (put_service n s p)) = Inr s" for n s
    using get_service_run [of pe DEVELOPER token "put_service n s p" n] assms by simp
  show ?thesis using create_service_run [OF assms, of spec] update_service_run [OF assms, of name spec]
      delete_service_run [OF assms, of name]
    by (auto simp: dict_has_def g Let_def split: option.splits)
qed

theorem service_api_contract_witness:
  "fst (api_create_service demo_plane_env demo_token (default_service_spec ''web'' ''img:3'') demo_plane)
      = Inl (HTTPException 409 ''Service 'web' already exists'')
    \<and> (\<exists>s. dict_get (services (snd (api_delete_service demo_plane_env demo_token ''web'' demo_plane))) ''web'' = Some s \<and> ss_status s = DELETING)"
proof -
  note c = service_api_contract [OF demo_authorised, of "default_service_spec ''web'' ''img:3''" "''web''"]
  have w: "dict_get (services demo_plane) ''web'' = Some demo_service" by (simp add: demo_services)
  have "fst (api_create_service demo_plane_env demo_token (default_service_spec ''web'' ''img:3'') demo_plane)
      = Inl (HTTPException 409 ''Service 'web' already exists'')"
    unfolding create_service_run [OF demo_authorised] by (simp add: demo_services default_service_spec_def dict_has_def quoted_def)
  moreover have "\<exists>s. dict_get (services (snd (api_delete_service demo_plane_env demo_token ''web'' demo_plane))) ''web'' = Some s \<and> ss_status s = DELETING"
    using c [THEN conjunct2, THEN conjunct2] w by (cases "api_delete_service demo_plane_env demo_token ''web'' demo_plane") (auto split: sum.splits)
  ultimately show ?thesis by blast
qed

text \<open>A service posted at the API runs after the orchestrator's next pass over it.\<close>

lemma posted_service_runs:
  assumes "orchestrating (pe_env pe) cs nets rview rinv sview sinv"
    and "sound_world (pe_env pe) rinv sview sinv (pn_world p)" "authorised pe DEVELOPER token p"
    and "dict_get (services p) (sp_name spec) = None" "0 \<le> sp_replicas spec"
    and "\<forall>b \<in> set (rb_databases (sp_resources spec)). AccessConnect \<notin> set (dbb_access b)"
  shows "\<exists>s p' w' svc. api_create_service pe token spec p = (Inr s, p')
    \<and> s = new_service_state (w_clock (pn_world p)) spec \<and> p' = put_service (sp_name spec) s p
    \<and> reconcile_service (pe_env pe) s None (pn_world p') = (Inr (), w')
    \<and> dict_get (w_services w') (sp_name spec) = Some svc \<and> ss_spec svc = spec
    \<and> ((\<forall>opts d. \<exists>cid d'. dd_run (en_docker (pe_env pe)) opts d = (Inr cid, d'))
        \<and> events_of SCHEDULER_NO_CAPACITY w' = events_of SCHEDULER_NO_CAPACITY (pn_world p)
        \<longrightarrow> length (running svc) = nat (sp_replicas spec))
    \<and> ss_status svc = (if running svc = [] then DEGRADED else RUNNING) \<and> routed rview w' svc"
proof -
  let ?s = "new_service_state (w_clock (pn_world p)) spec"
  let ?p = "put_service (sp_name spec) ?s p"
  have c: "api_create_service pe token spec p = (Inr ?s, ?p)"
    using create_service_run [OF assms(3), of spec] assms(4) by (simp add: dict_has_def)
  have s: "ss_spec ?s = spec" "ss_replicas ?s = []" by (simp_all add: new_service_state_def)
  have w: "sound_world (pe_env pe) rinv sview sinv (pn_world ?p)" "events_of k (pn_world ?p) = events_of k (pn_world p)" for k
    using assms(2) by (simp_all add: put_service_def sound_world_def events_of_def)
  have "connect_bindings ?s = []" using assms(6) s(1) by (auto simp: connect_bindings_def filter_empty_conv)
  moreover have "dict_get (services ?p) (sp_name (ss_spec ?s)) = Some ?s" by (simp add: s)
  moreover have "distinct (map rs_replica_id (ss_replicas ?s))" "knows (pn_world ?p) (ss_replicas ?s)" "0 \<le> sp_replicas (ss_spec ?s)"
    using assms(5) by (simp_all add: s knows_def)
  ultimately obtain w' svc where "reconcile_service (pe_env pe) ?s None (pn_world ?p) = (Inr (), w')"
      "dict_get (w_services w') (sp_name spec) = Some svc" "ss_spec svc = spec"
      "(\<forall>opts d. \<exists>cid d'. dd_run (en_docker (pe_env pe)) opts d = (Inr cid, d'))
        \<and> events_of SCHEDULER_NO_CAPACITY w' = events_of SCHEDULER_NO_CAPACITY (pn_world ?p)
        \<longrightarrow> length (running svc) = nat (sp_replicas spec)"
      "ss_status svc = (if running svc = [] then DEGRADED else RUNNING)" "routed rview w' svc"
    using reconcile_service_converges [OF assms(1) w(1), of ?s None] unfolding s by blast
  with c w(2) show ?thesis by (intro exI [of _ ?s] exI [of _ ?p] exI [of _ w'] exI [of _ svc]) simp
qed



text \<open>The dashboard can miss an event. The websocket handler reads the recent events first and subscribes
  after it has sent them: an event published in between is neither in the snapshot nor ever delivered to the
  subscription, whatever happens on the bus afterwards.\<close>

theorem snapshot_misses_event:
  assumes "redis_run (pe_codec pe) ops0 new_redis_bus = (ds0, ps0, pn_bus p)" "es_reachable (bus_stream (pn_bus p))"
    and "take_snapshot pe p = (Inr (Snapshot sh), p1)"
    and "redis_publish (pe_codec pe) trim e (pn_bus p1) = (Inr (), b)"
    and "ws_subscribe (p1\<lparr>pn_bus := b\<rparr>) = (Inr q, p2)" "redis_run (pe_codec pe) ops (pn_bus p2) = (ds, ps, b2)"
    and "event_codec_ok (pe_codec pe) (ps0 @ [e] @ ps)" "e \<notin> set ps0" "e \<notin> set ps"
  shows "e \<notin> set (sh_events sh) \<and> e \<notin> set (received q ds)"
proof -
  let ?ec = "pe_codec pe"
  have ok: "event_codec_ok ?ec (ps0 @ [e] @ ps)" "event_codec_ok ?ec ps0" "event_codec_ok ?ec ((ps0 @ [e]) @ ps)"
    using assms(7) by (simp_all add: event_codec_ok_def)
  have inv0: "redis_bus_inv ?ec ps0 (pn_bus p)" by (rule reached_bus_inv [OF ok(1) assms(1)])
  obtain p' where p': "recent_events pe p' = (Inr (sh_events sh), p1)" "pn_bus p' = pn_bus p"
    using assms(3) by (auto simp: take_snapshot_def bind_p_def on_world_def on_storage_def ret_def split: prod.splits sum.splits)
  have "recent_events pe p' = (Inr (last_n recent_event_count ps0), p')"
    using redis_recent_run [OF ok(2) inv0 assms(2)] p'(2) by (simp add: recent_events_def on_bus_def)
  with p' have sh: "sh_events sh = last_n recent_event_count ps0" "p1 = p'" by auto
  then have b1: "pn_bus p1 = pn_bus p" using p' by simp
  have b: "redis_bus_inv ?ec (ps0 @ [e]) b" "es_reachable (bus_stream b)"
    using bus_inv_publish [OF inv0 assms(4) [unfolded b1]] assms(4) by (auto simp: b1 redis_publish_def on_stream_def xadd_def Let_def split: if_splits)
  have "redis_subscribe b = (Inr q, pn_bus p2)" using assms(5) by (auto simp: ws_subscribe_def on_bus_def split: prod.splits)
  from subscribed_reads [OF ok(3) b this assms(6)] have "set (received q ds) \<subseteq> set ps"
    by (auto dest: list_emb_set [where P = "(=)"])
  then show ?thesis using assms(8,9) sh by (auto simp: last_n_def dest: in_set_dropD)
qed

theorem snapshot_misses_event_witness:
  "\<exists>sh p1 b q p2. take_snapshot demo_plane_env demo_plane = (Inr (Snapshot sh), p1)
    \<and> redis_publish plain_codec 0 (sample_event 1) (pn_bus p1) = (Inr (), b)
    \<and> ws_subscribe (p1\<lparr>pn_bus := b\<rparr>) = (Inr q, p2) \<and> sample_event 1 \<notin> set (sh_events sh)
    \<and> sample_event 1 \<notin> set (received q (fst (redis_run plain_codec [RPublish 0 (sample_event 2), RTurn q, RReceive q] (pn_bus p2))))"
proof -
  let ?snap = "\<lparr>sh_nodes = [], sh_services = [demo_service], sh_secrets = [], sh_buckets = [], sh_events = []\<rparr>"
  have l: "list_buckets demo_storage [([''data''], Dir)] = (Inr [], [([''data''], Dir)])"
    by (simp add: list_buckets_def demo_storage_def find_node_def node_at_def list_dir_def prog_defs)
  have w: "w_secrets (pn_world demo_plane) = []" "w_node_store (pn_world demo_plane) = Some []"
      "w_services (pn_world demo_plane) = [(''web'', demo_service)]" "pn_files demo_plane = [([''data''], Dir)]"
      "pn_bus demo_plane = new_redis_bus"
    by (simp_all add: demo_plane_def demo_world_def)
  have sec: "list_secret_names secrets_table [] = (Inr [], [])"
    by (simp add: list_secret_names_def pg_store_def pg_list_def prog_defs)
  have 1: "take_snapshot demo_plane_env demo_plane = (Inr (Snapshot ?snap), demo_plane)"
  proof -
    have "recent_events demo_plane_env demo_plane = (Inr [], demo_plane)"
      by (simp add: recent_events_def on_bus_def w redis_recent_events_def redis_run_eval xrevrange_def demo_plane_env_def)
    moreover have "on_world (call_secrets (list_secret_names (en_secrets (pe_env demo_plane_env)))) demo_plane = (Inr [], demo_plane)"
      using sec w(1) by (simp add: on_world_def call_secrets_def demo_plane_env_def plain_env_def)
    moreover have "on_storage (list_buckets (pe_storage demo_plane_env)) demo_plane = (Inr [], demo_plane)"
      using l w(4) by (simp add: on_storage_def demo_plane_env_def)
    moreover have "on_world (so_list get_service_store) demo_plane = (Inr [demo_service], demo_plane)"
      "on_world get_node_store demo_plane = (Inr [], demo_plane)"
      using w by (simp_all add: plane_eval get_node_store_def)
    ultimately show ?thesis by (simp add: take_snapshot_def bind_p_def ret_def)
  qed
  let ?b = "snd (redis_publish plain_codec 0 (sample_event 1) new_redis_bus)"
  have 2: "redis_publish plain_codec 0 (sample_event 1) (pn_bus demo_plane) = (Inr (), ?b)" by (simp add: w redis_run_eval)
  let ?p2 = "snd (ws_subscribe (demo_plane\<lparr>pn_bus := ?b\<rparr>))"
  have 3: "ws_subscribe (demo_plane\<lparr>pn_bus := ?b\<rparr>) = (Inr 0, ?p2)" by (simp add: ws_subscribe_def on_bus_def redis_run_eval)
  obtain ds ps b2 where 4: "redis_run plain_codec [RPublish 0 (sample_event 2), RTurn 0, RReceive 0] (pn_bus ?p2) = (ds, ps, b2)"
    by (metis surj_pair)
  then have ps: "ps = [sample_event 2]"
    by (auto simp: ws_subscribe_def on_bus_def redis_run_eval read_turn_def xread_def reader_get_def split: prod.splits option.splits list.splits)
  have 0: "redis_run (pe_codec demo_plane_env) [] new_redis_bus = ([], [], pn_bus demo_plane)" "es_reachable (bus_stream (pn_bus demo_plane))"
    by (simp_all add: w new_redis_bus_def no_stream_def)
  have c: "pe_codec demo_plane_env = plain_codec" by (simp add: demo_plane_env_def)
  have ok: "event_codec_ok plain_codec ([] @ [sample_event 1] @ ps)" using plain_codec_ok by (simp add: ps event_codec_ok_def)
  from snapshot_misses_event [OF 0 1 2 [folded c] 3 [folded c] 4 [folded c] ok [folded c]] ps
  have "sample_event 1 \<notin> set (sh_events ?snap) \<and> sample_event 1 \<notin> set (received 0 ds)" by simp
  with 1 2 3 4 show ?thesis by fastforce
qed

end
