(* ===== verification/ViewFacts.thy ===== *)
theory ViewFacts
  imports Views
begin

text \<open>
  The views read back what the proxy wrote: the counts of requests and errors survive their way through the
  texts of Redis, and the time series lists the latest buckets.
\<close>

section \<open>Numbers as Redis holds them\<close>

text \<open>Redis keeps the counters it increments within 64 bits.\<close>

definition redis_int :: "int \<Rightarrow> bool" where
  "redis_int n \<longleftrightarrow> \<bar>n\<bar> < 2 ^ 63"

lemma short_digits: "n < 2 ^ 63 \<Longrightarrow> length (nat_digits n) \<le> int_max_str_digits"
proof -
  assume "n < 2 ^ 63"
  moreover have "(2::nat) ^ 63 \<le> 10 ^ Suc 18" by simp
  ultimately have "n < 10 ^ Suc 18" by (rule less_le_trans)
  from length_nat_digits [OF this] show ?thesis by (simp add: int_max_str_digits_def)
qed

lemma py_int_str_int:
  assumes "redis_int n"
  shows "py_int (str_int n) = Some n"
proof (cases "n < 0")
  case True
  let ?m = "nat (- n)"
  have m: "length (nat_digits ?m) \<le> int_max_str_digits" using assms True by (intro short_digits) (auto simp: redis_int_def)
  have "strip (CHR ''-'' # nat_digits ?m) = CHR ''-'' # nat_digits ?m"
    by (rule strip_id) (use nat_digits_all [of ?m] is_digit_not in \<open>auto simp: is_space_def dest: bspec [OF _ last_in_set]\<close>)
  then show ?thesis using True parse_digits_str [OF m] by (simp add: str_int_def str_nat_def py_int_def)
next
  case False
  have "length (nat_digits (nat n)) \<le> int_max_str_digits" using assms False by (intro short_digits) (auto simp: redis_int_def)
  from py_int_str_nat [OF this] show ?thesis using False by (simp add: str_int_def)
qed

lemma to_int_str: "redis_int n \<Longrightarrow> to_int (Some (str_int n)) = n"
  by (simp add: to_int_def py_int_str_int)

section \<open>Hashes\<close>

lemma hash_fields_get: "dict_get (hash_fields key r) f = dict_get (mr_hashes r) (key, f)"
proof -
  have "dict_get (map (\<lambda>((_, field), n). (field, n)) (filter (\<lambda>p. fst (fst p) = key) d)) f = dict_get d (key, f)"
    for d :: "(string \<times> string, int) pydict"
    by (induction d) auto
  then show ?thesis by (simp add: hash_fields_def)
qed

lemma hash_fields_count: "count_of (hash_fields key r) f = count_of (mr_hashes r) (key, f)"
  by (simp add: count_of_def dict_get_or_def hash_fields_get)

lemma hash_fields_wf:
  assumes "wf_dict (mr_hashes r)"
  shows "wf_dict (hash_fields key r)"
proof -
  have "distinct (map fst d) \<Longrightarrow> distinct (map fst (map (\<lambda>((_, field), n). (field, n)) (filter (\<lambda>p. fst (fst p) = key) d)))"
    for d :: "(string \<times> string, int) pydict"
    by (induction d) (auto simp: image_iff)
  then show ?thesis using assms by (simp add: wf_dict_def hash_fields_def)
qed

lemma dict_put_absent: "k \<notin> set (dict_keys d) \<Longrightarrow> dict_put k v d = d @ [(k, v)]"
  by (induction d) auto

lemma dict_of_list_wf: "wf_dict d \<Longrightarrow> dict_of_list d = d"
proof -
  have "foldl (\<lambda>acc (k, v). dict_put k v acc) acc d = acc @ d"
    if "distinct (map fst d)" "set (map fst acc) \<inter> set (map fst d) = {}" for acc d :: "('a, 'b) pydict"
    using that
  proof (induction d arbitrary: acc)
    case (Cons p d)
    obtain k v where p: "p = (k, v)" by (cases p)
    have "dict_put k v acc = acc @ [(k, v)]" using Cons.prems(2) p by (intro dict_put_absent) auto
    then show ?case using Cons p by auto
  qed simp
  then show "wf_dict d \<Longrightarrow> dict_of_list d = d" by (simp add: dict_of_list_def dict_merge_def wf_dict_def)
qed

text \<open>What Redis holds is within range.\<close>

definition redis_ok :: "metric_redis \<Rightarrow> bool" where
  "redis_ok r \<longleftrightarrow> mr_reachable r \<and> wf_dict (mr_hashes r)
     \<and> (\<forall>n \<in> set (dict_values (mr_hashes r)) \<union> set (dict_values (mr_counters r)). redis_int n)"

lemma hash_fields_int: "redis_ok r \<Longrightarrow> (f, n) \<in> set (hash_fields key r) \<Longrightarrow> redis_int n"
  by (force simp: redis_ok_def hash_fields_def)

lemma read_hash:
  assumes "redis_ok r"
  shows "\<exists>d. hgetall key r = (Inr d, r) \<and> int_map d = hash_fields key r"
proof -
  let ?d = "map (\<lambda>(field, n). (field, str_int n)) (hash_fields key r)"
  have "map (\<lambda>(k, v). (k, to_int (Some v))) ?d = hash_fields key r"
    by (auto simp: comp_def to_int_str [OF hash_fields_int [OF assms]] intro!: map_idI)
  then have "int_map ?d = hash_fields key r"
    using hash_fields_wf [of r key] assms by (simp add: int_map_def dict_of_list_wf redis_ok_def)
  then show ?thesis using assms by (auto simp: hgetall_def when_reachable_def redis_ok_def)
qed

section \<open>The pipeline keeps the keys of Redis different\<close>

lemma wf_push_hashes: "wf_dict (mr_hashes r) \<Longrightarrow> wf_dict (mr_hashes (foldl (\<lambda>r (k, n). hincrby key (g k) n r) r d))"
  by (induction d arbitrary: r) (auto simp: hincrby_def)

lemma wf_push_series: "wf_dict (mr_hashes r) \<Longrightarrow> wf_dict (mr_hashes (push_series name d r))"
  unfolding push_series_def
proof (induction d arbitrary: r)
  case (Cons p d)
  then show ?case using wf_push_hashes [where g = "\<lambda>k. k"] by (cases p) simp
qed simp

lemma wf_push_metrics: "wf_dict (mr_hashes r) \<Longrightarrow> wf_dict (mr_hashes (push_metrics m r))"
  by (simp only: push_metrics_def Let_def wf_push_hashes wf_push_hashes [where g = "\<lambda>k. k"] wf_push_series push_texts(2) push_counters(2) push_total(1))

lemma wf_metric_steps:
  assumes "wf_dict (mr_hashes r)" "fold metric_step ops (m, r) = (m', r')"
  shows "wf_dict (mr_hashes r')"
  using assms
proof (induction ops arbitrary: m r)
  case (Cons x ops)
  obtain m1 r1 where 1: "metric_step x (m, r) = (m1, r1)" by fastforce
  then have "wf_dict (mr_hashes r1)" using Cons.prems(1) wf_push_metrics [of r m]
    by (cases x) (auto simp: metric_step_def metrics_flush_def split: if_splits)
  then show ?case using Cons.IH [of r1 m1] Cons.prems(2) 1 by simp
qed simp

section \<open>Reading the views\<close>

lemma map_filter_set: "set (List.map_filter f xs) = {y. \<exists>x \<in> set xs. f x = Some y}"
  by (force simp: List.map_filter_def)

lemma counted_key: "count_of d k \<noteq> 0 \<Longrightarrow> k \<in> set (dict_keys d)"
  by (cases "dict_get d k") (auto simp: count_of_def dict_get_or_def intro: rev_image_eqI [OF dict_get_Some_mem])

lemma read_platform_metrics_run:
  assumes "redis_ok r"
  shows "read_platform_metrics r = (Inr \<lparr>mv_requests_total = count_of (mr_counters r) ''proxy:requests:total'' +
       (case dict_get (mr_counters r) ''proxy:requests:total'' of None \<Rightarrow> to_int (dict_get (mr_texts r) ''proxy:requests:total'') | Some _ \<Rightarrow> 0),
     mv_requests_by_service = hash_fields ''proxy:requests:service'' r, mv_responses_by_status = hash_fields ''proxy:responses:status'' r,
     mv_failures = hash_fields ''proxy:failures'' r\<rparr>, r)"
proof -
  have "redis_int n" if "dict_get (mr_counters r) k = Some n" for k n
    using assms dict_get_Some_mem [OF that] by (force simp: redis_ok_def)
  then have g: "\<exists>v. redis_get ''proxy:requests:total'' r = (Inr v, r) \<and> to_int v = count_of (mr_counters r) ''proxy:requests:total'' +
       (case dict_get (mr_counters r) ''proxy:requests:total'' of None \<Rightarrow> to_int (dict_get (mr_texts r) ''proxy:requests:total'') | Some _ \<Rightarrow> 0)"
    using assms by (auto simp: redis_get_def when_reachable_def redis_ok_def count_of_def dict_get_or_def to_int_str split: option.splits)
  obtain v where v: "redis_get ''proxy:requests:total'' r = (Inr v, r)" "to_int v = count_of (mr_counters r) ''proxy:requests:total'' +
       (case dict_get (mr_counters r) ''proxy:requests:total'' of None \<Rightarrow> to_int (dict_get (mr_texts r) ''proxy:requests:total'') | Some _ \<Rightarrow> 0)"
    using g by blast
  obtain d1 d2 d3 where "hgetall ''proxy:requests:service'' r = (Inr d1, r)" "int_map d1 = hash_fields ''proxy:requests:service'' r"
      "hgetall ''proxy:responses:status'' r = (Inr d2, r)" "int_map d2 = hash_fields ''proxy:responses:status'' r"
      "hgetall ''proxy:failures'' r = (Inr d3, r)" "int_map d3 = hash_fields ''proxy:failures'' r"
    using read_hash [OF assms] by metis
  then show ?thesis using v by (simp add: read_platform_metrics_def bind_p_def ret_def)
qed

lemma read_bucket_run:
  assumes "redis_ok r"
  shows "\<exists>v. read_bucket b r = (Inr v, r) \<and> bv_bucket v = b
    \<and> bv_requests_by_service v = hash_fields (''proxy:ts:requests:'' @ str_int b) r
    \<and> bv_errors_by_service v = hash_fields (''proxy:ts:errors:'' @ str_int b) r"
proof -
  have "\<exists>d. hgetall key r = (Inr d, r) \<and> int_map d = hash_fields key r" for key using read_hash [OF assms] .
  then obtain f where f: "\<And>key. hgetall key r = (Inr (f key), r) \<and> int_map (f key) = hash_fields key r" by metis
  show ?thesis using f by (simp add: read_bucket_def bind_p_def ret_def Let_def)
qed

lemma read_buckets_run:
  assumes "redis_ok r"
  shows "\<exists>vs. map_p read_bucket bs r = (Inr vs, r) \<and> map bv_bucket vs = bs
    \<and> (\<forall>v \<in> set vs. bv_requests_by_service v = hash_fields (''proxy:ts:requests:'' @ str_int (bv_bucket v)) r
        \<and> bv_errors_by_service v = hash_fields (''proxy:ts:errors:'' @ str_int (bv_bucket v)) r)"
proof (induction bs)
  case (Cons b bs)
  then obtain vs where vs: "map_p read_bucket bs r = (Inr vs, r)" "map bv_bucket vs = bs"
    "\<forall>v \<in> set vs. bv_requests_by_service v = hash_fields (''proxy:ts:requests:'' @ str_int (bv_bucket v)) r
        \<and> bv_errors_by_service v = hash_fields (''proxy:ts:errors:'' @ str_int (bv_bucket v)) r" by blast
  obtain v where "read_bucket b r = (Inr v, r)" "bv_bucket v = b"
    "bv_requests_by_service v = hash_fields (''proxy:ts:requests:'' @ str_int b) r"
    "bv_errors_by_service v = hash_fields (''proxy:ts:errors:'' @ str_int b) r" using read_bucket_run [OF assms] by blast
  with vs show ?case by (intro exI [of _ "v # vs"]) (simp add: bind_p_def ret_def)
qed (simp add: ret_def)

text \<open>The latest buckets: the greatest numbers, in their order.\<close>

lemma latest_of:
  fixes xs :: "int list" and n :: nat
  defines "ys \<equiv> sort (take n (rev (sort xs)))"
  shows "sorted ys" "length ys = min n (length xs)" "x \<in> set xs \<Longrightarrow> x \<in> set ys \<or> (length ys = n \<and> (\<forall>y \<in> set ys. x \<le> y))"
proof -
  show "sorted ys" "length ys = min n (length xs)" by (simp_all add: ys_def)
  let ?r = "rev (sort xs)"
  assume x: "x \<in> set xs"
  show "x \<in> set ys \<or> (length ys = n \<and> (\<forall>y \<in> set ys. x \<le> y))"
  proof (cases "x \<in> set (take n ?r)")
    case False
    have "x \<in> set (take n ?r) \<union> set (drop n ?r)" using x by (metis append_take_drop_id set_append set_rev set_sort)
    then have d: "x \<in> set (drop n ?r)" using False by blast
    then have "n < length xs" by (cases "n < length xs") auto
    moreover have "x \<le> y" if "y \<in> set (take n ?r)" for y
    proof -
      have "sorted_wrt (\<ge>) (take n ?r @ drop n ?r)" by (simp add: sorted_wrt_rev)
      then show ?thesis using d that by (simp only: sorted_wrt_append)
    qed
    ultimately show ?thesis by (simp add: ys_def)
  qed (simp add: ys_def)
qed

lemma bucket_id_of_key:
  assumes "redis_int b"
  shows "bucket_id_from_key (''proxy:ts:requests:'' @ str_int b) = Some b"
proof -
  have "CHR '':'' \<notin> set (str_int b)"
    by (auto simp: str_int_def is_digit_def dest!: str_nat_digits)
  then have "rsplit1 CHR '':'' (''proxy:ts:requests'' @ CHR '':'' # str_int b) = [''proxy:ts:requests'', str_int b]" by (rule rsplit1_append)
  then show ?thesis using py_int_str_int [OF assms] by (simp add: bucket_id_from_key_def)
qed

section \<open>Texts\<close>

lemma texts_frames:
  "mr_texts (foldl (\<lambda>r (k, n). hincrby key (g k) n r) r d) = mr_texts r"
  by (induction d arbitrary: r) (auto simp: hincrby_def)

lemma texts_counters: "mr_texts (foldl (\<lambda>r (k, n). incrby (g k) n r) r d) = mr_texts r"
  by (induction d arbitrary: r) (auto simp: incrby_def)

lemma texts_other:
  "(\<And>j. x \<noteq> t j) \<Longrightarrow> dict_get (mr_texts (foldl (\<lambda>r (k, v). set_text (t k) (h v) r) r d)) x = dict_get (mr_texts r) x"
  by (induction d arbitrary: r) (auto simp: set_text_def)

lemma texts_push_series: "mr_texts (push_series name d r) = mr_texts r"
  unfolding push_series_def
proof (induction d arbitrary: r)
  case (Cons p d)
  then show ?case using texts_frames [where g = "\<lambda>k. k"] by (cases p) simp
qed simp

lemma texts_push_metrics: "dict_get (mr_texts (push_metrics m r)) ''proxy:requests:total'' = dict_get (mr_texts r) ''proxy:requests:total''"
proof -
  have i: "mr_texts (incrby k n r) = mr_texts r" for k n r by (simp add: incrby_def)
  have n: "''proxy:requests:total'' \<noteq> ''proxy:last_duration_ms:'' @ j" for j by simp
  show ?thesis
    by (simp only: push_metrics_def Let_def texts_frames texts_counters texts_frames [where g = "\<lambda>k. k"] texts_push_series i
      texts_other [where t = "\<lambda>k. ''proxy:last_duration_ms:'' @ k", OF n])
qed

lemma texts_metric_steps:
  assumes "dict_get (mr_texts r) ''proxy:requests:total'' = None" "fold metric_step ops (m, r) = (m', r')"
  shows "dict_get (mr_texts r') ''proxy:requests:total'' = None"
  using assms
proof (induction ops arbitrary: m r)
  case (Cons x ops)
  obtain m1 r1 where 1: "metric_step x (m, r) = (m1, r1)" by fastforce
  then have "dict_get (mr_texts r1) ''proxy:requests:total'' = None" using Cons.prems(1) texts_push_metrics [of m r]
    by (cases x) (auto simp: metric_step_def metrics_flush_def split: if_splits)
  then show ?case using Cons.IH [of r1 m1] Cons.prems(2) 1 by simp
qed simp

section \<open>Properties\<close>

text \<open>The number of operations that count for a gauge.\<close>

abbreviation tally :: "gauge \<Rightarrow> metric_op list \<Rightarrow> int" where
  "tally g ops \<equiv> int (length (filter (counts_for g) ops))"

text \<open>After a flush Redis holds the tallies, under keys the dashboard can read.\<close>

lemma flushed_tallies:
  assumes "fold metric_step (ops @ [FlushMetrics]) (no_metrics, empty_redis) = (m, r)"
    and "\<forall>n \<in> set (dict_values (mr_hashes r)) \<union> set (dict_values (mr_counters r)). redis_int n"
  shows "stored g r = tally g ops" "redis_ok r" "mr_reachable r" "dict_get (mr_texts r) ''proxy:requests:total'' = None"
proof -
  have fil: "length (filter (counts_for g) (ops @ [FlushMetrics])) = length (filter (counts_for g) ops)" for g by simp
  note st = metric_steps_count [OF _ assms(1), unfolded fil]
  have "stored g empty_redis = 0" by (cases g) simp_all
  then show "stored g r = tally g ops" using st [of g] by simp
  show reach: "mr_reachable r" using st by simp
  then show "redis_ok r" using assms(2) wf_metric_steps [OF _ assms(1)] by (simp add: redis_ok_def)
  show "dict_get (mr_texts r) ''proxy:requests:total'' = None" using texts_metric_steps [OF _ assms(1)] by simp
qed

text \<open>A bucket with requests is among those found by their keys.\<close>

lemma bucket_found:
  assumes "redis_int b" "count_of (mr_hashes r) (''proxy:ts:requests:'' @ str_int b, svc) \<noteq> 0"
    and "\<And>k. k \<in> fst ` set (dict_keys (mr_hashes r)) \<Longrightarrow> starts_with ''proxy:ts:requests:'' k \<Longrightarrow> k \<in> set keys"
  shows "b \<in> set (List.map_filter bucket_id_from_key keys)"
proof -
  let ?k = "''proxy:ts:requests:'' @ str_int b"
  have "(?k, svc) \<in> set (dict_keys (mr_hashes r))" by (rule counted_key [OF assms(2)])
  then have "?k \<in> fst ` set (dict_keys (mr_hashes r))" by (rule rev_image_eqI) (rule fst_conv [symmetric])
  then have "?k \<in> set keys" by (rule assms(3)) (rule starts_with_append)
  then show ?thesis unfolding map_filter_set using bucket_id_of_key [OF assms(1)] by blast
qed



text \<open>The events the dashboard's list shows: all but two kinds, and of starts those that name a component.\<close>

definition shown_event :: "web_socket_event \<Rightarrow> bool" where
  "shown_event e \<longleftrightarrow> ev_kind e \<noteq> REPLICA_FAILED \<and> ev_kind e \<noteq> NODE_UPDATED
     \<and> (ev_kind e = PLATFORM_STARTED \<longrightarrow> payload_get (ev_payload e) ''component'' \<noteq> JNull)"

lemma is_platform_activity_iff: "is_platform_activity rp e \<longleftrightarrow> shown_event e"
  by (cases "ev_kind e") (simp_all add: is_platform_activity_def component_for_event_def shown_event_def
    platform_service_for_event_def Let_def)

text \<open>C35. The list of events of the platform is, without filters, the shown events, latest first, at most as
  many as asked for and never more than 500. A replica that failed to start and an update of a node are
  never listed, whatever the filters, nor are they an activity of any component.\<close>

theorem platform_events_listed:
  "platform_events_of rp limit None None events = take (nat (max 1 (min limit 500))) (rev (filter shown_event events))
    \<and> (\<forall>e \<in> set (platform_events_of rp limit component service events). shown_event e)
    \<and> (ev_kind e = REPLICA_FAILED \<or> ev_kind e = NODE_UPDATED \<longrightarrow> event_to_activity rp e = None)"
proof (intro conjI impI ballI)
  show "platform_events_of rp limit None None events = take (nat (max 1 (min limit 500))) (rev (filter shown_event events))"
    by (simp add: platform_events_of_def matches_event_filter_def is_platform_activity_iff bounded_def rev_filter)
next
  fix e assume "e \<in> set (platform_events_of rp limit component service events)"
  then show "shown_event e" by (auto simp: platform_events_of_def is_platform_activity_iff dest: in_set_takeD)
next
  assume "ev_kind e = REPLICA_FAILED \<or> ev_kind e = NODE_UPDATED"
  then show "event_to_activity rp e = None"
    by (auto simp: event_to_activity_def component_for_event_def platform_service_for_event_def Let_def)
qed

theorem platform_events_listed_witness:
  "event_to_activity (\<lambda>_. ''None'') \<lparr>ev_kind = REPLICA_FAILED, ev_timestamp = 0, ev_payload = [(''service_name'', JStr ''web'')]\<rparr> = None"
  using platform_events_listed [of "\<lambda>_. ''None''" 1 "[]" None None "\<lparr>ev_kind = REPLICA_FAILED, ev_timestamp = 0, ev_payload = [(''service_name'', JStr ''web'')]\<rparr>"]
  by simp

text \<open>Platform services are listed in the given order, then the others by name, each once.\<close>

lemma ordered_names:
  fixes containers :: "compose_container_info list"
  defines "by_service \<equiv> dict_of_list (map (\<lambda>c. (cc_service c, c)) containers)"
  shows "distinct (map (\<lambda>p. cc_service (fst p)) (ordered_platform_services containers))
    \<and> set (map (\<lambda>p. cc_service (fst p)) (ordered_platform_services containers)) = cc_service ` set containers"
proof -
  let ?names = "filter (dict_has by_service) platform_service_order @ sort (filter (\<lambda>name. name \<notin> set platform_service_order) (dict_keys by_service))"
  have g: "dict_get by_service n = Some c \<Longrightarrow> cc_service c = n" for n c
    unfolding by_service_def dict_of_list_def dict_merge_get by (auto dest!: map_of_SomeD split: option.splits)
  have has: "dict_has by_service n \<longleftrightarrow> n \<in> cc_service ` set containers" for n
    by (auto simp: by_service_def dict_has_def dict_of_list_def dict_merge_get map_of_eq_None_iff image_iff dest!: map_of_SomeD split: option.split)
  have "wf_dict by_service" by (simp add: by_service_def)
  then have d: "distinct ?names" by (auto simp: wf_dict_def platform_service_order_def)
  have "dict_get by_service n \<noteq> None" if "n \<in> set ?names" for n
    using that by (auto simp only: set_append Un_iff set_filter mem_Collect_eq set_sort dict_has_iff [symmetric] dict_has_def)
  then have "cc_service (the (dict_get by_service n)) = n" if "n \<in> set ?names" for n
    using that g [of n] by fastforce
  then have "map (\<lambda>n. cc_service (the (dict_get by_service n))) ?names = ?names" by (intro map_idI)
  moreover have "map (\<lambda>p. cc_service (fst p)) (ordered_platform_services containers)
      = map (\<lambda>n. cc_service (the (dict_get by_service n))) ?names"
    by (simp add: ordered_platform_services_def Let_def by_service_def comp_def)
  ultimately have "map (\<lambda>p. cc_service (fst p)) (ordered_platform_services containers) = ?names" by simp
  moreover have "set ?names = cc_service ` set containers" by (auto simp only: set_append Un_iff set_filter mem_Collect_eq set_sort has dict_has_iff [symmetric])
  ultimately show ?thesis using d by simp
qed

end
