(* ===== verification/Startup.thy ===== *)
theory Startup
  imports ControlPlane TtlCache Health Autoscale
begin

text \<open>
  How the five processes of the platform start (\<open>services/*/main.py\<close>) on what they share: the tables of
  Postgres, the stream and keys of Redis, Docker and the data directory. Each connects, creates the tables
  it needs, builds its component, starts it and publishes \<open>PLATFORM_STARTED\<close>. A raise ends the process and
  leaves what was done so far.
\<close>

section \<open>What the processes share\<close>

text \<open>The \<open>plane\<close> with the users, the names of the tables that exist, whether Postgres answers, and the
  file \<open>/app/healthy\<close> by which Docker Compose takes the orchestrator for healthy.\<close>

record ('d, 'r, 'k) site =
  st_plane :: "('d, 'r, 'k) plane"
  st_users :: "(string, user_spec) pydict"
  st_tables :: "string list"
  st_postgres :: bool
  st_healthy_marker :: bool

definition on_plane :: "(('d, 'r, 'k) plane, 'a) prog \<Rightarrow> (('d, 'r, 'k) site, 'a) prog" where
  "on_plane m s = (case m (st_plane s) of (r, p) \<Rightarrow> (r, s\<lparr>st_plane := p\<rparr>))"

definition user_rows :: "(('d, 'r, 'k) site, user_spec) store_ops" where
  "user_rows = dict_store st_users (\<lambda>f s. s\<lparr>st_users := f (st_users s)\<rparr>)"

text \<open>\<open>asyncpg.create_pool\<close> opens its first connections at once; the client of Redis connects when it is
  first used. \<open>CREATE TABLE IF NOT EXISTS\<close> leaves a table that exists alone.\<close>

definition create_pool :: "(('d, 'r, 'k) site, unit) prog" where
  "create_pool = bind_p (get_s st_postgres) (\<lambda>up. if up then ret () else raise OSError)"

definition create_table :: "string \<Rightarrow> (('d, 'r, 'k) site, unit) prog" where
  "create_table table = mod_s (\<lambda>s. if table \<in> set (st_tables s) then s else s\<lparr>st_tables := st_tables s @ [table]\<rparr>)"

definition platform_started :: "('d, 'r, 'k) plane_env \<Rightarrow> nat \<Rightarrow> (string, json) pydict \<Rightarrow> (('d, 'r, 'k) site, unit) prog" where
  "platform_started pe trim payload = bind_p (get_s (\<lambda>s. w_clock (pn_world (st_plane s)))) (\<lambda>now.
     on_plane (on_bus (redis_publish (pe_codec pe) trim
       \<lparr>ev_kind = PLATFORM_STARTED, ev_timestamp = now, ev_payload = payload\<rparr>)))"

section \<open>services/control-plane/main.py\<close>

definition data_root :: "path \<Rightarrow> settings \<Rightarrow> path" where
  "data_root cwd cfg = path_join cwd (cfg_data_directory cfg)"

definition ensure_data_directories :: "path \<Rightarrow> settings \<Rightarrow> (fs, unit) prog" where
  "ensure_data_directories cwd cfg = for_p
     [data_root cwd cfg, path_join (data_root cwd cfg) ''storage'', path_join (data_root cwd cfg) ''manifests'']
     (\<lambda>directory. fs_do (mkdir_parents directory))"

text \<open>The assignments to the registry: the stores of databases and nodes are there from now on, with the
  rows their tables hold.\<close>

definition register :: "(('d, 'r, 'k) site, unit) prog" where
  "register = on_plane (on_world (mod_s (\<lambda>w. w\<lparr>
     w_databases := Some (case w_databases w of None \<Rightarrow> [] | Some d \<Rightarrow> d),
     w_node_store := Some (case w_node_store w of None \<Rightarrow> [] | Some d \<Rightarrow> d)\<rparr>)))"

definition control_plane_tables :: "string list" where
  "control_plane_tables = [''services'', ''databases'', ''deployments'', ''nodes'', ''secrets'', ''users'']"

definition lifespan :: "('d, 'r, 'k) plane_env \<Rightarrow> bcrypt_lib \<Rightarrow> path \<Rightarrow> string \<Rightarrow> nat \<Rightarrow> (('d, 'r, 'k) site, unit) prog" where
  "lifespan pe bc cwd salt trim = (let cfg = en_cfg (pe_env pe) in
     bind_p (on_plane (on_storage (ensure_data_directories cwd cfg))) (\<lambda>_.
     bind_p create_pool (\<lambda>_.
     bind_p (for_p control_plane_tables create_table) (\<lambda>_.
     bind_p register (\<lambda>_.
     bind_p (seed_default_admin bc cfg salt user_rows) (\<lambda>_.
     platform_started pe trim [(''component'', JStr ''control-plane''), (''port'', JInt (cfg_api_port cfg))]))))))"

section \<open>services/orchestrator/main.py\<close>

text \<open>The client of Docker only reads its environment here. The node manager is a new one.\<close>

definition orchestrator_main :: "('d, 'r, 'k) plane_env \<Rightarrow> nat \<Rightarrow> (('d, 'r, 'k) site, unit) prog" where
  "orchestrator_main pe trim = (let cfg = en_cfg (pe_env pe) in
     bind_p (mod_s (\<lambda>s. s\<lparr>st_healthy_marker := True\<rparr>)) (\<lambda>_.
     bind_p create_pool (\<lambda>_.
     bind_p (for_p [''services'', ''databases'', ''deployments'', ''secrets'', ''nodes''] create_table) (\<lambda>_.
     bind_p register (\<lambda>_.
     case create_scheduler (cfg_scheduler_policy cfg) of
       Inl e \<Rightarrow> raise e
     | Inr scheduler \<Rightarrow>
         bind_p (on_plane (on_world (mod_s (\<lambda>w. w\<lparr>w_nodes := []\<rparr>)))) (\<lambda>_.
         bind_p (on_plane (on_world (start_orchestrator ((pe_env pe)\<lparr>en_select := scheduler\<rparr>)))) (\<lambda>_.
         platform_started pe trim
           [(''component'', JStr ''orchestrator''), (''reconcile_interval_seconds'', JInt (cfg_reconcile_interval_seconds cfg)),
            (''scheduler_policy'', JStr (cfg_scheduler_policy cfg))])))))))"

section \<open>The other processes\<close>

definition proxy_store_cache_ttl_seconds :: pyfloat where "proxy_store_cache_ttl_seconds = 5"

definition proxy_store_cache_max_entries :: int where "proxy_store_cache_max_entries = 1024"

text \<open>The proxy's two caches are over the stores of services and secrets, which stay where they are.\<close>

definition proxy_main :: "('d, 'r, 'k) plane_env \<Rightarrow> nat \<Rightarrow> pyfloat
    \<Rightarrow> (('d, 'r, 'k) site, (unit, service_state) ttl_cache \<times> (unit, secret_spec) ttl_cache) prog" where
  "proxy_main pe trim clock = (let cfg = en_cfg (pe_env pe) in
     bind_p create_pool (\<lambda>_.
     bind_p (create_table ''services'') (\<lambda>_.
     bind_p (create_table ''secrets'') (\<lambda>_.
     case ttl_init () proxy_store_cache_ttl_seconds proxy_store_cache_max_entries clock of
       Inl e \<Rightarrow> raise e
     | Inr cached_services \<Rightarrow> (case ttl_init () proxy_store_cache_ttl_seconds proxy_store_cache_max_entries clock of
         Inl e \<Rightarrow> raise e
       | Inr cached_secrets \<Rightarrow>
           bind_p (platform_started pe trim [(''component'', JStr ''proxy''), (''port'', JInt (cfg_proxy_port cfg))])
             (\<lambda>_. ret (cached_services, cached_secrets)))))))"

definition health_checker_main :: "('d, 'r, 'k) plane_env \<Rightarrow> nat \<Rightarrow> redis_db \<Rightarrow> (('d, 'r, 'k) site, redis_db health_checker) prog" where
  "health_checker_main pe trim db = (let cfg = en_cfg (pe_env pe) in
     bind_p create_pool (\<lambda>_.
     bind_p (create_table ''services'') (\<lambda>_.
     bind_p (platform_started pe trim
       [(''component'', JStr ''health-checker''), (''interval_seconds'', JInt (cfg_health_check_interval_seconds cfg)),
        (''success_threshold'', JInt (cfg_health_check_success_threshold cfg)),
        (''failure_threshold'', JInt (cfg_health_check_failure_threshold cfg))]) (\<lambda>_.
     ret (new_checker db)))))"

definition autoscaler_main :: "('d, 'r, 'k) plane_env \<Rightarrow> nat \<Rightarrow> (('d, 'r, 'k) site, (string, service_state) pydict autoscaler) prog" where
  "autoscaler_main pe trim = (let cfg = en_cfg (pe_env pe) in
     bind_p create_pool (\<lambda>_.
     bind_p (create_table ''services'') (\<lambda>_.
     bind_p (platform_started pe trim
       [(''component'', JStr ''autoscaler''), (''interval_seconds'', JInt (cfg_autoscaler_interval_seconds cfg))]) (\<lambda>_.
     bind_p (get_s (\<lambda>s. w_services (pn_world (st_plane s)))) (\<lambda>services.
     ret \<lparr>as_store = services, as_counters = [], as_decisions = [], as_last_counts = [], as_published = []\<rparr>)))))"

end
