(* ===== verification/StartupFacts.thy ===== *)
theory StartupFacts
  imports Startup ControlFacts
begin

text \<open>
  The start of the control plane: on a fresh platform it ends with an administrator who can log in, and on
  one that has been used it changes nothing.
\<close>

section \<open>Making directories\<close>

text \<open>Nothing but directories is in the way to \<open>p\<close>.\<close>

definition clear_way :: "path \<Rightarrow> fs \<Rightarrow> bool" where
  "clear_way p t \<longleftrightarrow> plain_path p \<and> (\<forall>r s data. p = r @ s \<longrightarrow> node_at t r \<noteq> Some (File data))"

lemma clear_way_prefix: "clear_way (p @ q) t \<Longrightarrow> clear_way p t"
  by (auto simp: clear_way_def plain_path_def)

lemma walk_missing:
  assumes "\<forall>r s data. p = r @ s \<longrightarrow> node_at t (here @ r) \<noteq> Some (File data)" "plain_path p"
    and "walk t here p = Inl e"
  shows "e = NoEntry"
  using assms
proof (induction p arbitrary: here)
  case (Cons c p)
  have h: "node_at t here \<noteq> Some (File data)" for data using Cons.prems(1) [rule_format, of "[]" "c # p"] by simp
  show ?case
  proof (cases "node_at t here")
    case (Some n)
    then have "n = Dir" using h by (cases n) auto
    moreover have "\<forall>r s data. p = r @ s \<longrightarrow> node_at t ((here @ [c]) @ r) \<noteq> Some (File data)"
      using Cons.prems(1) by (metis append.assoc append_Cons append_Nil)
    ultimately show ?thesis using Cons.IH [of "here @ [c]"] Cons.prems(2,3) Some by (auto simp: plain_path_def)
  qed (use Cons.prems(3) in simp)
qed simp

lemma mkdir_existing: "is_dir p t \<Longrightarrow> mkdir_exist_ok p t = (None, t) \<and> mkdir_parents p t = (None, t)"
  by (auto simp: is_dir_def find_node_def mkdir_parents.simps mkdir_exist_ok_def os_mkdir_def split: sum.splits)

lemma clear_way_dir: "clear_way p t \<Longrightarrow> walk t [] p = Inr q \<Longrightarrow> q = p \<and> (node_at t p = None \<or> node_at t p = Some Dir)"
  using walk_plain [of p t "[]" q] unfolding clear_way_def
  by (cases "node_at t p"; cases "the (node_at t p)") auto

lemma mkdir_exist_ok_clear:
  assumes "clear_way p t" "walk t [] p = Inr q"
  shows "\<exists>t'. mkdir_exist_ok p t = (None, t') \<and> (\<forall>r. node_at t' r = (if r = p then Some Dir else node_at t r))"
proof (cases "node_at t p")
  case None
  then have "p \<noteq> []" by (auto simp: node_at_def)
  then show ?thesis using None clear_way_dir [OF assms] assms(2)
    by (simp add: mkdir_exist_ok_def os_mkdir_def node_at_put)
next
  case (Some n)
  then have "is_dir p t" using clear_way_dir [OF assms] assms(2) by (simp add: is_dir_def find_node_def)
  then show ?thesis using mkdir_existing Some clear_way_dir [OF assms] by fastforce
qed

lemma mkdir_parents_clear:
  "clear_way p t \<Longrightarrow> \<exists>t'. mkdir_parents p t = (None, t') \<and> is_dir p t'
     \<and> (\<forall>r. node_at t' r = Some Dir \<or> node_at t' r = node_at t r)"
proof (induction p arbitrary: t rule: rev_induct)
  case Nil
  have "is_dir [] t" by (simp add: is_dir_def find_node_def node_at_def)
  then show ?case using mkdir_existing by blast
next
  case (snoc c p)
  show ?case
  proof (cases "walk t [] (p @ [c])")
    case (Inr q)
    from mkdir_exist_ok_clear [OF snoc.prems Inr] obtain t' where t': "mkdir_exist_ok (p @ [c]) t = (None, t')"
        "\<forall>r. node_at t' r = (if r = p @ [c] then Some Dir else node_at t r)" by blast
    have "mkdir_parents (p @ [c]) t = mkdir_exist_ok (p @ [c]) t"
      using Inr by (auto simp: mkdir_parents.simps os_mkdir_def)
    then show ?thesis using t' mkdir_exist_ok_dir [OF t'(1)] by auto
  next
    case (Inl e)
    then have e: "e = NoEntry" using walk_missing [of "p @ [c]" t "[]"] snoc.prems by (auto simp: clear_way_def)
    from snoc.IH [OF clear_way_prefix [OF snoc.prems]] obtain t1 where t1: "mkdir_parents p t = (None, t1)" "is_dir p t1"
        "\<forall>r. node_at t1 r = Some Dir \<or> node_at t1 r = node_at t r" by blast
    have c1: "clear_way (p @ [c]) t1"
      using snoc.prems t1(3) unfolding clear_way_def by (metis fs_node.distinct(1) option.inject)
    have "walk t1 [] p = Inr p" using t1(2) walk_plain [of p t1 "[]"] snoc.prems
      by (auto simp: is_dir_def find_node_def clear_way_def plain_path_def split: sum.splits)
    moreover have "node_at t1 p = Some Dir" using t1(2) calculation by (simp add: is_dir_def find_node_def)
    moreover have "c \<noteq> ''..''" using snoc.prems by (auto simp: clear_way_def plain_path_def)
    ultimately have w: "walk t1 [] (p @ [c]) = Inr (p @ [c])" by (simp add: walk_append)
    from mkdir_exist_ok_clear [OF c1 w] obtain t' where t': "mkdir_exist_ok (p @ [c]) t1 = (None, t')"
        "\<forall>r. node_at t' r = (if r = p @ [c] then Some Dir else node_at t1 r)" by blast
    have "mkdir_parents (p @ [c]) t = (None, t')"
      using Inl e t1(1) t'(1) by (simp add: mkdir_parents.simps [of "p @ [c]"] os_mkdir_def)
    then show ?thesis using t' t1(3) mkdir_exist_ok_dir [OF t'(1)] by auto
  qed
qed

lemma clear_way_kept:
  "clear_way p t \<Longrightarrow> \<forall>r. node_at t' r = Some Dir \<or> node_at t' r = node_at t r \<Longrightarrow> clear_way p t'"
  unfolding clear_way_def by (metis fs_node.distinct(1) option.inject)

lemma make_directories:
  "\<forall>p \<in> set ps. clear_way p t \<Longrightarrow> \<exists>t'. for_p ps (\<lambda>p. fs_do (mkdir_parents p)) t = (Inr (), t') \<and> grows t t' \<and> keeps_files {} t t'
     \<and> (\<forall>p \<in> set ps. is_dir p t')"
proof (induction ps arbitrary: t)
  case (Cons p ps)
  then obtain t1 where t1: "mkdir_parents p t = (None, t1)" "is_dir p t1" "\<forall>r. node_at t1 r = Some Dir \<or> node_at t1 r = node_at t r"
    using mkdir_parents_clear [of p t] by auto
  have "\<forall>p \<in> set ps. clear_way p t1" using Cons.prems clear_way_kept [OF _ t1(3)] by simp
  from Cons.IH [OF this] obtain t2 where t2: "for_p ps (\<lambda>p. fs_do (mkdir_parents p)) t1 = (Inr (), t2)" "grows t1 t2" "keeps_files {} t1 t2"
      "\<forall>p \<in> set ps. is_dir p t2" by blast
  have "is_dir p t2" using t1(2) t2(2) walk_grows [OF t2(2)] by (auto simp: is_dir_def find_node_def grows_def split: sum.splits)
  moreover have "for_p (p # ps) (\<lambda>p. fs_do (mkdir_parents p)) t = (Inr (), t2)"
    using t1(1) t2(1) by (simp add: fs_do_def bind_p_def)
  ultimately show ?case using t2 mkdir_parents_effect [OF t1(1)] grows_trans keeps_trans by fastforce
qed (simp add: ret_def)

lemma remake_directories:
  "\<forall>p \<in> set ps. is_dir p t \<Longrightarrow> for_p ps (\<lambda>p. fs_do (mkdir_parents p)) t = (Inr (), t)"
  by (induction ps) (auto simp: fs_do_def bind_p_def ret_def mkdir_existing)

section \<open>The start of the control plane\<close>

interpretation site_users: user_store user_rows "\<lambda>s. dict_get (st_users s)" "\<lambda>s. wf_dict (st_users s)"
  using field_store.field_any_store [of st_users "\<lambda>f s. s\<lparr>st_users := f (st_users s)\<rparr>"]
  by (simp add: user_store_def field_store_def user_rows_def)

lemma create_tables:
  "\<exists>ts. for_p tables create_table s = (Inr (), s\<lparr>st_tables := ts\<rparr>) \<and> set ts = set (st_tables s) \<union> set tables
     \<and> (set tables \<subseteq> set (st_tables s) \<longrightarrow> ts = st_tables s)"
proof (induction tables arbitrary: s)
  case (Cons t tables)
  let ?s = "if t \<in> set (st_tables s) then s else s\<lparr>st_tables := st_tables s @ [t]\<rparr>"
  from Cons.IH [of ?s] obtain ts where "for_p tables create_table ?s = (Inr (), ?s\<lparr>st_tables := ts\<rparr>)"
      "set ts = set (st_tables ?s) \<union> set tables" "set tables \<subseteq> set (st_tables ?s) \<longrightarrow> ts = st_tables ?s" by blast
  moreover have "for_p (t # tables) create_table s = for_p tables create_table ?s"
    by (simp add: bind_p_def) (simp add: create_table_def mod_s_def)
  moreover have "?s\<lparr>st_tables := ts\<rparr> = s\<lparr>st_tables := ts\<rparr>" by simp
  ultimately show ?case by (intro exI [of _ ts]) (auto split: if_splits)
qed (simp add: prog_defs)

lemma platform_started_run:
  assumes "es_reachable (bus_stream (pn_bus (st_plane s)))"
  shows "\<exists>b. platform_started pe trim payload s = (Inr (), s\<lparr>st_plane := (st_plane s)\<lparr>pn_bus := b\<rparr>\<rparr>)"
  using assms by (auto simp: platform_started_def on_plane_def on_bus_def redis_publish_def on_stream_def xadd_def prog_defs Let_def)

definition data_directories :: "path \<Rightarrow> settings \<Rightarrow> path set" where
  "data_directories cwd cfg = {data_root cwd cfg, data_root cwd cfg @ [''storage''], data_root cwd cfg @ [''manifests'']}"

lemma data_directories_list:
  "set [data_root cwd cfg, path_join (data_root cwd cfg) ''storage'', path_join (data_root cwd cfg) ''manifests''] = data_directories cwd cfg"
  by (auto simp: data_directories_def path_join_def path_parts_def starts_with_def)

lemma lifespan_run:
  assumes "st_postgres s" "es_reachable (bus_stream (pn_bus (st_plane s)))"
    and "ensure_data_directories cwd (en_cfg (pe_env pe)) (pn_files (st_plane s)) = (Inr (), t)"
  shows "\<exists>b ts. lifespan pe bc cwd salt trim s = (Inr (), s\<lparr>
      st_plane := (st_plane s)\<lparr>pn_files := t, pn_bus := b, pn_world := (pn_world (st_plane s))\<lparr>
        w_databases := Some (case w_databases (pn_world (st_plane s)) of None \<Rightarrow> [] | Some d \<Rightarrow> d),
        w_node_store := Some (case w_node_store (pn_world (st_plane s)) of None \<Rightarrow> [] | Some d \<Rightarrow> d)\<rparr>\<rparr>,
      st_tables := ts,
      st_users := (let cfg = en_cfg (pe_env pe) in if dict_has (st_users s) (cfg_default_admin_username cfg) then st_users s
        else dict_put (cfg_default_admin_username cfg) (make_default_admin bc cfg salt) (st_users s))\<rparr>)
    \<and> set ts = set (st_tables s) \<union> set control_plane_tables
    \<and> (set control_plane_tables \<subseteq> set (st_tables s) \<longrightarrow> ts = st_tables s)"
proof -
  let ?cfg = "en_cfg (pe_env pe)"
  let ?s1 = "s\<lparr>st_plane := (st_plane s)\<lparr>pn_files := t\<rparr>\<rparr>"
  obtain ts where ts: "for_p control_plane_tables create_table ?s1 = (Inr (), ?s1\<lparr>st_tables := ts\<rparr>)"
      "set ts = set (st_tables s) \<union> set control_plane_tables" "set control_plane_tables \<subseteq> set (st_tables s) \<longrightarrow> ts = st_tables s"
    using create_tables [of control_plane_tables ?s1] by auto
  obtain s2 where s2: "register (?s1\<lparr>st_tables := ts\<rparr>) = (Inr (), s2)" "s2 = s\<lparr>
      st_plane := (st_plane s)\<lparr>pn_files := t, pn_world := (pn_world (st_plane s))\<lparr>
        w_databases := Some (case w_databases (pn_world (st_plane s)) of None \<Rightarrow> [] | Some d \<Rightarrow> d),
        w_node_store := Some (case w_node_store (pn_world (st_plane s)) of None \<Rightarrow> [] | Some d \<Rightarrow> d)\<rparr>\<rparr>, st_tables := ts\<rparr>"
    by (simp add: register_def on_plane_def on_world_def prog_defs)
  let ?s3 = "s2\<lparr>st_users := (if dict_has (st_users s) (cfg_default_admin_username ?cfg) then st_users s
        else dict_put (cfg_default_admin_username ?cfg) (make_default_admin bc ?cfg salt) (st_users s))\<rparr>"
  have s3: "seed_default_admin bc ?cfg salt user_rows s2 = (Inr (), ?s3)"
    by (simp add: s2(2) seed_default_admin_def user_rows_def dict_store_def prog_defs Let_def make_default_admin_def)
  have "es_reachable (bus_stream (pn_bus (st_plane ?s3)))" using assms(2) s2(2) by simp
  from platform_started_run [OF this] obtain b where b:
      "platform_started pe trim [(''component'', JStr ''control-plane''), (''port'', JInt (cfg_api_port ?cfg))] ?s3
        = (Inr (), ?s3\<lparr>st_plane := (st_plane ?s3)\<lparr>pn_bus := b\<rparr>\<rparr>)" by blast
  have "lifespan pe bc cwd salt trim s = (Inr (), ?s3\<lparr>st_plane := (st_plane ?s3)\<lparr>pn_bus := b\<rparr>\<rparr>)"
    using assms(1,3) ts(1) s2(1) s3 b
    by (simp add: lifespan_def Let_def bind_p_def on_plane_def on_storage_def create_pool_def get_s_def ret_def)
  then show ?thesis using ts(2,3) s2(2) by (intro exI [of _ b] exI [of _ ts]) (simp add: Let_def)
qed

section \<open>Properties\<close>

text \<open>C36. The first start makes the platform usable, and a later one changes nothing. With Postgres and Redis
  up, nothing in the way of the data directories and no administrator yet, the control plane starts: the
  configured administrator logs in with the configured password, the token gives every role, the directories
  and tables are there, and no file or service is touched. Started again on a platform that has all this,
  whatever else happened to it, it only publishes that it has started.\<close>

theorem control_plane_starts:
  fixes pe :: "('d, 'r, 'k) plane_env" and s :: "('d, 'r, 'k) site"
  defines "cfg \<equiv> en_cfg (pe_env pe)"
  assumes "jwt_ok (pe_jwt pe)" "bcrypt_ok bc" "0 < cfg_jwt_expiry_hours cfg"
    and "st_postgres s" "es_reachable (bus_stream (pn_bus (st_plane s)))"
    and "\<forall>d \<in> data_directories cwd cfg. clear_way d (pn_files (st_plane s))"
    and "wf_dict (st_users s)" "dict_get (st_users s) (cfg_default_admin_username cfg) = None"
  shows "\<exists>s' token. lifespan pe bc cwd salt trim s = (Inr (), s')
    \<and> fst (login (pe_jwt pe) bc cfg (w_clock (pn_world (st_plane s')) div 1000000) user_rows
        (cfg_default_admin_username cfg) (cfg_default_admin_password cfg) s') = Inr token
    \<and> (\<forall>m. authorised pe m token (st_plane s'))
    \<and> (\<forall>d \<in> data_directories cwd cfg. is_dir d (pn_files (st_plane s')))
    \<and> keeps_files {} (pn_files (st_plane s)) (pn_files (st_plane s')) \<and> services (st_plane s') = services (st_plane s)
    \<and> set control_plane_tables \<subseteq> set (st_tables s')
    \<and> (\<forall>s1 salt1 trim1. st_postgres s1 \<and> es_reachable (bus_stream (pn_bus (st_plane s1)))
         \<and> dict_has (st_users s1) (cfg_default_admin_username cfg) \<and> set control_plane_tables \<subseteq> set (st_tables s1)
         \<and> (\<forall>d \<in> data_directories cwd cfg. is_dir d (pn_files (st_plane s1)))
         \<and> w_databases (pn_world (st_plane s1)) \<noteq> None \<and> w_node_store (pn_world (st_plane s1)) \<noteq> None
         \<longrightarrow> (\<exists>b. lifespan pe bc cwd salt1 trim1 s1 = (Inr (), s1\<lparr>st_plane := (st_plane s1)\<lparr>pn_bus := b\<rparr>\<rparr>)))"
proof -
  let ?admin = "make_default_admin bc cfg salt"
  obtain t where t: "ensure_data_directories cwd cfg (pn_files (st_plane s)) = (Inr (), t)"
      "keeps_files {} (pn_files (st_plane s)) t" "\<forall>d \<in> data_directories cwd cfg. is_dir d t"
    using make_directories [OF assms(7) [folded data_directories_list]]
    unfolding ensure_data_directories_def data_directories_list by blast
  obtain s' where s': "lifespan pe bc cwd salt trim s = (Inr (), s')" "pn_files (st_plane s') = t"
      "services (st_plane s') = services (st_plane s)" "st_users s' = dict_put (cfg_default_admin_username cfg) ?admin (st_users s)"
      "set control_plane_tables \<subseteq> set (st_tables s')"
  proof -
    from lifespan_run [OF assms(5,6) t(1) [unfolded cfg_def], of bc salt trim] assms(9) show thesis
      by (elim exE conjE) (rule that, assumption, simp_all add: dict_has_def cfg_def Let_def)
  qed
  let ?now = "w_clock (pn_world (st_plane s')) div 1000000"
  let ?token = "create_token (pe_jwt pe) cfg ?now ?admin"
  have "fst (login (pe_jwt pe) bc cfg ?now user_rows (cfg_default_admin_username cfg) (cfg_default_admin_password cfg) s') = Inr ?token"
    using assms(3,8) s'(4) by (intro site_users.login_correct)
      (simp_all add: make_default_admin_def verify_password_def hash_password_def bcrypt_ok_def)
  moreover have "authorised pe m ?token (st_plane s')" for m
    using assms(2,4) unfolding authorised_def cfg_def [symmetric]
    by (cases m) (simp_all add: require_role_of_token make_default_admin_def less_eq_role_def)
  moreover have "\<exists>b. lifespan pe bc cwd salt1 trim1 s1 = (Inr (), s1\<lparr>st_plane := (st_plane s1)\<lparr>pn_bus := b\<rparr>\<rparr>)"
    if 1: "st_postgres s1" "es_reachable (bus_stream (pn_bus (st_plane s1)))" "dict_has (st_users s1) (cfg_default_admin_username cfg)"
      "set control_plane_tables \<subseteq> set (st_tables s1)" "\<forall>d \<in> data_directories cwd cfg. is_dir d (pn_files (st_plane s1))"
      "w_databases (pn_world (st_plane s1)) = Some dbs" "w_node_store (pn_world (st_plane s1)) = Some ns" for s1 salt1 trim1 dbs ns
  proof -
    have "ensure_data_directories cwd cfg (pn_files (st_plane s1)) = (Inr (), pn_files (st_plane s1))"
      using remake_directories [OF 1(5) [folded data_directories_list]] by (simp add: ensure_data_directories_def)
    from lifespan_run [OF 1(1,2) this [unfolded cfg_def], of bc salt1 trim1] 1(3)
    obtain b where b: "lifespan pe bc cwd salt1 trim1 s1 = (Inr (), s1\<lparr>st_plane := (st_plane s1)\<lparr>pn_bus := b,
        pn_world := (pn_world (st_plane s1))\<lparr>w_databases := Some dbs, w_node_store := Some ns\<rparr>\<rparr>\<rparr>)"
      using 1(4,6,7) by (auto simp: Let_def cfg_def)
    have "(pn_world (st_plane s1))\<lparr>w_databases := Some dbs, w_node_store := Some ns\<rparr> = pn_world (st_plane s1)"
      using 1(6,7) by (cases "pn_world (st_plane s1)") simp
    then show ?thesis using b by auto
  qed
  ultimately show ?thesis using s' t by (intro exI [of _ s'] exI [of _ ?token]) (auto dest!: not_None_eq [THEN iffD1])
qed

definition fresh_site :: "(memory_daemon, redis_db, (string, json) pydict) site" where
  "fresh_site = \<lparr>st_plane = demo_plane\<lparr>pn_files := []\<rparr>, st_users = [], st_tables = [], st_postgres = True, st_healthy_marker = False\<rparr>"

theorem control_plane_starts_witness:
  "\<exists>s' token. lifespan demo_plane_env plain_bcrypt [''app''] ''s'' 0 fresh_site = (Inr (), s')
    \<and> fst (login plain_jwt plain_bcrypt default_settings (w_clock (pn_world (st_plane s')) div 1000000) user_rows ''admin'' ''admin'' s') = Inr token
    \<and> authorised demo_plane_env ADMIN token (st_plane s') \<and> is_dir [''app'', ''data'', ''storage''] (pn_files (st_plane s'))"
proof -
  have cfg: "en_cfg (pe_env demo_plane_env) = default_settings" "pe_jwt demo_plane_env = plain_jwt"
    by (simp_all add: demo_plane_env_def plain_env_def)
  have dirs: "data_directories [''app''] default_settings = {[''app'', ''data''], [''app'', ''data'', ''storage''], [''app'', ''data'', ''manifests'']}"
    by (simp add: data_directories_def data_root_def path_join_def path_parts_def starts_with_def default_settings_def)
  have "\<forall>d \<in> data_directories [''app''] default_settings. clear_way d []"
    by (auto simp: dirs clear_way_def plain_path_def node_at_def)
  moreover have "es_reachable (bus_stream (pn_bus (st_plane fresh_site)))" "pn_files (st_plane fresh_site) = []" "st_postgres fresh_site"
      "st_users fresh_site = []"
    by (simp_all add: fresh_site_def demo_plane_def new_redis_bus_def no_stream_def)
  moreover have "cfg_default_admin_username default_settings = ''admin''" "cfg_default_admin_password default_settings = ''admin''"
      "0 < cfg_jwt_expiry_hours default_settings"
    by (simp_all add: default_settings_def)
  ultimately have "\<exists>s' token. lifespan demo_plane_env plain_bcrypt [''app''] ''s'' 0 fresh_site = (Inr (), s')
    \<and> fst (login plain_jwt plain_bcrypt default_settings (w_clock (pn_world (st_plane s')) div 1000000) user_rows ''admin'' ''admin'' s') = Inr token
    \<and> (\<forall>m. authorised demo_plane_env m token (st_plane s')) \<and> (\<forall>d \<in> data_directories [''app''] default_settings. is_dir d (pn_files (st_plane s')))"
    using control_plane_starts [of demo_plane_env plain_bcrypt fresh_site "[''app'']" "''s''" 0, unfolded cfg] plain_jwt_ok plain_bcrypt_ok
    by (simp only: wf_dict_Nil) (simp, blast)
  then show ?thesis by (simp add: dirs) blast
qed

end
