(* ===== verification/Cli.thy ===== *)
theory Cli
  imports Views Files
begin

text \<open>
  The command line client of \<open>cli/main.py\<close>. It keeps a token in the user's home directory, sends requests
  with \<open>httpx\<close> and prints what it is told with \<open>rich\<close>. Sending a request is a parameter, a method on the
  world behind the network; so is the text of a value that is no string, number or \<open>None\<close>. What is printed
  is a list of lines and tables, with \<open>rich\<close>'s markup in them. \<open>click\<close> calls the function of a command with
  its arguments and refuses, with exit code 2, a path that has to exist and does not.
\<close>

section \<open>Requests\<close>

record http_request =
  hq_method :: string
  hq_url :: string
  hq_headers :: "(string, string) pydict"
  hq_json :: "json option"
  hq_content :: "string option"

record http_response =
  hp_status_code :: int
  hp_text :: string
  hp_content :: string
  hp_json :: "json result"

datatype printed = Line string | Table string "string list" "string list list"

record 'n cli_state =
  cs_files :: fs
  cs_net :: 'n
  cs_out :: "printed list"

record 'n cli_env =
  ce_home :: path
  ce_cwd :: path
  ce_http :: "http_request \<Rightarrow> ('n, http_response) prog"
  ce_text :: "json \<Rightarrow> string"
  ce_error_text :: "py_exn \<Rightarrow> string"

definition on_disk :: "(fs, 'a) prog \<Rightarrow> ('n cli_state, 'a) prog" where
  "on_disk m s = (case m (cs_files s) of (r, t) \<Rightarrow> (r, s\<lparr>cs_files := t\<rparr>))"

definition on_net :: "('n, 'a) prog \<Rightarrow> ('n cli_state, 'a) prog" where
  "on_net m s = (case m (cs_net s) of (r, n) \<Rightarrow> (r, s\<lparr>cs_net := n\<rparr>))"

definition print :: "printed \<Rightarrow> ('n cli_state, unit) prog" where
  "print x = mod_s (\<lambda>s. s\<lparr>cs_out := cs_out s @ [x]\<rparr>)"

definition fail_with :: "string \<Rightarrow> ('n cli_state, 'a) prog" where
  "fail_with message = bind_p (print (Line message)) (\<lambda>_. raise (SystemExit 1))"

definition token_file :: "'n cli_env \<Rightarrow> path" where
  "token_file ce = ce_home ce @ [''.aws-light'', ''token'']"

definition default_api_url :: string where "default_api_url = ''http://localhost:8000''"

definition get_token :: "'n cli_env \<Rightarrow> ('n cli_state, string) prog" where
  "get_token ce = bind_p (get_s (\<lambda>s. path_exists (token_file ce) (cs_files s))) (\<lambda>found.
     if \<not> found then fail_with ''[red]Not logged in. Run: aws-light login[/red]''
     else bind_p (on_disk (fs_read (token_file ce))) (\<lambda>t. ret (strip t)))"

definition auth_headers :: "'n cli_env \<Rightarrow> ('n cli_state, (string, string) pydict) prog" where
  "auth_headers ce = bind_p (get_token ce) (\<lambda>t. ret [(''Authorization'', ''Bearer '' @ t)])"

text \<open>\<open>httpx.RequestError\<close> is \<open>OSError\<close>; any other exception passes through.\<close>

definition error_detail :: "'n cli_env \<Rightarrow> http_response \<Rightarrow> string" where
  "error_detail ce response = (case hp_json response of
     Inr (JDict d) \<Rightarrow> py_str (ce_text ce) (dict_get_or d ''detail'' (JStr (hp_text response)))
   | _ \<Rightarrow> hp_text response)"

definition request :: "'n cli_env \<Rightarrow> string \<Rightarrow> string \<Rightarrow> bool \<Rightarrow> json option \<Rightarrow> string option \<Rightarrow> (string, string) pydict
    \<Rightarrow> ('n cli_state, http_response) prog" where
  "request ce method path auth js content headers =
    (if method \<notin> {''GET'', ''POST'', ''PUT'', ''DELETE''} \<or> \<not> starts_with ''/api/v1/'' path then raise AssertionError
     else bind_p (if auth then bind_p (auth_headers ce) (\<lambda>h. ret (dict_merge h headers)) else ret headers) (\<lambda>headers.
       bind_p (try_p (on_net (ce_http ce \<lparr>hq_method = method, hq_url = default_api_url @ path, hq_headers = headers, hq_json = js,
           hq_content = content\<rparr>))
         (\<lambda>e. if e = OSError then fail_with (''[red]Request failed:[/red] '' @ ce_error_text ce e) else raise e)) (\<lambda>response.
       if 200 \<le> hp_status_code response \<and> hp_status_code response \<le> 299 then ret response
       else fail_with (''[red]Error '' @ str_int (hp_status_code response) @ '':[/red] '' @ error_detail ce response))))"

definition get :: "'n cli_env \<Rightarrow> string \<Rightarrow> ('n cli_state, http_response) prog" where
  "get ce path = request ce ''GET'' path True None None []"

definition post :: "'n cli_env \<Rightarrow> string \<Rightarrow> bool \<Rightarrow> json \<Rightarrow> ('n cli_state, http_response) prog" where
  "post ce path auth js = request ce ''POST'' path auth (Some js) None []"

definition put :: "'n cli_env \<Rightarrow> string \<Rightarrow> string \<Rightarrow> (string, string) pydict \<Rightarrow> ('n cli_state, http_response) prog" where
  "put ce path content headers = request ce ''PUT'' path True None (Some content) headers"

definition delete :: "'n cli_env \<Rightarrow> string \<Rightarrow> ('n cli_state, http_response) prog" where
  "delete ce path = request ce ''DELETE'' path True None None []"

section \<open>Values of the answers\<close>

definition lift :: "'a result \<Rightarrow> ('s, 'a) prog" where
  "lift r = (case r of Inl e \<Rightarrow> raise e | Inr a \<Rightarrow> ret a)"

text \<open>\<open>j[key]\<close>, \<open>j.get(key, default)\<close>, iterating over \<open>j\<close>, \<open>len(j)\<close> and a cell of a table.\<close>

definition json_item :: "string \<Rightarrow> json \<Rightarrow> json result" where
  "json_item key j = (case j of
     JDict d \<Rightarrow> (case dict_get d key of None \<Rightarrow> Inl (KeyError key) | Some v \<Rightarrow> Inr v)
   | _ \<Rightarrow> Inl (TypeError ''indices''))"

definition json_get_or :: "string \<Rightarrow> json \<Rightarrow> json \<Rightarrow> json result" where
  "json_get_or key d0 j = (case j of JDict d \<Rightarrow> Inr (dict_get_or d key d0) | _ \<Rightarrow> Inl (AttributeError ''get''))"

definition json_iter :: "json \<Rightarrow> json list result" where
  "json_iter j = (case j of
     JList xs \<Rightarrow> Inr xs | JDict d \<Rightarrow> Inr (map JStr (dict_keys d)) | JStr s \<Rightarrow> Inr (map (\<lambda>c. JStr [c]) s)
   | _ \<Rightarrow> Inl (TypeError ''not iterable''))"

definition json_len :: "json \<Rightarrow> int result" where
  "json_len j = (case j of
     JList xs \<Rightarrow> Inr (int (length xs)) | JDict d \<Rightarrow> Inr (int (length d)) | JStr s \<Rightarrow> Inr (int (length s))
   | _ \<Rightarrow> Inl (TypeError ''len''))"

definition cell :: "json \<Rightarrow> string result" where
  "cell j = (case j of JStr s \<Rightarrow> Inr s | JNull \<Rightarrow> Inr [] | _ \<Rightarrow> Inl (TypeError ''not renderable''))"

text \<open>\<open>{...}.get(j, "white")\<close>, and the text in that color.\<close>

definition color_of :: "(string \<times> string) list \<Rightarrow> json \<Rightarrow> string result" where
  "color_of colors j = (case j of
     JStr s \<Rightarrow> Inr (dict_get_or colors s ''white'')
   | JList _ \<Rightarrow> Inl (TypeError ''unhashable'') | JDict _ \<Rightarrow> Inl (TypeError ''unhashable'') | _ \<Rightarrow> Inr ''white'')"

definition colored :: "'n cli_env \<Rightarrow> (string \<times> string) list \<Rightarrow> json \<Rightarrow> string result" where
  "colored ce colors j = bind_r (color_of colors j) (\<lambda>color.
     Inr (''['' @ color @ '']'' @ py_str (ce_text ce) j @ ''[/'' @ color @ '']''))"

definition join_texts :: "json list \<Rightarrow> string result" where
  "join_texts xs = (if list_all (\<lambda>x. case x of JStr _ \<Rightarrow> True | _ \<Rightarrow> False) xs
     then Inr (join '', '' (map (\<lambda>x. case x of JStr s \<Rightarrow> s | _ \<Rightarrow> []) xs)) else Inl (TypeError ''expected str''))"

fun collect_r :: "('a \<Rightarrow> 'b result) \<Rightarrow> 'a list \<Rightarrow> 'b list result" where
  "collect_r f [] = Inr []"
| "collect_r f (x # xs) = bind_r (f x) (\<lambda>y. bind_r (collect_r f xs) (\<lambda>ys. Inr (y # ys)))"

section \<open>Commands\<close>

definition login :: "'n cli_env \<Rightarrow> string \<Rightarrow> string \<Rightarrow> ('n cli_state, unit) prog" where
  "login ce user password =
     bind_p (post ce ''/api/v1/auth/login'' False (JDict [(''username'', JStr user), (''password'', JStr password)])) (\<lambda>response.
     bind_p (lift (bind_r (hp_json response) (json_item ''access_token''))) (\<lambda>t.
     bind_p (on_disk (fs_do (mkdir_parents (butlast (token_file ce))))) (\<lambda>_.
     bind_p (case t of JStr s \<Rightarrow> on_disk (fs_do (write_file (token_file ce) s)) | _ \<Rightarrow> raise (TypeError ''data must be str'')) (\<lambda>_.
     print (Line (''[green]Logged in as '' @ user @ ''[/green]''))))))"

text \<open>\<open>click.Path(exists=True)\<close>, and the text of the file.\<close>

definition existing_path :: "'n cli_env \<Rightarrow> string \<Rightarrow> ('n cli_state, path) prog" where
  "existing_path ce file_path = bind_p (get_s (\<lambda>s. path_exists (path_join (ce_cwd ce) file_path) (cs_files s))) (\<lambda>found.
     if found then ret (path_join (ce_cwd ce) file_path) else raise (SystemExit 2))"

definition yaml_body :: "string \<Rightarrow> json" where
  "yaml_body yaml_text = JDict [(''yaml_text'', JStr yaml_text)]"

definition apply_row :: "'n cli_env \<Rightarrow> json \<Rightarrow> string list result" where
  "apply_row ce j = bind_r (json_item ''action'' j) (\<lambda>action.
     bind_r (color_of [(''created'', ''green''), (''updated'', ''yellow''), (''unchanged'', ''dim''), (''error'', ''red'')] action) (\<lambda>_.
     bind_r (json_item ''kind'' j) (\<lambda>kind. bind_r (json_item ''name'' j) (\<lambda>name.
     bind_r (colored ce [(''created'', ''green''), (''updated'', ''yellow''), (''unchanged'', ''dim''), (''error'', ''red'')] action) (\<lambda>shown.
     bind_r (json_get_or ''detail'' (JStr []) j) (\<lambda>detail.
     bind_r (cell kind) (\<lambda>kind. bind_r (cell name) (\<lambda>name. bind_r (cell detail) (\<lambda>detail.
     Inr [kind, name, shown, detail])))))))))"

definition apply_file :: "'n cli_env \<Rightarrow> string \<Rightarrow> ('n cli_state, unit) prog" where
  "apply_file ce file_path = bind_p (existing_path ce file_path) (\<lambda>path.
     bind_p (on_disk (fs_read path)) (\<lambda>yaml_text.
     bind_p (post ce ''/api/v1/manifests/apply'' True (yaml_body yaml_text)) (\<lambda>response.
     bind_p (lift (bind_r (hp_json response) (\<lambda>results. bind_r (json_iter results) (collect_r (apply_row ce))))) (\<lambda>rows.
     print (Table ''Apply Results'' [''Kind'', ''Name'', ''Action'', ''Detail''] rows)))))"

definition diff_row :: "'n cli_env \<Rightarrow> json \<Rightarrow> string list result" where
  "diff_row ce j = bind_r (json_item ''action'' j) (\<lambda>action.
     bind_r (colored ce [(''create'', ''green''), (''update'', ''yellow''), (''none'', ''dim'')] action) (\<lambda>shown.
     bind_r (json_item ''kind'' j) (\<lambda>kind. bind_r (json_item ''name'' j) (\<lambda>name.
     bind_r (json_get_or ''changed_fields'' (JList []) j) (\<lambda>changed. bind_r (json_iter changed) (\<lambda>changed. bind_r (join_texts changed) (\<lambda>changed.
     bind_r (cell kind) (\<lambda>kind. bind_r (cell name) (\<lambda>name.
     Inr [kind, name, shown, changed])))))))))"

definition diff :: "'n cli_env \<Rightarrow> string \<Rightarrow> ('n cli_state, unit) prog" where
  "diff ce file_path = bind_p (existing_path ce file_path) (\<lambda>path.
     bind_p (on_disk (fs_read path)) (\<lambda>yaml_text.
     bind_p (post ce ''/api/v1/manifests/diff'' True (yaml_body yaml_text)) (\<lambda>response.
     bind_p (lift (bind_r (hp_json response) (\<lambda>diffs. bind_r (json_iter diffs) (collect_r (diff_row ce))))) (\<lambda>rows.
     print (Table ''Diff'' [''Kind'', ''Name'', ''Action'', ''Changed Fields''] rows)))))"

definition destroy_manifest :: "'n cli_env \<Rightarrow> path \<Rightarrow> ('n cli_state, unit) prog" where
  "destroy_manifest ce path = bind_p (on_disk (fs_read path)) (\<lambda>yaml_text.
     bind_p (post ce ''/api/v1/manifests/destroy'' True (yaml_body yaml_text)) (\<lambda>response.
     bind_p (lift (bind_r (hp_json response) json_iter)) (\<lambda>results.
     for_p results (\<lambda>j. bind_p (lift (bind_r (json_item ''kind'' j) (\<lambda>kind. bind_r (json_item ''name'' j) (\<lambda>name.
         Inr (py_str (ce_text ce) kind @ ''/'' @ py_str (ce_text ce) name))))) (\<lambda>what.
       print (Line (''[red]destroyed[/red] '' @ what)))))))"

definition destroy_resource :: "'n cli_env \<Rightarrow> string \<Rightarrow> string \<Rightarrow> ('n cli_state, unit) prog" where
  "destroy_resource ce kind name = (let normalized = lower kind in
     if normalized \<in> {''service'', ''services''} then
       bind_p (delete ce (''/api/v1/services/'' @ name)) (\<lambda>_. print (Line (''[red]destroyed[/red] Service/'' @ name)))
     else if normalized \<in> {''secret'', ''secrets''} then
       bind_p (delete ce (''/api/v1/secrets/'' @ name)) (\<lambda>_. print (Line (''[red]destroyed[/red] Secret/'' @ name)))
     else if normalized \<in> {''bucket'', ''buckets''} then
       bind_p (delete ce (''/api/v1/storage/buckets/'' @ name)) (\<lambda>_. print (Line (''[red]destroyed[/red] Bucket/'' @ name)))
     else fail_with (''[red]Unknown destroy kind:[/red] '' @ kind @ ''. Use service, secret, or bucket.''))"

definition destroy :: "'n cli_env \<Rightarrow> string list \<Rightarrow> ('n cli_state, unit) prog" where
  "destroy ce targets = (case targets of
     [] \<Rightarrow> bind_p (print (Line ''[red]Usage:[/red] aws-light destroy <manifest.yaml|service-name>'')) (\<lambda>_.
             fail_with ''       aws-light destroy service|secret|bucket <name>'')
   | [target] \<Rightarrow> bind_p (get_s (\<lambda>s. path_exists (path_join (ce_cwd ce) target) (cs_files s))) (\<lambda>found.
       if found then destroy_manifest ce (path_join (ce_cwd ce) target) else destroy_resource ce ''service'' target)
   | [kind, name] \<Rightarrow> destroy_resource ce kind name
   | _ \<Rightarrow> fail_with ''[red]destroy accepts either one target or <kind> <name>[/red]'')"

text \<open>\<open>_print_service\<close>; what is printed before a missing key stays printed.\<close>

definition short_id :: "'n cli_env \<Rightarrow> json \<Rightarrow> string result" where
  "short_id ce j = (case j of JStr s \<Rightarrow> Inr (take 12 s) | JList xs \<Rightarrow> Inr (ce_text ce (JList (take 12 xs))) | _ \<Rightarrow> Inl (TypeError ''slice''))"

definition replica_line :: "'n cli_env \<Rightarrow> json \<Rightarrow> string result" where
  "replica_line ce j = bind_r (json_item ''status'' j) (\<lambda>status. bind_r (json_item ''replica_id'' j) (\<lambda>rid. bind_r (short_id ce rid) (\<lambda>rid.
     bind_r (json_get_or ''host_port'' (JStr ''-'') j) (\<lambda>port.
     Inr (''    ['' @ py_str (ce_text ce) status @ ''] '' @ rid @ ''  '' @ ''port='' @ py_str (ce_text ce) port)))))"

definition print_service :: "'n cli_env \<Rightarrow> json \<Rightarrow> ('n cli_state, unit) prog" where
  "print_service ce service = (let shown = py_str (ce_text ce) in
     bind_p (lift (json_item ''spec'' service)) (\<lambda>spec.
     bind_p (lift (bind_r (json_item ''name'' spec) (\<lambda>name. bind_r (json_item ''status'' service) (\<lambda>status.
         Inr (''[bold]'' @ shown name @ ''[/bold]  '' @ shown status))))) (\<lambda>line. bind_p (print (Line line)) (\<lambda>_.
     bind_p (lift (bind_r (json_item ''image'' spec) (\<lambda>image. Inr (''  image: '' @ shown image)))) (\<lambda>line. bind_p (print (Line line)) (\<lambda>_.
     bind_p (lift (bind_r (json_item ''replicas'' service) (\<lambda>replicas. bind_r (json_len replicas) (\<lambda>n. bind_r (json_item ''replicas'' spec) (\<lambda>desired.
         Inr (''  replicas: '' @ str_int n @ ''/'' @ shown desired)))))) (\<lambda>line. bind_p (print (Line line)) (\<lambda>_.
     bind_p (lift (bind_r (json_item ''replicas'' service) json_iter)) (\<lambda>replicas.
     for_p replicas (\<lambda>replica. bind_p (lift (replica_line ce replica)) (\<lambda>line. print (Line line))))))))))))"

definition service_row :: "'n cli_env \<Rightarrow> json \<Rightarrow> string list result" where
  "service_row ce j = bind_r (json_item ''status'' j) (\<lambda>status.
     bind_r (colored ce [(''running'', ''green''), (''degraded'', ''yellow''), (''failed'', ''red'')] status) (\<lambda>shown.
     bind_r (json_item ''spec'' j) (\<lambda>spec. bind_r (json_item ''name'' spec) (\<lambda>name. bind_r (json_item ''image'' spec) (\<lambda>image.
     bind_r (json_item ''replicas'' j) (\<lambda>replicas. bind_r (json_len replicas) (\<lambda>n.
     bind_r (cell name) (\<lambda>name. bind_r (cell image) (\<lambda>image.
     Inr [name, image, shown, str_int n])))))))))"

text \<open>An argument that is missing is \<open>None\<close>; an empty one counts as missing.\<close>

definition status :: "'n cli_env \<Rightarrow> string option \<Rightarrow> ('n cli_state, unit) prog" where
  "status ce service_name = (if service_name \<noteq> None \<and> service_name \<noteq> Some [] then
       bind_p (get ce (''/api/v1/services/'' @ the service_name)) (\<lambda>response.
       bind_p (lift (hp_json response)) (print_service ce))
     else
       bind_p (get ce ''/api/v1/services'') (\<lambda>response.
       bind_p (lift (bind_r (hp_json response) (\<lambda>services. bind_r (json_iter services) (collect_r (service_row ce))))) (\<lambda>rows.
       print (Table ''Services'' [''Name'', ''Image'', ''Status'', ''Replicas''] rows))))"

definition secret_set :: "'n cli_env \<Rightarrow> string \<Rightarrow> string \<Rightarrow> ('n cli_state, unit) prog" where
  "secret_set ce name v = bind_p (post ce ''/api/v1/secrets'' True (JDict [(''name'', JStr name), (''value'', JStr v)])) (\<lambda>_.
     print (Line (''[green]Secret '' @ quoted name @ '' created[/green]'')))"

definition secret_get :: "'n cli_env \<Rightarrow> string \<Rightarrow> ('n cli_state, unit) prog" where
  "secret_get ce name = bind_p (get ce (''/api/v1/secrets/'' @ name)) (\<lambda>response.
     bind_p (lift (bind_r (hp_json response) (json_item ''value''))) (\<lambda>v. print (Line (py_str (ce_text ce) v))))"

definition secret_delete :: "'n cli_env \<Rightarrow> string \<Rightarrow> ('n cli_state, unit) prog" where
  "secret_delete ce name = bind_p (delete ce (''/api/v1/secrets/'' @ name)) (\<lambda>_.
     print (Line (''[red]Secret '' @ quoted name @ '' deleted[/red]'')))"

definition secret_list :: "'n cli_env \<Rightarrow> ('n cli_state, unit) prog" where
  "secret_list ce = bind_p (get ce ''/api/v1/secrets'') (\<lambda>response.
     bind_p (lift (bind_r (hp_json response) json_iter)) (\<lambda>names.
     for_p names (\<lambda>name. print (Line (py_str (ce_text ce) name)))))"

definition storage_ls :: "'n cli_env \<Rightarrow> string option \<Rightarrow> ('n cli_state, unit) prog" where
  "storage_ls ce bucket = (let shown = py_str (ce_text ce) in
     if bucket \<noteq> None \<and> bucket \<noteq> Some [] then
       bind_p (get ce (''/api/v1/storage/buckets/'' @ the bucket @ ''/objects'')) (\<lambda>response.
       bind_p (lift (bind_r (hp_json response) json_iter)) (\<lambda>objects.
       for_p objects (\<lambda>j. bind_p (lift (bind_r (json_item ''key'' j) (\<lambda>key. bind_r (json_item ''size_bytes'' j) (\<lambda>size.
           Inr (shown key @ ''  ('' @ shown size @ '' bytes)''))))) (\<lambda>line. print (Line line)))))
     else
       bind_p (get ce ''/api/v1/storage/buckets'') (\<lambda>response.
       bind_p (lift (bind_r (hp_json response) json_iter)) (\<lambda>buckets.
       for_p buckets (\<lambda>j. bind_p (lift (json_item ''name'' j)) (\<lambda>name. print (Line (shown name)))))))"

text \<open>\<open>s.split("/", 1)\<close> has two pieces exactly when there is a slash.\<close>

definition parse_s3_uri :: "string \<Rightarrow> ('n cli_state, string \<times> string) prog" where
  "parse_s3_uri uri = (let without_scheme = remove_prefix ''s3://'' uri in
     if CHR ''/'' \<notin> set without_scheme then fail_with (''[red]Invalid s3:// URI: '' @ uri @ ''[/red]'')
     else ret (before_char CHR ''/'' without_scheme, after_char CHR ''/'' without_scheme))"

definition object_url_path :: "string \<Rightarrow> string \<Rightarrow> string" where
  "object_url_path bucket key = ''/api/v1/storage/buckets/'' @ bucket @ ''/objects/'' @ key"

definition storage_cp :: "'n cli_env \<Rightarrow> string \<Rightarrow> string \<Rightarrow> ('n cli_state, unit) prog" where
  "storage_cp ce source destination =
    (if starts_with ''s3://'' source then
       bind_p (parse_s3_uri source) (\<lambda>(bucket, key).
       bind_p (get ce (object_url_path bucket key)) (\<lambda>response.
       bind_p (on_disk (fs_do (write_file (path_join (ce_cwd ce) destination) (hp_content response)))) (\<lambda>_.
       print (Line (''[green]Downloaded '' @ source @ '' -> '' @ destination @ ''[/green]'')))))
     else if starts_with ''s3://'' destination then
       bind_p (parse_s3_uri destination) (\<lambda>(bucket, key).
       bind_p (on_disk (fs_read (path_join (ce_cwd ce) source))) (\<lambda>data.
       bind_p (put ce (object_url_path bucket key) data [(''content-type'', ''application/octet-stream'')]) (\<lambda>_.
       print (Line (''[green]Uploaded '' @ source @ '' -> '' @ destination @ ''[/green]'')))))
     else fail_with ''[red]One of source or destination must be an s3:// URI[/red]'')"

definition storage_rm :: "'n cli_env \<Rightarrow> string \<Rightarrow> ('n cli_state, unit) prog" where
  "storage_rm ce uri = bind_p (parse_s3_uri uri) (\<lambda>(bucket, key).
     bind_p (delete ce (object_url_path bucket key)) (\<lambda>_. print (Line (''[red]Deleted '' @ uri @ ''[/red]''))))"

text \<open>The commands with their arguments, as \<open>click\<close> names them.\<close>

datatype command =
    Login string string | Apply string | Diff string | Destroy "string list" | Status "string option"
  | SecretSet string string | SecretGet string | SecretDelete string | SecretList
  | StorageLs "string option" | StorageCp string string | StorageRm string

fun run_command :: "'n cli_env \<Rightarrow> command \<Rightarrow> ('n cli_state, unit) prog" where
  "run_command ce (Login user password) = login ce user password"
| "run_command ce (Apply file_path) = apply_file ce file_path"
| "run_command ce (Diff file_path) = diff ce file_path"
| "run_command ce (Destroy targets) = destroy ce targets"
| "run_command ce (Status service_name) = status ce service_name"
| "run_command ce (SecretSet name v) = secret_set ce name v"
| "run_command ce (SecretGet name) = secret_get ce name"
| "run_command ce (SecretDelete name) = secret_delete ce name"
| "run_command ce SecretList = secret_list ce"
| "run_command ce (StorageLs bucket) = storage_ls ce bucket"
| "run_command ce (StorageCp source destination) = storage_cp ce source destination"
| "run_command ce (StorageRm uri) = storage_rm ce uri"

end
