(* ===== verification/CliFacts.thy ===== *)
theory CliFacts
  imports Cli StorageFacts
begin

text \<open>
  The client and the storage API together: what is copied up can be copied down.
\<close>

section \<open>The way to the API\<close>

text \<open>What the client relies on of \<open>httpx\<close> and \<open>FastAPI\<close>: a \<open>PUT\<close> or \<open>GET\<close> of an object whose bucket and key
  need no escaping reaches the endpoint with that bucket and key, the bearer's token and the body; the answer
  carries the status of the result, and the data of a \<open>GET\<close>. \<open>store_of\<close> is the API's part of the network's state.\<close>

definition plain_text :: "string \<Rightarrow> bool" where
  "plain_text s \<longleftrightarrow> s \<noteq> [] \<and> (\<forall>c \<in> set s. url_safe c \<or> c = CHR ''/'')"

definition object_url :: "string \<Rightarrow> string \<Rightarrow> string" where
  "object_url bucket key = default_api_url @ object_url_path bucket key"

definition carries_objects :: "'n cli_env \<Rightarrow> ('k, 's) storage_api \<Rightarrow> int \<Rightarrow> ('n \<Rightarrow> ('k, 's) storage_state) \<Rightarrow> bool" where
  "carries_objects ce ax now store_of \<longleftrightarrow> (\<forall>n q bucket segs token.
     plain_name bucket \<and> plain_key segs \<and> plain_text bucket \<and> plain_text (key_of segs)
     \<and> hq_url q = object_url bucket (key_of segs) \<and> dict_get (hq_headers q) ''Authorization'' = Some (''Bearer '' @ token)
     \<longrightarrow> (\<forall>data. hq_method q = ''PUT'' \<and> hq_content q = Some data \<longrightarrow> (\<exists>response n'. ce_http ce q n = (Inr response, n')
            \<and> (case api_put_object ax now token bucket (key_of segs) data (dict_get (hq_headers q) ''content-type'') (store_of n) of
                 (Inr _, w) \<Rightarrow> hp_status_code response = 201 \<and> store_of n' = w
               | (Inl (HTTPException code _), w) \<Rightarrow> hp_status_code response = code \<and> store_of n' = w
               | (Inl _, w) \<Rightarrow> hp_status_code response = 500 \<and> store_of n' = w)))
       \<and> (hq_method q = ''GET'' \<longrightarrow> (\<exists>response n'. ce_http ce q n = (Inr response, n')
            \<and> (case api_get_object ax now token bucket (key_of segs) (store_of n) of
                 (Inr data, w) \<Rightarrow> hp_status_code response = 200 \<and> hp_content response = data \<and> store_of n' = w
               | (Inl (HTTPException code _), w) \<Rightarrow> hp_status_code response = code \<and> store_of n' = w
               | (Inl _, w) \<Rightarrow> hp_status_code response = 500 \<and> store_of n' = w))))"

definition logged_in :: "'n cli_env \<Rightarrow> string \<Rightarrow> fs \<Rightarrow> bool" where
  "logged_in ce token files \<longleftrightarrow> (\<exists>t. read_file (token_file ce) files = Inr t \<and> strip t = token)"

lemma auth_headers_run:
  "logged_in ce token (cs_files s) \<Longrightarrow> auth_headers ce s = (Inr [(''Authorization'', ''Bearer '' @ token)], s)"
  using path_exists_file [of "token_file ce" "cs_files s"]
  by (auto simp: logged_in_def auth_headers_def get_token_def on_disk_def fs_read_def prog_defs)

lemma object_path_ok: "starts_with ''/api/v1/'' (object_url_path b k)"
  by (simp add: object_url_path_def starts_with_def)

lemma parse_object_uri:
  "CHR ''/'' \<notin> set b \<Longrightarrow> parse_s3_uri (''s3://'' @ b @ ''/'' @ k) s = (Inr (b, k), s)"
  by (auto simp: parse_s3_uri_def remove_prefix_def starts_with_def before_char_def after_char_def prog_defs dropWhile_append)

lemma write_then_read:
  assumes "write_file p data t = (None, t')"
  shows "read_file p t' = Inr data"
proof -
  obtain q where q: "walk t [] p = Inr q" "q \<noteq> []" "node_at t q \<noteq> Some Dir" "t' = dict_put q (File data) t"
    using write_file_effect [OF assms] by blast
  have "grows t t'" using put_file_effect [OF q(2,3)] q(4) by blast
  from walk_grows [OF this q(1)] show ?thesis using q(2,4) by (simp add: read_file_iff node_at_put)
qed

lemma carries_put:
  assumes "carries_objects ce ax now store_of" "plain_name b" "plain_key segs" "plain_text b" "plain_text (key_of segs)"
    and "hq_url q = object_url b (key_of segs)" "dict_get (hq_headers q) ''Authorization'' = Some (''Bearer '' @ token)"
    and "hq_method q = ''PUT''" "hq_content q = Some data"
    and "api_put_object ax now token b (key_of segs) data (dict_get (hq_headers q) ''content-type'') (store_of n) = (Inr meta, w)"
  shows "\<exists>response n'. ce_http ce q n = (Inr response, n') \<and> hp_status_code response = 201 \<and> store_of n' = w"
proof -
  note c = assms(1) [unfolded carries_objects_def, rule_format, of b segs q token n]
  show ?thesis using c [THEN conjunct1, rule_format, of data] assms(2-10) by simp
qed

lemma carries_get:
  assumes "carries_objects ce ax now store_of" "plain_name b" "plain_key segs" "plain_text b" "plain_text (key_of segs)"
    and "hq_url q = object_url b (key_of segs)" "dict_get (hq_headers q) ''Authorization'' = Some (''Bearer '' @ token)"
    and "hq_method q = ''GET''" "api_get_object ax now token b (key_of segs) (store_of n) = (Inr data, w)"
  shows "\<exists>response n'. ce_http ce q n = (Inr response, n') \<and> hp_status_code response = 200 \<and> hp_content response = data \<and> store_of n' = w"
proof -
  note c = assms(1) [unfolded carries_objects_def, rule_format, of b segs q token n]
  show ?thesis using c [THEN conjunct2, rule_format] assms(2-9) by simp
qed

lemma put_run:
  assumes "carries_objects ce ax now store_of" "logged_in ce token (cs_files s)"
    and "plain_name b" "plain_key segs" "plain_text b" "plain_text (key_of segs)"
    and "api_put_object ax now token b (key_of segs) data (Some ct) (store_of (cs_net s)) = (Inr meta, w)"
  shows "\<exists>response n'. put ce (object_url_path b (key_of segs)) data [(''content-type'', ct)] s = (Inr response, s\<lparr>cs_net := n'\<rparr>)
    \<and> store_of n' = w"
proof -
  let ?q = "\<lparr>hq_method = ''PUT'', hq_url = default_api_url @ object_url_path b (key_of segs),
    hq_headers = dict_merge [(''Authorization'', ''Bearer '' @ token)] [(''content-type'', ct)], hq_json = None, hq_content = Some data\<rparr>"
  have h: "dict_get (hq_headers ?q) ''Authorization'' = Some (''Bearer '' @ token)" "dict_get (hq_headers ?q) ''content-type'' = Some ct"
    by (simp_all add: dict_merge_get)
  obtain response n' where r: "ce_http ce ?q (cs_net s) = (Inr response, n')" "hp_status_code response = 201" "store_of n' = w"
    using carries_put [OF assms(1,3-6), of ?q token data "cs_net s" meta w] assms(7) h by (auto simp: object_url_def)
  then show ?thesis
    by (intro exI [of _ response] exI [of _ n']) (simp add: put_def request_def object_path_ok auth_headers_run [OF assms(2)] on_net_def prog_defs)
qed

lemma get_run:
  assumes "carries_objects ce ax now store_of" "logged_in ce token (cs_files s)"
    and "plain_name b" "plain_key segs" "plain_text b" "plain_text (key_of segs)"
    and "api_get_object ax now token b (key_of segs) (store_of (cs_net s)) = (Inr data, w)"
  shows "\<exists>response n'. get ce (object_url_path b (key_of segs)) s = (Inr response, s\<lparr>cs_net := n'\<rparr>)
    \<and> hp_content response = data \<and> store_of n' = w"
proof -
  let ?q = "\<lparr>hq_method = ''GET'', hq_url = default_api_url @ object_url_path b (key_of segs),
    hq_headers = dict_merge [(''Authorization'', ''Bearer '' @ token)] [], hq_json = None, hq_content = None\<rparr>"
  have h: "dict_get (hq_headers ?q) ''Authorization'' = Some (''Bearer '' @ token)" by (simp add: dict_merge_get)
  obtain response n' where r: "ce_http ce ?q (cs_net s) = (Inr response, n')" "hp_status_code response = 200" "hp_content response = data"
      "store_of n' = w"
    using carries_get [OF assms(1,3-6), of ?q token "cs_net s" data w] assms(7) h by (auto simp: object_url_def)
  then show ?thesis
    by (intro exI [of _ response] exI [of _ n']) (simp add: get_def request_def object_path_ok auth_headers_run [OF assms(2)] on_net_def prog_defs)
qed

lemma copy_up_run:
  assumes "\<not> starts_with ''s3://'' source" "starts_with ''s3://'' uri" "parse_s3_uri uri s = (Inr (b, k), s)"
    and "read_file (path_join (ce_cwd ce) source) (cs_files s) = Inr data"
    and "put ce (object_url_path b k) data [(''content-type'', ''application/octet-stream'')] s = (Inr r, s')"
  shows "\<exists>out. storage_cp ce source uri s = (Inr (), s'\<lparr>cs_out := out\<rparr>)"
  using assms by (auto simp: storage_cp_def bind_p_def on_disk_def fs_read_def print_def mod_s_def)

lemma copy_down_run:
  assumes "starts_with ''s3://'' uri" "parse_s3_uri uri s = (Inr (b, k), s)" "get ce (object_url_path b k) s = (Inr r, s')"
    and "write_file (path_join (ce_cwd ce) destination) (hp_content r) (cs_files s') = (None, files)"
  shows "\<exists>out. storage_cp ce uri destination s = (Inr (), s'\<lparr>cs_files := files, cs_out := out\<rparr>)"
  using assms by (auto simp: storage_cp_def bind_p_def on_disk_def fs_do_def print_def mod_s_def)

section \<open>Properties\<close>

text \<open>C19. What is copied up is copied down. For a user who is logged in with the role of a developer, copying a
  file to an object of a bucket and then the object to a file, over a network that carries both requests,
  leaves the second file with the text of the first, when the API stores the object and the file can be
  written.\<close>

theorem copy_up_and_down:
  assumes "carries_objects ce ax now store_of" "logged_in ce token (cs_files s)" "developer ax now token = Inr user"
    and "plain_path (se_root (ax_storage ax))" "plain_name b" "plain_key segs" "plain_text b" "plain_text (key_of segs)"
    and "read_file (path_join (ce_cwd ce) source) (cs_files s) = Inr data" "\<not> starts_with ''s3://'' source"
    and "put_object (ax_storage ax) (now * 1000000) b (key_of segs) data ''application/octet-stream'' (sa_files (store_of (cs_net s))) = (Inr meta, t)"
    and "write_file (path_join (ce_cwd ce) destination) data (cs_files s) = (None, files)"
  shows "\<exists>s1 s2. run_command ce (StorageCp source (''s3://'' @ b @ ''/'' @ key_of segs)) s = (Inr (), s1)
    \<and> sa_files (store_of (cs_net s1)) = t \<and> cs_files s1 = cs_files s
    \<and> run_command ce (StorageCp (''s3://'' @ b @ ''/'' @ key_of segs) destination) s1 = (Inr (), s2)
    \<and> read_file (path_join (ce_cwd ce) destination) (cs_files s2) = Inr data"
proof -
  let ?k = "key_of segs" and ?w = "store_of (cs_net s)"
  let ?uri = "''s3://'' @ b @ ''/'' @ ?k"
  let ?w1 = "?w\<lparr>sa_files := t\<rparr>"
  have up: "starts_with ''s3://'' ?uri" and b: "CHR ''/'' \<notin> set b" using assms(5) by (simp_all add: starts_with_def plain_name_def)
  have "api_put_object ax now token b ?k data (Some ''application/octet-stream'') ?w = (Inr meta, ?w1)"
    using assms(3,11) by (simp add: api_put_object_def or_404_def on_files_def try_p_def)
  from put_run [OF assms(1,2,5-8) this] obtain r1 n1 where
    1: "put ce (object_url_path b ?k) data [(''content-type'', ''application/octet-stream'')] s = (Inr r1, s\<lparr>cs_net := n1\<rparr>)" "store_of n1 = ?w1"
    by blast
  obtain out where c1: "storage_cp ce source ?uri s = (Inr (), s\<lparr>cs_net := n1, cs_out := out\<rparr>)"
    using copy_up_run [OF assms(10) up parse_object_uri [OF b] assms(9) 1(1)] by blast
  let ?s1 = "s\<lparr>cs_net := n1, cs_out := out\<rparr>"
  have "fst (get_object (ax_storage ax) b ?k t) = Inr data" by (rule put_get_object [OF assms(4-6,11)])
  then obtain t2 where t2: "get_object (ax_storage ax) b ?k t = (Inr data, t2)" by (cases "get_object (ax_storage ax) b ?k t") auto
  obtain u where "current_user ax now token = Inr u"
    using assms(3) by (auto simp: developer_def current_user_def require_role_def bind_r_def split: sum.splits)
  then have "api_get_object ax now token b ?k (store_of (cs_net ?s1)) = (Inr data, ?w1\<lparr>sa_files := t2\<rparr>)"
    using t2 1(2) by (simp add: api_get_object_def or_404_def on_files_def try_p_def)
  moreover have "logged_in ce token (cs_files ?s1)" using assms(2) by simp
  ultimately obtain r2 n2 where
    2: "get ce (object_url_path b ?k) ?s1 = (Inr r2, ?s1\<lparr>cs_net := n2\<rparr>)" "hp_content r2 = data"
    using get_run [OF assms(1) _ assms(5-8)] by blast
  have "write_file (path_join (ce_cwd ce) destination) (hp_content r2) (cs_files (?s1\<lparr>cs_net := n2\<rparr>)) = (None, files)"
    using 2(2) assms(12) by simp
  from copy_down_run [OF up parse_object_uri [OF b] 2(1) this] obtain out2 where
    c2: "storage_cp ce ?uri destination ?s1 = (Inr (), ?s1\<lparr>cs_net := n2, cs_files := files, cs_out := out2\<rparr>)" by blast
  have "read_file (path_join (ce_cwd ce) destination) files = Inr data" by (rule write_then_read [OF assms(12)])
  with c1 c2 1(2) show ?thesis unfolding run_command.simps
    by (intro exI [of _ ?s1] exI [of _ "?s1\<lparr>cs_net := n2, cs_files := files, cs_out := out2\<rparr>"]) simp
qed

text \<open>A network that carries requests for objects, over the storage of the other witnesses.\<close>

definition answer :: "int \<Rightarrow> 'a result \<Rightarrow> ('a \<Rightarrow> string) \<Rightarrow> http_response" where
  "answer success r body = (let code = (case r of Inr _ \<Rightarrow> success | Inl (HTTPException c _) \<Rightarrow> c | Inl _ \<Rightarrow> 500);
       data = (case r of Inr x \<Rightarrow> body x | Inl _ \<Rightarrow> [])
     in \<lparr>hp_status_code = code, hp_text = data, hp_content = data, hp_json = Inl (ValueError ''json'')\<rparr>)"

definition demo_http :: "('k, 's) storage_api \<Rightarrow> int \<Rightarrow> http_request \<Rightarrow> (('k, 's) storage_state, http_response) prog" where
  "demo_http ax now q w = (let rest = remove_prefix (default_api_url @ ''/api/v1/storage/buckets/'') (hq_url q);
       bucket = before_char CHR ''/'' rest; key = remove_prefix ''objects/'' (after_char CHR ''/'' rest);
       token = (case dict_get (hq_headers q) ''Authorization'' of None \<Rightarrow> [] | Some v \<Rightarrow> remove_prefix ''Bearer '' v)
     in if hq_method q = ''PUT'' then
          (case api_put_object ax now token bucket key (case hq_content q of None \<Rightarrow> [] | Some d \<Rightarrow> d) (dict_get (hq_headers q) ''content-type'') w of
             (r, w') \<Rightarrow> (Inr (answer 201 r (\<lambda>_. [])), w'))
        else (case api_get_object ax now token bucket key w of (r, w') \<Rightarrow> (Inr (answer 200 r (\<lambda>d. d)), w')))"

definition demo_client :: "(json table, (string, service_state) pydict) storage_state cli_env" where
  "demo_client = \<lparr>ce_home = [''home''], ce_cwd = [''work''], ce_http = demo_http (demo_storage_api\<lparr>ax_jwt := plain_jwt\<rparr>) 0,
     ce_text = (\<lambda>_. []), ce_error_text = (\<lambda>_. [])\<rparr>"

lemma demo_http_carries:
  assumes "ce_http ce = demo_http ax now"
  shows "carries_objects ce ax now (\<lambda>n. n)"
proof -
  have u: "remove_prefix (default_api_url @ ''/api/v1/storage/buckets/'') (object_url b k) = b @ ''/objects/'' @ k" for b k
    unfolding object_url_def object_url_path_def default_api_url_def by (simp add: remove_prefix_def starts_with_def)
  have p: "before_char CHR ''/'' (b @ ''/objects/'' @ k) = b" "remove_prefix ''objects/'' (after_char CHR ''/'' (b @ ''/objects/'' @ k)) = k"
    if "plain_name b" for b k
    using that by (auto simp: plain_name_def before_char_def after_char_def dropWhile_append takeWhile_append remove_prefix_def starts_with_def)
  have t: "remove_prefix ''Bearer '' (''Bearer '' @ t) = t" for t by (simp add: remove_prefix_def starts_with_def)
  show ?thesis
    unfolding carries_objects_def assms
    by (intro allI impI conjI; elim conjE; simp only: demo_http_def u p t Let_def option.case)
      (auto simp: answer_def split: prod.split sum.split py_exn.split)
qed

definition demo_cli_token :: string where
  "demo_cli_token = create_token plain_jwt default_settings 0 \<lparr>us_username = ''dev'', us_role = DEVELOPER, us_password_hash = []\<rparr>"

definition demo_cli_state :: "(json table, (string, service_state) pydict) storage_state cli_state" where
  "demo_cli_state = \<lparr>cs_files = [([''home''], Dir), ([''home'', ''.aws-light''], Dir), ([''home'', ''.aws-light'', ''token''], File demo_cli_token),
     ([''work''], Dir), ([''work'', ''f''], File ''hi'')], cs_net = demo_storage_state, cs_out = []\<rparr>"

theorem copy_up_and_down_witness:
  "\<exists>s1 s2. run_command demo_client (StorageCp ''f'' ''s3://a/x'') demo_cli_state = (Inr (), s1)
    \<and> run_command demo_client (StorageCp ''s3://a/x'' ''g'') s1 = (Inr (), s2)
    \<and> read_file [''work'', ''g''] (cs_files s2) = Inr ''hi''"
proof -
  let ?ax = "demo_storage_api\<lparr>ax_jwt := plain_jwt\<rparr>"
  have ax: "ax_storage ?ax = demo_storage" "ax_cfg ?ax = default_settings" by (simp_all add: demo_storage_api_def)
  have c: "carries_objects demo_client ?ax 0 (\<lambda>n. n)" by (rule demo_http_carries) (simp add: demo_client_def)
  have tok: "demo_cli_token = CHR ''+'' # replicate (nat 86400) CHR ''1'' @ ''.ddev''"
    by (simp add: demo_cli_token_def create_token_def plain_jwt_def plain_encode_def token_claims_def default_settings_def)
  have "strip demo_cli_token = demo_cli_token" unfolding tok by (rule strip_id) (simp add: is_space_def)
  then have l: "logged_in demo_client demo_cli_token (cs_files demo_cli_state)"
    by (auto simp: logged_in_def demo_cli_state_def token_file_def demo_client_def read_file_def node_at_def)
  have d: "developer ?ax 0 demo_cli_token = Inr \<lparr>us_username = ''dev'', us_role = DEVELOPER, us_password_hash = []\<rparr>"
    using require_role_of_token [OF plain_jwt_ok] by (simp add: developer_def demo_cli_token_def ax default_settings_def)
  have "fst (put_object demo_storage 0 ''a'' ''x'' ''hi'' ''application/octet-stream'' demo_files) =
    Inr \<lparr>om_bucket = ''a'', om_key = ''x'', om_size_bytes = 2, om_content_type = ''application/octet-stream'', om_created_at = 0\<rparr>" by code_simp
  then obtain t where t: "put_object (ax_storage ?ax) (0 * 1000000) ''a'' (key_of [''x'']) ''hi'' ''application/octet-stream''
      (sa_files (cs_net demo_cli_state)) =
    (Inr \<lparr>om_bucket = ''a'', om_key = ''x'', om_size_bytes = 2, om_content_type = ''application/octet-stream'', om_created_at = 0\<rparr>, t)"
    by (cases "put_object demo_storage 0 ''a'' ''x'' ''hi'' ''application/octet-stream'' demo_files")
      (simp add: ax key_of_def demo_cli_state_def demo_storage_state_def)
  have p: "path_join (ce_cwd demo_client) ''f'' = [''work'', ''f'']" "path_join (ce_cwd demo_client) ''g'' = [''work'', ''g'']"
    by (simp_all add: demo_client_def path_join_def path_parts_def starts_with_def)
  have r: "read_file (path_join (ce_cwd demo_client) ''f'') (cs_files demo_cli_state) = Inr ''hi''"
    by (simp add: p demo_cli_state_def read_file_def node_at_def)
  obtain files where w: "write_file (path_join (ce_cwd demo_client) ''g'') ''hi'' (cs_files demo_cli_state) = (None, files)"
    by (simp add: p demo_cli_state_def write_file_def node_at_def)
  have k: "key_of [''x''] = ''x''" "''s3://'' @ ''a'' @ ''/'' @ ''x'' = ''s3://a/x''" by (simp_all add: key_of_def)
  have "\<exists>s1 s2. run_command demo_client (StorageCp ''f'' (''s3://'' @ ''a'' @ ''/'' @ key_of [''x''])) demo_cli_state = (Inr (), s1)
    \<and> sa_files (cs_net s1) = t \<and> cs_files s1 = cs_files demo_cli_state
    \<and> run_command demo_client (StorageCp (''s3://'' @ ''a'' @ ''/'' @ key_of [''x'']) ''g'') s1 = (Inr (), s2)
    \<and> read_file (path_join (ce_cwd demo_client) ''g'') (cs_files s2) = Inr ''hi''"
    by (rule copy_up_and_down [OF c l d _ _ _ _ _ r _ t w])
      (simp_all add: ax demo_storage_def plain_path_def plain_name_def plain_key_def plain_text_def k url_safe_def starts_with_def)
  then show ?thesis unfolding k p by blast
qed

end
