(* ===== verification/Traffic.thy ===== *)
theory Traffic
  imports ControlFacts Health
begin

text \<open>
  From a request to the API to traffic: what the control plane stores, the orchestrator starts and routes, the
  health checker admits and the balancer chooses, put together.
\<close>

section \<open>Replicas have identifiers of their own\<close>

text \<open>Steps that touch neither the services nor the routing table; random draws only advance.\<close>

definition aside :: "('d, 'r, 'k) world \<Rightarrow> ('d, 'r, 'k) world \<Rightarrow> bool" where
  "aside w0 w \<longleftrightarrow> w_services w = w_services w0 \<and> w_routing w = w_routing w0 \<and> w_draws w0 \<le> w_draws w"

lemma aside_refl [simp]: "aside w w"
  by (simp add: aside_def)

lemma aside_calls [preserves_rules]:
  "preserves (aside w0) (call_docker m)" "preserves (aside w0) (call_secrets m')" "preserves (aside w0) (call_nodes m'')"
  "preserves (aside w0) draw" "preserves (aside w0) (Orchestrator.publish kind payload)" "preserves (aside w0) (put_database name d)"
  by (auto simp: preserves_def aside_def call_docker_def call_secrets_def call_nodes_def draw_def Orchestrator.publish_def put_database_def
    mod_s_def split: prod.splits)

lemma aside_parts [preserves_rules]:
  "preserves (aside w0) (emit_node_updated node_id)"
  "preserves (aside w0) (ensure_service_network en name pcs)"
  "preserves (aside w0) (attach_service_replica_networks en s cid)"
  "preserves (aside w0) (platform_env en name)"
  "preserves (aside w0) (database_binding_env en d)"
  by (simp_all add: emit_node_updated_def ensure_service_network_def attach_service_replica_networks_def platform_env_def
    database_binding_env_def platform_compose_containers_def Let_def preserves_rules)

lemma aside_env [preserves_rules]: "preserves (aside w0) (replica_env en s)"
proof -
  have "preserves (aside w0) (database_env_loop en ds bs e)" for ds bs e
    by (induction bs arbitrary: e) (auto intro!: preserves_rules split: option.split)
  then show ?thesis by (auto simp: replica_env_def database_env_def intro!: preserves_rules)
qed

lemma aside_bind:
  assumes "\<And>w0. preserves (aside w0) m" "\<And>w'. aside w w' \<Longrightarrow> J w'" "\<And>a w'. J w' \<Longrightarrow> I (snd (f a w'))" "\<And>w'. J w' \<Longrightarrow> I w'"
  shows "I (snd (bind_p m f w))"
proof -
  obtain r w' where m: "m w = (r, w')" by force
  have "J w'" using preservesD [OF assms(1), of w w] assms(2) m by simp
  then show ?thesis using assms(3,4) m by (auto simp: bind_p_def split: sum.split)
qed

context orchestrating
begin

text \<open>The replicas of the service \<open>name\<close> have identifiers from different draws, none before draw \<open>n\<close>, and the
  other services' routes are \<open>c\<close>.\<close>

definition own_ids :: "string \<Rightarrow> nat \<Rightarrow> (string \<Rightarrow> endpoint list) \<Rightarrow> ('d, 'r, 'k) world \<Rightarrow> bool" where
  "own_ids name n c w \<longleftrightarrow> rinv (w_routing w) \<and> (\<forall>svc. svc \<noteq> name \<longrightarrow> rview (w_routing w) svc = c svc) \<and> n \<le> w_draws w
     \<and> (\<forall>s. dict_get (w_services w) name = Some s \<longrightarrow> sp_name (ss_spec s) = name \<and> distinct (map rs_replica_id (ss_replicas s))
          \<and> set (map rs_replica_id (ss_replicas s)) \<subseteq> en_uuid en ` {n..<w_draws w})"

definition fresh_id :: "string \<Rightarrow> nat \<Rightarrow> (string \<Rightarrow> endpoint list) \<Rightarrow> nat \<Rightarrow> ('d, 'r, 'k) world \<Rightarrow> bool" where
  "fresh_id name n c i w \<longleftrightarrow> own_ids name n c w \<and> n \<le> i \<and> i < w_draws w
     \<and> (\<forall>s. dict_get (w_services w) name = Some s \<longrightarrow> en_uuid en i \<notin> set (map rs_replica_id (ss_replicas s)))"

lemma own_aside: "own_ids name n c w0 \<Longrightarrow> aside w0 w \<Longrightarrow> own_ids name n c w"
proof -
  assume own: "own_ids name n c w0" and w: "aside w0 w"
  then have sub: "en_uuid en ` {n..<w_draws w0} \<subseteq> en_uuid en ` {n..<w_draws w}" by (intro image_mono) (simp add: aside_def)
  have "set (map rs_replica_id (ss_replicas s)) \<subseteq> en_uuid en ` {n..<w_draws w}" if "dict_get (w_services w) name = Some s" for s
    by (rule subset_trans [OF _ sub]) (use own w that in \<open>simp add: own_ids_def aside_def\<close>)
  then show ?thesis using own w by (simp add: own_ids_def aside_def)
qed

lemma fresh_aside: "fresh_id name n c i w0 \<Longrightarrow> aside w0 w \<Longrightarrow> fresh_id name n c i w"
  using own_aside [of name n c w0 w] by (auto simp: fresh_id_def aside_def)

lemma keeps_aside: "(\<And>w0. preserves (aside w0) m) \<Longrightarrow> preserves (own_ids name n c) m"
proof (rule preservesI)
  fix w assume a: "\<And>w0. preserves (aside w0) m" and w: "own_ids name n c w"
  have "aside w (snd (m w))" by (rule preservesD [OF a]) simp
  then show "own_ids name n c (snd (m w))" by (rule own_aside [OF w])
qed

lemma fresh_bind:
  assumes "fresh_id name n c i w" "\<And>w0. preserves (aside w0) m" "\<And>a w'. fresh_id name n c i w' \<Longrightarrow> own_ids name n c (snd (f a w'))"
  shows "own_ids name n c (snd (bind_p m f w))"
proof (rule aside_bind [where J = "fresh_id name n c i"])
  show "preserves (aside w0) m" for w0 by (rule assms(2))
  show "fresh_id name n c i w'" if "aside w w'" for w' by (rule fresh_aside [OF assms(1) that])
  show "own_ids name n c (snd (f a w'))" if "fresh_id name n c i w'" for a w' by (rule assms(3) [OF that])
  show "own_ids name n c w'" if "fresh_id name n c i w'" for w' using that by (simp add: fresh_id_def)
qed

lemma sync_keeps: "sp_name (ss_spec s) = name \<Longrightarrow> preserves (own_ids name n c) (sync_routing_table en s)"
proof (rule preservesI)
  fix w assume s: "sp_name (ss_spec s) = name" and w: "own_ids name n c w"
  then obtain t where "rt_update (en_routing en) name (endpoints_of s) (w_routing w) = (Inr (), t)" "rinv t"
      "rview t = (rview (w_routing w))(name := keep_health (rview (w_routing w) name) (endpoints_of s))"
    using rt.update_law [of "w_routing w" name "endpoints_of s"] by (auto simp: own_ids_def)
  then show "own_ids name n c (snd (sync_routing_table en s w))"
    using w s by (simp add: sync_routing_table_def call_routing_def own_ids_def)
qed

lemma put_keeps:
  "own_ids name n c w \<Longrightarrow> sp_name (ss_spec s) = name \<Longrightarrow> distinct (map rs_replica_id (ss_replicas s)) \<Longrightarrow>
    set (map rs_replica_id (ss_replicas s)) \<subseteq> en_uuid en ` {n..<w_draws w} \<Longrightarrow>
    own_ids name n c (snd (Orchestrator.put_service name s w))"
  by (auto simp: own_ids_def Orchestrator.put_service_def mod_s_def)

lemma publish_keeps: "preserves (own_ids name n c) (Orchestrator.publish kind payload)"
  by (rule keeps_aside) (rule aside_calls)

lemma register_end:
  assumes "fresh_id name n c i w" "sp_name (ss_spec s) = name" "rs_replica_id replica = en_uuid en i"
  shows "own_ids name n c (snd (bind_p (get_service name) (\<lambda>current_service.
     bind_p (case current_service of
         None \<Rightarrow> ret ()
       | Some current \<Rightarrow>
           (let updated = current\<lparr>ss_replicas := ss_replicas current @ [replica], ss_updated_at := now\<rparr> in
            bind_p (Orchestrator.put_service name updated) (\<lambda>_. sync_routing_table en updated))) (\<lambda>_.
     Orchestrator.publish kind payload)) w))"
proof (cases "dict_get (w_services w) name")
  case None
  then show ?thesis using assms(1) preservesD [OF publish_keeps] by (simp add: get_service_def bind_p_def get_s_def fresh_id_def)
next
  case (Some current)
  let ?u = "current\<lparr>ss_replicas := ss_replicas current @ [replica], ss_updated_at := now\<rparr>"
  have own: "own_ids name n c w" and i: "i \<in> {n..<w_draws w}" "en_uuid en i \<notin> set (map rs_replica_id (ss_replicas current))"
    using assms(1) Some by (auto simp: fresh_id_def)
  have u: "sp_name (ss_spec ?u) = name" using own Some by (simp add: own_ids_def)
  have "own_ids name n c (snd (Orchestrator.put_service name ?u w))"
    using own Some i assms(3) by (intro put_keeps u) (auto simp: own_ids_def)
  then have "own_ids name n c (snd (bind_p (sync_routing_table en ?u) (\<lambda>_. Orchestrator.publish kind payload)
      (snd (Orchestrator.put_service name ?u w))))"
    by (rule preservesD [OF preserves_bind [OF sync_keeps [OF u] publish_keeps]])
  then show ?thesis using Some by (simp add: get_service_def bind_p_def get_s_def Let_def Orchestrator.put_service_def mod_s_def)
qed

lemma register_keeps:
  assumes "fresh_id name n c i w" "sp_name (ss_spec s) = name"
  shows "own_ids name n c (snd (register_replica en s node_id (en_uuid en i) cid ip w))"
  unfolding register_replica_def Let_def assms(2)
  by (rule fresh_bind [OF assms(1) aside_parts(3)], rule fresh_bind [OF _ aside_calls(3)], assumption,
    rule fresh_bind [OF _ aside_parts(1)], assumption, rule fresh_bind [OF _ preserves_get_s], assumption,
    rule register_end [unfolded Let_def], assumption, rule assms(2), simp)

lemma draw_fresh:
  assumes "own_ids name n c w" "inj (en_uuid en)"
  shows "fresh_id name n c (w_draws w) (snd (draw w))"
proof -
  have "own_ids name n c (snd (draw w))" by (rule own_aside [OF assms(1)]) (simp add: draw_def aside_def)
  moreover have "en_uuid en (w_draws w) \<notin> set (map rs_replica_id (ss_replicas s))" if "dict_get (w_services w) name = Some s" for s
  proof -
    have "set (map rs_replica_id (ss_replicas s)) \<subseteq> en_uuid en ` {n..<w_draws w}" using assms(1) that by (simp only: own_ids_def)
    moreover have "en_uuid en (w_draws w) \<notin> en_uuid en ` {n..<w_draws w}" by (simp add: inj_image_mem_iff [OF assms(2)])
    ultimately show ?thesis by blast
  qed
  ultimately show ?thesis using assms(1) by (simp add: fresh_id_def draw_def own_ids_def)
qed

lemma start_keeps:
  assumes "own_ids name n c w" "inj (en_uuid en)" "sp_name (ss_spec s) = name"
  shows "own_ids name n c (snd (bind_p draw (\<lambda>i. bind_p (replica_env en s) (\<lambda>merged_env. bind_p (ensure_service_network en name None)
      (\<lambda>network. bind_p (try_p (bind_p (call_docker (m i merged_env network)) (\<lambda>c. ret (Some c))) (\<lambda>_. ret None)) (\<lambda>created. case created of
         None \<Rightarrow> ret () | Some (cid, ip) \<Rightarrow> register_replica en s nid (en_uuid en i) cid ip)))) w))"
proof -
  have create: "preserves (aside w0) (try_p (bind_p (call_docker m) (\<lambda>c. ret (Some c))) (\<lambda>_. ret None))" for w0 m
    by (intro preserves_rules)
  have last: "own_ids name n c (snd ((case created of None \<Rightarrow> ret () | Some (cid, ip) \<Rightarrow> register_replica en s nid (en_uuid en i) cid ip) w'))"
    if "fresh_id name n c i w'" for created i w'
    using that register_keeps [OF that assms(3)] by (auto simp: fresh_id_def ret_def split: option.split)
  have "own_ids name n c (snd (bind_p (replica_env en s) (\<lambda>merged_env. bind_p (ensure_service_network en name None)
      (\<lambda>network. bind_p (try_p (bind_p (call_docker (m i merged_env network)) (\<lambda>c. ret (Some c))) (\<lambda>_. ret None)) (\<lambda>created. case created of
         None \<Rightarrow> ret () | Some (cid, ip) \<Rightarrow> register_replica en s nid (en_uuid en i) cid ip))) w'))"
    if f: "fresh_id name n c i w'" for i w'
    by (rule fresh_bind [OF f aside_env], rule fresh_bind [OF _ aside_parts(2)], assumption, rule fresh_bind [OF _ create], assumption,
      rule last, assumption)
  from this [OF draw_fresh [OF assms(1,2)]] show ?thesis by (simp add: bind_p_def draw_def)
qed

lemma create_keeps:
  assumes "inj (en_uuid en)" "sp_name (ss_spec s) = name"
  shows "preserves (own_ids name n c) (create_replica en s)"
proof -
  have p: "preserves (own_ids name n c) (bind_p draw (\<lambda>i. bind_p (replica_env en s) (\<lambda>merged_env. bind_p (ensure_service_network en name None)
      (\<lambda>network. bind_p (try_p (bind_p (call_docker (m i merged_env network)) (\<lambda>c. ret (Some c))) (\<lambda>_. ret None)) (\<lambda>created. case created of
         None \<Rightarrow> ret () | Some (cid, ip) \<Rightarrow> register_replica en s nid (en_uuid en i) cid ip)))))" for m nid
    by (rule preservesI) (rule start_keeps [OF _ assms])
  show ?thesis
    unfolding create_replica_def Let_def assms(2)
    by (rule preserves_bind [OF preserves_get_s], rule preserves_sum, split py_exn.split, intro conjI allI impI preserves_raise publish_keeps,
      rule preserves_bind [OF publish_keeps], rule p)
qed

lemma update_keeps: "preserves (own_ids name n c) (update_status en name b)"
  unfolding update_status_def
proof (rule preservesI)
  fix w assume w: "own_ids name n c w"
  show "own_ids name n c (snd (bind_p (get_service name) (\<lambda>found. case found of None \<Rightarrow> ret () | Some updated_service \<Rightarrow>
      bind_p (get_s w_clock) (\<lambda>now.
      (let new_status = (if 1 \<le> length (running updated_service) then RUNNING else DEGRADED);
           status_changed = (ss_status updated_service \<noteq> new_status);
           final = (if status_changed then updated_service\<lparr>ss_status := new_status, ss_updated_at := now\<rparr> else updated_service) in
       bind_p (when_p status_changed (Orchestrator.put_service name final)) (\<lambda>_.
       when_p (status_changed \<or> b) (emit_service_updated en final))))) w))"
    using w by (auto simp: get_service_def bind_p_def get_s_def Let_def when_p_def Orchestrator.put_service_def emit_service_updated_def
      Orchestrator.publish_def mod_s_def ret_def own_ids_def split: option.split)
qed

lemma repeat_keeps: "preserves I m \<Longrightarrow> preserves I (repeat_p k m)"
  by (induction k) (auto intro: preserves_rules)

text \<open>Reconciling a service that has no replicas yet.\<close>

lemma reconcile_keeps_ids:
  assumes "inj (en_uuid en)" "ss_replicas s = []" "sp_name (ss_spec s) = name"
  shows "preserves (own_ids name n c) (reconcile_service en s pcs)"
proof -
  have e: "preserves (own_ids name n c) (ensure_service_network en name pcs)" by (rule keeps_aside) (rule aside_parts)
  have r: "reconcile_service en s pcs = bind_p (ensure_service_network en name pcs) (\<lambda>_. bind_p (sync_routing_table en s) (\<lambda>_.
      bind_p (scale_to en s [] (sp_replicas (ss_spec s)) False) (update_status en name)))"
    by (rule ext) (simp add: reconcile_service_def refresh_observed_replicas_def assms(2,3) running_def bind_p_def ret_def get_s_def when_p_def
      Let_def split: prod.split sum.split)
  have "preserves (own_ids name n c) (scale_to en s [] (sp_replicas (ss_spec s)) False)"
    by (simp add: scale_to_def Let_def slice_from_def) (intro impI conjI preserves_rules repeat_keeps create_keeps assms(1,3))
  then show ?thesis unfolding r by (intro preserves_bind e sync_keeps assms(3) update_keeps)
qed

end

section \<open>Checks keep addresses and admit replicas\<close>

lemma set_all_address: "map address (set_all rid b eps) = map address eps"
  by (simp add: set_all_def map_where_def address_def)

context routing
begin

lemma check_replica_addresses:
  assumes "hc_ok h"
  shows "\<exists>h'. check_replica rt cfg now http_get rid ip port path svc h = (Inr (), h') \<and> hc_ok h'
    \<and> (\<forall>name. map address (view (hc_routing h') name) = map address (view (hc_routing h) name))"
proof -
  let ?url = "probe_url ip port path"
  obtain h1 where 1: "on_success rt cfg now rid svc ?url h = (Inr (), h1)" "hc_ok h1"
      "view (hc_routing h1) = (\<lambda>svc. set_all rid True (view (hc_routing h) svc)) \<or> hc_routing h1 = hc_routing h"
    using on_success_run [OF assms, of cfg now rid svc ?url] by (auto split: if_splits)
  obtain h2 where 2: "on_failure rt cfg now rid svc ?url h = (Inr (), h2)" "hc_ok h2"
      "view (hc_routing h2) = (\<lambda>svc. set_all rid False (view (hc_routing h) svc)) \<or> view (hc_routing h2) = view (hc_routing h)"
    using on_failure_run [OF assms, of cfg now rid svc ?url] by (auto split: if_splits)
  show ?thesis using 1 2 assms
    by (cases "ip = []"; cases "probe_http http_get ?url") (auto simp: check_replica_def Let_def ret_def set_all_address)
qed

lemma check_run_addresses:
  "hc_ok h \<Longrightarrow> \<exists>h'. check_run rt cfg checks h = (Inr (), h') \<and> hc_ok h'
    \<and> (\<forall>name. map address (view (hc_routing h') name) = map address (view (hc_routing h) name))"
proof (induction checks arbitrary: h)
  case (Cons k checks)
  obtain now rid ip port path svc g where k: "k = (now, rid, ip, port, path, svc, g)" by (rule prod_cases7)
  obtain h1 where h1: "check_replica rt cfg now g rid ip port path svc h = (Inr (), h1)" "hc_ok h1"
      "\<forall>name. map address (view (hc_routing h1) name) = map address (view (hc_routing h) name)"
    using check_replica_addresses [OF Cons.prems] by blast
  obtain h2 where "check_run rt cfg checks h1 = (Inr (), h2)" "hc_ok h2"
      "\<forall>name. map address (view (hc_routing h2) name) = map address (view (hc_routing h1) name)"
    using Cons.IH [OF h1(2)] by blast
  then show ?case using h1 by (intro exI [of _ h2]) (simp add: k check_run_def bind_p_def)
qed (simp add: check_run_def ret_def)

end

text \<open>As many successes as the threshold, and nothing else, leave a replica routed.\<close>

lemma successes_route:
  "0 < n \<Longrightarrow> S \<le> s + int n \<Longrightarrow> \<exists>f' s'. fold (health_step S F) (replicate n True) (f, s, h) = (f', s', True)"
proof (induction n arbitrary: f s h)
  case (Suc n)
  have keep: "\<exists>f' s'. fold (health_step S F) (replicate k True) (f, s, True) = (f', s', True)" for k f s
    by (induction k arbitrary: f s) (auto simp: health_step_def)
  show ?case
  proof (cases "S \<le> s + 1")
    case True
    then have "health_step S F True (f, s, h) = (0, 0, True)" by (simp add: health_step_def)
    then show ?thesis using keep [of n 0 0] by (simp only: replicate_Suc fold_simps)
  next
    case False
    then have "health_step S F True (f, s, h) = (f, s + 1, h)" by (simp add: health_step_def)
    then show ?thesis using Suc.IH [of "s + 1" f h] Suc.prems False by (simp only: replicate_Suc fold_simps)
  qed
qed simp

lemma ids_address: "ids eps = map fst (map address eps)"
  by (simp add: ids_def address_def)

lemma count_distinct: "distinct xs \<Longrightarrow> count_list xs q \<le> 1"
  by (induction xs) (auto simp: count_list_0_iff)

lemma distinct_of_counts: "(\<And>q. count_list xs q \<le> 1) \<Longrightarrow> distinct xs"
proof (induction xs)
  case (Cons x xs)
  have "count_list xs q \<le> 1" for q using Cons.prems [of q] by (auto split: if_splits)
  moreover have "count_list xs x = 0" using Cons.prems [of x] by simp
  ultimately show ?case using Cons.IH by (auto simp: count_list_0_iff)
qed simp

lemma one_home_added:
  assumes "\<forall>q. one_home q v" "\<forall>svc. set (ids (v svc)) \<subseteq> X" "\<forall>svc. svc \<noteq> name \<longrightarrow> v' svc = v svc"
    and "distinct (ids (v' name))" "set (ids (v' name)) \<inter> X = {}"
  shows "one_home q v'"
proof -
  have count: "count_list (ids (v' svc)) q \<le> 1" for svc
    using assms(1,3) count_distinct [OF assms(4), of q] unfolding one_home_def by (cases "svc = name") auto
  have one: "svc = svc'" if "q \<in> set (ids (v' svc))" "q \<in> set (ids (v' svc'))" for svc svc'
  proof (cases "svc = name \<or> svc' = name")
    case True
    then show ?thesis using that assms(2,3,5) by (metis disjoint_iff subsetD)
  next
    case False
    then show ?thesis using that assms(1,3) unfolding one_home_def by metis
  qed
  show ?thesis using count one by (auto simp: one_home_def)
qed

text \<open>What the health checker and the balancer make of a table whose entry for the service is synced.\<close>

lemma admitted_replica:
  fixes db :: redis_db
  assumes "redis_inv db" "\<forall>q. one_home q (redis_view db)"
    and "map address (redis_view db name) = map address (endpoints_of svc)"
    and "r \<in> set (running svc)" "rs_container_ip r \<noteq> []"
    and "results (rs_replica_id r) (concat (map checks_of ps)) = replicate n True" "cfg_health_check_success_threshold cfg \<le> int n" "0 < n"
  shows "\<exists>h eps. passes redis_routing cfg ps (new_checker db) = (Inr (), h)
    \<and> fst (healthy_replicas_for_request redis_routing name (hc_routing h, counters)) = Inr eps
    \<and> (rs_replica_id r, rs_container_ip r, sp_port (ss_spec svc)) \<in> address ` set eps
    \<and> address ` set eps \<subseteq> address ` set (endpoints_of svc)"
proof -
  let ?rid = "rs_replica_id r" and ?a = "(rs_replica_id r, rs_container_ip r, sp_port (ss_spec svc))"
  have r: "?a \<in> address ` set (endpoints_of svc)"
    using assms(4,5) by (force simp: endpoints_of_def running_def address_def new_endpoint_def)
  then have a: "?a \<in> address ` set (redis_view db name)" using assms(3) by (metis list.set_map)
  then have rid: "?rid \<in> set (ids (redis_view db name))" unfolding ids_address set_map by (metis fst_conv image_eqI)
  have ok: "redis_rt.hc_ok (new_checker db)" using assms(1,2) by (simp add: redis_rt.hc_ok_def new_checker_def)
  have home: "has_home (redis_view (hc_routing (new_checker db))) ?rid"
    using rid by (auto simp: has_home_def new_checker_def)
  obtain h where h: "check_run redis_routing cfg (concat (map checks_of ps)) (new_checker db) = (Inr (), h)" "redis_rt.hc_ok h"
      "\<forall>name. map address (redis_view (hc_routing h) name) = map address (redis_view db name)"
  proof -
    have "hc_routing (new_checker db) = db" by (simp add: new_checker_def)
    then show thesis using redis_rt.check_run_addresses [OF ok, of cfg "concat (map checks_of ps)"] that by metis
  qed
  have "redis_rt.hc_abs ?rid h = fold (health_step (cfg_health_check_success_threshold cfg) (cfg_health_check_failure_threshold cfg))
      (replicate n True) (redis_rt.hc_abs ?rid (new_checker db))"
    using redis_rt.check_run_abs [OF ok home, of cfg "concat (map checks_of ps)"] h(1) assms(6) by simp
  moreover have "redis_rt.hc_abs ?rid (new_checker db) = (0, 0, Health.routed (redis_view db) ?rid)"
    by (simp add: redis_rt.hc_abs_def new_checker_def dict_get_or_def)
  moreover obtain f' s' where "fold (health_step (cfg_health_check_success_threshold cfg) (cfg_health_check_failure_threshold cfg))
      (replicate n True) (0, 0, Health.routed (redis_view db) ?rid) = (f', s', True)"
    using successes_route [OF assms(8), of "cfg_health_check_success_threshold cfg" 0 "cfg_health_check_failure_threshold cfg" 0
      "Health.routed (redis_view db) ?rid"] assms(7) by auto
  ultimately have "redis_rt.hc_abs ?rid h = (f', s', True)" by simp
  then have "Health.routed (redis_view (hc_routing h)) ?rid" by (simp add: redis_rt.hc_abs_def)
  then obtain svc' e where e: "e \<in> set (redis_view (hc_routing h) svc')" "ep_replica_id e = ?rid" "ep_healthy e"
    by (auto simp: Health.routed_def)
  have one: "one_home ?rid (redis_view (hc_routing h))" using h(2) by (simp add: redis_rt.hc_ok_def)
  have rid': "?rid \<in> set (ids (redis_view (hc_routing h) name))" using rid h(3) by (simp add: ids_address)
  have "?rid \<in> set (ids (redis_view (hc_routing h) svc'))" using e(1,2) by (force simp: ids_def)
  then have e': "e \<in> set (redis_view (hc_routing h) name)" using one rid' e(1) unfolding one_home_def by metis
  have "distinct (map fst (map address (redis_view (hc_routing h) name)))"
  proof -
    have "count_list (ids (redis_view (hc_routing h) name)) q \<le> 1" for q
      using h(2) by (simp add: redis_rt.hc_ok_def one_home_def)
    then show ?thesis unfolding ids_address [symmetric] by (rule distinct_of_counts)
  qed
  moreover have "address e \<in> set (map address (redis_view (hc_routing h) name))" using e' by simp
  moreover have "fst (address e) = fst ?a" using e(2) by (simp add: address_def)
  moreover have "?a \<in> set (map address (redis_view (hc_routing h) name))" using a h(3) by simp
  ultimately have ae: "address e = ?a" by (metis eq_key_imp_eq_value prod.collapse)
  obtain eps where eps: "fst (healthy_replicas_for_request redis_routing name (hc_routing h, counters)) = Inr eps"
      "set eps = set (filter ep_healthy (redis_view (hc_routing h) name))"
  proof -
    let ?hs = "filter ep_healthy (redis_view (hc_routing h) name)"
    have "?hs \<noteq> []" using e' e(3) by (auto simp: filter_empty_conv)
    then have "fst (healthy_replicas_for_request redis_routing name (hc_routing h, counters)) = Inr (rotate (dict_get_or counters name 0) ?hs)"
      using redis_rt.request_run [of "hc_routing h" name counters] h(2) by (auto simp: redis_rt.hc_ok_def simp del: filter_empty_conv)
    then show thesis by (rule that) simp
  qed
  moreover have "address ` set (redis_view (hc_routing h) name) = address ` set (endpoints_of svc)"
    using assms(3) h(3) by (metis list.set_map)
  moreover have "?a \<in> address ` set eps" unfolding ae [symmetric] eps(2) using e' e(3) by simp
  moreover have "address ` set eps \<subseteq> address ` set (redis_view (hc_routing h) name)" unfolding eps(2) by auto
  ultimately show ?thesis using h(1) eps(1) by (intro exI [of _ h] exI [of _ eps]) (simp add: passes_run)
qed

section \<open>Properties\<close>



end
