(* ===== verification/App.thy ===== *)
theory App
  imports Startup Applier Topology
begin

text \<open>
  The whole API: \<open>create_app\<close> of \<open>services/control-plane/main.py\<close> puts the routers of \<open>aws_light/api/\<close>
  together. A request is matched against their routes in order; the route's function runs on the state all
  routers share, the \<open>site\<close>. What FastAPI does is a parameter: which paths a route's template matches, how
  the parameters and the body of a request become the arguments of the function, and its answers to requests
  that no route takes. Each router has a datatype of the calls of its functions. The websocket is no HTTP
  route; it is in \<open>ControlPlane\<close>.
\<close>

section \<open>Calls\<close>

datatype iam_call =
    Login string string
  | GetMe
  | ListUsers
  | CreateUser string string role
  | DeleteUser string

datatype service_call =
    ListServices
  | CreateService service_spec
  | GetService string
  | GetServiceLogs string int
  | GetServiceDiagnostics string
  | UpdateService string service_spec
  | DeleteService string

datatype cluster_call =
    ListNodes
  | GetNode string
  | GetOverview
  | GetTopology
  | CreateDeployment deployment_spec
  | ListDeployments
  | GetDeployment string

datatype platform_call =
    ListPlatformServices
  | GetPlatformConfig
  | GetPlatformServiceLogs string int
  | GetPlatformServiceActivity string
  | GetPlatformMetrics
  | GetPlatformTimeseries int
  | GetPlatformRouting
  | GetPlatformEvents int "string option" "string option"

datatype secret_call =
    ListSecrets
  | CreateSecret string string
  | GetSecret string
  | DeleteSecret string

datatype storage_call =
    ListBuckets
  | CreateBucket string
  | DeleteBucket string
  | ListObjects string string
  | PutObject string string string "string option"
  | GetObject string string
  | DeleteObject string string
  | PresignObject string string int
  | GetPresignedObject string string string string

datatype workload_call =
    WorkloadListObjects string string
  | WorkloadPutObject string string string "string option"
  | WorkloadGetObject string string
  | WorkloadDeleteObject string string

datatype manifest_call =
    ApplyManifests string
  | DiffManifests string
  | DestroyManifests string

datatype call =
    Healthz
  | Iam iam_call
  | Services service_call
  | Cluster cluster_call
  | Platform platform_call
  | Secret secret_call
  | Storage storage_call
  | Workload workload_call
  | Manifests manifest_call
  | StaticFile string
  | Dashboard

text \<open>What a function returns, before pydantic turns it into JSON.\<close>

datatype reply =
    ROk
  | RNone
  | RText string
  | RFile path
  | RUsers "user_spec list"
  | RServices "service_state list"
  | RLogs "string \<times> replica_logs list"
  | RDiagnostics diagnostics
  | RNodes "node_state list"
  | ROverview overview
  | RGraph graph
  | RRollouts "rollout_state list"
  | RPlatformServices "(compose_container_info \<times> string) list"
  | RConfig "string \<times> nat \<times> pyfloat \<times> int"
  | RPlatformLogs "string \<times> string \<times> string \<times> string"
  | RActivity "string \<times> activity list"
  | RMetrics proxy_metrics_view
  | RTimeseries "int \<times> bucket_view list"
  | RRoutes "(string \<times> endpoint list) list"
  | REvents "web_socket_event list \<times> int"
  | RNames "string list"
  | RSecret "string \<times> string"
  | RBuckets "bucket list"
  | RObjects "object_meta list"
  | RPresigned "string \<times> int"
  | RResults "apply_result list"
  | RDiffs "manifest_diff list"

section \<open>Requests and the framework\<close>

record api_request =
  ar_method :: string
  ar_path :: string
  ar_bearer :: "string option"
  ar_service_token :: "string option"
  ar_query :: "(string \<times> string) list"
  ar_body :: string

text \<open>\<open>ap_no_credentials\<close> is the status \<open>HTTPBearer\<close> answers a request without a bearer token with.
  \<open>ap_matches\<close> says which paths a template matches, \<open>ap_decode\<close> makes the call of a route's function from the
  request or refuses it, and \<open>ap_unrouted\<close> is the status of what no route takes: a redirect, 404, 405 or a
  page of the framework. \<open>ap_static\<close> says whether the directory of the dashboard exists.\<close>

record ('d, 'r, 'k) app_env =
  ap_plane :: "('d, 'r, 'k) plane_env"
  ap_bcrypt :: bcrypt_lib
  ap_salt :: string
  ap_nonce :: nat
  ap_presign :: presign_env
  ap_manifests :: manifest_lib
  ap_text :: "json \<Rightarrow> string"
  ap_trim :: nat
  ap_static :: bool
  ap_static_path :: path
  ap_no_credentials :: int
  ap_matches :: "string \<Rightarrow> string \<Rightarrow> bool"
  ap_decode :: "string \<Rightarrow> api_request \<Rightarrow> call result"
  ap_unrouted :: "api_request \<Rightarrow> int"

abbreviation ap_env :: "('d, 'r, 'k) app_env \<Rightarrow> ('d, 'r, 'k) env" where
  "ap_env ap \<equiv> pe_env (ap_plane ap)"

abbreviation ap_jwt :: "('d, 'r, 'k) app_env \<Rightarrow> jwt_lib" where
  "ap_jwt ap \<equiv> pe_jwt (ap_plane ap)"

definition seconds :: "('d, 'r, 'k) plane \<Rightarrow> int" where
  "seconds p = w_clock (pn_world p) div 1000000"

definition replies :: "('a \<Rightarrow> reply) \<Rightarrow> ('s, 'a) prog \<Rightarrow> ('s, reply) prog" where
  "replies f m = bind_p m (\<lambda>a. ret (f a))"

definition with_bearer :: "('d, 'r, 'k) app_env \<Rightarrow> api_request \<Rightarrow> (string \<Rightarrow> ('s, 'a) prog) \<Rightarrow> ('s, 'a) prog" where
  "with_bearer ap q f = (case ar_bearer q of
     None \<Rightarrow> raise (HTTPException (ap_no_credentials ap) ''Not authenticated'') | Some token \<Rightarrow> f token)"

section \<open>The functions of the routes\<close>

text \<open>The users' store is used on the site itself; the other routers work on what the processes share.\<close>

fun run_iam :: "('d, 'r, 'k) app_env \<Rightarrow> api_request \<Rightarrow> iam_call \<Rightarrow> (('d, 'r, 'k) site, reply) prog" where
  "run_iam ap q (Login username password) = bind_p (get_s (\<lambda>s. seconds (st_plane s))) (\<lambda>now.
     replies RText (login (ap_jwt ap) (ap_bcrypt ap) (en_cfg (ap_env ap)) now user_rows username password))"
| "run_iam ap q GetMe = with_bearer ap q (\<lambda>token. bind_p (get_s (\<lambda>s. seconds (st_plane s))) (\<lambda>now.
     replies (\<lambda>u. RUsers [u]) (get_me (ap_jwt ap) (en_cfg (ap_env ap)) now token)))"
| "run_iam ap q ListUsers = with_bearer ap q (\<lambda>token. bind_p (get_s (\<lambda>s. seconds (st_plane s))) (\<lambda>now.
     replies RUsers (list_users (ap_jwt ap) (en_cfg (ap_env ap)) now user_rows token)))"
| "run_iam ap q (CreateUser username password rl) = with_bearer ap q (\<lambda>token. bind_p (get_s (\<lambda>s. seconds (st_plane s))) (\<lambda>now.
     replies (\<lambda>u. RUsers [u]) (create_user (ap_jwt ap) (ap_bcrypt ap) (en_cfg (ap_env ap)) now (ap_salt ap) user_rows token username password rl)))"
| "run_iam ap q (DeleteUser username) = with_bearer ap q (\<lambda>token. bind_p (get_s (\<lambda>s. seconds (st_plane s))) (\<lambda>now.
     replies (\<lambda>_. RNone) (delete_user (ap_jwt ap) (en_cfg (ap_env ap)) now user_rows token username)))"

fun run_services :: "('d, 'r, 'k) app_env \<Rightarrow> api_request \<Rightarrow> service_call \<Rightarrow> (('d, 'r, 'k) plane, reply) prog" where
  "run_services ap q ListServices = with_bearer ap q (\<lambda>token. replies RServices (api_list_services (ap_plane ap) token))"
| "run_services ap q (CreateService spec) = with_bearer ap q (\<lambda>token.
     replies (\<lambda>s. RServices [s]) (api_create_service (ap_plane ap) token spec))"
| "run_services ap q (GetService name) = with_bearer ap q (\<lambda>token. replies (\<lambda>s. RServices [s]) (api_get_service (ap_plane ap) token name))"
| "run_services ap q (GetServiceLogs name tail) = with_bearer ap q (\<lambda>token.
     replies RLogs (api_get_service_logs (ap_plane ap) token name tail))"
| "run_services ap q (GetServiceDiagnostics name) = with_bearer ap q (\<lambda>token.
     replies RDiagnostics (api_get_service_diagnostics (ap_plane ap) token name))"
| "run_services ap q (UpdateService name spec) = with_bearer ap q (\<lambda>token.
     replies (\<lambda>s. RServices [s]) (api_update_service (ap_plane ap) token name spec))"
| "run_services ap q (DeleteService name) = with_bearer ap q (\<lambda>token. replies (\<lambda>_. RNone) (api_delete_service (ap_plane ap) token name))"

fun run_cluster :: "('d, 'r, 'k) app_env \<Rightarrow> api_request \<Rightarrow> cluster_call \<Rightarrow> (('d, 'r, 'k) plane, reply) prog" where
  "run_cluster ap q ListNodes = with_bearer ap q (\<lambda>token. replies RNodes (api_list_nodes (ap_plane ap) token))"
| "run_cluster ap q (GetNode node_id) = with_bearer ap q (\<lambda>token. replies (\<lambda>n. RNodes [n]) (api_get_node (ap_plane ap) token node_id))"
| "run_cluster ap q GetOverview = with_bearer ap q (\<lambda>token. replies ROverview (get_overview (ap_plane ap) token))"
| "run_cluster ap q GetTopology = with_bearer ap q (\<lambda>token. replies RGraph (get_topology (ap_plane ap) token))"
| "run_cluster ap q (CreateDeployment spec) = with_bearer ap q (\<lambda>token.
     replies (\<lambda>r. RRollouts [r]) (api_create_deployment (ap_plane ap) token spec))"
| "run_cluster ap q ListDeployments = with_bearer ap q (\<lambda>token. replies RRollouts (api_list_deployments (ap_plane ap) token))"
| "run_cluster ap q (GetDeployment deployment_id) = with_bearer ap q (\<lambda>token.
     replies (\<lambda>r. RRollouts [r]) (api_get_deployment (ap_plane ap) token deployment_id))"

fun run_platform :: "('d, 'r, 'k) app_env \<Rightarrow> api_request \<Rightarrow> platform_call \<Rightarrow> (('d, 'r, 'k) plane, reply) prog" where
  "run_platform ap q ListPlatformServices = with_bearer ap q (\<lambda>token.
     replies RPlatformServices (list_platform_services (ap_plane ap) token))"
| "run_platform ap q GetPlatformConfig = with_bearer ap q (\<lambda>token. replies RConfig (get_platform_config (ap_plane ap) token))"
| "run_platform ap q (GetPlatformServiceLogs name tail) = with_bearer ap q (\<lambda>token.
     replies RPlatformLogs (get_platform_service_logs (ap_plane ap) token name tail))"
| "run_platform ap q (GetPlatformServiceActivity name) = with_bearer ap q (\<lambda>token.
     replies RActivity (get_platform_service_activity (ap_plane ap) (ap_text ap) token name))"
| "run_platform ap q GetPlatformMetrics = with_bearer ap q (\<lambda>token. replies RMetrics (get_platform_metrics (ap_plane ap) token))"
| "run_platform ap q (GetPlatformTimeseries buckets) = with_bearer ap q (\<lambda>token.
     replies RTimeseries (get_platform_timeseries (ap_plane ap) token buckets))"
| "run_platform ap q GetPlatformRouting = with_bearer ap q (\<lambda>token. replies RRoutes (get_platform_routing (ap_plane ap) token))"
| "run_platform ap q (GetPlatformEvents limit component service) = with_bearer ap q (\<lambda>token.
     replies REvents (get_platform_events (ap_plane ap) (ap_text ap) token limit component service))"

text \<open>The secrets of the world, with the manager's key.\<close>

definition on_stored :: "('k, 'a) prog \<Rightarrow> (('d, 'r, 'k) plane, 'a) prog" where
  "on_stored m = on_world (call_secrets m)"

fun run_secrets :: "('d, 'r, 'k) app_env \<Rightarrow> api_request \<Rightarrow> secret_call \<Rightarrow> (('d, 'r, 'k) plane, reply) prog" where
  "run_secrets ap q ListSecrets = with_bearer ap q (\<lambda>token. bind_p (get_s seconds) (\<lambda>now. replies RNames (on_stored
     (api_list_secrets (ap_jwt ap) (en_cfg (ap_env ap)) now (en_secrets (ap_env ap)) token))))"
| "run_secrets ap q (CreateSecret name v) = with_bearer ap q (\<lambda>token. bind_p (get_s seconds) (\<lambda>now. replies RText (on_stored
     (api_create_secret (ap_jwt ap) (en_cfg (ap_env ap)) now (en_fernet (ap_env ap)) (en_key (ap_env ap)) (ap_nonce ap)
       (en_secrets (ap_env ap)) token name v))))"
| "run_secrets ap q (GetSecret name) = with_bearer ap q (\<lambda>token. bind_p (get_s seconds) (\<lambda>now. replies RSecret (on_stored
     (api_get_secret (ap_jwt ap) (en_cfg (ap_env ap)) now (en_fernet (ap_env ap)) (en_key (ap_env ap)) (en_secrets (ap_env ap)) token name))))"
| "run_secrets ap q (DeleteSecret name) = with_bearer ap q (\<lambda>token. bind_p (get_s seconds) (\<lambda>now. replies (\<lambda>_. RNone) (on_stored
     (api_delete_secret (ap_jwt ap) (en_cfg (ap_env ap)) now (en_secrets (ap_env ap)) token name))))"

text \<open>The storage endpoints see the files, the secrets and the services.\<close>

definition storage_api_of :: "('d, 'r, 'k) app_env \<Rightarrow> ('k, (string, service_state) pydict) storage_api" where
  "storage_api_of ap = \<lparr>ax_storage = pe_storage (ap_plane ap), ax_presign = ap_presign ap, ax_jwt = ap_jwt ap,
     ax_cfg = en_cfg (ap_env ap), ax_fernet = en_fernet (ap_env ap), ax_key = en_key (ap_env ap),
     ax_secrets = en_secrets (ap_env ap), ax_services = dict_store (\<lambda>d. d) (\<lambda>f. f)\<rparr>"

definition storage_state_of :: "('d, 'r, 'k) plane \<Rightarrow> ('k, (string, service_state) pydict) storage_state" where
  "storage_state_of p = \<lparr>sa_files = pn_files p, sa_secrets = w_secrets (pn_world p), sa_services = w_services (pn_world p)\<rparr>"

definition on_storage_state :: "(('k, (string, service_state) pydict) storage_state, 'a) prog \<Rightarrow> (('d, 'r, 'k) plane, 'a) prog" where
  "on_storage_state m p = (case m (storage_state_of p) of (r, t) \<Rightarrow>
     (r, p\<lparr>pn_files := sa_files t, pn_world := (pn_world p)\<lparr>w_secrets := sa_secrets t, w_services := sa_services t\<rparr>\<rparr>))"

fun run_storage :: "('d, 'r, 'k) app_env \<Rightarrow> api_request \<Rightarrow> storage_call \<Rightarrow> (('d, 'r, 'k) plane, reply) prog" where
  "run_storage ap q ListBuckets = with_bearer ap q (\<lambda>token. bind_p (get_s seconds) (\<lambda>now.
     replies RBuckets (on_storage_state (api_list_buckets (storage_api_of ap) now token))))"
| "run_storage ap q (CreateBucket name) = with_bearer ap q (\<lambda>token. bind_p (get_s seconds) (\<lambda>now.
     replies (\<lambda>b. RBuckets [b]) (on_storage_state (api_create_bucket (storage_api_of ap) now token name))))"
| "run_storage ap q (DeleteBucket name) = with_bearer ap q (\<lambda>token. bind_p (get_s seconds) (\<lambda>now.
     replies (\<lambda>_. RNone) (on_storage_state (api_delete_bucket (storage_api_of ap) now token name))))"
| "run_storage ap q (ListObjects bucket key_prefix) = with_bearer ap q (\<lambda>token. bind_p (get_s seconds) (\<lambda>now.
     replies RObjects (on_storage_state (api_list_objects (storage_api_of ap) now token bucket key_prefix))))"
| "run_storage ap q (PutObject bucket key body content_type) = with_bearer ap q (\<lambda>token. bind_p (get_s seconds) (\<lambda>now.
     replies (\<lambda>m. RObjects [m]) (on_storage_state (api_put_object (storage_api_of ap) now token bucket key body content_type))))"
| "run_storage ap q (GetObject bucket key) = with_bearer ap q (\<lambda>token. bind_p (get_s seconds) (\<lambda>now.
     replies RText (on_storage_state (api_get_object (storage_api_of ap) now token bucket key))))"
| "run_storage ap q (DeleteObject bucket key) = with_bearer ap q (\<lambda>token. bind_p (get_s seconds) (\<lambda>now.
     replies (\<lambda>_. RNone) (on_storage_state (api_delete_object (storage_api_of ap) now token bucket key))))"
| "run_storage ap q (PresignObject bucket key ttl) = with_bearer ap q (\<lambda>token. bind_p (get_s seconds) (\<lambda>now.
     replies RPresigned (on_storage_state (api_presign_object (storage_api_of ap) now token bucket key ttl))))"
| "run_storage ap q (GetPresignedObject bucket key expires signature) = bind_p (get_s seconds) (\<lambda>now.
     replies RText (on_storage_state (api_get_presigned_object (storage_api_of ap) now bucket key expires signature)))"

fun run_workload :: "('d, 'r, 'k) app_env \<Rightarrow> api_request \<Rightarrow> workload_call \<Rightarrow> (('d, 'r, 'k) plane, reply) prog" where
  "run_workload ap q (WorkloadListObjects bucket key_prefix) =
     replies RObjects (on_storage_state (workload_list_objects (storage_api_of ap) (ar_service_token q) bucket key_prefix))"
| "run_workload ap q (WorkloadPutObject bucket key body content_type) = bind_p (get_s seconds) (\<lambda>now.
     replies (\<lambda>m. RObjects [m]) (on_storage_state
       (workload_put_object (storage_api_of ap) now (ar_service_token q) bucket key body content_type)))"
| "run_workload ap q (WorkloadGetObject bucket key) =
     replies RText (on_storage_state (workload_get_object (storage_api_of ap) (ar_service_token q) bucket key))"
| "run_workload ap q (WorkloadDeleteObject bucket key) =
     replies (\<lambda>_. RNone) (on_storage_state (workload_delete_object (storage_api_of ap) (ar_service_token q) bucket key))"

text \<open>The applier on the shared state. Its events go to the bus when it is done; one that Redis does not take
  is lost here, in the code its manifest's result is then an error.\<close>

definition iac_env_of :: "('d, 'r, 'k) app_env \<Rightarrow> timestamp \<Rightarrow> 'k iac_env" where
  "iac_env_of ap now = \<lparr>ie_manifests = ap_manifests ap, ie_storage = pe_storage (ap_plane ap), ie_fernet = en_fernet (ap_env ap),
     ie_key = en_key (ap_env ap), ie_nonce = ap_nonce ap, ie_secrets = en_secrets (ap_env ap), ie_events = True, ie_now = now\<rparr>"

definition publish_all :: "('d, 'r, 'k) app_env \<Rightarrow> web_socket_event list \<Rightarrow> (('d, 'r, 'k) plane, unit) prog" where
  "publish_all ap events = for_p events (\<lambda>e.
     try_p (on_bus (redis_publish (pe_codec (ap_plane ap)) (ap_trim ap) e)) (\<lambda>_. ret ()))"

definition on_iac :: "('d, 'r, 'k) app_env \<Rightarrow> ('k iac, 'a) prog \<Rightarrow> (('d, 'r, 'k) plane, 'a) prog" where
  "on_iac ap m p = (case w_databases (pn_world p) of
     None \<Rightarrow> (Inl AssertionError, p)
   | Some databases \<Rightarrow>
      (case m \<lparr>ia_services = w_services (pn_world p), ia_databases = databases, ia_secrets = w_secrets (pn_world p),
          ia_files = pn_files p, ia_published = []\<rparr> of (r, a) \<Rightarrow>
        (r, snd (publish_all ap (ia_published a) (p\<lparr>pn_files := ia_files a, pn_world := (pn_world p)\<lparr>
          w_services := ia_services a, w_databases := Some (ia_databases a), w_secrets := ia_secrets a\<rparr>\<rparr>)))))"

fun run_manifests :: "('d, 'r, 'k) app_env \<Rightarrow> api_request \<Rightarrow> manifest_call \<Rightarrow> (('d, 'r, 'k) plane, reply) prog" where
  "run_manifests ap q (ApplyManifests text) = with_bearer ap q (\<lambda>token. bind_p (get_s (\<lambda>p. w_clock (pn_world p))) (\<lambda>now.
     replies RResults (on_iac ap (api_apply (ap_jwt ap) (en_cfg (ap_env ap)) (now div 1000000) (iac_env_of ap now) token text))))"
| "run_manifests ap q (DiffManifests text) = with_bearer ap q (\<lambda>token. bind_p (get_s (\<lambda>p. w_clock (pn_world p))) (\<lambda>now.
     replies RDiffs (on_iac ap (api_diff (ap_jwt ap) (en_cfg (ap_env ap)) (now div 1000000) (iac_env_of ap now) token text))))"
| "run_manifests ap q (DestroyManifests text) = with_bearer ap q (\<lambda>token. bind_p (get_s (\<lambda>p. w_clock (pn_world p))) (\<lambda>now.
     replies RResults (on_iac ap (api_destroy (ap_jwt ap) (en_cfg (ap_env ap)) (now div 1000000) (iac_env_of ap now) token text))))"

section \<open>Routes\<close>

text \<open>A route: method, template and the name of its function.\<close>

type_synonym route = "string \<times> string \<times> string"

definition router :: "string \<Rightarrow> route list \<Rightarrow> route list" where
  "router path_prefix routes = map (\<lambda>(m, t, f). (m, path_prefix @ t, f)) routes"

definition iam_router :: "route list" where
  "iam_router = router ''/api/v1''
     [(''POST'', ''/auth/login'', ''login''), (''GET'', ''/auth/me'', ''get_me''), (''GET'', ''/users'', ''list_users''),
      (''POST'', ''/users'', ''create_user''), (''DELETE'', ''/users/{username}'', ''delete_user'')]"

definition services_router :: "route list" where
  "services_router = router ''/api/v1/services''
     [(''GET'', [], ''list_services''), (''POST'', [], ''create_service''), (''GET'', ''/{name}'', ''get_service''),
      (''GET'', ''/{name}/logs'', ''get_service_logs''), (''GET'', ''/{name}/diagnostics'', ''get_service_diagnostics''),
      (''PATCH'', ''/{name}'', ''update_service''), (''DELETE'', ''/{name}'', ''delete_service'')]"

definition nodes_router :: "route list" where
  "nodes_router = router ''/api/v1/nodes'' [(''GET'', [], ''list_nodes''), (''GET'', ''/{node_id}'', ''get_node'')]"

definition overview_router :: "route list" where
  "overview_router = router ''/api/v1/overview'' [(''GET'', [], ''get_overview'')]"

definition platform_router :: "route list" where
  "platform_router = router ''/api/v1/platform''
     [(''GET'', ''/services'', ''list_platform_services''), (''GET'', ''/config'', ''get_platform_config''),
      (''GET'', ''/services/{service_name}/logs'', ''get_platform_service_logs''),
      (''GET'', ''/services/{service_name}/activity'', ''get_platform_service_activity''),
      (''GET'', ''/metrics'', ''get_platform_metrics''), (''GET'', ''/timeseries'', ''get_platform_timeseries''),
      (''GET'', ''/routing'', ''get_platform_routing''), (''GET'', ''/events'', ''get_platform_events'')]"

definition topology_router :: "route list" where
  "topology_router = router ''/api/v1/platform/topology'' [(''GET'', [], ''get_topology'')]"

definition deployments_router :: "route list" where
  "deployments_router = router ''/api/v1/deployments''
     [(''POST'', [], ''create_deployment''), (''GET'', [], ''list_deployments''), (''GET'', ''/{deployment_id}'', ''get_deployment'')]"

definition secrets_router :: "route list" where
  "secrets_router = router ''/api/v1/secrets''
     [(''GET'', [], ''list_secrets''), (''POST'', [], ''create_secret''), (''GET'', ''/{name}'', ''get_secret''),
      (''DELETE'', ''/{name}'', ''delete_secret'')]"

definition storage_router :: "route list" where
  "storage_router = router ''/api/v1/storage''
     [(''GET'', ''/buckets'', ''list_buckets''), (''POST'', ''/buckets'', ''create_bucket''),
      (''DELETE'', ''/buckets/{bucket_name}'', ''delete_bucket''), (''GET'', ''/buckets/{bucket_name}/objects'', ''list_objects''),
      (''PUT'', ''/buckets/{bucket_name}/objects/{object_key:path}'', ''put_object''),
      (''GET'', ''/buckets/{bucket_name}/objects/{object_key:path}'', ''get_object''),
      (''DELETE'', ''/buckets/{bucket_name}/objects/{object_key:path}'', ''delete_object''),
      (''POST'', ''/buckets/{bucket_name}/objects/{object_key:path}/presign'', ''presign_object''),
      (''GET'', ''/presigned'', ''get_presigned_object'')]"

definition workload_router :: "route list" where
  "workload_router = router ''/_aws-light/storage''
     [(''GET'', ''/buckets/{bucket_name}/objects'', ''workload_list_objects''),
      (''PUT'', ''/buckets/{bucket_name}/objects/{object_key:path}'', ''workload_put_object''),
      (''GET'', ''/buckets/{bucket_name}/objects/{object_key:path}'', ''workload_get_object''),
      (''DELETE'', ''/buckets/{bucket_name}/objects/{object_key:path}'', ''workload_delete_object'')]"

definition iac_router :: "route list" where
  "iac_router = router ''/api/v1/manifests''
     [(''POST'', ''/apply'', ''apply_manifests''), (''POST'', ''/diff'', ''diff_manifests''), (''POST'', ''/destroy'', ''destroy_manifests'')]"

definition create_app :: "bool \<Rightarrow> route list" where
  "create_app static_exists = [(''GET'', ''/healthz'', ''healthz'')] @ iam_router @ services_router @ nodes_router @ overview_router
     @ platform_router @ topology_router @ deployments_router @ secrets_router @ storage_router @ workload_router @ iac_router
     @ (if static_exists then [(''GET'', ''/static/{path:path}'', ''static''), (''GET'', ''/'', ''serve_dashboard'')] else [])"

text \<open>The function of a call and the status of its success.\<close>

fun iam_function :: "iam_call \<Rightarrow> string" where
  "iam_function (Login _ _) = ''login''"
| "iam_function GetMe = ''get_me''"
| "iam_function ListUsers = ''list_users''"
| "iam_function (CreateUser _ _ _) = ''create_user''"
| "iam_function (DeleteUser _) = ''delete_user''"

fun service_function :: "service_call \<Rightarrow> string" where
  "service_function ListServices = ''list_services''"
| "service_function (CreateService _) = ''create_service''"
| "service_function (GetService _) = ''get_service''"
| "service_function (GetServiceLogs _ _) = ''get_service_logs''"
| "service_function (GetServiceDiagnostics _) = ''get_service_diagnostics''"
| "service_function (UpdateService _ _) = ''update_service''"
| "service_function (DeleteService _) = ''delete_service''"

fun cluster_function :: "cluster_call \<Rightarrow> string" where
  "cluster_function ListNodes = ''list_nodes''"
| "cluster_function (GetNode _) = ''get_node''"
| "cluster_function GetOverview = ''get_overview''"
| "cluster_function GetTopology = ''get_topology''"
| "cluster_function (CreateDeployment _) = ''create_deployment''"
| "cluster_function ListDeployments = ''list_deployments''"
| "cluster_function (GetDeployment _) = ''get_deployment''"

fun platform_function :: "platform_call \<Rightarrow> string" where
  "platform_function ListPlatformServices = ''list_platform_services''"
| "platform_function GetPlatformConfig = ''get_platform_config''"
| "platform_function (GetPlatformServiceLogs _ _) = ''get_platform_service_logs''"
| "platform_function (GetPlatformServiceActivity _) = ''get_platform_service_activity''"
| "platform_function GetPlatformMetrics = ''get_platform_metrics''"
| "platform_function (GetPlatformTimeseries _) = ''get_platform_timeseries''"
| "platform_function GetPlatformRouting = ''get_platform_routing''"
| "platform_function (GetPlatformEvents _ _ _) = ''get_platform_events''"

fun secret_function :: "secret_call \<Rightarrow> string" where
  "secret_function ListSecrets = ''list_secrets''"
| "secret_function (CreateSecret _ _) = ''create_secret''"
| "secret_function (GetSecret _) = ''get_secret''"
| "secret_function (DeleteSecret _) = ''delete_secret''"

fun storage_function :: "storage_call \<Rightarrow> string" where
  "storage_function ListBuckets = ''list_buckets''"
| "storage_function (CreateBucket _) = ''create_bucket''"
| "storage_function (DeleteBucket _) = ''delete_bucket''"
| "storage_function (ListObjects _ _) = ''list_objects''"
| "storage_function (PutObject _ _ _ _) = ''put_object''"
| "storage_function (GetObject _ _) = ''get_object''"
| "storage_function (DeleteObject _ _) = ''delete_object''"
| "storage_function (PresignObject _ _ _) = ''presign_object''"
| "storage_function (GetPresignedObject _ _ _ _) = ''get_presigned_object''"

fun workload_function :: "workload_call \<Rightarrow> string" where
  "workload_function (WorkloadListObjects _ _) = ''workload_list_objects''"
| "workload_function (WorkloadPutObject _ _ _ _) = ''workload_put_object''"
| "workload_function (WorkloadGetObject _ _) = ''workload_get_object''"
| "workload_function (WorkloadDeleteObject _ _) = ''workload_delete_object''"

fun manifest_function :: "manifest_call \<Rightarrow> string" where
  "manifest_function (ApplyManifests _) = ''apply_manifests''"
| "manifest_function (DiffManifests _) = ''diff_manifests''"
| "manifest_function (DestroyManifests _) = ''destroy_manifests''"

fun function_of :: "call \<Rightarrow> string" where
  "function_of Healthz = ''healthz''"
| "function_of (Iam c) = iam_function c"
| "function_of (Services c) = service_function c"
| "function_of (Cluster c) = cluster_function c"
| "function_of (Platform c) = platform_function c"
| "function_of (Secret c) = secret_function c"
| "function_of (Storage c) = storage_function c"
| "function_of (Workload c) = workload_function c"
| "function_of (Manifests c) = manifest_function c"
| "function_of (StaticFile _) = ''static''"
| "function_of Dashboard = ''serve_dashboard''"

definition success_status :: "string \<Rightarrow> int" where
  "success_status f = (if f \<in> {''create_user'', ''create_service'', ''create_secret'', ''create_bucket'', ''put_object'', ''workload_put_object''} then 201
     else if f = ''create_deployment'' then 202
     else if f \<in> {''delete_user'', ''delete_service'', ''delete_secret'', ''delete_bucket'', ''delete_object'', ''workload_delete_object''} then 204
     else 200)"

section \<open>A request\<close>

fun run_call :: "('d, 'r, 'k) app_env \<Rightarrow> api_request \<Rightarrow> call \<Rightarrow> (('d, 'r, 'k) site, reply) prog" where
  "run_call ap q Healthz = ret ROk"
| "run_call ap q (Iam c) = run_iam ap q c"
| "run_call ap q (Services c) = on_plane (run_services ap q c)"
| "run_call ap q (Cluster c) = on_plane (run_cluster ap q c)"
| "run_call ap q (Platform c) = on_plane (run_platform ap q c)"
| "run_call ap q (Secret c) = on_plane (run_secrets ap q c)"
| "run_call ap q (Storage c) = on_plane (run_storage ap q c)"
| "run_call ap q (Workload c) = on_plane (run_workload ap q c)"
| "run_call ap q (Manifests c) = on_plane (run_manifests ap q c)"
| "run_call ap q (StaticFile name) = ret (RFile (path_join (ap_static_path ap) name))"
| "run_call ap q Dashboard = ret (RFile (ap_static_path ap @ [''index.html'']))"

datatype api_answer = Answered int reply | Refused int

definition takes :: "('d, 'r, 'k) app_env \<Rightarrow> api_request \<Rightarrow> route \<Rightarrow> bool" where
  "takes ap q r = (case r of (m, t, f) \<Rightarrow> m = ar_method q \<and> ap_matches ap t (ar_path q))"

definition find_route :: "('d, 'r, 'k) app_env \<Rightarrow> api_request \<Rightarrow> route option" where
  "find_route ap q = find (takes ap q) (create_app (ap_static ap))"

text \<open>The first route that takes the request; an exception that is no \<open>HTTPException\<close> becomes 500.\<close>

definition handle_request :: "('d, 'r, 'k) app_env \<Rightarrow> api_request \<Rightarrow> ('d, 'r, 'k) site \<Rightarrow> api_answer \<times> ('d, 'r, 'k) site" where
  "handle_request ap q s = (case find_route ap q of
     None \<Rightarrow> (Refused (ap_unrouted ap q), s)
   | Some (m, t, f) \<Rightarrow>
      (case bind_p (\<lambda>s. (ap_decode ap f q, s)) (run_call ap q) s of
         (Inr r, s') \<Rightarrow> (Answered (success_status f) r, s')
       | (Inl (HTTPException status detail), s') \<Rightarrow> (Refused status, s')
       | (Inl e, s') \<Rightarrow> (Refused 500, s')))"

end
