(* ===== verification/Access.thy ===== *)
theory Access
  imports App Routing
begin

text \<open>
  What requests to the API may change, by the role of their user.
\<close>

section \<open>Reading\<close>

text \<open>\<open>preserves ((=) s)\<close> says that a program leaves the state as it is; a part of the state is left as it is by
  what runs on it.\<close>

lemma still_parts [preserves_rules]:
  "preserves ((=) (st_plane s)) m \<Longrightarrow> preserves ((=) s) (on_plane m)"
  "preserves ((=) (pn_world p)) m1 \<Longrightarrow> preserves ((=) p) (on_world m1)"
  "preserves ((=) (pn_bus p)) m2 \<Longrightarrow> preserves ((=) p) (on_bus m2)"
  "preserves ((=) (pn_files p)) m3 \<Longrightarrow> preserves ((=) p) (on_storage m3)"
  "preserves ((=) (pn_metrics p)) m4 \<Longrightarrow> preserves ((=) p) (on_metrics m4)"
  "preserves ((=) (w_routing w)) m5 \<Longrightarrow> preserves ((=) w) (call_routing m5)"
  "preserves ((=) (w_secrets w)) m6 \<Longrightarrow> preserves ((=) w) (call_secrets m6)"
  "preserves ((=) (sa_files a)) m7 \<Longrightarrow> preserves ((=) a) (on_files m7)"
  "preserves ((=) (sa_secrets a)) m8 \<Longrightarrow> preserves ((=) a) (on_stored_secrets m8)"
  "preserves ((=) (sa_services a)) m9 \<Longrightarrow> preserves ((=) a) (on_services m9)"
  "preserves ((=) (storage_state_of p)) m10 \<Longrightarrow> preserves ((=) p) (on_storage_state m10)"
  "preserves ((=) (bs)) m11 \<Longrightarrow> preserves ((=) bs) (replies f m11)"
  unfolding preserves_def on_plane_def on_world_def on_bus_def on_storage_def on_metrics_def call_routing_def call_secrets_def
    on_files_def on_stored_secrets_def on_services_def on_storage_state_def replies_def bind_p_def ret_def storage_state_of_def
  by (auto split: prod.splits sum.splits) 

lemma still_bearer [preserves_rules]:
  "(\<And>t. ar_bearer q = Some t \<Longrightarrow> preserves I (f t)) \<Longrightarrow> preserves I (with_bearer ap q f)"
  by (auto simp: with_bearer_def intro: preserves_rules split: option.split)

text \<open>What the endpoints read of Redis and of the files.\<close>

lemma still_when_reachable [preserves_rules]: "preserves I (when_reachable f)"
  by (simp add: preserves_def when_reachable_def)

lemma still_recent [preserves_rules]: "preserves ((=) b) (redis_recent_events ec)"
  by (auto simp: preserves_def redis_recent_events_def on_stream_def xrevrange_def split: prod.splits sum.splits)

lemma still_read_ints [preserves_rules]: "preserves I (read_ints key)"
  by (simp add: read_ints_def hgetall_def preserves_rules)

lemma still_sum_buckets [preserves_rules]: "preserves I (sum_buckets bs acc)"
  by (induction bs acc rule: sum_buckets.induct) (auto intro!: preserves_rules)

lemma still_traffic [preserves_rules]: "preserves I proxy_traffic_by_service"
  by (auto simp: proxy_traffic_by_service_def proxy_bucket_ids_def redis_keys_def intro!: preserves_rules)

lemma still_fs_read [preserves_rules]: "preserves I (fs_read f)"
  by (auto simp: preserves_def fs_read_def split: sum.split)

lemma still_list_buckets [preserves_rules]: "preserves I (list_buckets en)"
  by (auto simp: list_buckets_def load_bucket_def intro!: preserves_rules split: fs_node.split)

lemma still_need_bucket [preserves_rules]: "preserves I (need_bucket en b)"
  by (auto simp: need_bucket_def intro!: preserves_rules)

lemma still_list_objects [preserves_rules]: "preserves I (list_objects en b kp)"
  by (auto simp: list_objects_def load_meta_def Let_def intro!: preserves_rules)

lemma still_get_object [preserves_rules]: "preserves I (get_object en b key)"
  by (auto simp: get_object_def intro!: preserves_rules)

lemma still_or_404 [preserves_rules]: "preserves ((=) (sa_files a)) m \<Longrightarrow> preserves ((=) a) (or_404 d d' m)"
  by (auto simp: or_404_def intro!: preserves_rules split: py_exn.split option.split)

section \<open>Roles\<close>

text \<open>The bearer token of a request is that of a user with at least a role, now.\<close>

definition granted :: "('d, 'r, 'k) app_env \<Rightarrow> api_request \<Rightarrow> role \<Rightarrow> ('d, 'r, 'k) plane \<Rightarrow> bool" where
  "granted ap q rl p \<longleftrightarrow> (\<exists>token u. ar_bearer q = Some token
     \<and> require_role (ap_jwt ap) (en_cfg (ap_env ap)) (seconds p) rl token = Inr u)"

lemma require_role_mono:
  "require_role jwt cfg now rl token = Inr u \<Longrightarrow> rl' \<le> rl \<Longrightarrow> \<exists>u. require_role jwt cfg now rl' token = Inr u"
  by (auto simp: require_role_def bind_r_def has_minimum_role_le split: sum.splits if_splits intro: order_trans)

lemma granted_mono: "granted ap q rl p \<Longrightarrow> rl' \<le> rl \<Longrightarrow> granted ap q rl' p"
  unfolding granted_def using require_role_mono by blast

lemma not_admin: "\<not> granted ap q DEVELOPER p \<Longrightarrow> \<not> granted ap q ADMIN p"
  using granted_mono [of ap q ADMIN p DEVELOPER] by (auto simp: less_eq_role_def)

lemma still_get: "preserves ((=) p) (bind_p (get_s g) f) \<longleftrightarrow> preserves ((=) p) (f (g p))"
  by (simp add: preserves_def bind_p_def get_s_def)

lemma bearer_now:
  "(\<And>token. ar_bearer q = Some token \<Longrightarrow> preserves ((=) p) (f token (g p))) \<Longrightarrow>
    preserves ((=) p) (with_bearer ap q (\<lambda>token. bind_p (get_s g) (f token)))"
  by (auto simp: with_bearer_def still_get intro: preserves_rules split: option.split)

lemma refused: "(\<And>u. dep \<noteq> Inr u) \<Longrightarrow> preserves I (endpoint dep body)"
  by (cases dep) (auto intro: preserves_rules)

lemma not_granted:
  "\<not> granted ap q rl p \<Longrightarrow> ar_bearer q = Some token \<Longrightarrow>
    require_role (ap_jwt ap) (en_cfg (ap_env ap)) (seconds p) rl token \<noteq> Inr u"
  by (auto simp: granted_def)

lemma for_role_still:
  "\<not> granted ap q rl p \<Longrightarrow> ar_bearer q = Some token \<Longrightarrow> preserves ((=) p) (for_role (ap_plane ap) rl token body)"
  by (auto simp: for_role_def still_get seconds_def [symmetric] dest: not_granted intro!: refused)

lemma for_user_still [preserves_rules]:
  "(\<And>u. preserves I (body u)) \<Longrightarrow> preserves I (for_user pe token body)"
  by (auto simp: for_user_def intro!: preserves_rules)

lemma dict_store_still [preserves_rules]:
  "preserves I (so_list (dict_store g u))" "preserves I (so_get (dict_store g u) k)" "preserves I (so_exists (dict_store g u) k)"
  by (simp_all add: dict_store_def preserves_rules)

section \<open>The routers\<close>

text \<open>A service may only change the files.\<close>

definition but_files :: "('d, 'r, 'k) plane \<Rightarrow> ('d, 'r, 'k) plane \<Rightarrow> bool" where
  "but_files p p' \<longleftrightarrow> p' = p\<lparr>pn_files := pn_files p'\<rparr>"

text \<open>Reading the secrets and the routing table leaves them as they are, as for the tables of Postgres and the
  keys of Redis.\<close>

locale reading_api =
  fixes ap :: "('d, 'r, 'k) app_env"
  assumes list_secrets: "preserves ((=) k) (so_list (en_secrets (ap_env ap)))"
    and get_secrets: "preserves ((=) k) (so_get (en_secrets (ap_env ap)) name)"
    and get_routes: "preserves ((=) r) (rt_get (en_routing (ap_env ap)) name)"
    and route_names: "preserves ((=) r) (rt_names (en_routing (ap_env ap)))"
begin

lemmas reads = list_secrets get_secrets get_routes route_names

lemma services_still:
  assumes "\<not> granted ap q DEVELOPER p"
  shows "preserves ((=) p) (run_services ap q c)"
  by (cases c) (auto simp: api_list_services_def api_create_service_def api_get_service_def api_get_service_logs_def
    api_get_service_diagnostics_def api_update_service_def api_delete_service_def service_or_404_def get_service_store_def
    get_node_store_def recent_events_def routing_endpoints_of_def intro!: preserves_rules for_role_still [OF assms] reads)

lemma cluster_still:
  assumes "\<not> granted ap q DEVELOPER p"
  shows "preserves ((=) p) (run_cluster ap q c)"
  by (cases c) (auto simp: api_list_nodes_def api_get_node_def get_overview_def get_topology_def api_create_deployment_def
    api_list_deployments_def api_get_deployment_def get_service_store_def get_deployment_store_def get_database_store_def
    get_node_store_def recent_events_def routing_endpoints_of_def routing_service_names_def
    intro!: preserves_rules for_role_still [OF assms] reads)

lemma platform_still:
  assumes "\<not> granted ap q DEVELOPER p"
  shows "preserves ((=) p) (run_platform ap q c)"
  by (cases c) (auto simp: list_platform_services_def get_platform_config_def get_platform_service_logs_def
    get_platform_service_activity_def get_platform_metrics_def get_platform_timeseries_def get_platform_routing_def
    get_platform_events_def recent_events_def Let_def intro!: preserves_rules for_role_still [OF not_admin [OF assms]])

lemma secret_names_still: "preserves ((=) k) (list_secret_names (en_secrets (ap_env ap)))"
  by (auto simp: list_secret_names_def intro!: preserves_rules reads)

lemma secret_still: "preserves ((=) k) (get_secret fe key (en_secrets (ap_env ap)) n)"
  by (auto simp: get_secret_def intro!: preserves_rules reads)

lemma secrets_still:
  assumes "\<not> granted ap q DEVELOPER p"
  shows "preserves ((=) p) (run_secrets ap q c)"
  by (cases c) (auto simp: api_list_secrets_def api_create_secret_def api_get_secret_def api_delete_secret_def on_stored_def
    intro!: still_parts bearer_now preserves_endpoint [OF secret_names_still] refused dest: not_granted [OF assms])

lemma storage_api_simps [simp]: "ax_jwt (storage_api_of ap) = ap_jwt ap" "ax_cfg (storage_api_of ap) = en_cfg (ap_env ap)"
  "ax_secrets (storage_api_of ap) = en_secrets (ap_env ap)" "ax_services (storage_api_of ap) = dict_store (\<lambda>d. d) (\<lambda>f. f)"
  by (simp_all add: storage_api_of_def)

lemma developer_still:
  "\<not> granted ap q DEVELOPER p \<Longrightarrow> ar_bearer q = Some token \<Longrightarrow>
    preserves I (endpoint (developer (storage_api_of ap) (seconds p) token) body)"
  by (auto simp: developer_def dest: not_granted intro!: refused)

lemma user_still: "(\<And>u. preserves I (body u)) \<Longrightarrow> preserves I (endpoint (current_user (storage_api_of ap) now token) body)"
  by (rule preserves_endpoint)

lemma storage_still:
  assumes "\<not> granted ap q DEVELOPER p"
  shows "preserves ((=) p) (run_storage ap q c)"
  by (cases c) (auto simp: still_get api_list_buckets_def api_create_bucket_def api_delete_bucket_def api_list_objects_def
    api_put_object_def api_get_object_def api_delete_object_def api_presign_object_def api_get_presigned_object_def
    intro!: still_parts bearer_now developer_still [OF assms] user_still still_or_404 still_list_buckets still_list_objects
      still_get_object preserves_raise split: sum.split)

lemma stored_still: "preserves I (on_stored_secrets (get_secret fe key (en_secrets (ap_env ap)) n))"
proof -
  have "snd (get_secret fe key (en_secrets (ap_env ap)) n k) = k" for k
    using secret_still [of k fe key n] by (simp add: preserves_def)
  then show ?thesis by (simp add: preserves_def on_stored_secrets_def case_prod_beta)
qed

lemma names_still: "preserves I (on_stored_secrets (list_secret_names (en_secrets (ap_env ap))))"
proof -
  have "snd (list_secret_names (en_secrets (ap_env ap)) k) = k" for k
    using secret_names_still [of k] by (simp add: preserves_def)
  then show ?thesis by (simp add: preserves_def on_stored_secrets_def case_prod_beta)
qed

lemma services_field_still: "preserves I (on_services (so_get (dict_store (\<lambda>d. d) (\<lambda>f. f)) k))"
  by (simp add: preserves_def on_services_def dict_store_def get_s_def)

lemma token_loop_still: "preserves I (token_loop (storage_api_of ap) token names)"
  by (induction names) (auto intro!: preserves_rules stored_still services_field_still)

lemma bucket_access_still: "preserves I (require_bucket_access (storage_api_of ap) bucket access token)"
  by (auto simp: require_bucket_access_def service_state_for_token_def intro!: preserves_rules names_still token_loop_still)

lemma bucket_right_still:
  "preserves I (require_bucket_read (storage_api_of ap) bucket header)"
  "preserves I (require_bucket_write (storage_api_of ap) bucket header)"
  by (auto simp: require_bucket_read_def require_bucket_write_def intro!: preserves_rules bucket_access_still split: option.split)

lemma or_404_files: "preserves (\<lambda>a. a\<lparr>sa_files := t\<rparr> = b) (or_404 d d' m)"
  by (simp add: preserves_def or_404_def on_files_def split: prod.split)

lemma workload_files: "preserves (but_files p) (run_workload ap q c)"
proof -
  have s: "preserves (but_files p) (replies f (on_storage_state m))"
    if "\<And>t b. preserves (\<lambda>a. a\<lparr>sa_files := t\<rparr> = b) m" for f :: "'z \<Rightarrow> reply" and m
  proof (rule preservesI)
    fix p' assume p': "but_files p p'"
    obtain r a where m: "m (storage_state_of p') = (r, a)" by force
    have "a\<lparr>sa_files := []\<rparr> = storage_state_of p'\<lparr>sa_files := []\<rparr>"
      using preservesD [OF that refl, of "[]" "storage_state_of p'"] m by simp
    then have "sa_secrets a = w_secrets (pn_world p')" "sa_services a = w_services (pn_world p')"
      by (cases a; simp add: storage_state_of_def)+
    moreover obtain t where "p' = p\<lparr>pn_files := t\<rparr>" using p' by (auto simp: but_files_def)
    ultimately show "but_files p (snd (replies f (on_storage_state m) p'))"
      using m by (simp add: but_files_def replies_def on_storage_state_def bind_p_def ret_def split: sum.split)
  qed
  show ?thesis
    by (cases c) (auto simp: workload_list_objects_def workload_put_object_def workload_get_object_def workload_delete_object_def
      intro!: s preserves_bind [OF preserves_get_s] preserves_bind [OF bucket_right_still(1)] preserves_bind [OF bucket_right_still(2)] or_404_files)
qed

lemma workload_still: "ar_service_token q = None \<Longrightarrow> preserves I (run_workload ap q c)"
  by (cases c) (simp_all add: workload_list_objects_def workload_put_object_def workload_get_object_def workload_delete_object_def
    require_bucket_read_def require_bucket_write_def replies_def on_storage_state_def raise_def bind_p_def get_s_def preserves_def
    storage_state_of_def)

lemma on_iac_still:
  assumes "\<And>ds. preserves ((=) \<lparr>ia_services = w_services (pn_world p), ia_databases = ds, ia_secrets = w_secrets (pn_world p),
      ia_files = pn_files p, ia_published = []\<rparr>) m"
  shows "preserves ((=) p) (on_iac ap m)"
proof -
  have "snd (on_iac ap m p) = p"
  proof (cases "w_databases (pn_world p)")
    case (Some ds)
    let ?a = "\<lparr>ia_services = w_services (pn_world p), ia_databases = ds, ia_secrets = w_secrets (pn_world p), ia_files = pn_files p,
      ia_published = []\<rparr>"
    obtain r where "m ?a = (r, ?a)" using preservesD [OF assms refl, of ds] by (metis prod.collapse)
    then show ?thesis using Some by (simp add: on_iac_def publish_all_def ret_def)
  qed (simp add: on_iac_def)
  then show ?thesis by (simp add: preserves_def)
qed

lemma manifests_still:
  assumes "\<not> granted ap q DEVELOPER p"
  shows "preserves ((=) p) (run_manifests ap q c)"
proof -
  have d: "preserves I (diff_manifests en ms)" for I en ms
    by (auto simp: diff_manifests_def fetch_current_def intro!: preserves_rules)
  have f: "preserves I (parsed_or_422 en yaml (diff_manifests en))" for I en yaml
    by (auto simp: parsed_or_422_def intro!: preserves_rules d split: sum.split py_exn.split)
  show ?thesis
    by (cases c) (auto simp: api_apply_def api_diff_def api_destroy_def seconds_def [symmetric]
      intro!: still_parts bearer_now on_iac_still preserves_endpoint [OF f] refused dest: not_granted [OF assms])
qed

end

section \<open>Users\<close>

lemma user_rows_still [preserves_rules]:
  "preserves I (so_list user_rows)" "preserves I (so_get user_rows k)" "preserves I (so_exists user_rows k)"
  by (simp_all add: user_rows_def preserves_rules)

lemma iam_still:
  assumes "\<not> granted ap q ADMIN (st_plane s)"
  shows "preserves ((=) s) (run_iam ap q c)"
proof -
  have 1: "preserves ((=) s) (login jwt bc cfg now user_rows u pw)" for jwt bc cfg now u pw
    by (auto simp: login_def intro!: preserves_rules)
  show ?thesis
    by (cases c) (auto simp: still_get get_me_def list_users_def create_user_def delete_user_def
      intro!: still_parts bearer_now 1 preserves_endpoint [OF preserves_ret] refused dest: not_granted [OF assms])
qed

lemma on_plane_users: "preserves (\<lambda>s. st_users s = us) (on_plane m)"
  by (simp add: preserves_def on_plane_def split: prod.split)

section \<open>A request\<close>

lemma handle_state: "snd (handle_request ap q s) = s \<or> (\<exists>c. snd (handle_request ap q s) = snd (run_call ap q c s))"
proof (cases "find_route ap q")
  case (Some r)
  obtain m t f where "r = (m, t, f)" by (cases r)
  show ?thesis
  proof (cases "ap_decode ap f q")
    case (Inr c)
    then have "snd (handle_request ap q s) = snd (run_call ap q c s)"
      using Some \<open>r = (m, t, f)\<close> by (auto simp: handle_request_def bind_p_def split: prod.split sum.split py_exn.split)
    then show ?thesis by blast
  qed (use Some \<open>r = (m, t, f)\<close> in \<open>auto simp: handle_request_def bind_p_def split: py_exn.split\<close>)
qed (simp add: handle_request_def)

text \<open>What is not the workload's leaves the state to developers, and the users to administrators.\<close>

lemma call_still:
  assumes "reading_api ap" "\<not> granted ap q DEVELOPER (st_plane s)"
  shows "snd (run_call ap q c s) = s \<or> (\<exists>w. c = Workload w)"
proof -
  have p: "snd (on_plane m s) = s" if "preserves ((=) (st_plane s)) m" for m :: "(('a, 'b, 'c) plane, reply) prog"
    using preservesD [OF still_parts(1) [OF that] refl] by simp
  have "snd (run_iam ap q c s) = s" for c
    using preservesD [OF iam_still [OF not_admin [OF assms(2)]] refl, of c] by simp
  then show ?thesis
    using reading_api.services_still [OF assms] reading_api.cluster_still [OF assms] reading_api.platform_still [OF assms]
      reading_api.secrets_still [OF assms] reading_api.storage_still [OF assms] reading_api.manifests_still [OF assms]
    by (cases c) (simp_all add: p ret_def)
qed

lemma workload_call:
  assumes "reading_api ap"
  shows "\<exists>files. snd (run_call ap q (Workload w) s) = s\<lparr>st_plane := (st_plane s)\<lparr>pn_files := files\<rparr>\<rparr>"
    and "ar_service_token q = None \<Longrightarrow> snd (run_call ap q (Workload w) s) = s"
proof -
  let ?p = "snd (run_workload ap q w (st_plane s))"
  have "but_files (st_plane s) ?p"
    by (rule preservesD [OF reading_api.workload_files [OF assms]]) (simp add: but_files_def)
  then have "?p = (st_plane s)\<lparr>pn_files := pn_files ?p\<rparr>" by (simp add: but_files_def)
  moreover have "snd (run_call ap q (Workload w) s) = s\<lparr>st_plane := ?p\<rparr>" by (simp add: on_plane_def split: prod.split)
  ultimately show "\<exists>files. snd (run_call ap q (Workload w) s) = s\<lparr>st_plane := (st_plane s)\<lparr>pn_files := files\<rparr>\<rparr>" by metis
  show "snd (run_call ap q (Workload w) s) = s" if "ar_service_token q = None"
    using preservesD [OF still_parts(1) [OF reading_api.workload_still [OF assms that]] refl] by simp
qed

lemma call_users:
  assumes "\<not> granted ap q ADMIN (st_plane s)"
  shows "st_users (snd (run_call ap q c s)) = st_users s"
proof -
  have "snd (run_iam ap q c s) = s" for c
    using preservesD [OF iam_still [OF assms] refl, of c] by simp
  then show ?thesis by (cases c) (simp_all add: ret_def preservesD [OF on_plane_users])
qed

text \<open>The least role the function of a route needs; \<open>None\<close>: no user.\<close>

definition needed_role :: "string \<Rightarrow> role option" where
  "needed_role f =
    (if f \<in> {''healthz'', ''login'', ''get_presigned_object'', ''workload_list_objects'', ''workload_put_object'',
        ''workload_get_object'', ''workload_delete_object'', ''static'', ''serve_dashboard''} then None
     else if f \<in> {''list_users'', ''create_user'', ''delete_user'', ''list_platform_services'', ''get_platform_service_logs'',
        ''get_platform_service_activity'', ''get_platform_metrics'', ''get_platform_timeseries'', ''get_platform_routing''} then Some ADMIN
     else if f \<in> {''create_service'', ''get_service_logs'', ''update_service'', ''delete_service'', ''create_deployment'', ''create_secret'',
        ''get_secret'', ''delete_secret'', ''create_bucket'', ''delete_bucket'', ''put_object'', ''delete_object'', ''presign_object'',
        ''apply_manifests'', ''destroy_manifests''} then Some DEVELOPER
     else Some VIEWER)"

text \<open>A program that raises and leaves the state as it is.\<close>

definition refuses :: "'s \<Rightarrow> ('s, 'a) prog \<Rightarrow> bool" where
  "refuses s m \<longleftrightarrow> (\<exists>e. m s = (Inl e, s))"

lemma refuses_parts:
  "refuses (st_plane s) m \<Longrightarrow> refuses s (on_plane m)"
  "refuses (w_secrets (pn_world p)) m1 \<Longrightarrow> refuses p (on_stored m1)"
  "refuses (storage_state_of p) m2 \<Longrightarrow> refuses p (on_storage_state m2)"
  "refuses b m3 \<Longrightarrow> refuses b (replies f m3)"
  by (auto simp: refuses_def on_plane_def on_stored_def on_world_def call_secrets_def on_storage_state_def storage_state_of_def
    replies_def bind_p_def)

lemma refuses_bearer:
  "(\<And>token. ar_bearer q = Some token \<Longrightarrow> refuses b (f token)) \<Longrightarrow> refuses b (with_bearer ap q f)"
  by (auto simp: with_bearer_def refuses_def raise_def split: option.split)

lemma refuses_get: "refuses b (f (g b)) \<Longrightarrow> refuses b (bind_p (get_s g) f)"
  by (simp add: refuses_def bind_p_def get_s_def)

lemma refuses_endpoint: "(\<And>u. dep \<noteq> Inr u) \<Longrightarrow> refuses b (endpoint dep body)"
  by (cases dep) (auto simp: refuses_def raise_def)

lemma refuses_iac:
  assumes "\<And>a. refuses a m"
  shows "refuses p (on_iac ap m)"
proof (cases "w_databases (pn_world p)")
  case (Some ds)
  let ?a = "\<lparr>ia_services = w_services (pn_world p), ia_databases = ds, ia_secrets = w_secrets (pn_world p), ia_files = pn_files p,
    ia_published = []\<rparr>"
  obtain e where "m ?a = (Inl e, ?a)" using assms [of ?a] by (auto simp: refuses_def)
  then show ?thesis using Some by (simp add: refuses_def on_iac_def publish_all_def ret_def)
qed (simp add: refuses_def on_iac_def)

lemma refuses_role:
  "\<not> granted ap q rl p \<Longrightarrow> ar_bearer q = Some token \<Longrightarrow> refuses p (for_role (ap_plane ap) rl token body)"
  unfolding for_role_def seconds_def [symmetric] by (intro refuses_get refuses_endpoint not_granted)

lemma not_viewer:
  "\<not> granted ap q VIEWER p \<Longrightarrow> ar_bearer q = Some token \<Longrightarrow> get_current_user (ap_jwt ap) (en_cfg (ap_env ap)) (seconds p) token \<noteq> Inr u"
  using not_granted [of ap q VIEWER p token u] by (auto simp: require_role_def has_minimum_role_def)

lemma refuses_user:
  "\<not> granted ap q VIEWER p \<Longrightarrow> ar_bearer q = Some token \<Longrightarrow> refuses p (for_user (ap_plane ap) token body)"
  unfolding for_user_def seconds_def [symmetric] by (intro refuses_get refuses_endpoint not_viewer)

lemmas refuses_rules = refuses_parts refuses_bearer refuses_get refuses_endpoint refuses_iac refuses_role refuses_user

lemma services_refused:
  "needed_role (service_function c) = Some rl \<Longrightarrow> \<not> granted ap q rl p \<Longrightarrow> refuses p (run_services ap q c)"
  by (cases c) (auto simp: needed_role_def api_list_services_def api_create_service_def api_get_service_def api_get_service_logs_def
    api_get_service_diagnostics_def api_update_service_def api_delete_service_def intro!: refuses_rules)

lemma cluster_refused:
  "needed_role (cluster_function c) = Some rl \<Longrightarrow> \<not> granted ap q rl p \<Longrightarrow> refuses p (run_cluster ap q c)"
  by (cases c) (auto simp: needed_role_def api_list_nodes_def api_get_node_def get_overview_def get_topology_def
    api_create_deployment_def api_list_deployments_def api_get_deployment_def intro!: refuses_rules)

lemma platform_refused:
  "needed_role (platform_function c) = Some rl \<Longrightarrow> \<not> granted ap q rl p \<Longrightarrow> refuses p (run_platform ap q c)"
  by (cases c) (auto simp: needed_role_def list_platform_services_def get_platform_config_def get_platform_service_logs_def
    get_platform_service_activity_def get_platform_metrics_def get_platform_timeseries_def get_platform_routing_def
    get_platform_events_def intro!: refuses_rules)

lemma secrets_refused:
  "needed_role (secret_function c) = Some rl \<Longrightarrow> \<not> granted ap q rl p \<Longrightarrow> refuses p (run_secrets ap q c)"
  by (cases c) (auto simp: needed_role_def api_list_secrets_def api_create_secret_def api_get_secret_def api_delete_secret_def
    intro!: refuses_parts refuses_bearer refuses_get refuses_endpoint dest: not_granted not_viewer)

lemma storage_refused:
  "needed_role (storage_function c) = Some rl \<Longrightarrow> \<not> granted ap q rl p \<Longrightarrow> refuses p (run_storage ap q c)"
  by (cases c) (auto simp: needed_role_def api_list_buckets_def api_create_bucket_def api_delete_bucket_def api_list_objects_def
    api_put_object_def api_get_object_def api_delete_object_def api_presign_object_def developer_def current_user_def
    storage_api_of_def intro!: refuses_parts refuses_bearer refuses_get refuses_endpoint dest: not_granted not_viewer)

lemma manifests_refused:
  "needed_role (manifest_function c) = Some rl \<Longrightarrow> \<not> granted ap q rl p \<Longrightarrow> refuses p (run_manifests ap q c)"
  by (cases c) (auto simp: needed_role_def api_apply_def api_diff_def api_destroy_def seconds_def [symmetric]
    intro!: refuses_parts refuses_bearer refuses_get refuses_iac refuses_endpoint dest: not_granted not_viewer)

lemma iam_refused:
  "needed_role (iam_function c) = Some rl \<Longrightarrow> \<not> granted ap q rl (st_plane s) \<Longrightarrow> refuses s (run_iam ap q c)"
  by (cases c) (auto simp: needed_role_def get_me_def list_users_def create_user_def delete_user_def
    intro!: refuses_parts refuses_bearer refuses_get refuses_endpoint dest: not_granted not_viewer)

lemma call_refused:
  "needed_role (function_of c) = Some rl \<Longrightarrow> \<not> granted ap q rl (st_plane s) \<Longrightarrow> refuses s (run_call ap q c)"
proof (cases c)
  case (Workload w)
  then show ?thesis if "needed_role (function_of c) = Some rl" using that by (cases w) (simp_all add: needed_role_def)
qed (auto simp: needed_role_def [of "''healthz''"] needed_role_def [of "''static''"] needed_role_def [of "''serve_dashboard''"]
  intro: refuses_parts services_refused cluster_refused platform_refused secrets_refused storage_refused manifests_refused iam_refused)

end
