(* ===== verification/AppFacts.thy ===== *)
theory AppFacts
  imports Access StartupFacts
begin

text \<open>
  The API as a whole: every request reaches one function at most, whatever the order of the routes; what
  the function of a route asks of its user, and what requests may change.
\<close>

section \<open>Templates\<close>

text \<open>What FastAPI documents of templates: a literal segment matches itself, \<open>{x}\<close> a segment that is not
  empty, and \<open>{x:path}\<close> any text, slashes included.\<close>

definition is_param :: "string \<Rightarrow> bool" where
  "is_param t \<longleftrightarrow> starts_with ''{'' t"

definition is_path_param :: "string \<Rightarrow> bool" where
  "is_path_param t \<longleftrightarrow> starts_with ''{'' t \<and> ends_with '':path}'' t"

fun segments_match :: "string list \<Rightarrow> string list \<Rightarrow> bool" where
  "segments_match [] ss = (ss = [])"
| "segments_match (t # ts) [] = False"
| "segments_match (t # ts) (s # ss) =
     (if is_path_param t then list_ex (\<lambda>k. segments_match ts (drop k ss)) [0..<Suc (length ss)]
      else (if is_param t then s \<noteq> [] else s = t) \<and> segments_match ts ss)"

definition template_matches :: "string \<Rightarrow> string \<Rightarrow> bool" where
  "template_matches t p = segments_match (split_char CHR ''/'' t) (split_char CHR ''/'' p)"

text \<open>Whether some path might match both: a sound check of two templates.\<close>

fun overlap :: "string list \<Rightarrow> string list \<Rightarrow> bool" where
  "overlap [] us = (us = [])"
| "overlap (t # ts) [] = False"
| "overlap (t # ts) (u # us) = (is_path_param t \<or> is_path_param u \<or> (is_param t \<or> is_param u \<or> t = u) \<and> overlap ts us)"

lemma overlap_sound: "segments_match ts ss \<Longrightarrow> segments_match us ss \<Longrightarrow> overlap ts us"
proof (induction ts us arbitrary: ss rule: overlap.induct)
  case (1 us)
  then show ?case by (cases us) auto
next
  case (2 t ts)
  then show ?case by (cases ss) auto
next
  case (3 t ts u us)
  then show ?case by (cases ss) (auto split: if_splits)
qed

definition clash :: "route \<Rightarrow> route \<Rightarrow> bool" where
  "clash r r' = (case (r, r') of ((m, t, f), (m', t', f')) \<Rightarrow> m = m' \<and> overlap (split_char CHR ''/'' t) (split_char CHR ''/'' t'))"

fun no_clash :: "route list \<Rightarrow> bool" where
  "no_clash [] = True"
| "no_clash (r # rs) = ((\<forall>r' \<in> set rs. \<not> clash r r') \<and> no_clash rs)"

lemma overlap_commute: "overlap ts us = overlap us ts"
proof (induction ts us rule: overlap.induct)
  case (1 us)
  then show ?case by (cases us) auto
qed auto

lemma no_clash_takes:
  assumes "ap_matches ap = template_matches"
  shows "no_clash rs \<Longrightarrow> r \<in> set rs \<Longrightarrow> r' \<in> set rs \<Longrightarrow> takes ap q r \<Longrightarrow> takes ap q r' \<Longrightarrow> r = r'"
proof (induction rs)
  case (Cons x rs)
  have c: "clash a b \<and> clash b a" if "takes ap q a" "takes ap q b" for a b
    using that overlap_sound by (auto simp: takes_def clash_def assms template_matches_def split: prod.splits)
  show ?case using Cons c [of x r'] c [of x r] by (auto simp del: split_paired_All split_paired_Ex)
qed simp

lemma no_clash_append: "no_clash (rs @ rs') \<Longrightarrow> no_clash rs"
  by (induction rs) auto

lemma create_app_no_clash: "no_clash (create_app b)"
proof -
  have "no_clash (create_app True)" by code_simp
  moreover have "create_app True = create_app False @ [(''GET'', ''/static/{path:path}'', ''static''), (''GET'', ''/'', ''serve_dashboard'')]"
    by (simp add: create_app_def)
  ultimately show ?thesis by (cases b) (auto dest: no_clash_append)
qed

lemma find_unique:
  "(\<And>x y. x \<in> set xs \<Longrightarrow> y \<in> set xs \<Longrightarrow> P x \<Longrightarrow> P y \<Longrightarrow> x = y) \<Longrightarrow> find P xs = Some x \<longleftrightarrow> x \<in> set xs \<and> P x"
  by (induction xs) (auto split: if_splits)

lemma takes_unique:
  assumes "ap_matches ap = template_matches"
  shows "r \<in> set (create_app b) \<Longrightarrow> r' \<in> set (create_app b) \<Longrightarrow> takes ap q r \<Longrightarrow> takes ap q r' \<Longrightarrow> r = r'"
  by (rule no_clash_takes [OF assms create_app_no_clash])

lemma find_route_iff:
  "ap_matches ap = template_matches \<Longrightarrow> find_route ap q = Some r \<longleftrightarrow> r \<in> set (create_app (ap_static ap)) \<and> takes ap q r"
  unfolding find_route_def using takes_unique by (intro find_unique) blast

lemma find_perm:
  assumes "\<And>x y. x \<in> set xs \<Longrightarrow> y \<in> set xs \<Longrightarrow> P x \<Longrightarrow> P y \<Longrightarrow> x = y" "set ys = set xs"
  shows "find P ys = find P xs"
proof -
  have "find P zs = Some z \<longleftrightarrow> z \<in> set xs \<and> P z" if "set zs = set xs" for zs z
    using find_unique [of zs P z] assms(1) that by auto
  then have "find P ys = Some z \<longleftrightarrow> find P xs = Some z" for z using assms(2) by blast
  then show ?thesis by (metis option.exhaust)
qed

section \<open>The environment of the witnesses\<close>

lemma postgres_redis_reading:
  assumes "en_secrets (ap_env ap) = secrets_table" "en_routing (ap_env ap) = redis_routing"
  shows "reading_api ap"
  by unfold_locales (simp_all add: assms preserves_def pg_store_def pg_list_def pg_get_def redis_routing_def redis_get_endpoints_def
    redis_all_service_names_def split: option.split json.split)

text \<open>A token says who its user is; the decoder knows the calls the witnesses make.\<close>

definition demo_decode :: "string \<Rightarrow> api_request \<Rightarrow> call result" where
  "demo_decode f q = (if f = ''get_secret'' then Inr (Secret (GetSecret ''db'')) else if f = ''delete_user'' then Inr (Iam (DeleteUser ''admin''))
     else Inl (HTTPException 422 ''Field required''))"

definition demo_app :: "(memory_daemon, redis_db, (string, json) pydict) app_env" where
  "demo_app = \<lparr>ap_plane = demo_plane_env, ap_bcrypt = plain_bcrypt, ap_salt = ''s'', ap_nonce = 0,
     ap_presign = \<lparr>ps_secret_key = ''k'', ps_base_url = ''http://h'', ps_hmac = (\<lambda>k m. m)\<rparr>,
     ap_manifests = \<lparr>ml_load_all = (\<lambda>_. Inr []), ml_validate = (\<lambda>_. Inl (ValueError ''manifest'')), ml_dump = (\<lambda>_. [])\<rparr>,
     ap_text = (\<lambda>_. []), ap_trim = 0, ap_static = True, ap_static_path = [''app'', ''static''], ap_no_credentials = 403,
     ap_matches = template_matches, ap_decode = demo_decode, ap_unrouted = (\<lambda>_. 404)\<rparr>"

interpretation deployed_api: reading_api demo_app
  by (rule postgres_redis_reading) (simp_all add: demo_app_def demo_plane_env_def plain_env_def)

definition viewer_token :: string where
  "viewer_token = create_token plain_jwt default_settings 0 \<lparr>us_username = ''eve'', us_role = VIEWER, us_password_hash = []\<rparr>"

definition demo_request :: "string \<Rightarrow> string \<Rightarrow> api_request" where
  "demo_request m p = \<lparr>ar_method = m, ar_path = p, ar_bearer = Some viewer_token, ar_service_token = None, ar_query = [], ar_body = []\<rparr>"

lemma viewer_not_granted: "rl \<noteq> VIEWER \<Longrightarrow> \<not> granted demo_app (demo_request m p) rl (st_plane fresh_site)"
proof -
  have "require_role plain_jwt default_settings now rl viewer_token \<noteq> Inr u" if "rl \<noteq> VIEWER" for u now
    using that by (cases rl) (simp_all add: viewer_token_def require_role_def current_user_of_token [OF plain_jwt_ok] has_minimum_role_def)
  then show "rl \<noteq> VIEWER \<Longrightarrow> ?thesis"
    by (auto simp: granted_def demo_app_def demo_plane_env_def plain_env_def demo_request_def)
qed

section \<open>Properties\<close>

text \<open>C38. The routes are unambiguous. A request reaches a function exactly when the method and the template of
  its route match, so no route hides another; any other order of the routes would find the same one.\<close>

theorem routes_unambiguous:
  assumes "ap_matches ap = template_matches"
  shows "(find_route ap q = Some r \<longleftrightarrow> r \<in> set (create_app (ap_static ap)) \<and> takes ap q r)
    \<and> (set rs = set (create_app (ap_static ap)) \<longrightarrow> find (takes ap q) rs = find_route ap q)"
proof (intro conjI impI find_route_iff [OF assms])
  show "find (takes ap q) rs = find_route ap q" if "set rs = set (create_app (ap_static ap))"
    unfolding find_route_def by (rule find_perm [OF takes_unique [OF assms] that])
qed

theorem routes_unambiguous_witness:
  "find_route demo_app (demo_request ''POST'' ''/api/v1/storage/buckets/b/objects/a/b/presign'') =
    Some (''POST'', ''/api/v1/storage/buckets/{bucket_name}/objects/{object_key:path}/presign'', ''presign_object'')
  \<and> find (takes demo_app (demo_request ''GET'' ''/healthz'')) (rev (create_app True)) = find_route demo_app (demo_request ''GET'' ''/healthz'')"
proof -
  have m: "ap_matches demo_app = template_matches" "ap_static demo_app = True" by (simp_all add: demo_app_def)
  let ?q = "demo_request ''POST'' ''/api/v1/storage/buckets/b/objects/a/b/presign''"
    and ?r = "(''POST'', ''/api/v1/storage/buckets/{bucket_name}/objects/{object_key:path}/presign'', ''presign_object'')"
  have "template_matches ''/api/v1/storage/buckets/{bucket_name}/objects/{object_key:path}/presign''
      ''/api/v1/storage/buckets/b/objects/a/b/presign''" by code_simp
  then have "takes demo_app ?q ?r" by (simp add: m(1) takes_def demo_request_def)
  moreover have "?r \<in> set (create_app True)" by (simp add: create_app_def storage_router_def router_def)
  ultimately show ?thesis
    using routes_unambiguous [OF m(1), of ?q ?r] routes_unambiguous [OF m(1), of "demo_request ''GET'' ''/healthz''" _ "rev (create_app True)"]
    unfolding m(2) set_rev by blast
qed

text \<open>C7. Every function of the API asks for the role it declares. Without a valid bearer token, or with one of a
  lower role, a request is refused and nothing has changed, whatever its parameters and body.\<close>

theorem access_matrix:
  assumes "\<And>c. ap_decode ap f q = Inr c \<Longrightarrow> function_of c = f" "find_route ap q = Some (m, t, f)"
    and "needed_role f = Some rl" "\<not> granted ap q rl (st_plane s)"
  shows "\<exists>status. handle_request ap q s = (Refused status, s)"
proof (cases "ap_decode ap f q")
  case (Inl e)
  then show ?thesis by (cases e) (simp_all add: handle_request_def assms(2) bind_p_def)
next
  case (Inr c)
  then obtain e where "run_call ap q c s = (Inl e, s)"
    using call_refused [of c rl ap q s] assms by (auto simp: refuses_def)
  then show ?thesis using Inr by (cases e) (simp_all add: handle_request_def assms(2) bind_p_def)
qed

theorem access_matrix_witness: "\<exists>status. handle_request demo_app (demo_request ''GET'' ''/api/v1/secrets/db'') fresh_site = (Refused status, fresh_site)"
proof (rule access_matrix)
  let ?r = "(''GET'', ''/api/v1/secrets/{name}'', ''get_secret'')"
  have "template_matches ''/api/v1/secrets/{name}'' ''/api/v1/secrets/db''" by code_simp
  then show "find_route demo_app (demo_request ''GET'' ''/api/v1/secrets/db'') = Some ?r"
    by (subst find_route_iff) (simp_all add: demo_app_def takes_def demo_request_def create_app_def secrets_router_def router_def)
  show "function_of c = ''get_secret''" if "ap_decode demo_app ''get_secret'' (demo_request ''GET'' ''/api/v1/secrets/db'') = Inr c" for c
    using that by (auto simp: demo_app_def demo_decode_def)
  show "needed_role ''get_secret'' = Some DEVELOPER" by (simp add: needed_role_def)
  show "\<not> granted demo_app (demo_request ''GET'' ''/api/v1/secrets/db'') DEVELOPER (st_plane fresh_site)"
    by (rule viewer_not_granted) simp
qed

text \<open>C30. Who is no developer changes nothing through the API: without a service token a request leaves the
  whole state as it was, and with one all but the files of the storage. Only an administrator changes users.\<close>

theorem only_developers_change:
  assumes "reading_api ap"
  shows "(\<not> granted ap q DEVELOPER (st_plane s) \<longrightarrow>
      (\<exists>files. snd (handle_request ap q s) = s\<lparr>st_plane := (st_plane s)\<lparr>pn_files := files\<rparr>\<rparr>)
      \<and> (ar_service_token q = None \<longrightarrow> snd (handle_request ap q s) = s))
    \<and> (\<not> granted ap q ADMIN (st_plane s) \<longrightarrow> st_users (snd (handle_request ap q s)) = st_users s)"
proof (intro conjI impI)
  let ?s = "snd (handle_request ap q s)"
  consider "?s = s" | c where "?s = snd (run_call ap q c s)" using handle_state [of ap q s] by blast
  note c = this
  assume d: "\<not> granted ap q DEVELOPER (st_plane s)"
  show "\<exists>files. ?s = s\<lparr>st_plane := (st_plane s)\<lparr>pn_files := files\<rparr>\<rparr>"
  proof -
    have "\<exists>files. s = s\<lparr>st_plane := (st_plane s)\<lparr>pn_files := files\<rparr>\<rparr>" by (rule exI [of _ "pn_files (st_plane s)"]) simp
    then show ?thesis using c call_still [OF assms d] workload_call(1) [OF assms] by metis
  qed
  show "?s = s" if "ar_service_token q = None"
    using c call_still [OF assms d] workload_call(2) [OF assms that] by metis
next
  assume "\<not> granted ap q ADMIN (st_plane s)"
  then show "st_users (snd (handle_request ap q s)) = st_users s"
    using handle_state [of ap q s] call_users by metis
qed

theorem only_developers_change_witness:
  "snd (handle_request demo_app (demo_request ''DELETE'' ''/api/v1/users/admin'') fresh_site) = fresh_site"
  using only_developers_change [OF deployed_api.reading_api_axioms, of "demo_request ''DELETE'' ''/api/v1/users/admin''" fresh_site]
    viewer_not_granted [of DEVELOPER] by (simp add: demo_request_def)

end
