(* ===== verification/Examples.thy ===== *)
theory Examples
  imports Cli Orchestrator
begin

text \<open>
  The services under \<open>examples/\<close> that run on the platform: small FastAPI programs that read what the platform
  puts into their environment. Requests are sent with \<open>httpx\<close>, databases are reached through \<open>asyncpg\<close>;
  both are methods on the world behind the network. A text is its UTF-8 bytes, so encoding leaves it as it
  is and its length counts the bytes that start a character. A handler gives the status and the JSON of its
  answer or raises.
\<close>

section \<open>What the services use\<close>

record example_response = http_response +
  rs_headers :: "(string, string) pydict"

text \<open>The log of a process, its readings of \<open>perf_counter\<close> and its random draws.\<close>

record 'n example_state =
  xs_net :: 'n
  xs_readings :: nat
  xs_draws :: nat
  xs_log :: "(string \<times> (string, json) pydict) list"

record 'n example_env =
  xe_environ :: "(string, string) pydict"
  xe_http :: "http_request \<Rightarrow> ('n, example_response) prog"
  xe_perf :: "nat \<Rightarrow> pyfloat"
  xe_random :: "nat \<Rightarrow> pyfloat"
  xe_randint :: "nat \<Rightarrow> int \<Rightarrow> int \<Rightarrow> int"
  xe_float :: "string \<Rightarrow> pyfloat result"
  xe_sha256 :: "string \<Rightarrow> string"
  xe_now :: string

record example_request =
  xq_method :: string
  xq_path :: string
  xq_query :: "(string, string) pydict"
  xq_headers :: "(string, string) pydict"
  xq_client :: "string option"
  xq_body :: string

type_synonym example_answer = "int \<times> json"

definition on_example_net :: "('n, 'a) prog \<Rightarrow> ('n example_state, 'a) prog" where
  "on_example_net m s = (case m (xs_net s) of (r, n) \<Rightarrow> (r, s\<lparr>xs_net := n\<rparr>))"

definition reading :: "'n example_env \<Rightarrow> ('n example_state, pyfloat) prog" where
  "reading xe s = (Inr (xe_perf xe (xs_readings s)), s\<lparr>xs_readings := Suc (xs_readings s)\<rparr>)"

definition random_draw :: "(nat \<Rightarrow> 'a) \<Rightarrow> ('n example_state, 'a) prog" where
  "random_draw f s = (Inr (f (xs_draws s)), s\<lparr>xs_draws := Suc (xs_draws s)\<rparr>)"

definition environ_get :: "'n example_env \<Rightarrow> string \<Rightarrow> string \<Rightarrow> string" where
  "environ_get xe key d = dict_get_or (xe_environ xe) key d"

definition send :: "'n example_env \<Rightarrow> string \<Rightarrow> string \<Rightarrow> (string, string) pydict \<Rightarrow> string option \<Rightarrow> ('n example_state, example_response) prog" where
  "send xe method url headers content = on_example_net (xe_http xe
     \<lparr>hq_method = method, hq_url = url, hq_headers = headers, hq_json = None, hq_content = content\<rparr>)"

definition text_length :: "string \<Rightarrow> int" where
  "text_length s = int (length (filter (\<lambda>c. \<not> is_cont c) s))"

definition ok_json :: "(string, json) pydict \<Rightarrow> ('s, example_answer) prog" where
  "ok_json d = ret (200, JDict d)"

definition health :: "('s, example_answer) prog" where
  "health = ok_json [(''status'', JStr ''ok'')]"

text \<open>FastAPI answers an \<open>HTTPException\<close> with its status and detail, before the middleware sees the answer.\<close>

definition answered :: "('s, example_answer) prog \<Rightarrow> ('s, example_answer) prog" where
  "answered m = try_p m (\<lambda>e. case e of HTTPException code detail \<Rightarrow> ret (code, JDict [(''detail'', JStr detail)]) | _ \<Rightarrow> raise e)"

definition log_event :: "string \<Rightarrow> (string, json) pydict \<Rightarrow> ('n example_state, unit) prog" where
  "log_event event entries = mod_s (\<lambda>s. s\<lparr>xs_log := xs_log s @ [(event, entries)]\<rparr>)"

definition log_requests :: "'n example_env \<Rightarrow> (example_request \<Rightarrow> ('n example_state, example_answer) prog) \<Rightarrow> example_request
    \<Rightarrow> ('n example_state, example_answer) prog" where
  "log_requests xe call_next q =
     bind_p (reading xe) (\<lambda>started.
     bind_p (answered (call_next q)) (\<lambda>(code, body).
     bind_p (if xq_path q \<noteq> ''/health'' \<or> 400 \<le> code
       then bind_p (reading xe) (\<lambda>now. log_event ''request''
         [(''method'', JStr (xq_method q)), (''path'', JStr (xq_path q)), (''status'', JInt code),
          (''elapsed_ms'', JFloat (round2 (fmul (fsub now started) 1000)))])
       else ret ()) (\<lambda>_.
     ret (code, body))))"

section \<open>echo-service\<close>

definition echo :: "string \<Rightarrow> example_request \<Rightarrow> ('s, example_answer) prog" where
  "echo path q = ok_json
     [(''service'', JStr ''echo-service''), (''method'', JStr (xq_method q)), (''path'', JStr (''/'' @ path)),
      (''query'', JDict (map (\<lambda>(k, v). (k, JStr v)) (xq_query q))),
      (''headers'', JDict (dict_of_list (map (\<lambda>(k, v). (k, JStr v))
         (filter (\<lambda>(k, v). lower k \<in> {''host'', ''content-type'', ''user-agent''}) (xq_headers q))))),
      (''body'', JStr (decode_replace (xq_body q)))]"

section \<open>flaky-service\<close>

text \<open>The two rates are read when the process starts.\<close>

definition failure_rate :: "'n example_env \<Rightarrow> string \<Rightarrow> string \<Rightarrow> ('s, pyfloat) prog" where
  "failure_rate xe name d = (case xe_float xe (environ_get xe name d) of Inl e \<Rightarrow> raise e | Inr rate \<Rightarrow> ret rate)"

definition flaky_rates :: "'n example_env \<Rightarrow> ('s, pyfloat \<times> pyfloat) prog" where
  "flaky_rates xe = bind_p (failure_rate xe ''REQUEST_FAILURE_RATE'' ''0.25'') (\<lambda>request_rate.
     bind_p (failure_rate xe ''HEALTH_FAILURE_RATE'' ''0.10'') (\<lambda>health_rate. ret (request_rate, health_rate)))"

definition flaky_health :: "'n example_env \<Rightarrow> pyfloat \<Rightarrow> ('n example_state, example_answer) prog" where
  "flaky_health xe health_failure_rate = bind_p (random_draw (xe_random xe)) (\<lambda>x.
     if x < health_failure_rate then ret (503, JDict [(''status'', JStr ''unhealthy'')]) else health)"

definition flaky_root :: "'n example_env \<Rightarrow> pyfloat \<Rightarrow> ('n example_state, example_answer) prog" where
  "flaky_root xe request_failure_rate = bind_p (random_draw (xe_random xe)) (\<lambda>x.
     if x < request_failure_rate
     then ret (500, JDict [(''service'', JStr ''flaky-service''), (''ok'', JBool False), (''error'', JStr ''simulated failure'')])
     else ok_json [(''service'', JStr ''flaky-service''), (''ok'', JBool True)])"

section \<open>slow-service\<close>

definition bounded_min :: "int \<Rightarrow> int" where
  "bounded_min min_ms = max 0 (min min_ms 5000)"

definition bounded_max :: "int \<Rightarrow> int \<Rightarrow> int" where
  "bounded_max min_ms max_ms = max (bounded_min min_ms) (min max_ms 5000)"

text \<open>\<open>random.randint(a, b)\<close> raises for \<open>b < a\<close>. Sleeping changes nothing here.\<close>

definition slow_root :: "'n example_env \<Rightarrow> int \<Rightarrow> int \<Rightarrow> ('n example_state, example_answer) prog" where
  "slow_root xe min_ms max_ms = (let a = bounded_min min_ms; b = bounded_max min_ms max_ms in
     if b < a then raise (ValueError ''empty range for randrange()'')
     else bind_p (random_draw (\<lambda>i. xe_randint xe i a b)) (\<lambda>delay_ms.
       ok_json [(''service'', JStr ''slow-service''), (''delay_ms'', JInt delay_ms)]))"

section \<open>cpu-service\<close>

definition bounded_work_ms :: "int \<Rightarrow> int" where
  "bounded_work_ms work_ms = max 1 (min work_ms 5000)"

text \<open>The loop over \<open>digest\<close> and \<open>iterations\<close>, from the \<open>i\<close>-th reading on; \<open>None\<close>: it does not end. The number of
  readings it took comes with the result.\<close>

partial_function (option) hash_until :: "(nat \<Rightarrow> pyfloat) \<Rightarrow> (string \<Rightarrow> string) \<Rightarrow> pyfloat \<Rightarrow> nat \<Rightarrow> string \<Rightarrow> int
    \<Rightarrow> (string \<times> int \<times> nat) option" where
  "hash_until perf sha end_time i digest iterations =
     (if perf i < end_time then hash_until perf sha end_time (Suc i) (sha digest) (iterations + 1)
      else Some (digest, iterations, Suc i))"

definition lower_hex :: "nat \<Rightarrow> char" where
  "lower_hex n = (if n < 10 then char_of (48 + n) else char_of (87 + n))"

definition hex_text :: "string \<Rightarrow> string" where
  "hex_text s = concat (map (\<lambda>c. [lower_hex (byte_of c div 16), lower_hex (byte_of c mod 16)]) s)"

definition cpu_root :: "'n example_env \<Rightarrow> int \<Rightarrow> 'n example_state \<Rightarrow> (example_answer result \<times> 'n example_state) option" where
  "cpu_root xe work_ms s = (let bounded = bounded_work_ms work_ms; i = xs_readings s;
       end_time = fadd (xe_perf xe i) (int_div bounded 1000) in
     map_option (\<lambda>(digest, iterations, j).
       (Inr (200, JDict [(''service'', JStr ''cpu-service''), (''work_ms'', JInt bounded), (''iterations'', JInt iterations),
          (''digest'', JStr (take 16 (hex_text digest)))]), s\<lparr>xs_readings := j\<rparr>))
       (hash_until (xe_perf xe) (xe_sha256 xe) end_time (Suc i) ''aws-light'' 0))"

section \<open>secret-service\<close>

definition secret_startup :: "'n example_env \<Rightarrow> ('n example_state, unit) prog" where
  "secret_startup xe = (case py_int (environ_get xe ''PORT'' ''8000'') of
     None \<Rightarrow> raise (ValueError ''int'') | Some port \<Rightarrow> log_event ''startup'' [(''port'', JInt port)])"

definition secret_root :: "'n example_env \<Rightarrow> ('s, example_answer) prog" where
  "secret_root xe = ok_json [(''service'', JStr ''secret-service''),
     (''my_secret'', JStr (environ_get xe ''MY_SECRET'' ''<not set>'')),
     (''another_secret'', JStr (environ_get xe ''ANOTHER_SECRET'' ''<not set>''))]"

text \<open>Its handler of 404 answers for every path but the two.\<close>

definition secret_routes :: "'n example_env \<Rightarrow> example_request \<Rightarrow> ('n example_state, example_answer) prog" where
  "secret_routes xe q = (if xq_path q = ''/health'' then health else if xq_path q = ''/'' then secret_root xe
     else ret (404, JDict [(''error'', JStr ''not found'')]))"

definition secret_log_requests :: "'n example_env \<Rightarrow> example_request \<Rightarrow> ('n example_state, example_answer) prog" where
  "secret_log_requests xe q =
     bind_p (reading xe) (\<lambda>started.
     case xq_client q of
       None \<Rightarrow> raise AssertionError
     | Some host \<Rightarrow>
         bind_p (answered (secret_routes xe q)) (\<lambda>(code, body).
         bind_p (reading xe) (\<lambda>now.
         bind_p (if xq_path q \<noteq> ''/health'' \<or> 400 \<le> code
           then log_event ''request'' [(''method'', JStr (xq_method q)), (''path'', JStr (xq_path q)), (''client'', JStr host),
             (''status'', JInt code), (''elapsed_ms'', JFloat (round2 (fmul (fsub now started) 1000)))]
           else ret ()) (\<lambda>_.
         ret (code, body)))))"

section \<open>storage-service\<close>

definition raise_platform_error :: "example_response \<Rightarrow> ('s, unit) prog" where
  "raise_platform_error r = (if hp_status_code r < 400 then ret () else raise (HTTPException (hp_status_code r) (hp_text r)))"

definition storage_headers :: "'n example_env \<Rightarrow> string option \<Rightarrow> (string, string) pydict" where
  "storage_headers xe content_type = [(''X-AWS-Light-Service-Token'', environ_get xe ''AWS_LIGHT_SERVICE_TOKEN'' [])]
     @ (case content_type of None \<Rightarrow> [] | Some ct \<Rightarrow> [(''content-type'', ct)])"

definition storage_base_url :: "'n example_env \<Rightarrow> string" where
  "storage_base_url xe = rstrip_slash (environ_get xe ''AWS_LIGHT_STORAGE_URL'' ''http://proxy:8080/_aws-light/storage'')"

definition service_bucket :: "'n example_env \<Rightarrow> string" where
  "service_bucket xe = environ_get xe ''AWS_LIGHT_BUCKET_NAME'' ''demo-objects''"

definition objects_url :: "'n example_env \<Rightarrow> string" where
  "objects_url xe = storage_base_url xe @ ''/buckets/'' @ service_bucket xe @ ''/objects''"

definition object_url :: "'n example_env \<Rightarrow> string \<Rightarrow> string result" where
  "object_url xe key = (if CHR ''/'' \<in> set key \<or> CHR 0x5C \<in> set key \<or> key \<in> {[], ''.'', ''..''}
     then Inl (HTTPException 400 ''invalid key'') else Inr (objects_url xe @ ''/'' @ key))"

definition response_json :: "example_response \<Rightarrow> ('s, json) prog" where
  "response_json r = lift (hp_json r)"

definition storage_root :: "'n example_env \<Rightarrow> ('n example_state, example_answer) prog" where
  "storage_root xe =
     bind_p (send xe ''GET'' (objects_url xe) (storage_headers xe None) None) (\<lambda>response.
     bind_p (raise_platform_error response) (\<lambda>_.
     bind_p (response_json response) (\<lambda>j.
     bind_p (lift (bind_r (json_iter j) (collect_r (json_item ''key'')))) (\<lambda>keys.
     ok_json [(''service'', JStr ''storage-service''), (''bucket'', JStr (service_bucket xe)), (''objects'', JList keys)]))))"

definition storage_put :: "'n example_env \<Rightarrow> string \<Rightarrow> string \<Rightarrow> ('n example_state, example_answer) prog" where
  "storage_put xe key v =
     bind_p (lift (object_url xe key)) (\<lambda>url.
     bind_p (send xe ''PUT'' url (storage_headers xe (Some ''text/plain'')) (Some v)) (\<lambda>response.
     bind_p (raise_platform_error response) (\<lambda>_.
     bind_p (response_json response) (\<lambda>j. ret (200, j)))))"

definition storage_get :: "'n example_env \<Rightarrow> string \<Rightarrow> ('n example_state, example_answer) prog" where
  "storage_get xe key =
     bind_p (lift (object_url xe key)) (\<lambda>url.
     bind_p (send xe ''GET'' url (storage_headers xe None) None) (\<lambda>response.
     if hp_status_code response = 404 then raise (HTTPException 404 ''object not found'')
     else bind_p (raise_platform_error response) (\<lambda>_.
       let v = decode_replace (hp_content response) in
       ok_json [(''key'', JStr key), (''value'', JStr v), (''size'', JInt (text_length v))])))"

definition storage_delete :: "'n example_env \<Rightarrow> string \<Rightarrow> ('n example_state, example_answer) prog" where
  "storage_delete xe key =
     bind_p (lift (object_url xe key)) (\<lambda>url.
     bind_p (send xe ''DELETE'' url (storage_headers xe None) None) (\<lambda>response.
     bind_p (if hp_status_code response \<notin> {204, 404} then raise_platform_error response else ret ()) (\<lambda>_.
     ok_json [(''key'', JStr key), (''deleted'', JBool True)])))"

section \<open>database-service\<close>

record database_settings =
  db_host :: string
  db_port :: int
  db_database :: string
  db_user :: string
  db_password :: string
  db_url :: string

definition database_settings :: "'n example_env \<Rightarrow> string \<Rightarrow> database_settings result" where
  "database_settings xe database_name = (let stem = ''AWS_LIGHT_DATABASE_'' @ env_resource_name database_name in
     case py_int (environ_get xe (stem @ ''_PORT'') ''5432'') of
       None \<Rightarrow> Inl (ValueError ''int'')
     | Some port \<Rightarrow> Inr \<lparr>db_host = environ_get xe (stem @ ''_HOST'') [], db_port = port,
         db_database = environ_get xe (stem @ ''_NAME'') [], db_user = environ_get xe (stem @ ''_USER'') [],
         db_password = environ_get xe (stem @ ''_PASSWORD'') [], db_url = environ_get xe (stem @ ''_URL'') []\<rparr>)"

definition database_root :: "'n example_env \<Rightarrow> ('s, example_answer) prog" where
  "database_root xe = bind_p (lift (database_settings xe ''app-db'')) (\<lambda>d.
     ok_json [(''service'', JStr ''database-service''), (''database'', JStr (db_database d)), (''host'', JStr (db_host d)),
       (''ready'', JBool (db_url d \<noteq> []))])"

text \<open>The two handlers of notes enter \<open>async with _connect()\<close>. A coroutine is no context manager, so this raises
  before the coroutine runs, and what follows is never reached.\<close>

definition create_note :: "'n example_env \<Rightarrow> string \<Rightarrow> ('s, example_answer) prog" where
  "create_note xe message = raise (TypeError ''asynchronous context manager'')"

definition list_notes :: "'n example_env \<Rightarrow> ('s, example_answer) prog" where
  "list_notes xe = raise (TypeError ''asynchronous context manager'')"

section \<open>combined-service\<close>

text \<open>A connection of \<open>asyncpg\<close>: the statements of \<open>exercise_database\<close>, and a row as the code reads it.\<close>

record 'n combined_env = "'n example_env" +
  xe_connect :: "string \<Rightarrow> ('n, nat) prog"
  xe_create_events :: "nat \<Rightarrow> ('n, unit) prog"
  xe_insert_event :: "nat \<Rightarrow> string \<Rightarrow> ('n, json \<times> string) prog"
  xe_count_events :: "nat \<Rightarrow> ('n, json) prog"
  xe_close :: "nat \<Rightarrow> ('n, unit) prog"

definition authorized :: "'n example_env \<Rightarrow> string \<Rightarrow> bool" where
  "authorized xe token = (let expected = environ_get xe ''COMBINED_API_TOKEN'' [] in expected \<noteq> [] \<and> token = expected)"

definition resolve_demo_token :: "string \<Rightarrow> string \<Rightarrow> string" where
  "resolve_demo_token header_token query_token = (if header_token \<noteq> [] then header_token else query_token)"

definition combined_bucket :: "'n example_env \<Rightarrow> string" where
  "combined_bucket xe = environ_get xe ''COMBINED_BUCKET_NAME'' ''combined-objects''"

definition combined_database :: "'n example_env \<Rightarrow> string" where
  "combined_database xe = environ_get xe ''COMBINED_DATABASE_BINDING'' ''combined-db''"

definition combined_object_url :: "'n example_env \<Rightarrow> string \<Rightarrow> string" where
  "combined_object_url xe key = storage_base_url xe @ ''/buckets/'' @ combined_bucket xe @ ''/objects/'' @ key"

definition lstrip_slash :: "string \<Rightarrow> string" where
  "lstrip_slash s = dropWhile (\<lambda>c. c = CHR ''/'') s"

definition service_url :: "'n example_env \<Rightarrow> string \<Rightarrow> string" where
  "service_url xe path = rstrip_slash (environ_get xe ''AWS_LIGHT_PROXY_URL'' ''http://proxy:8080'') @ ''/'' @ lstrip_slash path"

definition service_headers :: "'n example_env \<Rightarrow> string \<Rightarrow> (string, string) pydict" where
  "service_headers xe service_name = [(''Host'', service_name @ ''.localhost''),
     (''X-AWS-Light-Service-Token'', environ_get xe ''AWS_LIGHT_SERVICE_TOKEN'' [])]"

definition service_result :: "example_response \<Rightarrow> ('s, json) prog" where
  "service_result response = bind_p (if contains_sub ''application/json'' (dict_get_or (rs_headers response) ''content-type'' [])
       then response_json response else ret (JStr (hp_text response))) (\<lambda>body.
     ret (JDict [(''status'', JInt (hp_status_code response)), (''body'', body)]))"

definition exercise_storage :: "'n example_env \<Rightarrow> ('n example_state, json) prog" where
  "exercise_storage xe = (let key = ''combined-demo.txt''; v = ''combined-service wrote this at '' @ xe_now xe in
     bind_p (send xe ''PUT'' (combined_object_url xe key) (storage_headers xe (Some ''text/plain'')) (Some v)) (\<lambda>put_response.
     bind_p (send xe ''GET'' (combined_object_url xe key) (storage_headers xe None) None) (\<lambda>get_response.
     bind_p (raise_platform_error put_response) (\<lambda>_.
     bind_p (raise_platform_error get_response) (\<lambda>_.
     ret (JDict [(''bucket'', JStr (combined_bucket xe)), (''key'', JStr key), (''bytes'', JInt (int (length (hp_content get_response))))]))))))"

definition combined_connect :: "('n, 'z) combined_env_scheme \<Rightarrow> ('n example_state, nat) prog" where
  "combined_connect xe = bind_p (lift (database_settings (example_env.truncate xe) (combined_database (example_env.truncate xe)))) (\<lambda>d.
     if db_url d = [] then raise (HTTPException 500 ''database binding is not configured'')
     else on_example_net (xe_connect xe (db_url d)))"

text \<open>\<open>try: ... finally: await connection.close()\<close>.\<close>

definition finally_p :: "('s, 'a) prog \<Rightarrow> ('s, unit) prog \<Rightarrow> ('s, 'a) prog" where
  "finally_p m close = bind_p (try_p m (\<lambda>e. bind_p close (\<lambda>_. raise e))) (\<lambda>a. bind_p close (\<lambda>_. ret a))"

definition exercise_database :: "('n, 'z) combined_env_scheme \<Rightarrow> ('n example_state, json) prog" where
  "exercise_database xe =
     bind_p (combined_connect xe) (\<lambda>connection.
     finally_p
       (bind_p (on_example_net (xe_create_events xe connection)) (\<lambda>_.
        bind_p (on_example_net (xe_insert_event xe connection ''combined-service aggregate request'')) (\<lambda>(row_id, created_at).
        bind_p (on_example_net (xe_count_events xe connection)) (\<lambda>n.
        bind_p (lift (database_settings (example_env.truncate xe) (combined_database (example_env.truncate xe)))) (\<lambda>d.
        ret (JDict [(''database'', JStr (db_database d)), (''inserted_id'', row_id), (''event_count'', n), (''created_at'', JStr created_at)]))))))
       (on_example_net (xe_close xe connection)))"

definition call_cpu_service :: "'n example_env \<Rightarrow> ('n example_state, json) prog" where
  "call_cpu_service xe = bind_p (map_p (\<lambda>work_ms.
     bind_p (send xe ''GET'' (service_url xe (''/?work_ms='' @ str_int work_ms)) (service_headers xe ''cpu-service'') None) service_result)
     [25, 50, 75]) (\<lambda>results. ret (JList results))"

definition call_flaky_service :: "'n example_env \<Rightarrow> ('n example_state, json) prog" where
  "call_flaky_service xe =
     bind_p (send xe ''GET'' (service_url xe ''/'') (service_headers xe ''flaky-service'') None) service_result"

definition aggregate :: "('n, 'z) combined_env_scheme \<Rightarrow> string \<Rightarrow> string \<Rightarrow> ('n example_state, example_answer) prog" where
  "aggregate xe header_token query_token = (let ex = example_env.truncate xe in
     if \<not> authorized ex (resolve_demo_token header_token query_token) then raise (HTTPException 401 ''invalid demo token'')
     else
       bind_p (exercise_storage ex) (\<lambda>storage.
       bind_p (exercise_database xe) (\<lambda>database.
       bind_p (call_cpu_service ex) (\<lambda>cpu.
       bind_p (call_flaky_service ex) (\<lambda>flaky.
       ok_json [(''service'', JStr ''combined-service''), (''storage'', storage), (''database'', database), (''cpu'', cpu), (''flaky'', flaky)])))))"

section \<open>internal-frontend and internal-backend\<close>

definition backend_message :: "'n example_env \<Rightarrow> ('s, example_answer) prog" where
  "backend_message xe = ok_json [(''service'', JStr ''internal-backend''), (''message'', JStr ''hello from the internal backend''),
     (''ts'', JStr (xe_now xe))]"

definition frontend_root :: "'n example_env \<Rightarrow> ('n example_state, example_answer) prog" where
  "frontend_root xe =
     bind_p (send xe ''GET'' (service_url xe ''/message'') (service_headers xe ''internal-backend'') None) (\<lambda>response.
     bind_p (if dict_get (rs_headers response) ''content-type'' = Some ''application/json'' then response_json response
       else ret (JStr (hp_text response))) (\<lambda>backend.
     ret (hp_status_code response, JDict [(''service'', JStr ''internal-frontend''), (''backend_status'', JInt (hp_status_code response)),
       (''backend'', backend)])))"

end
