(* ===== verification/ExampleFacts.thy ===== *)
theory ExampleFacts
  imports Examples Converge
begin

text \<open>
  The example services on the platform: what the orchestrator puts into the environment of a replica is what
  the services read from it; and when the work of the CPU service ends.
\<close>

section \<open>The environment of a replica\<close>

text \<open>The variables of a bound database.\<close>

definition binding_stem :: "string \<Rightarrow> string" where
  "binding_stem d = ''AWS_LIGHT_DATABASE_'' @ env_resource_name d"

definition binding_env :: "string \<Rightarrow> string \<Rightarrow> (string, string) pydict" where
  "binding_env d pw = (let n = database_identifier d; u = n @ ''_user''; h = ''aws-light-db-'' @ d in
     [(binding_stem d @ ''_URL'', ''postgresql://'' @ u @ '':'' @ pw @ ''@'' @ h @ '':'' @ ''5432'' @ ''/'' @ n),
      (binding_stem d @ ''_HOST'', h), (binding_stem d @ ''_PORT'', ''5432''), (binding_stem d @ ''_NAME'', n),
      (binding_stem d @ ''_USER'', u), (binding_stem d @ ''_PASSWORD'', pw)])"

definition binding_holds :: "(string, string) pydict \<Rightarrow> string \<Rightarrow> string \<Rightarrow> bool" where
  "binding_holds env d pw \<longleftrightarrow> (\<forall>(k, v) \<in> set (binding_env d pw). dict_get env k = Some v)"

definition suffixes :: "string set" where
  "suffixes = {''_URL'', ''_HOST'', ''_PORT'', ''_NAME'', ''_USER'', ''_PASSWORD''}"

lemma suffix_unique:
  assumes "a @ s = b @ t" "s \<in> suffixes" "t \<in> suffixes"
  shows "a = b \<and> s = t"
proof -
  have n: "s \<noteq> []" "t \<noteq> []" using assms(2,3) by (auto simp: suffixes_def)
  have "last s = last t" using arg_cong [OF assms(1), of last] n by simp
  then have "length s = length t" using assms(2,3) by (auto simp: suffixes_def)
  then show ?thesis using assms(1) by simp
qed

lemma binding_keys: "dict_keys (binding_env d pw) = map (\<lambda>s. binding_stem d @ s) [''_URL'', ''_HOST'', ''_PORT'', ''_NAME'', ''_USER'', ''_PASSWORD'']"
  by (simp add: binding_env_def Let_def)

lemma binding_key_cases: "k \<in> set (dict_keys (binding_env d pw)) \<Longrightarrow> \<exists>s \<in> suffixes. k = binding_stem d @ s"
  by (auto simp: binding_keys suffixes_def)

lemma binding_key_prefix: "k \<in> set (dict_keys (binding_env d pw)) \<Longrightarrow> starts_with ''AWS_LIGHT_DATABASE_'' k"
proof -
  assume "k \<in> set (dict_keys (binding_env d pw))"
  then obtain s where "k = ''AWS_LIGHT_DATABASE_'' @ env_resource_name d @ s" using binding_key_cases [of k d pw] by (auto simp: binding_stem_def)
  then show ?thesis by (simp only: starts_with_append)
qed

lemma binding_distinct: "distinct (dict_keys (binding_env d pw))"
  by (simp add: binding_keys)

lemma merge_get_in:
  "distinct (dict_keys e) \<Longrightarrow> (k, v) \<in> set e \<Longrightarrow> dict_get (dict_merge env e) k = Some v"
  by (simp add: dict_merge_get map_of_rev)

lemma merge_get_out: "k \<notin> set (dict_keys e) \<Longrightarrow> dict_get (dict_merge env e) k = dict_get env k"
proof -
  assume "k \<notin> set (dict_keys e)"
  then have "dict_get (rev e) k = None" by (simp add: map_of_eq_None_iff)
  then show ?thesis by (simp add: dict_merge_get)
qed

lemma merge_get_wf:
  "wf_dict e \<Longrightarrow> dict_get (dict_merge env e) k = (case dict_get e k of None \<Rightarrow> dict_get env k | Some v \<Rightarrow> Some v)"
  by (simp add: dict_merge_get map_of_rev wf_dict_def)

lemma merge_holds: "binding_holds (dict_merge env (binding_env d pw)) d pw"
  using merge_get_in [OF binding_distinct] by (auto simp: binding_holds_def)

lemma stems_apart:
  assumes "env_resource_name d \<noteq> env_resource_name d'" "k \<in> set (dict_keys (binding_env d pw))"
  shows "k \<notin> set (dict_keys (binding_env d' pw'))"
proof
  assume "k \<in> set (dict_keys (binding_env d' pw'))"
  then have "binding_stem d = binding_stem d'"
    using binding_key_cases [OF assms(2)] binding_key_cases [of k d' pw'] suffix_unique by blast
  then show False using assms(1) by (simp add: binding_stem_def)
qed

lemma merge_keeps:
  assumes "env_resource_name d \<noteq> env_resource_name d'" "binding_holds env d pw"
  shows "binding_holds (dict_merge env (binding_env d' pw')) d pw"
proof -
  have "dict_get (dict_merge env (binding_env d' pw')) k = dict_get env k" if "(k, v) \<in> set (binding_env d pw)" for k v
    using imageI [OF that, of fst] by (intro merge_get_out stems_apart [OF assms(1), of k pw pw']) simp
  then show ?thesis using assms(2) by (auto simp: binding_holds_def)
qed

definition bound_settings :: "string \<Rightarrow> string \<Rightarrow> database_settings" where
  "bound_settings d pw = \<lparr>db_host = ''aws-light-db-'' @ d, db_port = 5432, db_database = database_identifier d,
     db_user = database_identifier d @ ''_user'', db_password = pw,
     db_url = ''postgresql://'' @ database_identifier d @ ''_user:'' @ pw @ ''@aws-light-db-'' @ d @ '':5432/'' @ database_identifier d\<rparr>"

lemma settings_read:
  assumes "binding_holds (xe_environ xe) d pw"
  shows "database_settings xe d = Inr (bound_settings d pw)"
proof -
  have p: "py_int ''5432'' = Some 5432" by code_simp
  show ?thesis
    using assms by (simp add: binding_holds_def binding_env_def Let_def database_settings_def bound_settings_def environ_get_def dict_get_or_def
      binding_stem_def p)
qed

section \<open>Starting a replica\<close>

definition password_name :: "string \<Rightarrow> string" where
  "password_name d = database_password_prefix @ d @ ''-password''"

text \<open>The databases a service is connected to.\<close>

definition connected :: "(string, database_state) pydict \<Rightarrow> database_binding list \<Rightarrow> string set" where
  "connected dbs bs = set (map dbb_name (filter (\<lambda>b. AccessConnect \<in> set (dbb_access b) \<and> dict_has dbs (dbb_name b)) bs))"

context orchestrating
begin

definition pass_of :: "('d, 'r, 'k) world \<Rightarrow> string \<Rightarrow> string option" where
  "pass_of w d = plain_of (en_fernet en) (en_key en) (sview (w_secrets w) (password_name d))"

lemma binding_run:
  assumes "ok w" "\<And>i. en_urlsafe en i 24 \<noteq> []"
  shows "\<exists>pw w'. database_binding_env en db w = (Inr (binding_env (dsp_name (ds_spec db)) pw), w') \<and> ok w' \<and> pw \<noteq> []
    \<and> pass_of w' (dsp_name (ds_spec db)) = Some pw \<and> w_databases w' = w_databases w
    \<and> (\<forall>n. n \<noteq> password_name (dsp_name (ds_spec db)) \<longrightarrow> sview (w_secrets w') n = sview (w_secrets w) n)
    \<and> (\<forall>v. pass_of w (dsp_name (ds_spec db)) = Some v \<and> v \<noteq> [] \<longrightarrow> pw = v)"
proof -
  let ?d = "dsp_name (ds_spec db)" and ?i = "w_draws w"
  have a: "sinv (w_secrets w)" "\<forall>n. readable (en_fernet en) (en_key en) (sview (w_secrets w) n)"
    using assms(1) by (auto simp: sound_world_def)
  obtain k pw where k: "database_password (en_fernet en) (en_key en) ?i (en_urlsafe en ?i 24) (en_secrets en) ?d (w_secrets w) = (Inr pw, k)"
      "sinv k" "plain_of (en_fernet en) (en_key en) (sview k (password_name ?d)) = Some pw"
      "readable (en_fernet en) (en_key en) (sview k (password_name ?d))"
      "\<forall>n. n \<noteq> password_name ?d \<longrightarrow> sview k n = sview (w_secrets w) n"
      "\<forall>v. plain_of (en_fernet en) (en_key en) (sview (w_secrets w) (password_name ?d)) = Some v \<and> v \<noteq> [] \<longrightarrow> pw = v"
      "plain_of (en_fernet en) (en_key en) (sview (w_secrets w) (password_name ?d)) \<in> {None, Some []} \<longrightarrow> pw = en_urlsafe en ?i 24"
    using sec.stored_or_fresh_run [OF fernet a(1) a(2) [rule_format], of ?i "en_urlsafe en ?i 24" "password_name ?d"]
    unfolding database_password_def password_name_def by blast
  have "pw \<noteq> []" using k(6,7) assms(2) by (metis insertCI option.exhaust)
  moreover have "\<forall>n. readable (en_fernet en) (en_key en) (sview k n)" using a(2) k(4,5) by metis
  ultimately show ?thesis using k assms(1)
    by (intro exI [of _ pw] exI [of _ "w\<lparr>w_draws := Suc ?i, w_secrets := k\<rparr>"])
      (simp add: database_binding_env_def bind_p_def draw_def call_secrets_def ret_def binding_env_def binding_stem_def Let_def
        pass_of_def sound_world_def)
qed

text \<open>A bound database is served: its variables are in the environment, with the stored password.\<close>

definition served :: "('d, 'r, 'k) world \<Rightarrow> (string, string) pydict \<Rightarrow> string \<Rightarrow> bool" where
  "served w env d \<longleftrightarrow> (\<exists>pw. pw \<noteq> [] \<and> pass_of w d = Some pw \<and> binding_holds env d pw)"

lemma loop_run:
  assumes "\<And>i. en_urlsafe en i 24 \<noteq> []" "\<And>d db. dict_get dbs d = Some db \<Longrightarrow> dsp_name (ds_spec db) = d"
  shows "ok w \<Longrightarrow> \<forall>d \<in> D. served w env d \<Longrightarrow> inj_on env_resource_name (D \<union> connected dbs bs) \<Longrightarrow>
    \<exists>env' w'. database_env_loop en dbs bs env w = (Inr env', w') \<and> ok w' \<and> (\<forall>d \<in> D \<union> connected dbs bs. served w' env' d)
      \<and> (\<forall>k. \<not> starts_with ''AWS_LIGHT_DATABASE_'' k \<longrightarrow> dict_get env' k = dict_get env k)
      \<and> (\<forall>n. (\<forall>d. n \<noteq> password_name d) \<longrightarrow> sview (w_secrets w') n = sview (w_secrets w) n) \<and> (wf_dict env \<longrightarrow> wf_dict env')"
proof (induction bs arbitrary: w env D)
  case Nil
  then show ?case by (auto simp: ret_def connected_def)
next
  case (Cons b bs)
  show ?case
  proof (cases "AccessConnect \<in> set (dbb_access b) \<and> dict_has dbs (dbb_name b)")
    case False
    then have "connected dbs (b # bs) = connected dbs bs" by (auto simp: connected_def)
    moreover have "database_env_loop en dbs (b # bs) env = database_env_loop en dbs bs env"
      using False by (auto simp: dict_has_def)
    ultimately show ?thesis using Cons.IH [OF Cons.prems(1,2)] Cons.prems(3) by simp
  next
    case True
    then obtain db where db: "dict_get dbs (dbb_name b) = Some db" by (auto simp: dict_has_def)
    let ?d = "dbb_name b"
    have c: "connected dbs (b # bs) = insert ?d (connected dbs bs)" using True by (auto simp: connected_def)
    have n: "dsp_name (ds_spec db) = ?d" by (rule assms(2) [OF db])
    obtain pw w1 where 1: "database_binding_env en db w = (Inr (binding_env ?d pw), w1)" "ok w1" "pw \<noteq> []" "pass_of w1 ?d = Some pw"
        "\<forall>m. m \<noteq> password_name ?d \<longrightarrow> sview (w_secrets w1) m = sview (w_secrets w) m"
        "\<forall>v. pass_of w ?d = Some v \<and> v \<noteq> [] \<longrightarrow> pw = v"
      using binding_run [OF Cons.prems(1) assms(1), of db] unfolding n by blast
    let ?env = "dict_merge env (binding_env ?d pw)"
    have "served w1 ?env d" if "d \<in> insert ?d D" for d
    proof (cases "d = ?d")
      case True
      then show ?thesis using 1(3,4) merge_holds by (auto simp: served_def)
    next
      case False
      then obtain v where v: "v \<noteq> []" "pass_of w d = Some v" "binding_holds env d v"
        using Cons.prems(2) \<open>d \<in> insert ?d D\<close> by (auto simp: served_def)
      have "env_resource_name d \<noteq> env_resource_name ?d"
        using Cons.prems(3) False \<open>d \<in> insert ?d D\<close> unfolding c by (auto simp: inj_on_def)
      moreover have "password_name d \<noteq> password_name ?d" using False by (simp add: password_name_def)
      ultimately show ?thesis using v 1(5) merge_keeps by (auto simp: served_def pass_of_def)
    qed
    then have s: "\<forall>d \<in> insert ?d D. served w1 ?env d" by blast
    have "inj_on env_resource_name (insert ?d D \<union> connected dbs bs)" using Cons.prems(3) unfolding c by simp
    from Cons.IH [OF 1(2) s this] obtain env' w' where
      2: "database_env_loop en dbs bs ?env w1 = (Inr env', w')" "ok w'" "\<forall>d \<in> insert ?d D \<union> connected dbs bs. served w' env' d"
        "\<forall>k. \<not> starts_with ''AWS_LIGHT_DATABASE_'' k \<longrightarrow> dict_get env' k = dict_get ?env k"
        "\<forall>n. (\<forall>d. n \<noteq> password_name d) \<longrightarrow> sview (w_secrets w') n = sview (w_secrets w1) n" "wf_dict ?env \<longrightarrow> wf_dict env'" by blast
    have "dict_get ?env k = dict_get env k" if "\<not> starts_with ''AWS_LIGHT_DATABASE_'' k" for k
      using that binding_key_prefix by (intro merge_get_out) blast
    moreover have "database_env_loop en dbs (b # bs) env w = (Inr env', w')"
      using True db 1(1) 2(1) by (simp add: bind_p_Inr)
    ultimately show ?thesis using 2 1(5) unfolding c by (intro exI [of _ env'] exI [of _ w']) auto
  qed
qed

text \<open>The token of the service and the databases, in the environment of a replica.\<close>

lemma platform_env_run:
  assumes "ok w"
  shows "\<exists>token w'. platform_env en name w = (Inr [(''AWS_LIGHT_SERVICE_NAME'', name), (''AWS_LIGHT_SERVICE_TOKEN'', token),
      (''AWS_LIGHT_PROXY_URL'', proxy_workload_url), (''AWS_LIGHT_STORAGE_URL'', proxy_workload_url @ ''/_aws-light/storage'')], w')
    \<and> ok w' \<and> token_of (en_fernet en) (en_key en) (sview (w_secrets w')) name = Some token \<and> w_databases w' = w_databases w"
proof -
  let ?i = "w_draws w" and ?n = "service_token_prefix @ name"
  have a: "sinv (w_secrets w)" "\<forall>n. readable (en_fernet en) (en_key en) (sview (w_secrets w) n)"
    using assms by (auto simp: sound_world_def)
  obtain k token where k: "service_token (en_fernet en) (en_key en) ?i (en_urlsafe en ?i 32) (en_secrets en) name (w_secrets w) = (Inr token, k)"
      "sinv k" "plain_of (en_fernet en) (en_key en) (sview k ?n) = Some token" "readable (en_fernet en) (en_key en) (sview k ?n)"
      "\<forall>m. m \<noteq> ?n \<longrightarrow> sview k m = sview (w_secrets w) m"
    using sec.stored_or_fresh_run [OF fernet a(1) a(2) [rule_format], of ?i "en_urlsafe en ?i 32" ?n] unfolding service_token_def by blast
  moreover have "\<forall>m. readable (en_fernet en) (en_key en) (sview k m)" using a(2) k(4,5) by metis
  ultimately show ?thesis using assms
    by (intro exI [of _ token] exI [of _ "w\<lparr>w_draws := Suc ?i, w_secrets := k\<rparr>"])
      (simp add: platform_env_def bind_p_def draw_def call_secrets_def ret_def token_of_def sound_world_def)
qed

lemma replica_env_run:
  assumes "ok w" "w_databases w = Some dbs" "\<And>i. en_urlsafe en i 24 \<noteq> []"
    and "\<And>d db. dict_get dbs d = Some db \<Longrightarrow> dsp_name (ds_spec db) = d"
    and "inj_on env_resource_name (connected dbs (rb_databases (sp_resources (ss_spec s))))"
  shows "\<exists>env w'. replica_env en s w = (Inr env, w') \<and> ok w'
    \<and> (\<exists>token. dict_get env ''AWS_LIGHT_SERVICE_TOKEN'' = Some token
        \<and> token_of (en_fernet en) (en_key en) (sview (w_secrets w')) (sp_name (ss_spec s)) = Some token)
    \<and> dict_get env ''AWS_LIGHT_PROXY_URL'' = Some proxy_workload_url
    \<and> dict_get env ''AWS_LIGHT_STORAGE_URL'' = Some (proxy_workload_url @ ''/_aws-light/storage'')
    \<and> (\<forall>d \<in> connected dbs (rb_databases (sp_resources (ss_spec s))). served w' env d)"
proof -
  let ?bs = "rb_databases (sp_resources (ss_spec s))" and ?name = "sp_name (ss_spec s)" and ?refs = "sp_secret_refs (ss_spec s)"
  have a: "sinv (w_secrets w)" "\<forall>n \<in> set ?refs. readable (en_fernet en) (en_key en) (sview (w_secrets w) n)"
      "\<forall>n. readable (en_fernet en) (en_key en) (sview (w_secrets w) n)"
    using assms(1) by (auto simp: sound_world_def)
  obtain k e where k: "inject_into_env (en_fernet en) (en_key en) (en_secrets en) ?refs (w_secrets w) = (Inr e, k)"
      "sinv k" "sview k = sview (w_secrets w)"
    using sec.inject_loop_run [OF a(1,2), of "[]"] unfolding inject_into_env_def by blast
  let ?w1 = "w\<lparr>w_secrets := k\<rparr>"
  have 1: "call_secrets (inject_into_env (en_fernet en) (en_key en) (en_secrets en) ?refs) w = (Inr e, ?w1)" "ok ?w1" "w_databases ?w1 = Some dbs"
    using k a assms(1,2) by (simp_all add: call_secrets_def sound_world_def)
  obtain token w2 where 2: "platform_env en ?name ?w1 = (Inr [(''AWS_LIGHT_SERVICE_NAME'', ?name), (''AWS_LIGHT_SERVICE_TOKEN'', token),
      (''AWS_LIGHT_PROXY_URL'', proxy_workload_url), (''AWS_LIGHT_STORAGE_URL'', proxy_workload_url @ ''/_aws-light/storage'')], w2)"
      "ok w2" "token_of (en_fernet en) (en_key en) (sview (w_secrets w2)) ?name = Some token" "w_databases w2 = Some dbs"
    using platform_env_run [OF 1(2), of ?name] 1(3) by metis
  obtain db_env w3 where 3: "database_env_loop en dbs ?bs [] w2 = (Inr db_env, w3)" "ok w3" "\<forall>d \<in> connected dbs ?bs. served w3 db_env d"
      "\<forall>key. \<not> starts_with ''AWS_LIGHT_DATABASE_'' key \<longrightarrow> dict_get db_env key = None"
      "\<forall>n. (\<forall>d. n \<noteq> password_name d) \<longrightarrow> sview (w_secrets w3) n = sview (w_secrets w2) n"
      "wf_dict db_env"
    using loop_run [where D = "{}" and dbs = dbs and env = "[]" and bs = ?bs, OF assms(3,4) 2(2)] assms(5) by auto
  let ?penv = "[(''AWS_LIGHT_SERVICE_NAME'', ?name), (''AWS_LIGHT_SERVICE_TOKEN'', token),
      (''AWS_LIGHT_PROXY_URL'', proxy_workload_url), (''AWS_LIGHT_STORAGE_URL'', proxy_workload_url @ ''/_aws-light/storage'')]"
  let ?env = "dict_merge (dict_merge (dict_merge (sp_env (ss_spec s)) e) ?penv) db_env"
  have p: "\<not> starts_with ''AWS_LIGHT_DATABASE_'' ''AWS_LIGHT_SERVICE_TOKEN''" "\<not> starts_with ''AWS_LIGHT_DATABASE_'' ''AWS_LIGHT_PROXY_URL''"
      "\<not> starts_with ''AWS_LIGHT_DATABASE_'' ''AWS_LIGHT_STORAGE_URL''"
    by (simp_all add: starts_with_def)
  have g: "dict_get ?env ''AWS_LIGHT_SERVICE_TOKEN'' = Some token" "dict_get ?env ''AWS_LIGHT_PROXY_URL'' = Some proxy_workload_url"
      "dict_get ?env ''AWS_LIGHT_STORAGE_URL'' = Some (proxy_workload_url @ ''/_aws-light/storage'')"
    using 3(4) [rule_format, OF p(1)] 3(4) [rule_format, OF p(2)] 3(4) [rule_format, OF p(3)]
    by (simp_all add: merge_get_wf [OF 3(6)] merge_get_in)
  have "served w3 ?env d" if d: "d \<in> connected dbs ?bs" for d
  proof -
    obtain pw where "pw \<noteq> []" "pass_of w3 d = Some pw" "binding_holds db_env d pw"
      using 3(3) [rule_format, OF d] by (auto simp: served_def)
    moreover have "binding_holds ?env d pw"
      using calculation(3) by (auto simp: binding_holds_def merge_get_wf [OF 3(6)])
    ultimately show ?thesis by (auto simp: served_def)
  qed
  moreover have "service_token_prefix @ ?name \<noteq> password_name d" for d
    by (simp add: service_token_prefix_def password_name_def database_password_prefix_def)
  then have "token_of (en_fernet en) (en_key en) (sview (w_secrets w3)) ?name = Some token"
    using 2(3) 3(5) by (simp add: token_of_def)
  moreover have "replica_env en s w = (Inr ?env, w3)"
    using 1(1) 2(1,4) 3(1) by (simp add: replica_env_def database_env_def bind_p_def get_s_def ret_def)
  ultimately show ?thesis using g 3(2) by (intro exI [of _ ?env] exI [of _ w3]) blast
qed

text \<open>A served database: its settings, and the password the container of the database is created with.\<close>

lemma served_read:
  assumes "ok w" "served w env d"
  shows "\<exists>pw. (\<forall>xe. xe_environ xe = env \<longrightarrow> database_settings xe d = Inr (bound_settings d pw))
    \<and> (\<forall>nonce fresh. fst (database_password (en_fernet en) (en_key en) nonce fresh (en_secrets en) d (w_secrets w)) = Inr pw)"
proof -
  obtain pw where pw: "pw \<noteq> []" "pass_of w d = Some pw" "binding_holds env d pw" using assms(2) by (auto simp: served_def)
  have a: "sinv (w_secrets w)" "readable (en_fernet en) (en_key en) (sview (w_secrets w) (password_name d))"
    using assms(1) by (auto simp: sound_world_def)
  have "fst (database_password (en_fernet en) (en_key en) nonce fresh (en_secrets en) d (w_secrets w)) = Inr pw" for nonce fresh
    using sec.stored_or_fresh_run [OF fernet a, of nonce fresh] pw(1,2)
    by (auto simp: database_password_def password_name_def pass_of_def)
  then show ?thesis using pw(3) settings_read by metis
qed

end

text \<open>C20. What the orchestrator puts into the environment of a replica is what the services read from it. Starting a
  replica on a sound platform never fails on its environment; the token a service sends with its requests is the token
  stored for it, its storage is the proxy's, and for every database it is connected to, \<open>_database_settings\<close> reads the
  host of the database's container, its port, name and user, and the stored password: the one every later
  \<open>database_password\<close> gives, whatever it draws, so the one the container of the database is created with.\<close>

theorem environment_read_back:
  assumes "orchestrating en cs nets rview rinv sview sinv" "sound_world en rinv sview sinv w" "w_databases w = Some dbs"
    and "\<And>d db. dict_get dbs d = Some db \<Longrightarrow> dsp_name (ds_spec db) = d" "\<And>i. en_urlsafe en i 24 \<noteq> []"
    and "inj_on env_resource_name (connected dbs (rb_databases (sp_resources (ss_spec svc))))"
  shows "\<exists>env w' token pw. replica_env en svc w = (Inr env, w')
    \<and> token_of (en_fernet en) (en_key en) (sview (w_secrets w')) (sp_name (ss_spec svc)) = Some token
    \<and> (\<forall>xe :: 'e example_env. xe_environ xe = env \<longrightarrow>
        storage_base_url xe = proxy_workload_url @ ''/_aws-light/storage''
        \<and> (\<forall>target. service_headers xe target = [(''Host'', target @ ''.localhost''), (''X-AWS-Light-Service-Token'', token)])
        \<and> (\<forall>d \<in> connected dbs (rb_databases (sp_resources (ss_spec svc))).
            database_settings xe d = Inr (bound_settings d (pw d))))
    \<and> (\<forall>d \<in> connected dbs (rb_databases (sp_resources (ss_spec svc))). \<forall>nonce fresh.
        fst (database_password (en_fernet en) (en_key en) nonce fresh (en_secrets en) d (w_secrets w')) = Inr (pw d))"
proof -
  let ?c = "connected dbs (rb_databases (sp_resources (ss_spec svc)))"
  obtain env w' token where e: "replica_env en svc w = (Inr env, w')" "sound_world en rinv sview sinv w'"
      "dict_get env ''AWS_LIGHT_SERVICE_TOKEN'' = Some token"
      "token_of (en_fernet en) (en_key en) (sview (w_secrets w')) (sp_name (ss_spec svc)) = Some token"
      "dict_get env ''AWS_LIGHT_STORAGE_URL'' = Some (proxy_workload_url @ ''/_aws-light/storage'')"
      "\<forall>d \<in> ?c. orchestrating.served en sview w' env d"
    using orchestrating.replica_env_run [OF assms(1-3) assms(5,4,6)] by blast
  let ?P = "\<lambda>d pw. (\<forall>xe :: 'e example_env. xe_environ xe = env \<longrightarrow> database_settings xe d = Inr (bound_settings d pw))
      \<and> (\<forall>nonce fresh. fst (database_password (en_fernet en) (en_key en) nonce fresh (en_secrets en) d (w_secrets w')) = Inr pw)"
  have "\<forall>d \<in> ?c. \<exists>pw. ?P d pw" using e(6) orchestrating.served_read [OF assms(1) e(2)] by blast
  then obtain pw where "\<forall>d \<in> ?c. ?P d (pw d)" using bchoice [of ?c ?P] by blast
  moreover have "storage_base_url xe = proxy_workload_url @ ''/_aws-light/storage''
      \<and> (\<forall>target. service_headers xe target = [(''Host'', target @ ''.localhost''), (''X-AWS-Light-Service-Token'', token)])"
    if "xe_environ xe = env" for xe :: "'e example_env"
    using that e(3,5)
    by (simp add: storage_base_url_def service_headers_def environ_get_def dict_get_or_def proxy_workload_url_def rstrip_slash_def)
  ultimately show ?thesis using e(1,4) by (intro exI [of _ env] exI [of _ w'] exI [of _ token] exI [of _ pw]) blast
qed

text \<open>A service connected to two databases.\<close>

definition demo_databases :: "(string, database_state) pydict" where
  "demo_databases = map (\<lambda>d. (d, new_database_state 0 \<lparr>dsp_name = d, dsp_engine = Postgres, dsp_version = ''16'', dsp_storage_mb = 512\<rparr>))
     [''app-db'', ''combined-db'']"

definition bound_service :: service_state where
  "bound_service = new_service_state 0 ((default_service_spec ''web'' ''img:1'')\<lparr>sp_resources := \<lparr>rb_buckets = [],
     rb_databases = map (\<lambda>d. \<lparr>dbb_name = d, dbb_access = [AccessConnect]\<rparr>) [''app-db'', ''combined-db'']\<rparr>\<rparr>)"

lemma bound_service_bindings:
  "rb_databases (sp_resources (ss_spec bound_service)) = map (\<lambda>d. \<lparr>dbb_name = d, dbb_access = [AccessConnect]\<rparr>) [''app-db'', ''combined-db'']"
  by (simp add: bound_service_def new_service_state_def)

lemma demo_connected: "connected demo_databases (rb_databases (sp_resources (ss_spec bound_service))) = {''app-db'', ''combined-db''}"
  by code_simp

theorem environment_read_back_witness:
  "\<exists>env w' pw. replica_env plain_env bound_service (demo_world\<lparr>w_databases := Some demo_databases\<rparr>) = (Inr env, w')
    \<and> (\<forall>xe :: 'e example_env. xe_environ xe = env \<longrightarrow> database_settings xe ''combined-db'' = Inr (bound_settings ''combined-db'' pw))"
proof -
  let ?w = "demo_world\<lparr>w_databases := Some demo_databases\<rparr>"
  have 1: "sound_world plain_env redis_inv (raw_view secret_validate) (raw_inv secret_validate) ?w"
    using demo_ok by (simp add: sound_world_def)
  have 2: "w_databases ?w = Some demo_databases" by simp
  have 3: "dsp_name (ds_spec db) = d" if "dict_get demo_databases d = Some db" for d db
    using that by (auto simp: demo_databases_def new_database_state_def split: if_splits)
  have 4: "en_urlsafe plain_env i 24 \<noteq> []" for i by (simp add: plain_env_def)
  have 5: "inj_on env_resource_name {''app-db'', ''combined-db''}" by (simp add: env_resource_name_def upper_def replace_char_def)
  from environment_read_back [OF deployed.orchestrating_axioms 1 2 3 4, of bound_service, unfolded demo_connected, OF _ 5]
  obtain env w' pw where "replica_env plain_env bound_service ?w = (Inr env, w')"
      "\<forall>xe :: 'e example_env. xe_environ xe = env \<longrightarrow> (\<forall>d \<in> {''app-db'', ''combined-db''}. database_settings xe d = Inr (bound_settings d (pw d)))"
    by blast
  then show ?thesis by blast
qed

section \<open>The work of cpu-service\<close>

lemma hash_until_runs:
  "\<forall>k<n. perf (i + k) < end_time
    \<Longrightarrow> hash_until perf sha end_time i digest c = hash_until perf sha end_time (i + n) ((sha ^^ n) digest) (c + int n)"
proof (induction n)
  case (Suc n)
  then have "hash_until perf sha end_time i digest c = hash_until perf sha end_time (i + n) ((sha ^^ n) digest) (c + int n)" by simp
  also have "\<dots> = hash_until perf sha end_time (Suc (i + n)) (sha ((sha ^^ n) digest)) (c + int n + 1)"
    using Suc.prems by (subst hash_until.simps) simp
  finally show ?case by (simp add: algebra_simps)
qed simp

lemma hash_until_ends:
  assumes "hash_until perf sha end_time i digest c = Some r"
  shows "\<exists>j\<ge>i. \<not> perf j < end_time"
proof -
  have "\<exists>j\<ge>i. \<not> perf j < end_time"
    if "\<And>perf sha end_time i digest c r. f perf sha end_time i digest c = Some r \<Longrightarrow> \<exists>j\<ge>i. \<not> perf j < end_time"
      "(if perf i < end_time then f perf sha end_time (Suc i) (sha digest) (c + 1) else Some (digest, c, Suc i)) = Some r"
    for f :: "(nat \<Rightarrow> pyfloat) \<Rightarrow> (string \<Rightarrow> string) \<Rightarrow> pyfloat \<Rightarrow> nat \<Rightarrow> string \<Rightarrow> int \<Rightarrow> (string \<times> int \<times> nat) option"
      and perf sha end_time i digest c r
    using that(1) [of perf sha end_time "Suc i" "sha digest" "c + 1" r] that(2) order.refl [of i]
    by (cases "perf i < end_time") (simp, meson Suc_leD, auto)
  then show ?thesis
    by (rule hash_until.raw_induct [where P = "\<lambda>perf sha end_time i digest c r. \<exists>j\<ge>i. \<not> perf j < end_time", OF _ assms])
qed

text \<open>The end the handler computes from its first reading.\<close>

definition work_end :: "'n example_env \<Rightarrow> int \<Rightarrow> 'n example_state \<Rightarrow> pyfloat" where
  "work_end xe work_ms s = fadd (xe_perf xe (xs_readings s)) (int_div (bounded_work_ms work_ms) 1000)"

text \<open>C40. The work of cpu-service is bounded by the clock: for whatever \<open>work_ms\<close> a request asks, the handler works
  between 1 and 5000 milliseconds, and it returns exactly when some later reading of the clock reaches the end it
  computed; then it has hashed once per reading before that one, and the digest is the hash iterated as often as it
  says.\<close>

theorem cpu_work_ends:
  "1 \<le> bounded_work_ms work_ms \<and> bounded_work_ms work_ms \<le> 5000
    \<and> (cpu_root xe work_ms s = None \<longleftrightarrow> (\<forall>k. xe_perf xe (Suc (xs_readings s) + k) < work_end xe work_ms s))
    \<and> (\<forall>n. work_end xe work_ms s \<le> xe_perf xe (Suc (xs_readings s) + n)
         \<and> (\<forall>k<n. xe_perf xe (Suc (xs_readings s) + k) < work_end xe work_ms s) \<longrightarrow>
        cpu_root xe work_ms s = Some
          (Inr (200, JDict [(''service'', JStr ''cpu-service''), (''work_ms'', JInt (bounded_work_ms work_ms)),
             (''iterations'', JInt (int n)), (''digest'', JStr (take 16 (hex_text ((xe_sha256 xe ^^ n) ''aws-light''))))]),
           s\<lparr>xs_readings := xs_readings s + n + 2\<rparr>))"
proof -
  let ?i = "xs_readings s" and ?w = "bounded_work_ms work_ms" and ?e = "work_end xe work_ms s"
  let ?f = "\<lambda>i. hash_until (xe_perf xe) (xe_sha256 xe) ?e i"
  have root: "cpu_root xe work_ms s = map_option (\<lambda>(digest, iterations, j).
      (Inr (200, JDict [(''service'', JStr ''cpu-service''), (''work_ms'', JInt ?w), (''iterations'', JInt iterations),
         (''digest'', JStr (take 16 (hex_text digest)))]), s\<lparr>xs_readings := j\<rparr>)) (?f (Suc ?i) ''aws-light'' 0)"
    by (simp add: cpu_root_def Let_def work_end_def)
  have ends: "?f (Suc ?i) ''aws-light'' 0 = Some ((xe_sha256 xe ^^ n) ''aws-light'', int n, ?i + n + 2)"
    if "?e \<le> xe_perf xe (Suc ?i + n)" "\<forall>k<n. xe_perf xe (Suc ?i + k) < ?e" for n
    using hash_until_runs [OF that(2), of "xe_sha256 xe" "''aws-light''" 0] that(1)
    by (simp add: hash_until.simps [of _ _ _ "Suc (?i + n)"] leD)
  have "\<exists>n. ?e \<le> xe_perf xe (Suc ?i + n) \<and> (\<forall>k<n. xe_perf xe (Suc ?i + k) < ?e)"
    if "\<not> (\<forall>k. xe_perf xe (Suc ?i + k) < ?e)"
    using exists_least_iff [of "\<lambda>n. ?e \<le> xe_perf xe (Suc ?i + n)"] that
    unfolding not_less not_all not_le by blast
  then have "?f (Suc ?i) ''aws-light'' 0 \<noteq> None" if "\<not> (\<forall>k. xe_perf xe (Suc ?i + k) < ?e)"
    using ends that by fastforce
  moreover have "?f (Suc ?i) ''aws-light'' 0 = None" if "\<forall>k. xe_perf xe (Suc ?i + k) < ?e"
  proof (rule ccontr)
    assume "?f (Suc ?i) ''aws-light'' 0 \<noteq> None"
    then obtain j where "Suc ?i \<le> j" "\<not> xe_perf xe j < ?e" using hash_until_ends by blast
    then show False using that le_Suc_ex by metis
  qed
  ultimately have "cpu_root xe work_ms s = None \<longleftrightarrow> (\<forall>k. xe_perf xe (Suc ?i + k) < ?e)"
    unfolding root option.map_disc_iff by blast
  moreover have "1 \<le> ?w \<and> ?w \<le> 5000" by (simp add: bounded_work_ms_def)
  moreover have "cpu_root xe work_ms s = Some
      (Inr (200, JDict [(''service'', JStr ''cpu-service''), (''work_ms'', JInt ?w), (''iterations'', JInt (int n)),
         (''digest'', JStr (take 16 (hex_text ((xe_sha256 xe ^^ n) ''aws-light''))))]), s\<lparr>xs_readings := ?i + n + 2\<rparr>)"
    if "?e \<le> xe_perf xe (Suc ?i + n)" "\<forall>k<n. xe_perf xe (Suc ?i + k) < ?e" for n
    by (simp add: root ends [OF that])
  ultimately show ?thesis by blast
qed

text \<open>A clock that is read every two seconds.\<close>

definition ticking :: "unit example_env" where
  "ticking = \<lparr>xe_environ = [], xe_http = (\<lambda>_. raise OSError), xe_perf = (\<lambda>i. of_nat (2 * i)),
     xe_random = (\<lambda>_. 0), xe_randint = (\<lambda>_ a _. a), xe_float = (\<lambda>_. Inr 0), xe_sha256 = (\<lambda>d. CHR ''#'' # d), xe_now = ''now''\<rparr>"

theorem cpu_work_ends_witness:
  "cpu_root ticking 7000 \<lparr>xs_net = (), xs_readings = 2, xs_draws = 0, xs_log = []\<rparr>
     = Some (Inr (200, JDict [(''service'', JStr ''cpu-service''), (''work_ms'', JInt 5000), (''iterations'', JInt 2),
         (''digest'', JStr ''23236177732d6c69'')]), \<lparr>xs_net = (), xs_readings = 6, xs_draws = 0, xs_log = []\<rparr>)"
proof -
  let ?s = "\<lparr>xs_net = (), xs_readings = 2, xs_draws = 0, xs_log = []\<rparr>"
  have w: "bounded_work_ms 7000 = 5000" by (simp add: bounded_work_ms_def)
  have p: "xe_perf ticking i = of_nat (2 * i)" for i by (simp add: ticking_def)
  have "fl 5 = 5" "fl 9 = 9" using fl_grid [of 0 5] fl_grid [of 0 9] by (simp_all add: on_grid_def grid_bound_def pow2_def)
  then have e: "work_end ticking 7000 ?s = 9" by (simp add: p w work_end_def fadd_def int_div_def)
  have h: "take 16 (hex_text ((xe_sha256 ticking ^^ 2) ''aws-light'')) = ''23236177732d6c69''" by code_simp
  have k: "\<forall>k<2. xe_perf ticking (Suc (2 + k)) < 9" by (auto simp: p less_2_cases_iff)
  show ?thesis using cpu_work_ends [where work_ms = 7000 and xe = ticking and s = ?s, THEN conjunct2, THEN conjunct2, THEN conjunct2, THEN spec, of 2] e k h by (simp add: w p)
qed

end
