(* ===== verification/Calls.thy ===== *)
theory Calls
  imports Examples ProxyFacts
begin

text \<open>
  A service calls another one through the proxy: the text of its request, what the proxy reads from it, and
  where it goes. The request has the two headers the example services set and those of the HTTP library, in any
  order.
\<close>

section \<open>The text of a request\<close>

definition pair_line :: "string \<times> string \<Rightarrow> string" where
  "pair_line p = (case p of (k, v) \<Rightarrow> k @ '': '' @ v)"

definition request_line :: "string \<Rightarrow> string" where
  "request_line path = ''GET '' @ path @ '' HTTP/1.1''"

definition request_head :: "string \<Rightarrow> (string, string) pydict \<Rightarrow> string" where
  "request_head path headers = join crlf (request_line path # map pair_line headers) @ header_delimiter"

text \<open>Names and values as the wire has them: a name is a word without a colon, a value does not begin or end with
  white space and has no line break.\<close>

definition word :: "string \<Rightarrow> bool" where
  "word s \<longleftrightarrow> s \<noteq> [] \<and> (\<forall>c \<in> set s. \<not> is_space c \<and> c \<noteq> CHR '':'' \<and> byte_of c < (128 :: nat))"

definition plain_value :: "string \<Rightarrow> bool" where
  "plain_value v \<longleftrightarrow> CR \<notin> set v \<and> strip v = v"

definition plain_headers :: "(string, string) pydict \<Rightarrow> bool" where
  "plain_headers headers \<longleftrightarrow> (\<forall>(k, v) \<in> set headers. word k \<and> plain_value v)"

lemma space_CR: "is_space CR"
  by (simp add: is_space_def)

lemma word_strip: "word s \<Longrightarrow> strip s = s"
  by (rule strip_id) (auto simp: word_def)

lemma word_no_CR: "word s \<Longrightarrow> CR \<notin> set s"
  using space_CR by (auto simp: word_def)

lemma word_value: "word s \<Longrightarrow> plain_value s"
  by (simp add: plain_value_def word_strip word_no_CR)

text \<open>A header line has its name and its value.\<close>

lemma pair_line_read:
  assumes "word k" "plain_value v"
  shows "header_name (pair_line (k, v)) = Some (lower k)" "strip (after_char CHR '':'' (pair_line (k, v))) = v"
    "no_crlf (pair_line (k, v))" "pair_line (k, v) \<noteq> []"
proof -
  have c: "CHR '':'' \<notin> set k" using assms(1) by (auto simp: word_def)
  have l: "pair_line (k, v) = k @ CHR '':'' # CHR '' '' # v" by (simp add: pair_line_def)
  show "header_name (pair_line (k, v)) = Some (lower k)"
    by (simp add: l header_name_def before_char_append [OF c] word_strip [OF assms(1)])
  have "strip (CHR '' '' # v) = strip v" by (simp add: strip_def is_space_def)
  then show "strip (after_char CHR '':'' (pair_line (k, v))) = v"
    using assms(2) by (simp add: l after_char_append [OF c] plain_value_def)
  show "no_crlf (pair_line (k, v))" using word_no_CR [OF assms(1)] assms(2)
    by (intro no_crlf_no_CR) (simp add: l plain_value_def)
qed (simp add: pair_line_def)

text \<open>The lines of a head, and the first value of a name in it.\<close>

lemma find_header_pairs:
  "plain_headers headers \<Longrightarrow> find_header (map pair_line headers) name = map_of (map (apfst lower) headers) name"
  by (induction headers) (auto simp: plain_headers_def pair_line_read)

lemma first_line:
  assumes "word path"
  shows "header_name (request_line path) = None" "no_crlf (request_line path)" "request_line path \<noteq> []"
proof -
  have "CHR '':'' \<notin> set path" using assms by (auto simp: word_def)
  then show "header_name (request_line path) = None" by (simp add: header_name_def request_line_def)
  show "no_crlf (request_line path)" using word_no_CR [OF assms] by (intro no_crlf_no_CR) (auto simp: request_line_def)
qed (simp add: request_line_def)

lemma request_head_lines:
  assumes "word path" "plain_headers headers"
  shows "header_lines (request_head path headers) = request_line path # map pair_line headers"
  unfolding request_head_def using assms first_line [OF assms(1)]
  by (intro header_lines_built) (auto simp: plain_headers_def pair_line_read)

lemma request_head_value:
  assumes "word path" "plain_headers headers"
  shows "header_value (request_head path headers) name = map_of (map (apfst lower) headers) name"
  by (simp add: header_value_lines request_head_lines [OF assms] first_line [OF assms(1)] find_header_pairs [OF assms(2)])

text \<open>The path is the second word of the first line.\<close>

lemma split_ws_word: "\<forall>c \<in> set w. \<not> is_space c \<Longrightarrow> split_ws_aux acc (w @ s) = split_ws_aux (rev w @ acc) s"
  by (induction w arbitrary: acc) auto

lemma request_head_path:
  assumes "word path"
  shows "extract_request_path (request_head path headers) = path"
proof -
  have "\<exists>s. request_head path headers = request_line path @ crlf @ s"
    by (cases headers) (simp_all add: request_head_def header_delimiter_def)
  then obtain s where s: "request_head path headers = request_line path @ crlf @ s" by blast
  have "split_ws (request_line path) = [''GET'', path, ''HTTP/1.1'']"
    using assms split_ws_word [of path "[]" "'' HTTP/1.1''"]
    by (simp add: split_ws_def request_line_def word_def is_space_def)
  moreover have "decode_replace path = path" using assms by (intro decode_replace_ascii) (simp add: word_def)
  ultimately show ?thesis by (simp add: extract_request_path_def s split_crlf_append [OF first_line(2) [OF assms]])
qed

text \<open>The service of a request: the name before \<open>.localhost\<close> in its \<open>Host\<close>.\<close>

definition host_of :: "string \<Rightarrow> string" where
  "host_of v = (let hostname = hd (split_char CHR '':'' (decode_replace v)) in
     if ends_with ''.localhost'' hostname then drop_last 10 hostname else hostname)"

lemma find_host_filter: "find_host (filter (\<lambda>l. l \<noteq> []) ls) = find_host ls"
  by (induction ls) (auto simp: starts_with_def lower_def)

lemma lower_colon: "c \<noteq> CHR '':'' \<Longrightarrow> ascii_lower c \<noteq> CHR '':''"
proof -
  have "char_of (byte_of c + 32) \<noteq> CHR '':''" if "65 \<le> byte_of c" "byte_of c \<le> 90"
  proof
    assume "char_of (byte_of c + 32) = CHR '':''"
    then have "byte_of (char_of (byte_of c + 32)) = byte_of CHR '':''" by simp
    then show False using that by simp
  qed
  then show "c \<noteq> CHR '':'' \<Longrightarrow> ascii_lower c \<noteq> CHR '':''" by (auto simp: ascii_lower_def Let_def)
qed

lemma host_pair:
  assumes "word k"
  shows "starts_with ''host:'' (lower (pair_line (k, v))) \<longleftrightarrow> lower k = ''host''"
proof -
  have "CHR '':'' \<notin> set (lower k)" using assms lower_colon by (fastforce simp: lower_def word_def)
  note b = before_char_append [OF this]
  have l: "lower (pair_line (k, v)) = lower k @ CHR '':'' # lower (CHR '' '' # v)" by (simp add: pair_line_def lower_def ascii_lower_def)
  have "before_char CHR '':'' (''host'' @ CHR '':'' # t) = ''host''" for t by (rule before_char_append) simp
  then show ?thesis unfolding l starts_with_iff using b by (auto simp del: before_char_append) (metis append_Cons append_Nil)
qed

lemma find_host_pairs:
  "plain_headers headers \<Longrightarrow> find_host (map pair_line headers) = map_option host_of (map_of (map (apfst lower) headers) ''host'')"
proof (induction headers)
  case (Cons p headers)
  obtain k v where p: "p = (k, v)" by (cases p)
  then have kv: "word k" "plain_value v" using Cons.prems by (auto simp: plain_headers_def)
  have "strip (drop 5 (pair_line (k, v))) = v" if "lower k = ''host''"
  proof -
    have "length k = 4" using arg_cong [OF that, of length] by (simp add: lower_def)
    then have "drop 5 (pair_line (k, v)) = CHR '' '' # v" by (simp add: pair_line_def)
    then show ?thesis using kv(2) by (simp add: plain_value_def strip_def is_space_def)
  qed
  then show ?case using Cons p host_pair [OF kv(1), of v] by (auto simp: plain_headers_def host_of_def Let_def)
qed simp

lemma request_head_service:
  assumes "word path" "plain_headers headers"
  shows "extract_service_name (request_head path headers) = map_option host_of (map_of (map (apfst lower) headers) ''host'')"
proof -
  have "extract_service_name (request_head path headers) = find_host (header_lines (request_head path headers))"
    unfolding extract_service_name_def header_lines_def by (rule find_host_filter [symmetric])
  moreover have "\<not> starts_with ''host:'' (lower (request_line path))"
    by (simp add: request_line_def starts_with_def lower_def) code_simp
  ultimately show ?thesis by (simp add: request_head_lines [OF assms] find_host_pairs [OF assms(2)])
qed

lemma split_char_word: "x \<notin> set s \<Longrightarrow> split_char x s = [s]"
  by (induction s) auto

lemma host_of_service: "word target \<Longrightarrow> host_of (target @ ''.localhost'') = target"
proof -
  assume t: "word target"
  have d: "\<forall>c \<in> set ''.localhost''. byte_of c < (128 :: nat) \<and> c \<noteq> CHR '':''" by code_simp
  have "decode_replace (target @ ''.localhost'') = target @ ''.localhost''"
    using t d by (intro decode_replace_ascii) (auto simp only: word_def set_append)
  moreover have "CHR '':'' \<notin> set (target @ ''.localhost'')" using t by (auto simp: word_def)
  ultimately show ?thesis by (simp add: host_of_def split_char_word ends_with_def drop_last_def)
qed

section \<open>From the headers of a service to its target\<close>

text \<open>The proxy's secrets as they are decrypted: every one is readable under its name, and no other service has the
  token of \<open>caller\<close>.\<close>

definition token_known :: "('t, (json table, secret_spec) ttl_cache) proxy_env \<Rightarrow> ('t, (json table, secret_spec) ttl_cache) proxy
    \<Rightarrow> string \<Rightarrow> string \<Rightarrow> bool" where
  "token_known en w caller token \<longleftrightarrow> (let secrets = raw_view secret_validate (tc_store (px_secrets w)) in
     pe_secrets en = ttl_store secrets_table \<and> pe_manages_secrets en \<and> secret_codec.pg.ttl_inv (px_secrets w)
     \<and> (\<forall>n. readable (pe_fernet en) (pe_key en) (secrets n)) \<and> (\<forall>n spec. secrets n = Some spec \<longrightarrow> sec_name spec = n)
     \<and> (\<forall>other. token_of (pe_fernet en) (pe_key en) secrets other = Some token \<longleftrightarrow> other = caller) \<and> knows_service w caller)"

lemma caller_found:
  assumes "token_known en w caller token" "header_value h service_token_header = Some token" "word token"
  shows "\<exists>w'. source_service_from_request en h w = (Inr (Some caller), w') \<and> same_sent w w' \<and> same_client w w'"
proof -
  let ?token = "token_of (pe_fernet en) (pe_key en) (raw_view secret_validate (tc_store (px_secrets w)))"
  have k: "pe_secrets en = ttl_store secrets_table" "pe_manages_secrets en" "secret_codec.pg.ttl_inv (px_secrets w)"
      "\<forall>n. readable (pe_fernet en) (pe_key en) (raw_view secret_validate (tc_store (px_secrets w)) n)"
      "\<forall>n spec. raw_view secret_validate (tc_store (px_secrets w)) n = Some spec \<longrightarrow> sec_name spec = n"
      "\<forall>other. ?token other = Some token \<longleftrightarrow> other = caller" "knows_service w caller"
    using assms(1) unfolding token_known_def Let_def by simp_all
  have d: "decode_replace token = token" using assms(3) by (intro decode_replace_ascii) (simp add: word_def)
  from cached_secrets.source_run [OF k(1,2) assms(2) k(3-5)]
  obtain found w' where f: "source_service_from_request en h w = (Inr found, w')"
      "\<forall>source. found = Some source \<longrightarrow> ?token source = Some token"
      "found = None \<longrightarrow> (\<forall>source. ?token source = Some token \<and> knows_service w source \<longrightarrow> (\<exists>other. ?token other = Some token \<and> \<not> knows_service w other))"
    unfolding d by blast
  have "found = Some caller" using f(2,3) k(6,7) by (cases found) auto
  then show ?thesis using f(1) preservesD [OF quiet_source, of w w en h] preservesD [OF client_source, of w w en h] by auto
qed

text \<open>The headers of a service, among those of the library.\<close>

lemma map_of_known: "(k, v) \<in> set ps \<Longrightarrow> (\<And>v'. (k, v') \<in> set ps \<Longrightarrow> v' = v) \<Longrightarrow> map_of ps k = Some v"
proof -
  assume a: "(k, v) \<in> set ps" "\<And>v'. (k, v') \<in> set ps \<Longrightarrow> v' = v"
  obtain u where "map_of ps k = Some u" using weak_map_of_SomeI [OF a(1)] by blast
  then show ?thesis using a(2) map_of_SomeD by metis
qed

lemma service_headers_read:
  assumes "set headers = set (service_headers xe target) \<union> set extra"
    and "\<forall>(k, v) \<in> set extra. lower k \<notin> {''host'', service_token_header}"
  shows "map_of (map (apfst lower) headers) ''host'' = Some (target @ ''.localhost'')"
    "map_of (map (apfst lower) headers) service_token_header = Some (environ_get xe ''AWS_LIGHT_SERVICE_TOKEN'' [])"
proof -
  have l: "lower ''Host'' = ''host''" "lower ''X-AWS-Light-Service-Token'' = service_token_header" "service_token_header \<noteq> ''host''"
    by code_simp+
  have m: "(n, v) \<in> set (map (apfst lower) headers) \<longleftrightarrow> (\<exists>k. lower k = n \<and> (k, v) \<in> set headers)" for n v by force
  show "map_of (map (apfst lower) headers) ''host'' = Some (target @ ''.localhost'')"
    using assms(2) l by (intro map_of_known) (auto simp: m assms(1) service_headers_def)
  show "map_of (map (apfst lower) headers) service_token_header = Some (environ_get xe ''AWS_LIGHT_SERVICE_TOKEN'' [])"
    using assms(2) l by (intro map_of_known) (auto simp: m assms(1) service_headers_def)
qed

lemma service_headers_plain:
  assumes "set headers = set (service_headers xe target) \<union> set extra" "plain_headers extra" "word target"
    and "word (environ_get xe ''AWS_LIGHT_SERVICE_TOKEN'' [])"
  shows "plain_headers headers"
proof -
  have k: "word ''Host''" "word ''X-AWS-Light-Service-Token''" by code_simp+
  have "hd (target @ ''.localhost'') = hd target" "\<not> is_space (hd target)" using assms(3) by (auto simp: word_def)
  moreover have "\<not> is_space (last (target @ ''.localhost''))" by (simp add: is_space_def)
  moreover have "CR \<notin> set (target @ ''.localhost'')" using word_no_CR [OF assms(3)] by simp
  ultimately have "plain_value (target @ ''.localhost'')" unfolding plain_value_def by (intro conjI strip_id) auto
  then show ?thesis using assms(2) k word_value [OF assms(4)] unfolding plain_headers_def assms(1) service_headers_def by auto
qed

text \<open>C33. A call between services is decided by the policy of its target. When a service calls another with the headers
  \<open>service_headers\<close> makes from its environment, among whatever headers the HTTP library adds, the proxy reads the
  target and the caller from the text of the request; it routes the request to the replicas of the target exactly
  when the target is open to the caller, and answers it with 403 otherwise, whatever the target's external policy. The
  caller's token reaches the target's replica.\<close>

theorem service_calls_service:
  assumes "token_known en w caller token" "token = environ_get xe ''AWS_LIGHT_SERVICE_TOKEN'' []" "word token"
    and "set headers = set (service_headers xe target) \<union> set extra" "plain_headers extra" "word target"
    and "\<forall>(k, v) \<in> set extra. lower k \<notin> {''host'', service_token_header}"
    and "word path" "\<not> starts_with ''/_aws-light/storage'' path"
  shows "\<exists>w'. same_sent w w' \<and> same_client w w'
    \<and> serve_request en (request_head path headers) body w =
        (if internal_open w target caller then route_request en (request_head path headers) body target w'
         else reply en response_403_internal (Some target) 403 ''internal_ingress_denied'' w')
    \<and> (\<forall>host p. host \<noteq> [] \<and> (\<forall>c \<in> set host. \<not> is_space c) \<longrightarrow>
         header_value (rewrite_request_headers (request_head path headers) host p) service_token_header = Some token)"
proof -
  let ?h = "request_head path headers"
  note r = service_headers_read [OF assms(4,7)]
  have p: "plain_headers headers" using service_headers_plain [OF assms(4-6)] assms(2,3) by simp
  have t: "header_value ?h service_token_header = Some token" by (simp add: request_head_value [OF assms(8) p] r assms(2))
  have s: "extract_service_name ?h = Some target" by (simp add: request_head_service [OF assms(8) p] r host_of_service [OF assms(6)])
  obtain w' where w': "source_service_from_request en ?h w = (Inr (Some caller), w')" "same_sent w w'" "same_client w w'"
    using caller_found [OF assms(1) t assms(3)] by blast
  have "internal_open w' target caller = internal_open w target caller" using w'(2) by (simp add: internal_open_def)
  then have "serve_request en ?h body w = (if internal_open w target caller then route_request en ?h body target w'
      else reply en response_403_internal (Some target) 403 ''internal_ingress_denied'' w')"
    using assms(9) s t w'(1) by (simp add: serve_request_def request_head_path [OF assms(8)] bind_p_def internal_run)
  moreover have "header_value (rewrite_request_headers ?h host port) service_token_header = Some token"
    if "host \<noteq> []" "\<forall>c \<in> set host. \<not> is_space c" for host port
  proof -
    have "service_token_header \<notin> set (''host'' # hop_by_hop_headers)" by code_simp
    then show ?thesis using rewrite_request_values [OF request_head_lines [OF assms(8) p] first_line(1) [OF assms(8)] that, of port] t
      by (simp add: Let_def)
  qed
  ultimately show ?thesis using w'(2,3) by blast
qed

text \<open>The service \<open>front\<close> calls \<open>web\<close>, which is not open to other services.\<close>

definition front_env :: "unit example_env" where
  "front_env = \<lparr>xe_environ = [(''AWS_LIGHT_SERVICE_TOKEN'', ''tok'')], xe_http = (\<lambda>_. raise OSError), xe_perf = (\<lambda>_. 0),
     xe_random = (\<lambda>_. 0), xe_randint = (\<lambda>_ a _. a), xe_float = (\<lambda>_. Inr 0), xe_sha256 = (\<lambda>d. d), xe_now = ''now''\<rparr>"

lemma demo_token_known: "token_known demo_proxy_env (demo_proxy [] True []) ''front'' ''tok''"
proof -
  let ?w = "demo_proxy [] True []"
  have v: "raw_view secret_validate (tc_store (px_secrets ?w)) n
      = (if n = service_token_prefix @ ''front'' then Some \<lparr>sec_name = service_token_prefix @ ''front'', sec_value = ''kot''\<rparr> else None)" for n
    by (simp add: raw_view_def demo_proxy_def demo_token_row_def secret_codec.validate_dump)
  have "secret_codec.pg.ttl_inv (px_secrets ?w)"
    by (simp add: secret_codec.pg.ttl_inv_def demo_proxy_def ttl_wf_def coherent_def raw_inv_def demo_token_row_def wf_dict_def
      secret_codec.validate_dump)
  moreover have "pe_secrets demo_proxy_env = ttl_store secrets_table" "pe_manages_secrets demo_proxy_env"
      "pe_fernet demo_proxy_env = plain_fernet" "pe_key demo_proxy_env = ''k''" by (simp_all add: demo_proxy_env_def)
  moreover have "knows_service ?w ''front''" by (simp add: knows_service_def demo_proxy_def dict_has_def)
  ultimately show ?thesis by (simp add: token_known_def token_of_def v plain_of_def plain_fernet_def readable_def)
qed

theorem service_calls_service_witness:
  "\<exists>w'. serve_request demo_proxy_env (request_head ''/message'' ((''Accept'', ''*/*'') # service_headers front_env ''web'')) [] (demo_proxy [] True [])
    = reply demo_proxy_env response_403_internal (Some ''web'') 403 ''internal_ingress_denied'' w'"
proof -
  let ?w = "demo_proxy [] True []"
  have t: "''tok'' = environ_get front_env ''AWS_LIGHT_SERVICE_TOKEN'' []" by (simp add: front_env_def environ_get_def dict_get_or_def)
  have w: "word ''tok''" "plain_headers [(''Accept'', ''*/*'')]" "word ''web''" "word ''/message''"
      "\<not> starts_with ''/_aws-light/storage'' ''/message''" "lower ''Accept'' = ''accept''" "service_token_header \<noteq> ''accept''" by code_simp+
  have o: "\<not> internal_open ?w ''web'' ''front''"
    by (simp add: internal_open_def demo_proxy_def new_service_state_def default_service_spec_def default_ingress_def default_policy_def)
  show ?thesis
    using service_calls_service [OF demo_token_known t w(1), of "(''Accept'', ''*/*'') # service_headers front_env ''web''" "''web''"
      "[(''Accept'', ''*/*'')]" "''/message''" "[]"] w o by auto
qed

end
