(* ===== verification/LoadTest.thy ===== *)
theory LoadTest
  imports Examples ProxyMetrics "HOL-Library.Multiset"
begin

text \<open>
  The load test of the proxy, \<open>scripts/load_test_proxy.py\<close>. Its requests are tasks on one event loop; a task
  waits at the semaphore, sends its request and ends with a text for the outcome. A run is a list of events, in
  the order the loop takes them: a task gets past the semaphore, or the request of a task ends.
\<close>

section \<open>The configuration\<close>

record load_test_config =
  lc_url :: string
  lc_host :: string
  lc_requests :: int
  lc_concurrency :: int
  lc_timeout_seconds :: pyfloat

text \<open>The texts of the options given on the command line; \<open>argparse\<close> ends the process with status 2 for a value
  that is no number, as \<open>parser.error\<close> does.\<close>

definition int_option :: "(string, string) pydict \<Rightarrow> string \<Rightarrow> int \<Rightarrow> int result" where
  "int_option given name d = (case dict_get given name of None \<Rightarrow> Inr d
     | Some v \<Rightarrow> (case py_int v of None \<Rightarrow> Inl (SystemExit 2) | Some i \<Rightarrow> Inr i))"

definition float_option :: "(string \<Rightarrow> pyfloat result) \<Rightarrow> (string, string) pydict \<Rightarrow> string \<Rightarrow> pyfloat \<Rightarrow> pyfloat result" where
  "float_option to_float given name d = (case dict_get given name of None \<Rightarrow> Inr d
     | Some v \<Rightarrow> (case to_float v of Inl _ \<Rightarrow> Inl (SystemExit 2) | Inr x \<Rightarrow> Inr x))"

definition parse_load_args :: "(string \<Rightarrow> pyfloat result) \<Rightarrow> (string, string) pydict \<Rightarrow> load_test_config result" where
  "parse_load_args to_float given =
     bind_r (int_option given ''requests'' 1000) (\<lambda>requests.
     bind_r (int_option given ''concurrency'' 100) (\<lambda>concurrency.
     bind_r (float_option to_float given ''timeout'' 60) (\<lambda>timeout.
     if requests < 1 then Inl (SystemExit 2)
     else if concurrency < 1 then Inl (SystemExit 2)
     else Inr \<lparr>lc_url = dict_get_or given ''url'' ''http://localhost:8080/'',
       lc_host = dict_get_or given ''host'' ''secret-service.localhost'', lc_requests = requests,
       lc_concurrency = concurrency, lc_timeout_seconds = timeout\<rparr>)))"

section \<open>A request\<close>

definition fetch_request :: "load_test_config \<Rightarrow> http_request" where
  "fetch_request config = \<lparr>hq_method = ''GET'', hq_url = lc_url config,
     hq_headers = [(''Host'', lc_host config), (''Connection'', ''close'')], hq_json = None, hq_content = None\<rparr>"

text \<open>A request ends with a status, or with an exception of a class of this name.\<close>

type_synonym fetch_outcome = "string + int"

definition fetch_result :: "fetch_outcome \<Rightarrow> string" where
  "fetch_result r = (case r of Inr status_code \<Rightarrow> ''status:'' @ str_int status_code | Inl type_name \<Rightarrow> type_name)"

section \<open>The tasks\<close>

datatype fetch_task = Waiting | Fetching | Fetched string

record load_state =
  ls_permits :: int
  ls_tasks :: "fetch_task list"

definition load_start :: "load_test_config \<Rightarrow> load_state" where
  "load_start config = \<lparr>ls_permits = lc_concurrency config, ls_tasks = replicate (nat (lc_requests config)) Waiting\<rparr>"

datatype load_event = Admitted nat | Ended nat fetch_outcome

text \<open>\<open>async with semaphore\<close>: a task enters while there are permits, and gives its permit back when it leaves.\<close>

fun load_event_step :: "load_event \<Rightarrow> load_state \<Rightarrow> load_state option" where
  "load_event_step (Admitted i) s = (if i < length (ls_tasks s) \<and> ls_tasks s ! i = Waiting \<and> 0 < ls_permits s
     then Some (s\<lparr>ls_permits := ls_permits s - 1, ls_tasks := (ls_tasks s)[i := Fetching]\<rparr>) else None)"
| "load_event_step (Ended i r) s = (if i < length (ls_tasks s) \<and> ls_tasks s ! i = Fetching
     then Some (s\<lparr>ls_permits := ls_permits s + 1, ls_tasks := (ls_tasks s)[i := Fetched (fetch_result r)]\<rparr>) else None)"

fun load_events :: "load_event list \<Rightarrow> load_state \<Rightarrow> load_state option" where
  "load_events [] s = Some s"
| "load_events (e # es) s = (case load_event_step e s of None \<Rightarrow> None | Some s' \<Rightarrow> load_events es s')"

text \<open>\<open>asyncio.gather\<close> returns when every task has ended, with their results in the order of the tasks.\<close>

definition gathered :: "load_state \<Rightarrow> string list option" where
  "gathered s = (if \<forall>t \<in> set (ls_tasks s). t \<noteq> Waiting \<and> t \<noteq> Fetching
     then Some (map (\<lambda>t. case t of Fetched r \<Rightarrow> r | _ \<Rightarrow> []) (ls_tasks s)) else None)"

text \<open>\<open>Counter(results)\<close>, in the order of the first occurrences.\<close>

definition counted :: "string \<Rightarrow> (string, int) pydict \<Rightarrow> (string, int) pydict" where
  "counted r d = dict_put r (dict_get_or d r 0 + 1) d"

definition result_counter :: "string list \<Rightarrow> (string, int) pydict" where
  "result_counter results = fold counted results []"

definition run_load_test :: "load_test_config \<Rightarrow> load_event list \<Rightarrow> (string, int) pydict option" where
  "run_load_test config es = (case load_events es (load_start config) of None \<Rightarrow> None
     | Some s \<Rightarrow> map_option result_counter (gathered s))"

section \<open>The report\<close>

definition success_count :: "(string, int) pydict \<Rightarrow> int" where
  "success_count results = sum_list (map snd (filter (\<lambda>(result, _). starts_with ''status:2'' result) results))"

text \<open>\<open>sorted(..., reverse=True)\<close> keeps the order of equal counts.\<close>

definition most_common :: "(string, int) pydict \<Rightarrow> (string \<times> int) list" where
  "most_common results = sort_key (\<lambda>(_, count). - count) results"

text \<open>The lines \<open>main\<close> prints, and whether it gets to the end: the rate divides by the duration.\<close>

definition load_report :: "load_test_config \<Rightarrow> (string, int) pydict \<Rightarrow> pyfloat \<Rightarrow> string list \<times> bool" where
  "load_report config results duration = (let shown = [''URL: '' @ lc_url config, ''Host: '' @ lc_host config,
       ''Requests: '' @ str_int (lc_requests config), ''Concurrency: '' @ str_int (lc_concurrency config),
       ''Success: '' @ str_int (success_count results), ''Time: '' @ format_2f duration @ ''s''] in
     if duration = 0 then (shown, False)
     else (shown @ [''RPS: '' @ format_2f (fl (of_int (lc_requests config) / duration)), ''Results:'']
       @ map (\<lambda>(result, count). ''  '' @ result @ '': '' @ str_int count) (most_common results), True))"

section \<open>The tasks at the semaphore\<close>

definition in_flight :: "load_state \<Rightarrow> nat" where
  "in_flight s = count_list (ls_tasks s) Fetching"

definition load_inv :: "load_test_config \<Rightarrow> load_state \<Rightarrow> bool" where
  "load_inv config s \<longleftrightarrow> length (ls_tasks s) = nat (lc_requests config) \<and> 0 \<le> ls_permits s
     \<and> ls_permits s + int (in_flight s) = lc_concurrency config"

lemma count_list_update:
  "i < length xs \<Longrightarrow> count_list (xs[i := y]) a + (if xs ! i = a then 1 else 0) = count_list xs a + (if y = a then 1 else 0)"
proof (induction xs arbitrary: i)
  case (Cons x xs)
  show ?case
  proof (cases i)
    case (Suc j)
    then show ?thesis using Cons.IH [of j] Cons.prems by (cases "y = a"; cases "xs ! j = a") auto
  qed simp
qed simp

text \<open>What the events so far left: the tasks that ended, with the texts of their outcomes.\<close>

definition ended :: "load_event list \<Rightarrow> fetch_outcome list" where
  "ended es = concat (map (\<lambda>e. case e of Ended _ r \<Rightarrow> [r] | Admitted _ \<Rightarrow> []) es)"

definition fetched :: "fetch_task list \<Rightarrow> string list" where
  "fetched ts = concat (map (\<lambda>t. case t of Fetched r \<Rightarrow> [r] | _ \<Rightarrow> []) ts)"

text \<open>Every task takes two events.\<close>

definition events_left :: "load_state \<Rightarrow> nat" where
  "events_left s = 2 * count_list (ls_tasks s) Waiting + count_list (ls_tasks s) Fetching"

lemma fetched_update:
  "i < length ts \<Longrightarrow> ts ! i \<in> {Waiting, Fetching}
    \<Longrightarrow> mset (fetched (ts[i := t])) = mset (fetched ts) + mset (case t of Fetched r \<Rightarrow> [r] | _ \<Rightarrow> [])"
proof (induction ts arbitrary: i)
  case (Cons x ts)
  then show ?case by (cases i) (auto simp: fetched_def split: fetch_task.splits)
qed simp

text \<open>One event: a permit for every task that is not in flight is kept, and one event less is left.\<close>

lemma load_step_inv:
  assumes "load_event_step e s = Some s'" "load_inv config s"
  shows "load_inv config s' \<and> Suc (events_left s') = events_left s
    \<and> mset (fetched (ls_tasks s')) = mset (fetched (ls_tasks s)) + mset (map fetch_result (ended [e]))"
proof (cases e)
  case (Admitted i)
  then have i: "i < length (ls_tasks s)" "ls_tasks s ! i = Waiting" "0 < ls_permits s"
      "s' = s\<lparr>ls_permits := ls_permits s - 1, ls_tasks := (ls_tasks s)[i := Fetching]\<rparr>"
    using assms(1) by (auto split: if_splits)
  show ?thesis using assms(2) i count_list_update [OF i(1), of Fetching Waiting] count_list_update [OF i(1), of Fetching Fetching]
      fetched_update [OF i(1), of Fetching] Admitted
    by (simp add: load_inv_def in_flight_def events_left_def ended_def)
next
  case (Ended i r)
  then have i: "i < length (ls_tasks s)" "ls_tasks s ! i = Fetching"
      "s' = s\<lparr>ls_permits := ls_permits s + 1, ls_tasks := (ls_tasks s)[i := Fetched (fetch_result r)]\<rparr>"
    using assms(1) by (auto split: if_splits)
  show ?thesis using assms(2) i count_list_update [OF i(1), of "Fetched (fetch_result r)" Waiting]
      count_list_update [OF i(1), of "Fetched (fetch_result r)" Fetching] fetched_update [OF i(1), of "Fetched (fetch_result r)"] Ended
    by (simp add: load_inv_def in_flight_def events_left_def ended_def)
qed

lemma load_events_inv:
  "load_events es s = Some s' \<Longrightarrow> load_inv config s \<Longrightarrow> load_inv config s' \<and> length es + events_left s' = events_left s
    \<and> mset (fetched (ls_tasks s')) = mset (fetched (ls_tasks s)) + mset (map fetch_result (ended es))"
proof (induction es arbitrary: s)
  case (Cons e es)
  then obtain t where t: "load_event_step e s = Some t" "load_events es t = Some s'" by (auto split: option.splits)
  have "ended (e # es) = ended [e] @ ended es" by (simp add: ended_def)
  then show ?case using load_step_inv [OF t(1) Cons.prems(2)] Cons.IH [OF t(2)] by auto
qed (simp add: ended_def)

lemma count_list_replicate: "count_list (replicate n x) a = (if x = a then n else 0)"
  by (induction n) auto

lemma load_start_inv:
  assumes "parse_load_args to_float given = Inr config"
  shows "load_inv config (load_start config) \<and> events_left (load_start config) = 2 * nat (lc_requests config)
    \<and> fetched (ls_tasks (load_start config)) = [] \<and> 1 \<le> lc_requests config \<and> 1 \<le> lc_concurrency config"
proof -
  have "fetched (replicate n Waiting) = []" for n by (induction n) (simp_all add: fetched_def)
  then show ?thesis using assms
    by (auto simp: parse_load_args_def bind_r_Inr load_inv_def load_start_def in_flight_def events_left_def count_list_replicate
      split: if_splits)
qed

text \<open>While tasks are left, one can go on.\<close>

lemma gathered_iff: "gathered s = None \<longleftrightarrow> events_left s \<noteq> 0"
  by (auto simp: gathered_def events_left_def count_list_0_iff)

lemma load_goes_on:
  assumes "load_inv config s" "1 \<le> lc_concurrency config" "gathered s = None"
  shows "\<exists>i. load_event_step (Admitted i) s \<noteq> None \<or> (\<forall>r. load_event_step (Ended i r) s \<noteq> None)"
proof (cases "Fetching \<in> set (ls_tasks s)")
  case True
  then show ?thesis by (auto simp: in_set_conv_nth)
next
  case False
  then have "Waiting \<in> set (ls_tasks s)" "in_flight s = 0"
    using assms(3) by (auto simp: gathered_def in_flight_def count_list_0_iff split: if_splits)
  then show ?thesis using assms(1,2) by (auto simp: in_set_conv_nth load_inv_def)
qed

section \<open>The counter\<close>

lemma gathered_fetched: "gathered s = Some results \<Longrightarrow> results = fetched (ls_tasks s)"
proof -
  have "map (\<lambda>t. case t of Fetched r \<Rightarrow> r | _ \<Rightarrow> []) ts = fetched ts" if "\<forall>t \<in> set ts. t \<noteq> Waiting \<and> t \<noteq> Fetching" for ts
    using that by (induction ts) (auto simp: fetched_def split: fetch_task.splits)
  then show "gathered s = Some results \<Longrightarrow> results = fetched (ls_tasks s)" by (auto simp: gathered_def split: if_splits)
qed

lemma counted_sum:
  "wf_dict d \<Longrightarrow> sum_list (map snd (filter (\<lambda>(k, _). P k) (counted r d)))
     = sum_list (map snd (filter (\<lambda>(k, _). P k) d)) + (if P r then 1 else (0::int))"
proof (induction d)
  case (Cons kv d)
  obtain k v where kv: "kv = (k, v)" by (cases kv)
  then show ?case using Cons by (cases "k = r") (auto simp: counted_def dict_get_or_def wf_dict_def)
qed (simp add: counted_def dict_get_or_def)

lemma counter_run:
  "wf_dict d \<Longrightarrow> wf_dict (fold counted rs d)
    \<and> dict_get_or (fold counted rs d) r 0 = dict_get_or d r 0 + int (count_list rs r)
    \<and> sum_list (map snd (filter (\<lambda>(k, _). P k) (fold counted rs d)))
        = sum_list (map snd (filter (\<lambda>(k, _). P k) d)) + int (length (filter P rs))"
proof (induction rs arbitrary: d)
  case (Cons x rs)
  have "wf_dict (counted x d)" using Cons.prems by (simp add: counted_def)
  from Cons.IH [OF this] show ?case using counted_sum [OF Cons.prems, of P x] by (simp add: counted_def dict_get_or_def)
qed simp

text \<open>The text of an outcome shows a status of the 200s. A status has three digits, and the name of a class no colon.\<close>

fun plausible :: "fetch_outcome \<Rightarrow> bool" where
  "plausible (Inr status_code) \<longleftrightarrow> 100 \<le> status_code \<and> status_code < 1000"
| "plausible (Inl type_name) \<longleftrightarrow> CHR '':'' \<notin> set type_name"

fun succeeded :: "fetch_outcome \<Rightarrow> bool" where
  "succeeded (Inr status_code) \<longleftrightarrow> 200 \<le> status_code \<and> status_code < 300"
| "succeeded (Inl _) \<longleftrightarrow> False"

lemma digit_two: "d < 10 \<Longrightarrow> digit_char d = CHR ''2'' \<longleftrightarrow> d = 2"
proof -
  have "digit_char 2 = CHR ''2''" "digit_value CHR ''2'' = 2" by code_simp+
  then show "d < 10 \<Longrightarrow> digit_char d = CHR ''2'' \<longleftrightarrow> d = 2" using digit_char_props(2) [of d] by metis
qed

lemma three_digits:
  assumes "100 \<le> n" "n < 1000"
  shows "nat_digits n = [digit_char (n div 100), digit_char (n div 10 mod 10), digit_char (n mod 10)]"
proof -
  have "n div 10 div 10 = n div 100" by (simp flip: div_mult2_eq)
  moreover have "10 \<le> n" "10 \<le> n div 10" "n div 100 < 10" using assms by auto
  ultimately show ?thesis
    by (simp add: nat_digits.simps [of n] nat_digits.simps [of "n div 10"] nat_digits.simps [of "n div 100"])
qed

lemma success_text: "plausible r \<Longrightarrow> starts_with ''status:2'' (fetch_result r) \<longleftrightarrow> succeeded r"
proof (cases r)
  case (Inl name)
  assume "plausible r"
  then show ?thesis using Inl by (auto simp: starts_with_iff fetch_result_def)
next
  case (Inr status_code)
  assume "plausible r"
  then have n: "100 \<le> nat status_code" "nat status_code < 1000" using Inr by auto
  then have "str_int status_code = [digit_char (nat status_code div 100), digit_char (nat status_code div 10 mod 10), digit_char (nat status_code mod 10)]"
    using three_digits [OF n] n(1) by (auto simp: str_int_def str_nat_def)
  moreover have "n div 100 = 2 \<longleftrightarrow> 200 \<le> n \<and> n < 300" for n :: nat by linarith
  moreover have "starts_with ''status:2'' (''status:'' @ c # cs) \<longleftrightarrow> c = CHR ''2''" for c cs by (simp add: starts_with_def)
  moreover have "digit_char (nat status_code div 100) = CHR ''2'' \<longleftrightarrow> nat status_code div 100 = 2"
    using n by (intro digit_two) linarith
  ultimately have "starts_with ''status:2'' (fetch_result r) \<longleftrightarrow> 200 \<le> nat status_code \<and> nat status_code < 300"
    using Inr by (simp only: fetch_result_def sum.case)
  then show ?thesis using Inr by auto
qed

section \<open>Properties\<close>

text \<open>C39. A load test keeps its bounds and counts right. For every configuration the command line gives, and however the
  loop takes the tasks: at most \<open>concurrency\<close> requests are in flight, the run is over after two events per request
  and not before, and until then it can go on (so it ends, when every request does). At the end the counter has one
  count per request, for every text as many as outcomes with that text, and the successes it reports are the answers
  with a status of the 200s.\<close>

theorem load_test_counts:
  assumes "parse_load_args to_float given = Inr config" "load_events es (load_start config) = Some s"
    and "\<forall>r \<in> set (ended es). plausible r"
  shows "int (in_flight s) \<le> lc_concurrency config \<and> length es \<le> 2 * nat (lc_requests config)
    \<and> (length es < 2 * nat (lc_requests config) \<longleftrightarrow> run_load_test config es = None)
    \<and> (run_load_test config es = None \<longrightarrow> (\<exists>i. load_event_step (Admitted i) s \<noteq> None \<or> (\<forall>r. load_event_step (Ended i r) s \<noteq> None)))
    \<and> (\<forall>counts. run_load_test config es = Some counts \<longrightarrow>
         sum_list (map snd counts) = lc_requests config
         \<and> (\<forall>result. dict_get_or counts result 0 = int (length (filter (\<lambda>r. fetch_result r = result) (ended es))))
         \<and> success_count counts = int (length (filter succeeded (ended es))))"
proof -
  note start = load_start_inv [OF assms(1)]
  note run = load_events_inv [OF assms(2) start [THEN conjunct1]]
  have some: "run_load_test config es = map_option result_counter (gathered s)" using assms(2) by (simp add: run_load_test_def)
  have "run_load_test config es = None \<longleftrightarrow> events_left s \<noteq> 0" by (simp add: some gathered_iff)
  moreover have "sum_list (map snd counts) = lc_requests config
       \<and> (\<forall>result. dict_get_or counts result 0 = int (length (filter (\<lambda>r. fetch_result r = result) (ended es))))
       \<and> success_count counts = int (length (filter succeeded (ended es)))" if c: "run_load_test config es = Some counts" for counts
  proof -
    obtain results where g: "gathered s = Some results" and counts: "counts = fold counted results []"
      using c by (auto simp: some result_counter_def)
    have m: "mset results = mset (map fetch_result (ended es))"
      using run start gathered_fetched [OF g] by simp
    have l: "length results = nat (lc_requests config)" using g run by (auto simp: gathered_def load_inv_def split: if_splits)
    have f: "length (filter P results) = length (filter (\<lambda>r. P (fetch_result r)) (ended es))" for P
    proof -
      have "mset (filter P results) = mset (filter P (map fetch_result (ended es)))" using m by (simp only: mset_filter)
      then have "length (filter P results) = length (filter P (map fetch_result (ended es)))" by (rule mset_eq_length)
      then show ?thesis by (simp add: filter_map comp_def)
    qed
    have "filter (\<lambda>r. starts_with ''status:2'' (fetch_result r)) (ended es) = filter succeeded (ended es)"
      using assms(3) success_text by (intro filter_cong) auto
    moreover have "count_list results result = length (filter (\<lambda>r. fetch_result r = result) (ended es))" for result
    proof -
      have "(\<lambda>x. x = result) = (=) result" by auto
      then show ?thesis using f [of "\<lambda>x. x = result"] by (simp add: count_list_eq_length_filter)
    qed
    ultimately show ?thesis
      using counter_run [of "[]" results, of _ "\<lambda>_. True"] counter_run [of "[]" results, of _ "starts_with ''status:2''"] l start f
      by (simp add: counts success_count_def dict_get_or_def)
  qed
  moreover have "int (in_flight s) \<le> lc_concurrency config" using run by (auto simp: load_inv_def)
  moreover have "length es + events_left s = 2 * nat (lc_requests config)" using run start by simp
  moreover have "run_load_test config es = None \<longrightarrow> (\<exists>i. load_event_step (Admitted i) s \<noteq> None \<or> (\<forall>r. load_event_step (Ended i r) s \<noteq> None))"
    using load_goes_on [of config s] run start by (simp add: some)
  ultimately show ?thesis by (intro conjI) (linarith | blast)+
qed

theorem load_test_counts_witness:
  "run_load_test \<lparr>lc_url = ''u'', lc_host = ''h'', lc_requests = 3, lc_concurrency = 2, lc_timeout_seconds = 60\<rparr>
     [Admitted 2, Admitted 0, Ended 0 (Inr 200), Admitted 1, Ended 1 (Inl ''ReadTimeout''), Ended 2 (Inr 204)] \<noteq> None"
proof -
  let ?given = "[(''url'', ''u''), (''host'', ''h''), (''requests'', ''3''), (''concurrency'', ''2'')]"
  let ?c = "\<lparr>lc_url = ''u'', lc_host = ''h'', lc_requests = 3, lc_concurrency = 2, lc_timeout_seconds = 60\<rparr>"
  let ?es = "[Admitted 2, Admitted 0, Ended 0 (Inr 200), Admitted 1, Ended 1 (Inl ''ReadTimeout''), Ended 2 (Inr 204)]"
  have p: "py_int ''3'' = Some 3" "py_int ''2'' = Some 2" by code_simp+
  have 1: "parse_load_args (\<lambda>_. Inl OSError) ?given = Inr ?c"
    by (simp add: parse_load_args_def int_option_def float_option_def dict_get_or_def p)
  have 2: "load_events ?es (load_start ?c) = Some \<lparr>ls_permits = 2, ls_tasks = [Fetched ''status:200'', Fetched ''ReadTimeout'', Fetched ''status:204'']\<rparr>"
    by code_simp
  show ?thesis using load_test_counts [OF 1 2] by (simp add: ended_def)
qed

end
