(* ===== verification/ProxyServer.thy ===== *)
theory ProxyServer
  imports ProxyMetrics
begin

text \<open>
  The life of a \<open>ProxyServer\<close>: its start, the two background tasks, and its stop. Only what its requests add to the
  counters is seen of them here; serving them is in \<open>Proxy\<close>. An event is a recorded request, a turn of a task, or
  Redis or the event bus going away or coming back.
\<close>

section \<open>The server and its tasks\<close>

text \<open>An exception ends a task and is kept for who awaits it.\<close>

datatype background_task = NoTask | Running | Died py_exn | Cancelled

record proxy_server =
  sv_has_redis :: bool
  sv_has_bus :: bool
  sv_listening :: bool
  sv_metric_flush_task :: background_task
  sv_activity_task :: background_task
  sv_metrics :: metrics
  sv_traffic :: traffic
  sv_redis :: metric_redis
  sv_bus_up :: bool
  sv_published :: "traffic_snapshot list"

definition new_server :: "bool \<Rightarrow> bool \<Rightarrow> metric_redis \<Rightarrow> proxy_server" where
  "new_server has_redis has_bus r = \<lparr>sv_has_redis = has_redis, sv_has_bus = has_bus, sv_listening = False,
     sv_metric_flush_task = NoTask, sv_activity_task = NoTask, sv_metrics = no_metrics, sv_traffic = no_traffic,
     sv_redis = r, sv_bus_up = True, sv_published = []\<rparr>"

definition server_start :: "(proxy_server, unit) prog" where
  "server_start = mod_s (\<lambda>s. s\<lparr>sv_listening := True,
     sv_activity_task := (if sv_has_bus s then Running else sv_activity_task s),
     sv_metric_flush_task := (if sv_has_redis s then Running else sv_metric_flush_task s)\<rparr>)"

text \<open>What \<open>_record_proxy_result\<close> adds to the counters.\<close>

definition record_result :: "int \<Rightarrow> string option \<Rightarrow> int \<Rightarrow> string option \<Rightarrow> pyfloat \<Rightarrow> (proxy_server, unit) prog" where
  "record_result now svc st reason duration = bind_p (get_s sv_has_redis) (\<lambda>has_redis. when_p has_redis (mod_s (\<lambda>s.
     s\<lparr>sv_metrics := metrics_record now svc st reason duration (sv_metrics s),
       sv_traffic := traffic_record svc st reason (sv_traffic s)\<rparr>)))"

definition flush_proxy_metrics :: "(proxy_server, unit) prog" where
  "flush_proxy_metrics s = (if \<not> sv_has_redis s then (Inr (), s)
     else (case metrics_flush (sv_metrics s, sv_redis s) of (res, m, r) \<Rightarrow> (res, s\<lparr>sv_metrics := m, sv_redis := r\<rparr>)))"

text \<open>The snapshot resets the counts before it is published.\<close>

definition publish_activity :: "(proxy_server, unit) prog" where
  "publish_activity s = (if \<not> sv_has_bus s then (Inr (), s)
     else (case traffic_snapshot (sv_traffic s) of (snapshot, t) \<Rightarrow>
       if sn_total snapshot = 0 then (Inr (), s\<lparr>sv_traffic := t\<rparr>)
       else if sv_bus_up s then (Inr (), s\<lparr>sv_traffic := t, sv_published := sv_published s @ [snapshot]\<rparr>)
       else (Inl OSError, s\<lparr>sv_traffic := t\<rparr>)))"

text \<open>One turn of \<open>_metric_flush_loop\<close> and of \<open>_traffic_activity_loop\<close>, after their sleep.\<close>

definition metric_flush_turn :: "proxy_server \<Rightarrow> proxy_server" where
  "metric_flush_turn s = (if sv_metric_flush_task s = Running
     then (case flush_proxy_metrics s of (Inr _, s') \<Rightarrow> s' | (Inl e, s') \<Rightarrow> s'\<lparr>sv_metric_flush_task := Died e\<rparr>) else s)"

definition activity_turn :: "proxy_server \<Rightarrow> proxy_server" where
  "activity_turn s = (if sv_activity_task s = Running
     then (case publish_activity s of (Inr _, s') \<Rightarrow> s' | (Inl e, s') \<Rightarrow> s'\<lparr>sv_activity_task := Died e\<rparr>) else s)"

text \<open>\<open>task.cancel()\<close> and \<open>await task\<close> under \<open>suppress(CancelledError)\<close>: a task that died raises its exception.\<close>

definition end_task :: "background_task \<Rightarrow> ('s, background_task) prog" where
  "end_task t = (case t of NoTask \<Rightarrow> ret NoTask | Died e \<Rightarrow> raise e | _ \<Rightarrow> ret Cancelled)"

definition server_stop :: "(proxy_server, unit) prog" where
  "server_stop =
     bind_p (get_s sv_metric_flush_task) (\<lambda>t. bind_p (end_task t) (\<lambda>t. bind_p (mod_s (\<lambda>s. s\<lparr>sv_metric_flush_task := t\<rparr>)) (\<lambda>_.
     bind_p (get_s sv_activity_task) (\<lambda>t. bind_p (end_task t) (\<lambda>t. bind_p (mod_s (\<lambda>s. s\<lparr>sv_activity_task := t\<rparr>)) (\<lambda>_.
     bind_p flush_proxy_metrics (\<lambda>_.
     mod_s (\<lambda>s. s\<lparr>sv_listening := False\<rparr>))))))))"

section \<open>Runs\<close>

datatype server_event = Recorded int "string option" int "string option" pyfloat | FlushTurn | ActivityTurn | RedisUp bool | BusUp bool

fun server_event_step :: "server_event \<Rightarrow> proxy_server \<Rightarrow> proxy_server" where
  "server_event_step (Recorded now svc st reason duration) s = snd (record_result now svc st reason duration s)"
| "server_event_step FlushTurn s = metric_flush_turn s"
| "server_event_step ActivityTurn s = activity_turn s"
| "server_event_step (RedisUp b) s = s\<lparr>sv_redis := (sv_redis s)\<lparr>mr_reachable := b\<rparr>\<rparr>"
| "server_event_step (BusUp b) s = s\<lparr>sv_bus_up := b\<rparr>"

definition started :: "bool \<Rightarrow> metric_redis \<Rightarrow> proxy_server" where
  "started has_bus r = snd (server_start (new_server True has_bus r))"

definition server_run :: "bool \<Rightarrow> metric_redis \<Rightarrow> server_event list \<Rightarrow> proxy_server" where
  "server_run has_bus r es = fold server_event_step es (started has_bus r)"

text \<open>The part of an event that concerns the counters in Redis.\<close>

fun metric_ops :: "server_event \<Rightarrow> metric_op list" where
  "metric_ops (Recorded now svc st reason duration) = [RecordRequest now svc st reason duration]"
| "metric_ops FlushTurn = [FlushMetrics]"
| "metric_ops _ = []"

definition undisturbed :: "server_event list \<Rightarrow> bool" where
  "undisturbed es \<longleftrightarrow> RedisUp False \<notin> set es \<and> BusUp False \<notin> set es"

text \<open>An undisturbed server: its tasks run, and its counters are those of the steps of \<open>ProxyMetrics\<close>.\<close>

definition sound_server :: "metrics \<times> metric_redis \<Rightarrow> proxy_server \<Rightarrow> bool" where
  "sound_server mr s \<longleftrightarrow> sv_has_redis s \<and> sv_listening s \<and> sv_metric_flush_task s = Running \<and> sv_activity_task s \<in> {NoTask, Running}
     \<and> sv_bus_up s \<and> (sv_metrics s, sv_redis s) = mr \<and> mr_reachable (sv_redis s)"

lemma metrics_flush_returns: "mr_reachable r \<Longrightarrow> fst (metrics_flush (m, r)) = Inr ()"
  by (simp add: metrics_flush_def)

lemma sound_server_step:
  assumes "sound_server mr s" "undisturbed [e]"
  shows "sound_server (fold metric_step (metric_ops e) mr) (server_event_step e s)"
proof (cases e)
  case (Recorded now svc st reason duration)
  then show ?thesis using assms(1)
    by (auto simp: sound_server_def record_result_def bind_p_def get_s_def when_p_def mod_s_def metric_step_def)
next
  case FlushTurn
  obtain res m r where f: "metrics_flush (sv_metrics s, sv_redis s) = (res, m, r)" by (metis prod_cases3)
  moreover have "res = Inr ()" using metrics_flush_returns [of "sv_redis s" "sv_metrics s"] f assms(1) by (simp add: sound_server_def)
  moreover have "mr_reachable r"
    using f assms(1) push_reachable by (auto simp: metrics_flush_def sound_server_def split: if_splits)
  ultimately show ?thesis using assms(1) FlushTurn
    by (auto simp: sound_server_def metric_flush_turn_def flush_proxy_metrics_def metric_step_def)
next
  case ActivityTurn
  then show ?thesis using assms(1)
    by (auto simp: sound_server_def activity_turn_def publish_activity_def split: prod.splits)
next
  case (RedisUp b)
  then show ?thesis using assms by (auto simp: sound_server_def undisturbed_def)
next
  case (BusUp b)
  then show ?thesis using assms by (auto simp: sound_server_def undisturbed_def)
qed

lemma sound_server_run:
  assumes "mr_reachable r" "undisturbed es"
  shows "sound_server (fold metric_step (concat (map metric_ops es)) (no_metrics, r)) (server_run has_bus r es)"
  using assms(2)
proof (induction es rule: rev_induct)
  case Nil
  then show ?case using assms(1)
    by (simp add: sound_server_def server_run_def started_def server_start_def mod_s_def new_server_def)
next
  case (snoc e es)
  then have "undisturbed es" "undisturbed [e]" by (auto simp: undisturbed_def)
  then show ?case using snoc.IH sound_server_step by (simp add: server_run_def)
qed

text \<open>No event ends the listening, and a dead task stays dead.\<close>

lemmas server_steps = record_result_def bind_p_def get_s_def when_p_def mod_s_def ret_def metric_flush_turn_def flush_proxy_metrics_def
  activity_turn_def publish_activity_def

lemma step_listening: "sv_listening (server_event_step e s) = sv_listening s \<and> sv_has_redis (server_event_step e s) = sv_has_redis s"
  by (cases e) (auto simp: server_steps split: prod.splits sum.splits)

lemma run_listening: "sv_listening (fold server_event_step es s) = sv_listening s \<and> sv_has_redis (fold server_event_step es s) = sv_has_redis s"
  by (induction es arbitrary: s) (simp_all add: step_listening)

lemma dead_stays: "sv_metric_flush_task s = Died e \<Longrightarrow> sv_metric_flush_task (fold server_event_step es s) = Died e"
proof (induction es arbitrary: s)
  case (Cons x es)
  have "sv_metric_flush_task (server_event_step x s) = Died e"
    using Cons.prems by (cases x) (auto simp: server_steps split: prod.splits)
  then show ?case using Cons.IH [of "server_event_step x s"] by simp
qed simp

lemma stop_dead: "sv_metric_flush_task s = Died e \<Longrightarrow> server_stop s = (Inl e, s)"
  by (simp add: server_stop_def bind_p_def get_s_def end_task_def raise_def)

lemma started_fields: "sv_has_redis (started has_bus r)" "sv_listening (started has_bus r)"
  by (simp_all add: started_def server_start_def mod_s_def new_server_def)

text \<open>The stop of a sound server.\<close>

lemma stop_sound:
  assumes "sound_server (m, r) s"
  shows "\<exists>s'. server_stop s = (Inr (), s') \<and> \<not> sv_listening s' \<and> sv_metric_flush_task s' = Cancelled \<and> sv_activity_task s' \<noteq> Running
    \<and> (sv_metrics s', sv_redis s') = metric_step FlushMetrics (m, r)"
proof -
  obtain res m' r' where f: "metrics_flush (m, r) = (res, m', r')" by (metis prod_cases3)
  have "mr_reachable r" using assms by (auto simp: sound_server_def)
  then have "res = Inr ()" using metrics_flush_returns [of r m] f by simp
  then show ?thesis using assms f
    by (auto simp: sound_server_def server_stop_def bind_p_def get_s_def mod_s_def ret_def end_task_def flush_proxy_metrics_def metric_step_def)
qed

lemma flush_counts_nothing: "\<not> counts_for g FlushMetrics"
  by (cases g) simp_all

section \<open>Properties\<close>



end
